(* ===== verification/Prelude.thy ===== *)
theory Prelude
  imports Main "HOL-Library.List_Lexorder" "HOL-Library.Char_ord" "HOL-Library.Multiset"
begin

text \<open>
  Shared vocabulary of the development: the collections the component proofs use, Python's
  string operations, optional dictionary entries, and generic list facts.

  A Python \<open>str\<close> is a list of \<^typ>\<open>char\<close>, read as code points below 256 (the Latin-1 range):
  case conversion, whitespace and line boundaries follow Python on that range. Python integers
  are \<^typ>\<open>int\<close>, counts and lengths \<^typ>\<open>nat\<close>. A dictionary entry that may be absent is an
  \<^typ>\<open>'a option\<close>, and \<open>d.get(k, v)\<close> is \<open>get_default v\<close>.
\<close>

named_theorems domain_simps "definitions of the domain vocabulary"
named_theorems policy_simps "definitions of the policy engine"
named_theorems route_simps "the routing functions, unfolded"
named_theorems frame_simps "what an operation leaves unchanged"

type_synonym pystr = string

subsection \<open>Optional entries and results\<close>

definition get_default :: "'a \<Rightarrow> 'a option \<Rightarrow> 'a" where
  "get_default d x = (case x of None \<Rightarrow> d | Some v \<Rightarrow> v)"

lemma get_default_simps [simp]:
  "get_default d None = d"
  "get_default d (Some v) = v"
  by (simp_all add: get_default_def)

text \<open>\<open>x or y\<close> on optional strings: an absent or empty string is falsy.\<close>

definition truthy_str :: "pystr option \<Rightarrow> bool" where
  "truthy_str x = (case x of None \<Rightarrow> False | Some s \<Rightarrow> s \<noteq> [])"

definition str_or :: "pystr option \<Rightarrow> pystr option \<Rightarrow> pystr option" where
  "str_or x y = (if truthy_str x then x else y)"

lemma truthy_str_simps [simp]:
  "\<not> truthy_str None"
  "truthy_str (Some s) \<longleftrightarrow> s \<noteq> []"
  by (simp_all add: truthy_str_def)

text \<open>\<open>{**old, **new}\<close> for one key: the new entry wins where there is one.\<close>

definition override :: "'a option \<Rightarrow> 'a option \<Rightarrow> 'a option" where
  "override old new = (case new of None \<Rightarrow> old | Some v \<Rightarrow> Some v)"

lemma override_simps [simp]:
  "override old None = old"
  "override old (Some v) = Some v"
  by (simp_all add: override_def)

lemma override_assoc: "override (override a b) c = override a (override b c)"
  by (cases b; cases c) simp_all

lemma override_None_left [simp]: "override None x = x"
  by (cases x) simp_all

lemma override_eq_None [simp]: "override a b = None \<longleftrightarrow> a = None \<and> b = None"
  by (cases b) auto

subsection \<open>Characters\<close>

definition in_ranges :: "(nat \<times> nat) list \<Rightarrow> char \<Rightarrow> bool" where
  "in_ranges rs c = list_ex (\<lambda>(lo, hi). lo \<le> of_char c \<and> of_char c \<le> hi) rs"

text \<open>\<open>str.isspace\<close>, \<open>\\w\<close> and \<open>str.isdigit\<close> (decimal digits) on the Latin-1 range.\<close>

definition is_space :: "char \<Rightarrow> bool" where
  "is_space = in_ranges [(9, 13), (28, 32), (133, 133), (160, 160)]"

definition is_digit :: "char \<Rightarrow> bool" where
  "is_digit = in_ranges [(48, 57)]"

definition is_word :: "char \<Rightarrow> bool" where
  "is_word = in_ranges [(48, 57), (65, 90), (95, 95), (97, 122), (170, 170), (178, 179),
     (181, 181), (185, 186), (188, 190), (192, 214), (216, 246), (248, 255)]"

definition is_line_break :: "char \<Rightarrow> bool" where
  "is_line_break = in_ranges [(10, 13), (28, 30), (133, 133)]"

definition lower_char :: "char \<Rightarrow> char" where
  "lower_char c = (if in_ranges [(65, 90), (192, 214), (216, 222)] c
     then char_of (of_char c + 32 :: nat) else c)"

definition upper_char :: "char \<Rightarrow> char" where
  "upper_char c = (if in_ranges [(97, 122), (224, 246), (248, 254)] c
     then char_of (of_char c - 32 :: nat) else c)"

subsection \<open>String methods\<close>

definition str_lower :: "pystr \<Rightarrow> pystr" where
  "str_lower = map lower_char"

definition str_upper :: "pystr \<Rightarrow> pystr" where
  "str_upper = map upper_char"

definition str_lstrip :: "pystr \<Rightarrow> pystr" where
  "str_lstrip = dropWhile is_space"

definition str_rstrip :: "pystr \<Rightarrow> pystr" where
  "str_rstrip s = rev (dropWhile is_space (rev s))"

definition str_strip :: "pystr \<Rightarrow> pystr" where
  "str_strip s = str_rstrip (str_lstrip s)"

definition str_rstrip_chars :: "pystr \<Rightarrow> pystr \<Rightarrow> pystr" where
  "str_rstrip_chars cs s = rev (dropWhile (\<lambda>c. c \<in> set cs) (rev s))"

definition starts_with :: "pystr \<Rightarrow> pystr \<Rightarrow> bool" where
  "starts_with p s \<longleftrightarrow> take (length p) s = p"

text \<open>\<open>str.find\<close>: the first position at which \<open>pat\<close> occurs.\<close>

fun find_sub :: "pystr \<Rightarrow> pystr \<Rightarrow> nat option" where
  "find_sub pat [] = (if pat = [] then Some 0 else None)"
| "find_sub pat (c # cs) =
     (if starts_with pat (c # cs) then Some 0 else map_option Suc (find_sub pat cs))"

definition contains_sub :: "pystr \<Rightarrow> pystr \<Rightarrow> bool" where
  "contains_sub pat s \<longleftrightarrow> find_sub pat s \<noteq> None"

definition str_partition :: "pystr \<Rightarrow> pystr \<Rightarrow> pystr \<times> pystr \<times> pystr" where
  "str_partition sep s = (case find_sub sep s of
       None \<Rightarrow> (s, [], [])
     | Some i \<Rightarrow> (take i s, sep, drop (i + length sep) s))"

text \<open>\<open>s.replace(old, new, 1)\<close>: the first occurrence only.\<close>

definition str_replace_first :: "pystr \<Rightarrow> pystr \<Rightarrow> pystr \<Rightarrow> pystr" where
  "str_replace_first old new s = (case find_sub old s of
       None \<Rightarrow> s
     | Some i \<Rightarrow> take i s @ new @ drop (i + length old) s)"

text \<open>
  \<open>s.count(pat)\<close> for a non-empty pattern counts non-overlapping occurrences from the left;
  for the empty pattern Python counts the positions, \<open>len(s) + 1\<close>. \<open>skip\<close> is what is left of
  the occurrence being skipped.
\<close>

fun count_from :: "nat \<Rightarrow> pystr \<Rightarrow> pystr \<Rightarrow> nat" where
  "count_from skip pat [] = 0"
| "count_from (Suc skip) pat (c # cs) = count_from skip pat cs"
| "count_from 0 pat (c # cs) =
     (if starts_with pat (c # cs) then Suc (count_from (length pat - 1) pat cs)
      else count_from 0 pat cs)"

definition str_count :: "pystr \<Rightarrow> pystr \<Rightarrow> nat" where
  "str_count pat s = (if pat = [] then length s + 1 else count_from 0 pat s)"

definition str_replace_char :: "char \<Rightarrow> char \<Rightarrow> pystr \<Rightarrow> pystr" where
  "str_replace_char a b = map (\<lambda>c. if c = a then b else c)"

text \<open>\<open>s.split(c)\<close> for a one-character separator: always at least one part.\<close>

fun split_char :: "char \<Rightarrow> pystr \<Rightarrow> pystr list" where
  "split_char sep [] = [[]]"
| "split_char sep (c # cs) =
     (if c = sep then [] # split_char sep cs
      else (case split_char sep cs of [] \<Rightarrow> [[c]] | p # ps \<Rightarrow> (c # p) # ps))"

text \<open>
  \<open>s.splitlines()\<close>: \<open>acc\<close> holds the current line reversed, and \<open>cr\<close> says that the last
  character was a carriage return, whose following line feed belongs to the same boundary.
\<close>

fun splitlines_from :: "bool \<Rightarrow> pystr \<Rightarrow> pystr \<Rightarrow> pystr list" where
  "splitlines_from cr acc [] = (if acc = [] then [] else [rev acc])"
| "splitlines_from cr acc (c # cs) =
     (if cr \<and> c = CHR 0x0A then splitlines_from False acc cs
      else if is_line_break c then rev acc # splitlines_from (c = CHR 0x0D) [] cs
      else splitlines_from False (c # acc) cs)"

definition str_splitlines :: "pystr \<Rightarrow> pystr list" where
  "str_splitlines = splitlines_from False []"

fun str_join :: "pystr \<Rightarrow> pystr list \<Rightarrow> pystr" where
  "str_join sep [] = []"
| "str_join sep [x] = x"
| "str_join sep (x # y # ys) = x @ sep @ str_join sep (y # ys)"

text \<open>Decimal rendering of integers, as \<open>str(n)\<close> and f-strings print them.\<close>

fun show_nat :: "nat \<Rightarrow> pystr" where
  "show_nat n = (if n < 10 then [char_of (48 + n)]
     else show_nat (n div 10) @ [char_of (48 + n mod 10)])"

declare show_nat.simps [simp del]

text \<open>The number a string of digits stands for, with \<open>n\<close> read so far.\<close>

fun nat_of_digits :: "nat \<Rightarrow> pystr \<Rightarrow> nat" where
  "nat_of_digits n [] = n"
| "nat_of_digits n (c # cs) = nat_of_digits (10 * n + (of_char c - 48)) cs"

definition show_int :: "int \<Rightarrow> pystr" where
  "show_int i = (if i < 0 then ''-'' @ show_nat (nat (- i)) else show_nat (nat i))"

section \<open>Facts about the string methods\<close>

lemma starts_with_iff: "starts_with p s \<longleftrightarrow> (\<exists>t. s = p @ t)"
  by (metis append_eq_conv_conj append_take_drop_id starts_with_def)

lemma starts_with_append [simp]: "starts_with p (p @ t)"
  by (simp add: starts_with_def)

lemma find_sub_append: "find_sub pat (a @ pat @ b) \<noteq> None"
proof (induction a)
  case Nil
  have "starts_with pat (pat @ b)" by simp
  then show ?case by (cases "pat @ b") (auto simp del: starts_with_append)
qed auto

lemma find_sub_split:
  "find_sub pat s = Some i \<Longrightarrow> s = take i s @ pat @ drop (i + length pat) s"
proof (induction s arbitrary: i)
  case Nil
  then show ?case by (simp split: if_splits)
next
  case (Cons c cs)
  then show ?case by (auto simp: starts_with_iff split: if_splits)
qed

lemma contains_sub_iff: "contains_sub pat s \<longleftrightarrow> (\<exists>a b. s = a @ pat @ b)"
  unfolding contains_sub_def by (metis find_sub_append find_sub_split not_None_eq)

lemma str_replace_first_split:
  assumes "contains_sub old s"
  obtains pre post where "s = pre @ old @ post" and "str_replace_first old new s = pre @ new @ post"
    and "find_sub old s = Some (length pre)"
proof -
  from assms obtain i where i: "find_sub old s = Some i" by (auto simp: contains_sub_def)
  from find_sub_split [OF i] have "s = take i s @ old @ drop (i + length old) s" .
  moreover have "length (take i s) = i" using i
  proof (induction s arbitrary: i)
    case (Cons c cs)
    then show ?case by (auto split: if_splits)
  qed (simp split: if_splits)
  ultimately show ?thesis using i that by (simp add: str_replace_first_def)
qed

lemma count_from_zero_iff: "pat \<noteq> [] \<Longrightarrow> count_from 0 pat s = 0 \<longleftrightarrow> \<not> contains_sub pat s"
  by (induction s) (auto simp: contains_sub_def)

lemma str_count_zero_iff: "str_count pat s = 0 \<longleftrightarrow> \<not> contains_sub pat s"
proof (cases "pat = []")
  case True
  then have "contains_sub pat s" by (cases s) (simp_all add: contains_sub_def starts_with_def)
  with True show ?thesis by (simp add: str_count_def)
qed (simp add: str_count_def count_from_zero_iff)

lemma split_char_not_Nil [simp]: "split_char c s \<noteq> []"
  by (cases s) (auto split: list.splits)

lemma split_char_no_sep: "sep \<notin> set s \<Longrightarrow> split_char sep s = [s]"
  by (induction s) auto

lemma split_char_append:
  "sep \<notin> set t \<Longrightarrow> \<exists>x xs. split_char sep (s @ sep # t) = x # xs @ [t]"
proof (induction s)
  case (Cons c s)
  then show ?case by (cases "c = sep") (auto intro: exI [of _ "_ # _"])
qed (simp add: split_char_no_sep)

lemma last_split_char_append: "sep \<notin> set t \<Longrightarrow> last (split_char sep (s @ sep # t)) = t"
  using split_char_append [of sep t s] by auto

lemma split_char_cons_sep: "sep \<notin> set x \<Longrightarrow> split_char sep (x @ sep # ys) = x # split_char sep ys"
  by (induction x) auto

lemma split_char_join:
  "xs \<noteq> [] \<Longrightarrow> list_all (\<lambda>x. sep \<notin> set x) xs \<Longrightarrow> split_char sep (str_join [sep] xs) = xs"
  by (induction "[sep]" xs rule: str_join.induct) (auto simp: split_char_no_sep split_char_cons_sep)

lemma str_join_append1: "xs \<noteq> [] \<Longrightarrow> str_join sep (xs @ [y]) = str_join sep xs @ sep @ y"
  by (induction sep xs rule: str_join.induct) auto

lemma split_char_suffix:
  "sep \<notin> set t \<Longrightarrow>
     split_char sep (s @ t) = butlast (split_char sep s) @ [last (split_char sep s) @ t]"
proof (induction s)
  case (Cons c s)
  then show ?case by (cases "split_char sep s") auto
qed (simp add: split_char_no_sep)

lemma last_split_char_suffix:
  "sep \<notin> set t \<Longrightarrow> last (split_char sep (s @ t)) = last (split_char sep s) @ t"
  by (simp add: split_char_suffix)

end
