(* ===== verification/Domain.thy ===== *)
theory Domain
  imports Prelude
begin

text \<open>
  Domain vocabulary (\<open>core/domain.py\<close>, \<open>core/errors.py\<close>): task states, risk levels, policy
  actions, event types, the node table of the workflow, and the typed errors. Risk levels and
  policy actions are linearly ordered by the tables \<open>RISK_ORDER\<close> and \<open>_ACTION_STRENGTH\<close>, so
  \<open>max_risk\<close> is a maximum of the library.
\<close>

section \<open>Task states\<close>

datatype task_status =
    QUEUED | PLANNING | REPOSITORY_ANALYSIS | RISK_ASSESSMENT | IMPLEMENTING | TESTING
  | TEST_FAILED | DEBUGGING | TEST_PASSED | CI_RUNNING | CI_FAILED | CI_DEBUGGING | CI_PASSED
  | POLICY_CHECK | READY_FOR_REVIEW | HUMAN_APPROVED | PR_CREATED
  | COMPLETED | FAILED | CANCELLED | REJECTED | HUMAN_REVIEW_REQUIRED

definition TERMINAL_STATUSES :: "task_status list" where
  "TERMINAL_STATUSES = [COMPLETED, FAILED, CANCELLED, REJECTED, HUMAN_REVIEW_REQUIRED]"

definition WAITING_STATUSES :: "task_status list" where
  "WAITING_STATUSES = [READY_FOR_REVIEW, HUMAN_REVIEW_REQUIRED]"

definition is_terminal :: "task_status \<Rightarrow> bool" where
  "is_terminal s \<longleftrightarrow> s \<in> set TERMINAL_STATUSES"

fun status_value :: "task_status \<Rightarrow> pystr" where
  "status_value QUEUED = ''QUEUED''"
| "status_value PLANNING = ''PLANNING''"
| "status_value REPOSITORY_ANALYSIS = ''REPOSITORY_ANALYSIS''"
| "status_value RISK_ASSESSMENT = ''RISK_ASSESSMENT''"
| "status_value IMPLEMENTING = ''IMPLEMENTING''"
| "status_value TESTING = ''TESTING''"
| "status_value TEST_FAILED = ''TEST_FAILED''"
| "status_value DEBUGGING = ''DEBUGGING''"
| "status_value TEST_PASSED = ''TEST_PASSED''"
| "status_value CI_RUNNING = ''CI_RUNNING''"
| "status_value CI_FAILED = ''CI_FAILED''"
| "status_value CI_DEBUGGING = ''CI_DEBUGGING''"
| "status_value CI_PASSED = ''CI_PASSED''"
| "status_value POLICY_CHECK = ''POLICY_CHECK''"
| "status_value READY_FOR_REVIEW = ''READY_FOR_REVIEW''"
| "status_value HUMAN_APPROVED = ''HUMAN_APPROVED''"
| "status_value PR_CREATED = ''PR_CREATED''"
| "status_value COMPLETED = ''COMPLETED''"
| "status_value FAILED = ''FAILED''"
| "status_value CANCELLED = ''CANCELLED''"
| "status_value REJECTED = ''REJECTED''"
| "status_value HUMAN_REVIEW_REQUIRED = ''HUMAN_REVIEW_REQUIRED''"

section \<open>Risk levels and policy actions\<close>

datatype risk_level = LOW | MEDIUM | HIGH

fun RISK_ORDER :: "risk_level \<Rightarrow> nat" where
  "RISK_ORDER LOW = 0"
| "RISK_ORDER MEDIUM = 1"
| "RISK_ORDER HIGH = 2"

fun risk_value :: "risk_level \<Rightarrow> pystr" where
  "risk_value LOW = ''LOW''"
| "risk_value MEDIUM = ''MEDIUM''"
| "risk_value HIGH = ''HIGH''"

text \<open>\<open>RiskLevel(s)\<close>: \<open>None\<close> where the enum's constructor raises \<open>ValueError\<close>.\<close>

definition risk_of_value :: "pystr \<Rightarrow> risk_level option" where
  "risk_of_value s =
     (if s = ''LOW'' then Some LOW else if s = ''MEDIUM'' then Some MEDIUM
      else if s = ''HIGH'' then Some HIGH else None)"

text \<open>The loop of \<open>max_risk\<close>, with \<open>best\<close> as its accumulator; \<open>None\<close> levels are skipped.\<close>

fun max_risk_from :: "risk_level \<Rightarrow> risk_level option list \<Rightarrow> risk_level" where
  "max_risk_from best [] = best"
| "max_risk_from best (None # ls) = max_risk_from best ls"
| "max_risk_from best (Some l # ls) =
     max_risk_from (if RISK_ORDER l > RISK_ORDER best then l else best) ls"

definition max_risk :: "risk_level option list \<Rightarrow> risk_level" where
  "max_risk ls = max_risk_from LOW ls"

datatype policy_action = ALLOW | HUMAN_APPROVAL | BLOCK

fun ACTION_STRENGTH :: "policy_action \<Rightarrow> nat" where
  "ACTION_STRENGTH ALLOW = 0"
| "ACTION_STRENGTH HUMAN_APPROVAL = 1"
| "ACTION_STRENGTH BLOCK = 2"

fun action_value :: "policy_action \<Rightarrow> pystr" where
  "action_value ALLOW = ''ALLOW''"
| "action_value HUMAN_APPROVAL = ''HUMAN_APPROVAL''"
| "action_value BLOCK = ''BLOCK''"

section \<open>Events\<close>

datatype event_type =
    Ev_TASK_CREATED | Ev_TASK_CLAIMED | Ev_NODE_STARTED | Ev_NODE_COMPLETED | Ev_TOOL_CALLED
  | Ev_TOOL_COMPLETED | Ev_TOOL_FAILED | Ev_PLAN_CREATED | Ev_FILES_DISCOVERED
  | Ev_RISK_ASSESSED | Ev_WORKSPACE_CREATED | Ev_FILE_CHANGED | Ev_TESTS_STARTED
  | Ev_TESTS_PASSED | Ev_TEST_FAILED | Ev_DEBUG_ITERATION | Ev_NO_PROGRESS_DETECTED
  | Ev_POLICY_EVALUATED | Ev_POLICY_BLOCKED | Ev_COMMIT_CREATED | Ev_CI_STARTED
  | Ev_CI_COMPLETED | Ev_APPROVAL_REQUESTED | Ev_APPROVAL_GRANTED | Ev_APPROVAL_REJECTED
  | Ev_PR_CREATED | Ev_TASK_COMPLETED | Ev_TASK_FAILED | Ev_TASK_CANCELLED

section \<open>Workflow nodes and the status each one sets\<close>

datatype node =
    N_plan | N_repository_analysis | N_risk_assessment | N_implementation | N_test_generation
  | N_run_tests | N_debugging | N_security_policy | N_git_commit | N_ci_validation
  | N_ci_debugging | N_create_pr | N_human_review | N_halt

fun node_name :: "node \<Rightarrow> pystr" where
  "node_name N_plan = ''plan''"
| "node_name N_repository_analysis = ''repository_analysis''"
| "node_name N_risk_assessment = ''risk_assessment''"
| "node_name N_implementation = ''implementation''"
| "node_name N_test_generation = ''test_generation''"
| "node_name N_run_tests = ''run_tests''"
| "node_name N_debugging = ''debugging''"
| "node_name N_security_policy = ''security_policy''"
| "node_name N_git_commit = ''git_commit''"
| "node_name N_ci_validation = ''ci_validation''"
| "node_name N_ci_debugging = ''ci_debugging''"
| "node_name N_create_pr = ''create_pr''"
| "node_name N_human_review = ''human_review''"
| "node_name N_halt = ''halt''"

text \<open>\<open>NODE_STATUS\<close>; the table has no entry for \<open>halt\<close>.\<close>

fun NODE_STATUS :: "node \<Rightarrow> task_status option" where
  "NODE_STATUS N_plan = Some PLANNING"
| "NODE_STATUS N_repository_analysis = Some REPOSITORY_ANALYSIS"
| "NODE_STATUS N_risk_assessment = Some RISK_ASSESSMENT"
| "NODE_STATUS N_implementation = Some IMPLEMENTING"
| "NODE_STATUS N_test_generation = Some TESTING"
| "NODE_STATUS N_run_tests = Some TESTING"
| "NODE_STATUS N_debugging = Some DEBUGGING"
| "NODE_STATUS N_ci_validation = Some CI_RUNNING"
| "NODE_STATUS N_ci_debugging = Some CI_DEBUGGING"
| "NODE_STATUS N_security_policy = Some POLICY_CHECK"
| "NODE_STATUS N_git_commit = Some TEST_PASSED"
| "NODE_STATUS N_create_pr = Some PR_CREATED"
| "NODE_STATUS N_human_review = Some READY_FOR_REVIEW"
| "NODE_STATUS N_halt = None"

section \<open>Errors\<close>

text \<open>
  The error classes of \<open>core/errors.py\<close> with their messages; \<open>OtherError\<close> is any exception that
  is not an \<open>AgentPlatformError\<close> (\<open>IndexError\<close>, \<open>ValueError\<close>, \<open>TypeError\<close>, a client library's),
  with its class name and its message.
\<close>

datatype py_error =
    AgentPlatformError pystr
  | ConfigurationError pystr
  | TransientInfrastructureError pystr
  | ToolValidationError pystr
  | WorkspaceViolationError pystr
  | PolicyViolationError pystr
  | TaskNotFoundError pystr
  | InvalidTaskTransitionError pystr
  | OtherError pystr pystr

fun error_message :: "py_error \<Rightarrow> pystr" where
  "error_message (AgentPlatformError m) = m"
| "error_message (ConfigurationError m) = m"
| "error_message (TransientInfrastructureError m) = m"
| "error_message (ToolValidationError m) = m"
| "error_message (WorkspaceViolationError m) = m"
| "error_message (PolicyViolationError m) = m"
| "error_message (TaskNotFoundError m) = m"
| "error_message (InvalidTaskTransitionError m) = m"
| "error_message (OtherError c m) = m"

fun error_class :: "py_error \<Rightarrow> pystr" where
  "error_class (AgentPlatformError m) = ''AgentPlatformError''"
| "error_class (ConfigurationError m) = ''ConfigurationError''"
| "error_class (TransientInfrastructureError m) = ''TransientInfrastructureError''"
| "error_class (ToolValidationError m) = ''ToolValidationError''"
| "error_class (WorkspaceViolationError m) = ''WorkspaceViolationError''"
| "error_class (PolicyViolationError m) = ''PolicyViolationError''"
| "error_class (TaskNotFoundError m) = ''TaskNotFoundError''"
| "error_class (InvalidTaskTransitionError m) = ''InvalidTaskTransitionError''"
| "error_class (OtherError c m) = c"

text \<open>\<open>isinstance(exc, AgentPlatformError)\<close>.\<close>

fun is_platform_error :: "py_error \<Rightarrow> bool" where
  "is_platform_error (OtherError c m) = False"
| "is_platform_error _ = True"

type_synonym 'a result = "py_error + 'a"

section \<open>The orders\<close>

instantiation risk_level :: linorder
begin

definition less_eq_risk_level :: "risk_level \<Rightarrow> risk_level \<Rightarrow> bool" where
  "less_eq_risk_level a b \<longleftrightarrow> RISK_ORDER a \<le> RISK_ORDER b"

definition less_risk_level :: "risk_level \<Rightarrow> risk_level \<Rightarrow> bool" where
  "less_risk_level a b \<longleftrightarrow> RISK_ORDER a < RISK_ORDER b"

instance
proof
  fix a b :: risk_level
  show "a \<le> b \<Longrightarrow> b \<le> a \<Longrightarrow> a = b"
    by (cases a; cases b) (simp_all add: less_eq_risk_level_def)
qed (auto simp: less_eq_risk_level_def less_risk_level_def)

end

instantiation policy_action :: linorder
begin

definition less_eq_policy_action :: "policy_action \<Rightarrow> policy_action \<Rightarrow> bool" where
  "less_eq_policy_action a b \<longleftrightarrow> ACTION_STRENGTH a \<le> ACTION_STRENGTH b"

definition less_policy_action :: "policy_action \<Rightarrow> policy_action \<Rightarrow> bool" where
  "less_policy_action a b \<longleftrightarrow> ACTION_STRENGTH a < ACTION_STRENGTH b"

instance
proof
  fix a b :: policy_action
  show "a \<le> b \<Longrightarrow> b \<le> a \<Longrightarrow> a = b"
    by (cases a; cases b) (simp_all add: less_eq_policy_action_def)
qed (auto simp: less_eq_policy_action_def less_policy_action_def)

end

lemma risk_bounds [simp]: "LOW \<le> r" "r \<le> HIGH"
  by (cases r; simp add: less_eq_risk_level_def)+

lemma action_bounds [simp]: "ALLOW \<le> a" "a \<le> BLOCK"
  by (cases a; simp add: less_eq_policy_action_def)+

lemma action_ge_BLOCK [simp]: "BLOCK \<le> a \<longleftrightarrow> a = BLOCK"
  by (cases a) (simp_all add: less_eq_policy_action_def)

lemma action_le_ALLOW [simp]: "a \<le> ALLOW \<longleftrightarrow> a = ALLOW"
  by (cases a) (simp_all add: less_eq_policy_action_def)

lemma action_le_HUMAN_APPROVAL [simp]: "a \<le> HUMAN_APPROVAL \<longleftrightarrow> a \<noteq> BLOCK"
  by (cases a) (simp_all add: less_eq_policy_action_def)

lemma risk_ge_HIGH [simp]: "HIGH \<le> r \<longleftrightarrow> r = HIGH"
  by (cases r) (simp_all add: less_eq_risk_level_def)

lemma action_value_inject [simp]: "action_value a = action_value b \<longleftrightarrow> a = b"
  by (cases a; cases b) simp_all

lemma risk_value_roundtrip [simp]: "risk_of_value (risk_value r) = Some r"
  by (cases r) (simp_all add: risk_of_value_def)

text \<open>\<open>max_risk\<close> is the maximum of its levels and LOW.\<close>

lemma max_risk_from_eq: "max_risk_from b ls = fold (\<lambda>l m. case l of None \<Rightarrow> m | Some r \<Rightarrow> max m r) ls b"
proof (induction b ls rule: max_risk_from.induct)
  case (3 best l ls)
  have "(if RISK_ORDER l > RISK_ORDER best then l else best) = max best l"
    by (auto simp: max_def less_eq_risk_level_def)
       (cases l; cases best; simp)+
  with 3 show ?case by simp
qed simp_all

lemma max_risk_from_ge: "b \<le> max_risk_from b ls"
  by (induction b ls rule: max_risk_from.induct)
    (auto simp: less_eq_risk_level_def split: if_splits)

lemma max_risk_from_member: "Some r \<in> set ls \<Longrightarrow> r \<le> max_risk_from b ls"
proof (induction b ls rule: max_risk_from.induct)
  case (3 best l ls)
  show ?case
  proof (cases "r = l")
    case True
    have "l \<le> (if RISK_ORDER l > RISK_ORDER best then l else best)"
      by (auto simp: less_eq_risk_level_def)
    also have "\<dots> \<le> max_risk_from best (Some l # ls)" by (simp add: max_risk_from_ge)
    finally show ?thesis using True by simp
  next
    case False
    with 3 show ?thesis by simp
  qed
qed simp_all

lemma max_risk_from_attained: "max_risk_from b ls = b \<or> Some (max_risk_from b ls) \<in> set ls"
  by (induction b ls rule: max_risk_from.induct) (auto split: if_splits)

lemma max_risk_ge: "Some r \<in> set ls \<Longrightarrow> r \<le> max_risk ls"
  by (simp add: max_risk_def max_risk_from_member)

lemma max_risk_attained: "max_risk ls = LOW \<or> Some (max_risk ls) \<in> set ls"
  by (simp add: max_risk_def max_risk_from_attained)

lemma max_risk_pair [simp]: "max_risk [Some a, Some b] = max a b"
  by (cases a; cases b) (simp_all add: max_risk_def max_def less_eq_risk_level_def)

lemma is_terminal_simps [simp]:
  "is_terminal COMPLETED" "is_terminal FAILED" "is_terminal CANCELLED" "is_terminal REJECTED"
  "is_terminal HUMAN_REVIEW_REQUIRED"
  by (simp_all add: is_terminal_def TERMINAL_STATUSES_def)

lemma not_terminal_simps [simp]:
  "\<not> is_terminal READY_FOR_REVIEW" "\<not> is_terminal QUEUED" "\<not> is_terminal HUMAN_APPROVED"
  by (simp_all add: is_terminal_def TERMINAL_STATUSES_def)

lemma node_status_not_terminal: "NODE_STATUS n = Some s \<Longrightarrow> \<not> is_terminal s"
  by (cases n) (auto simp: is_terminal_def TERMINAL_STATUSES_def)

end
