(* ===== verification/Effects.thy ===== *)
theory Effects
  imports Domain
begin

text \<open>
  Effectful Python as state passing with exceptions. A computation takes the state and gives a
  result (a value or an exception) and the new state; an exception keeps the effects made before
  it. \<open>mbind\<close> is sequencing, \<open>catch\<close> is \<open>try/except\<close>, \<open>ensure\<close> is \<open>try/finally\<close>, \<open>for_each\<close> a
  \<open>for\<close> loop. The locale \<open>effect_order\<close> is how properties of whole handlers are proved: for a
  reflexive and transitive relation between states, staying in the relation is inherited by
  every combinator, so a handler stays in it when the calls it makes do.
\<close>

type_synonym ('s, 'a) eff = "'s \<Rightarrow> 'a result \<times> 's"

definition ret :: "'a \<Rightarrow> ('s, 'a) eff" where
  "ret v s = (Inr v, s)"

definition raise :: "py_error \<Rightarrow> ('s, 'a) eff" where
  "raise e s = (Inl e, s)"

definition mbind :: "('s, 'a) eff \<Rightarrow> ('a \<Rightarrow> ('s, 'b) eff) \<Rightarrow> ('s, 'b) eff" where
  "mbind m f s = (case m s of (Inl e, s') \<Rightarrow> (Inl e, s') | (Inr v, s') \<Rightarrow> f v s')"

definition catch :: "('s, 'a) eff \<Rightarrow> (py_error \<Rightarrow> ('s, 'a) eff) \<Rightarrow> ('s, 'a) eff" where
  "catch m h s = (case m s of (Inl e, s') \<Rightarrow> h e s' | (Inr v, s') \<Rightarrow> (Inr v, s'))"

text \<open>\<open>finally\<close>: an exception of the clean-up replaces the outcome.\<close>

definition ensure :: "('s, 'a) eff \<Rightarrow> ('s, unit) eff \<Rightarrow> ('s, 'a) eff" where
  "ensure m f s =
     (case m s of (r, s') \<Rightarrow> (case f s' of (Inl e, s'') \<Rightarrow> (Inl e, s'') | (Inr _, s'') \<Rightarrow> (r, s'')))"

definition gets :: "('s \<Rightarrow> 'a) \<Rightarrow> ('s, 'a) eff" where
  "gets f s = (Inr (f s), s)"

definition modify :: "('s \<Rightarrow> 's) \<Rightarrow> ('s, unit) eff" where
  "modify f s = (Inr (), f s)"

definition lift_result :: "'a result \<Rightarrow> ('s, 'a) eff" where
  "lift_result r s = (r, s)"

definition unless :: "bool \<Rightarrow> ('s, unit) eff \<Rightarrow> ('s, unit) eff" where
  "unless b m = (if b then ret () else m)"

fun for_each :: "'a list \<Rightarrow> ('a \<Rightarrow> ('s, unit) eff) \<Rightarrow> ('s, unit) eff" where
  "for_each [] f = ret ()"
| "for_each (x # xs) f = mbind (f x) (\<lambda>_. for_each xs f)"

named_theorems effect_simps "one step of a computation"

lemma ret_apply [effect_simps, simp]: "ret v s = (Inr v, s)"
  by (simp add: ret_def)

lemma raise_apply [effect_simps, simp]: "raise e s = (Inl e, s)"
  by (simp add: raise_def)

lemma gets_apply [effect_simps, simp]: "gets f s = (Inr (f s), s)"
  by (simp add: gets_def)

lemma modify_apply [effect_simps, simp]: "modify f s = (Inr (), f s)"
  by (simp add: modify_def)

lemma lift_result_apply [effect_simps, simp]: "lift_result r s = (r, s)"
  by (simp add: lift_result_def)

lemma mbind_apply [effect_simps]:
  "mbind m f s = (case m s of (Inl e, s') \<Rightarrow> (Inl e, s') | (Inr v, s') \<Rightarrow> f v s')"
  by (rule mbind_def)

lemma mbind_ret [simp]: "mbind (ret v) f = f v"
  by (rule ext) (simp add: mbind_def)

lemma mbind_assoc: "mbind (mbind m f) g = mbind m (\<lambda>x. mbind (f x) g)"
  by (rule ext) (auto simp: mbind_def split: prod.splits sum.splits)

lemma mbind_InrD:
  assumes "mbind m f w = (Inr v, w')"
  obtains x w1 where "m w = (Inr x, w1)" and "f x w1 = (Inr v, w')"
  using assms by (auto simp: mbind_def split: prod.splits sum.splits)

text \<open>A computation whose every run relates the state before to the state after.\<close>

definition stays :: "('s \<Rightarrow> 's \<Rightarrow> bool) \<Rightarrow> ('s, 'a) eff \<Rightarrow> bool" where
  "stays R m \<longleftrightarrow> (\<forall>s. R s (snd (m s)))"

text \<open>A computation that never raises.\<close>

definition safe :: "('s, 'a) eff \<Rightarrow> bool" where
  "safe m \<longleftrightarrow> (\<forall>s. \<exists>v s'. m s = (Inr v, s'))"

lemma safe_simps [simp]: "safe (ret v)" "safe (gets f)" "safe (modify g)"
  by (simp_all add: safe_def)

lemma safe_mbind: "safe m \<Longrightarrow> (\<And>v. safe (f v)) \<Longrightarrow> safe (mbind m f)"
  unfolding safe_def mbind_def by (metis (no_types, lifting) case_prod_conv sum.case(2))

lemma stays_D: "stays R m \<Longrightarrow> m s = (r, s') \<Longrightarrow> R s s'"
  unfolding stays_def by (metis snd_conv)

lemma stays_mono: "stays R m \<Longrightarrow> (\<And>s t. R s t \<Longrightarrow> Q s t) \<Longrightarrow> stays Q m"
  by (simp add: stays_def)

locale effect_order =
  fixes R :: "'s \<Rightarrow> 's \<Rightarrow> bool"
  assumes R_refl: "R s s"
    and R_trans: "R s t \<Longrightarrow> R t u \<Longrightarrow> R s u"
begin

lemma stays_ret: "stays R (ret v)"
  by (simp add: stays_def R_refl)

lemma stays_raise: "stays R (raise e)"
  by (simp add: stays_def R_refl)

lemma stays_gets: "stays R (gets f)"
  by (simp add: stays_def R_refl)

lemma stays_lift_result: "stays R (lift_result r)"
  by (simp add: stays_def R_refl)

lemma stays_modify: "(\<And>s. R s (f s)) \<Longrightarrow> stays R (modify f)"
  by (simp add: stays_def)

lemma stays_mbind:
  assumes "stays R m" and "\<And>v. stays R (f v)"
  shows "stays R (mbind m f)"
  unfolding stays_def
proof
  fix s
  obtain r t where m: "m s = (r, t)" by fastforce
  with assms(1) have 1: "R s t" by (rule stays_D)
  show "R s (snd (mbind m f s))"
  proof (cases r)
    case (Inr v)
    obtain r' u where f: "f v t = (r', u)" by fastforce
    with assms(2) have "R t u" by (rule stays_D)
    with 1 m f Inr show ?thesis by (auto simp: mbind_def intro: R_trans)
  qed (use 1 m in \<open>simp add: mbind_def\<close>)
qed

lemma stays_catch:
  assumes "stays R m" and "\<And>e. stays R (h e)"
  shows "stays R (catch m h)"
  unfolding stays_def
proof
  fix s
  obtain r t where m: "m s = (r, t)" by fastforce
  with assms(1) have 1: "R s t" by (rule stays_D)
  show "R s (snd (catch m h s))"
  proof (cases r)
    case (Inl e)
    obtain r' u where f: "h e t = (r', u)" by fastforce
    with assms(2) have "R t u" by (rule stays_D)
    with 1 m f Inl show ?thesis by (auto simp: catch_def intro: R_trans)
  qed (use 1 m in \<open>simp add: catch_def\<close>)
qed

lemma stays_ensure:
  assumes "stays R m" and "stays R f"
  shows "stays R (ensure m f)"
  unfolding stays_def
proof
  fix s
  obtain r t where m: "m s = (r, t)" by fastforce
  obtain r' u where f: "f t = (r', u)" by fastforce
  have "R s u" using assms m f stays_D R_trans by metis
  with m f show "R s (snd (ensure m f s))"
    by (cases r') (simp_all add: ensure_def)
qed

lemma stays_unless: "stays R m \<Longrightarrow> stays R (unless b m)"
  by (simp add: unless_def stays_ret)

lemma stays_if: "stays R m \<Longrightarrow> stays R n \<Longrightarrow> stays R (if b then m else n)"
  by simp

lemma stays_for_each: "(\<And>x. x \<in> set xs \<Longrightarrow> stays R (f x)) \<Longrightarrow> stays R (for_each xs f)"
  by (induction xs) (auto intro: stays_ret stays_mbind)

lemmas stays_rules =
  stays_ret stays_raise stays_gets stays_lift_result stays_mbind stays_catch stays_ensure
  stays_unless stays_if stays_for_each

end

end
