(* ===== verification/Agent_State.thy ===== *)
theory Agent_State
  imports Domain
begin

text \<open>
  The workflow state (\<open>graph/state.py\<close>). \<open>AgentState\<close> is a \<open>TypedDict(total=False)\<close>: every key may
  be absent, so every field is an option. The same type serves as a node's partial update;
  \<open>merge_state\<close> is LangGraph's merge \<open>{**state, **update}\<close>.
\<close>

record agent_state =
  st_task_id :: "pystr option"
  st_workflow_run_id :: "pystr option"
  st_repository_url :: "pystr option"
  st_repository_path :: "pystr option"
  st_workspace_path :: "pystr option"
  st_issue :: "pystr option"
  st_plan :: "pystr list option"
  st_plan_summary :: "pystr option"
  st_acceptance_criteria :: "pystr list option"
  st_relevant_files :: "pystr list option"
  st_repository_context :: "pystr list option"
  st_risk_level :: "pystr option"
  st_risk_reasons :: "pystr list option"
  st_approval_required :: "bool option"
  st_modified_files :: "pystr list option"
  st_git_diff :: "pystr option"
  st_lines_added :: "int option"
  st_lines_removed :: "int option"
  st_implementation_summary :: "pystr option"
  st_test_notes :: "pystr list option"
  st_test_files :: "pystr list option"
  st_test_plan_summary :: "pystr option"
  st_test_commands :: "pystr list option"
  st_test_results :: "pystr option"
  st_test_failures :: "pystr list option"
  st_tests_passed :: "int option"
  st_tests_failed :: "int option"
  st_test_run_ok :: "bool option"
  st_debugging_analysis :: "pystr option"
  st_previous_failures :: "pystr list option"
  st_failure_signatures :: "pystr list option"
  st_failure_signature_history :: "pystr list list option"
  st_fix_applied :: "bool option"
  st_confidence :: "pystr option"
  st_max_files :: "int option"
  st_iteration :: "int option"
  st_max_iterations :: "int option"
  st_ci_iteration :: "int option"
  st_max_ci_iterations :: "int option"
  st_ci_status :: "pystr option"
  st_ci_logs :: "pystr option"
  st_ci_run_id :: "pystr option"
  st_ci_analysis :: "pystr option"
  st_ci_requires_human :: "bool option"
  st_policy_action :: "pystr option"
  st_policy_findings :: "pystr list option"
  st_git_branch :: "pystr option"
  st_commit_sha :: "pystr option"
  st_pull_request_url :: "pystr option"
  st_outcome :: "pystr option"
  st_halt_reason :: "pystr option"
  st_error :: "pystr option"
  st_final_summary :: "pystr option"

definition empty_state :: agent_state where
  "empty_state = \<lparr>
     st_task_id = None,
     st_workflow_run_id = None,
     st_repository_url = None,
     st_repository_path = None,
     st_workspace_path = None,
     st_issue = None,
     st_plan = None,
     st_plan_summary = None,
     st_acceptance_criteria = None,
     st_relevant_files = None,
     st_repository_context = None,
     st_risk_level = None,
     st_risk_reasons = None,
     st_approval_required = None,
     st_modified_files = None,
     st_git_diff = None,
     st_lines_added = None,
     st_lines_removed = None,
     st_implementation_summary = None,
     st_test_notes = None,
     st_test_files = None,
     st_test_plan_summary = None,
     st_test_commands = None,
     st_test_results = None,
     st_test_failures = None,
     st_tests_passed = None,
     st_tests_failed = None,
     st_test_run_ok = None,
     st_debugging_analysis = None,
     st_previous_failures = None,
     st_failure_signatures = None,
     st_failure_signature_history = None,
     st_fix_applied = None,
     st_confidence = None,
     st_max_files = None,
     st_iteration = None,
     st_max_iterations = None,
     st_ci_iteration = None,
     st_max_ci_iterations = None,
     st_ci_status = None,
     st_ci_logs = None,
     st_ci_run_id = None,
     st_ci_analysis = None,
     st_ci_requires_human = None,
     st_policy_action = None,
     st_policy_findings = None,
     st_git_branch = None,
     st_commit_sha = None,
     st_pull_request_url = None,
     st_outcome = None,
     st_halt_reason = None,
     st_error = None,
     st_final_summary = None\<rparr>"

definition merge_state :: "agent_state \<Rightarrow> agent_state \<Rightarrow> agent_state" where
  "merge_state s u = \<lparr>
     st_task_id = override (st_task_id s) (st_task_id u),
     st_workflow_run_id = override (st_workflow_run_id s) (st_workflow_run_id u),
     st_repository_url = override (st_repository_url s) (st_repository_url u),
     st_repository_path = override (st_repository_path s) (st_repository_path u),
     st_workspace_path = override (st_workspace_path s) (st_workspace_path u),
     st_issue = override (st_issue s) (st_issue u),
     st_plan = override (st_plan s) (st_plan u),
     st_plan_summary = override (st_plan_summary s) (st_plan_summary u),
     st_acceptance_criteria = override (st_acceptance_criteria s) (st_acceptance_criteria u),
     st_relevant_files = override (st_relevant_files s) (st_relevant_files u),
     st_repository_context = override (st_repository_context s) (st_repository_context u),
     st_risk_level = override (st_risk_level s) (st_risk_level u),
     st_risk_reasons = override (st_risk_reasons s) (st_risk_reasons u),
     st_approval_required = override (st_approval_required s) (st_approval_required u),
     st_modified_files = override (st_modified_files s) (st_modified_files u),
     st_git_diff = override (st_git_diff s) (st_git_diff u),
     st_lines_added = override (st_lines_added s) (st_lines_added u),
     st_lines_removed = override (st_lines_removed s) (st_lines_removed u),
     st_implementation_summary = override (st_implementation_summary s) (st_implementation_summary u),
     st_test_notes = override (st_test_notes s) (st_test_notes u),
     st_test_files = override (st_test_files s) (st_test_files u),
     st_test_plan_summary = override (st_test_plan_summary s) (st_test_plan_summary u),
     st_test_commands = override (st_test_commands s) (st_test_commands u),
     st_test_results = override (st_test_results s) (st_test_results u),
     st_test_failures = override (st_test_failures s) (st_test_failures u),
     st_tests_passed = override (st_tests_passed s) (st_tests_passed u),
     st_tests_failed = override (st_tests_failed s) (st_tests_failed u),
     st_test_run_ok = override (st_test_run_ok s) (st_test_run_ok u),
     st_debugging_analysis = override (st_debugging_analysis s) (st_debugging_analysis u),
     st_previous_failures = override (st_previous_failures s) (st_previous_failures u),
     st_failure_signatures = override (st_failure_signatures s) (st_failure_signatures u),
     st_failure_signature_history = override (st_failure_signature_history s) (st_failure_signature_history u),
     st_fix_applied = override (st_fix_applied s) (st_fix_applied u),
     st_confidence = override (st_confidence s) (st_confidence u),
     st_max_files = override (st_max_files s) (st_max_files u),
     st_iteration = override (st_iteration s) (st_iteration u),
     st_max_iterations = override (st_max_iterations s) (st_max_iterations u),
     st_ci_iteration = override (st_ci_iteration s) (st_ci_iteration u),
     st_max_ci_iterations = override (st_max_ci_iterations s) (st_max_ci_iterations u),
     st_ci_status = override (st_ci_status s) (st_ci_status u),
     st_ci_logs = override (st_ci_logs s) (st_ci_logs u),
     st_ci_run_id = override (st_ci_run_id s) (st_ci_run_id u),
     st_ci_analysis = override (st_ci_analysis s) (st_ci_analysis u),
     st_ci_requires_human = override (st_ci_requires_human s) (st_ci_requires_human u),
     st_policy_action = override (st_policy_action s) (st_policy_action u),
     st_policy_findings = override (st_policy_findings s) (st_policy_findings u),
     st_git_branch = override (st_git_branch s) (st_git_branch u),
     st_commit_sha = override (st_commit_sha s) (st_commit_sha u),
     st_pull_request_url = override (st_pull_request_url s) (st_pull_request_url u),
     st_outcome = override (st_outcome s) (st_outcome u),
     st_halt_reason = override (st_halt_reason s) (st_halt_reason u),
     st_error = override (st_error s) (st_error u),
     st_final_summary = override (st_final_summary s) (st_final_summary u)\<rparr>"

definition initial_state ::
  "pystr \<Rightarrow> pystr \<Rightarrow> pystr \<Rightarrow> pystr \<Rightarrow> pystr \<Rightarrow> int \<Rightarrow> int \<Rightarrow> agent_state" where
  "initial_state task_id workflow_run_id repository_url repository_path issue max_iterations
       max_ci_iterations = empty_state\<lparr>
     st_task_id := Some task_id,
     st_workflow_run_id := Some workflow_run_id,
     st_repository_url := Some repository_url,
     st_repository_path := Some repository_path,
     st_issue := Some issue,
     st_plan := Some [],
     st_acceptance_criteria := Some [],
     st_relevant_files := Some [],
     st_repository_context := Some [],
     st_risk_level := Some (risk_value LOW),
     st_risk_reasons := Some [],
     st_approval_required := Some False,
     st_modified_files := Some [],
     st_git_diff := Some [],
     st_test_commands := Some [],
     st_test_results := Some [],
     st_test_failures := Some [],
     st_previous_failures := Some [],
     st_failure_signatures := Some [],
     st_failure_signature_history := Some [],
     st_test_run_ok := Some False,
     st_max_files := Some 12,
     st_iteration := Some 0,
     st_max_iterations := Some max_iterations,
     st_ci_iteration := Some 0,
     st_max_ci_iterations := Some max_ci_iterations,
     st_ci_status := Some [],
     st_policy_action := Some [],
     st_policy_findings := Some [],
     st_outcome := Some [],
     st_halt_reason := Some []\<rparr>"

record task_summary =
  sum_task_id :: "pystr option"
  sum_summary :: pystr
  sum_files_changed :: "pystr list"
  sum_passed :: int
  sum_failed :: int
  sum_ci :: pystr
  sum_risk :: pystr
  sum_iterations :: int
  sum_branch :: pystr
  sum_pull_request_url :: pystr
  sum_approval_required :: bool

definition summarize :: "agent_state \<Rightarrow> task_summary" where
  "summarize s = \<lparr>
     sum_task_id = st_task_id s,
     sum_summary = get_default [] (str_or (st_final_summary s) (Some (get_default [] (st_plan_summary s)))),
     sum_files_changed = get_default [] (st_modified_files s),
     sum_passed = get_default 0 (st_tests_passed s),
     sum_failed = get_default 0 (st_tests_failed s),
     sum_ci = get_default [] (st_ci_status s),
     sum_risk = get_default (risk_value LOW) (st_risk_level s),
     sum_iterations = get_default 0 (st_iteration s),
     sum_branch = get_default [] (st_git_branch s),
     sum_pull_request_url = get_default [] (st_pull_request_url s),
     sum_approval_required = get_default False (st_approval_required s)\<rparr>"

section \<open>Merging\<close>

lemma merge_state_sel [simp]:
  "st_task_id (merge_state s u) = override (st_task_id s) (st_task_id u)"
  "st_workflow_run_id (merge_state s u) = override (st_workflow_run_id s) (st_workflow_run_id u)"
  "st_repository_url (merge_state s u) = override (st_repository_url s) (st_repository_url u)"
  "st_repository_path (merge_state s u) = override (st_repository_path s) (st_repository_path u)"
  "st_workspace_path (merge_state s u) = override (st_workspace_path s) (st_workspace_path u)"
  "st_issue (merge_state s u) = override (st_issue s) (st_issue u)"
  "st_plan (merge_state s u) = override (st_plan s) (st_plan u)"
  "st_plan_summary (merge_state s u) = override (st_plan_summary s) (st_plan_summary u)"
  "st_acceptance_criteria (merge_state s u) = override (st_acceptance_criteria s) (st_acceptance_criteria u)"
  "st_relevant_files (merge_state s u) = override (st_relevant_files s) (st_relevant_files u)"
  "st_repository_context (merge_state s u) = override (st_repository_context s) (st_repository_context u)"
  "st_risk_level (merge_state s u) = override (st_risk_level s) (st_risk_level u)"
  "st_risk_reasons (merge_state s u) = override (st_risk_reasons s) (st_risk_reasons u)"
  "st_approval_required (merge_state s u) = override (st_approval_required s) (st_approval_required u)"
  "st_modified_files (merge_state s u) = override (st_modified_files s) (st_modified_files u)"
  "st_git_diff (merge_state s u) = override (st_git_diff s) (st_git_diff u)"
  "st_lines_added (merge_state s u) = override (st_lines_added s) (st_lines_added u)"
  "st_lines_removed (merge_state s u) = override (st_lines_removed s) (st_lines_removed u)"
  "st_implementation_summary (merge_state s u) = override (st_implementation_summary s) (st_implementation_summary u)"
  "st_test_notes (merge_state s u) = override (st_test_notes s) (st_test_notes u)"
  "st_test_files (merge_state s u) = override (st_test_files s) (st_test_files u)"
  "st_test_plan_summary (merge_state s u) = override (st_test_plan_summary s) (st_test_plan_summary u)"
  "st_test_commands (merge_state s u) = override (st_test_commands s) (st_test_commands u)"
  "st_test_results (merge_state s u) = override (st_test_results s) (st_test_results u)"
  "st_test_failures (merge_state s u) = override (st_test_failures s) (st_test_failures u)"
  "st_tests_passed (merge_state s u) = override (st_tests_passed s) (st_tests_passed u)"
  "st_tests_failed (merge_state s u) = override (st_tests_failed s) (st_tests_failed u)"
  "st_test_run_ok (merge_state s u) = override (st_test_run_ok s) (st_test_run_ok u)"
  "st_debugging_analysis (merge_state s u) = override (st_debugging_analysis s) (st_debugging_analysis u)"
  "st_previous_failures (merge_state s u) = override (st_previous_failures s) (st_previous_failures u)"
  "st_failure_signatures (merge_state s u) = override (st_failure_signatures s) (st_failure_signatures u)"
  "st_failure_signature_history (merge_state s u) = override (st_failure_signature_history s) (st_failure_signature_history u)"
  "st_fix_applied (merge_state s u) = override (st_fix_applied s) (st_fix_applied u)"
  "st_confidence (merge_state s u) = override (st_confidence s) (st_confidence u)"
  "st_max_files (merge_state s u) = override (st_max_files s) (st_max_files u)"
  "st_iteration (merge_state s u) = override (st_iteration s) (st_iteration u)"
  "st_max_iterations (merge_state s u) = override (st_max_iterations s) (st_max_iterations u)"
  "st_ci_iteration (merge_state s u) = override (st_ci_iteration s) (st_ci_iteration u)"
  "st_max_ci_iterations (merge_state s u) = override (st_max_ci_iterations s) (st_max_ci_iterations u)"
  "st_ci_status (merge_state s u) = override (st_ci_status s) (st_ci_status u)"
  "st_ci_logs (merge_state s u) = override (st_ci_logs s) (st_ci_logs u)"
  "st_ci_run_id (merge_state s u) = override (st_ci_run_id s) (st_ci_run_id u)"
  "st_ci_analysis (merge_state s u) = override (st_ci_analysis s) (st_ci_analysis u)"
  "st_ci_requires_human (merge_state s u) = override (st_ci_requires_human s) (st_ci_requires_human u)"
  "st_policy_action (merge_state s u) = override (st_policy_action s) (st_policy_action u)"
  "st_policy_findings (merge_state s u) = override (st_policy_findings s) (st_policy_findings u)"
  "st_git_branch (merge_state s u) = override (st_git_branch s) (st_git_branch u)"
  "st_commit_sha (merge_state s u) = override (st_commit_sha s) (st_commit_sha u)"
  "st_pull_request_url (merge_state s u) = override (st_pull_request_url s) (st_pull_request_url u)"
  "st_outcome (merge_state s u) = override (st_outcome s) (st_outcome u)"
  "st_halt_reason (merge_state s u) = override (st_halt_reason s) (st_halt_reason u)"
  "st_error (merge_state s u) = override (st_error s) (st_error u)"
  "st_final_summary (merge_state s u) = override (st_final_summary s) (st_final_summary u)"
  by (simp_all add: merge_state_def)

lemma empty_state_sel [simp]:
  "st_task_id empty_state = None"
  "st_workflow_run_id empty_state = None"
  "st_repository_url empty_state = None"
  "st_repository_path empty_state = None"
  "st_workspace_path empty_state = None"
  "st_issue empty_state = None"
  "st_plan empty_state = None"
  "st_plan_summary empty_state = None"
  "st_acceptance_criteria empty_state = None"
  "st_relevant_files empty_state = None"
  "st_repository_context empty_state = None"
  "st_risk_level empty_state = None"
  "st_risk_reasons empty_state = None"
  "st_approval_required empty_state = None"
  "st_modified_files empty_state = None"
  "st_git_diff empty_state = None"
  "st_lines_added empty_state = None"
  "st_lines_removed empty_state = None"
  "st_implementation_summary empty_state = None"
  "st_test_notes empty_state = None"
  "st_test_files empty_state = None"
  "st_test_plan_summary empty_state = None"
  "st_test_commands empty_state = None"
  "st_test_results empty_state = None"
  "st_test_failures empty_state = None"
  "st_tests_passed empty_state = None"
  "st_tests_failed empty_state = None"
  "st_test_run_ok empty_state = None"
  "st_debugging_analysis empty_state = None"
  "st_previous_failures empty_state = None"
  "st_failure_signatures empty_state = None"
  "st_failure_signature_history empty_state = None"
  "st_fix_applied empty_state = None"
  "st_confidence empty_state = None"
  "st_max_files empty_state = None"
  "st_iteration empty_state = None"
  "st_max_iterations empty_state = None"
  "st_ci_iteration empty_state = None"
  "st_max_ci_iterations empty_state = None"
  "st_ci_status empty_state = None"
  "st_ci_logs empty_state = None"
  "st_ci_run_id empty_state = None"
  "st_ci_analysis empty_state = None"
  "st_ci_requires_human empty_state = None"
  "st_policy_action empty_state = None"
  "st_policy_findings empty_state = None"
  "st_git_branch empty_state = None"
  "st_commit_sha empty_state = None"
  "st_pull_request_url empty_state = None"
  "st_outcome empty_state = None"
  "st_halt_reason empty_state = None"
  "st_error empty_state = None"
  "st_final_summary empty_state = None"
  by (simp_all add: empty_state_def)

lemma merge_empty_right [simp]: "merge_state s empty_state = s"
  by (simp add: merge_state_def)

lemma merge_empty_left [simp]: "merge_state empty_state s = s"
  by (simp add: merge_state_def)

lemma merge_state_assoc: "merge_state (merge_state a b) c = merge_state a (merge_state b c)"
  by (simp add: merge_state_def override_assoc)

end
