(* ===== verification/Json.thy ===== *)
theory Json
  imports Domain
begin

text \<open>
  JSON values, as the platform stores them in payload columns and receives them from a model:
  a Python \<open>dict\<close> is an association list in insertion order with distinct keys. \<open>JFloat\<close> keeps a
  float as its \<open>repr\<close>. The section on conversions gives \<open>str(v)\<close>, \<open>bool(v)\<close> and iteration as the
  agents apply them to model output they did not validate.
\<close>

datatype json =
    JNull
  | JBool bool
  | JInt int
  | JFloat pystr
  | JStr pystr
  | JArr "json list"
  | JObj "(pystr \<times> json) list"

type_synonym dict = "(pystr \<times> json) list"

definition dict_get :: "dict \<Rightarrow> pystr \<Rightarrow> json option" where
  "dict_get d k = map_of d k"

fun dict_set :: "dict \<Rightarrow> pystr \<Rightarrow> json \<Rightarrow> dict" where
  "dict_set [] k v = [(k, v)]"
| "dict_set ((k', v') # d) k v = (if k' = k then (k, v) # d else (k', v') # dict_set d k v)"

definition jstrs :: "pystr list \<Rightarrow> json" where
  "jstrs xs = JArr (map JStr xs)"

definition jopt :: "pystr option \<Rightarrow> json" where
  "jopt x = (case x of None \<Rightarrow> JNull | Some s \<Rightarrow> JStr s)"

section \<open>Conversions\<close>

definition hex2 :: "nat \<Rightarrow> pystr" where
  "hex2 n = (let d = (\<lambda>k. char_of (if k < 10 then 48 + k else 87 + k))
     in [d (n div 16), d (n mod 16)])"

text \<open>One character inside \<open>repr(s)\<close>, for the quote character \<open>q\<close>.\<close>

definition repr_char :: "char \<Rightarrow> char \<Rightarrow> pystr" where
  "repr_char q c =
     (if c = q \<or> c = CHR 0x5C then [CHR 0x5C, c]
      else if c = CHR 0x0A then [CHR 0x5C, CHR ''n'']
      else if c = CHR 0x0D then [CHR 0x5C, CHR ''r'']
      else if c = CHR 0x09 then [CHR 0x5C, CHR ''t'']
      else if in_ranges [(0, 31), (127, 160), (173, 173)] c
        then [CHR 0x5C, CHR ''x''] @ hex2 (of_char c)
      else [c])"

definition repr_str :: "pystr \<Rightarrow> pystr" where
  "repr_str s =
     (let q = (if CHR 0x27 \<in> set s \<and> CHR 0x22 \<notin> set s then CHR 0x22 else CHR 0x27)
      in q # concat (map (repr_char q) s) @ [q])"

fun repr_json :: "json \<Rightarrow> pystr" where
  "repr_json JNull = ''None''"
| "repr_json (JBool b) = (if b then ''True'' else ''False'')"
| "repr_json (JInt i) = show_int i"
| "repr_json (JFloat f) = f"
| "repr_json (JStr s) = repr_str s"
| "repr_json (JArr xs) = ''['' @ str_join '', '' (map repr_json xs) @ '']''"
| "repr_json (JObj kvs) =
     [CHR 0x7B] @ str_join '', '' (map (\<lambda>kv. repr_str (fst kv) @ '': '' @ repr_json (snd kv)) kvs)
     @ [CHR 0x7D]"

text \<open>\<open>str(v)\<close>: a string is itself, everything else its \<open>repr\<close>.\<close>

definition py_str :: "json \<Rightarrow> pystr" where
  "py_str v = (case v of JStr s \<Rightarrow> s | _ \<Rightarrow> repr_json v)"

definition is_zero_float :: "pystr \<Rightarrow> bool" where
  "is_zero_float f \<longleftrightarrow> f = ''0.0'' \<or> f = ''-0.0''"

definition py_bool :: "json \<Rightarrow> bool" where
  "py_bool v = (case v of JNull \<Rightarrow> False | JBool b \<Rightarrow> b | JInt i \<Rightarrow> i \<noteq> 0
     | JFloat f \<Rightarrow> \<not> is_zero_float f | JStr s \<Rightarrow> s \<noteq> [] | JArr xs \<Rightarrow> xs \<noteq> [] | JObj d \<Rightarrow> d \<noteq> [])"

text \<open>\<open>for x in v\<close>: a list's elements, a string's characters, a dict's keys; anything else raises.\<close>

definition py_iter :: "json \<Rightarrow> json list result" where
  "py_iter v = (case v of
       JArr xs \<Rightarrow> Inr xs
     | JStr s \<Rightarrow> Inr (map (\<lambda>c. JStr [c]) s)
     | JObj d \<Rightarrow> Inr (map (\<lambda>kv. JStr (fst kv)) d)
     | _ \<Rightarrow> Inl (OtherError ''TypeError'' ''object is not iterable''))"

text \<open>\<open>[str(x) for x in d.get(k, []) if str(x).strip()]\<close>, and the same without the filter.\<close>

definition str_items :: "dict \<Rightarrow> pystr \<Rightarrow> pystr list result" where
  "str_items d k = (case py_iter (get_default (JArr []) (dict_get d k)) of
       Inl e \<Rightarrow> Inl e
     | Inr xs \<Rightarrow> Inr (filter (\<lambda>s. str_strip s \<noteq> []) (map py_str xs)))"

definition all_str_items :: "dict \<Rightarrow> pystr \<Rightarrow> pystr list result" where
  "all_str_items d k = (case py_iter (get_default (JArr []) (dict_get d k)) of
       Inl e \<Rightarrow> Inl e
     | Inr xs \<Rightarrow> Inr (map py_str xs))"

definition str_field :: "dict \<Rightarrow> pystr \<Rightarrow> pystr \<Rightarrow> pystr" where
  "str_field d k v = py_str (get_default (JStr v) (dict_get d k))"

lemma dict_get_set [simp]: "dict_get (dict_set d k v) k' = (if k' = k then Some v else dict_get d k')"
  by (induction d k v rule: dict_set.induct) (auto simp: dict_get_def)

lemma py_str_JStr [simp]: "py_str (JStr s) = s"
  by (simp add: py_str_def)

lemma str_items_nonblank: "str_items d k = Inr xs \<Longrightarrow> x \<in> set xs \<Longrightarrow> str_strip x \<noteq> []"
  by (auto simp: str_items_def split: sum.splits)

end
