(* ===== verification/Sha256.thy ===== *)
theory Sha256
  imports Prelude "HOL-Library.Word"
begin

unbundle bit_operations_syntax

text \<open>
  SHA-256 (FIPS 180-4) over byte lists, as \<open>hashlib.sha256(data).hexdigest()\<close> computes it, and the
  UTF-8 encoding of \<open>str.encode()\<close> on the Latin-1 range. The platform fingerprints test failures
  and request bodies with it.
\<close>

type_synonym w32 = "32 word"

definition rotr :: "nat \<Rightarrow> w32 \<Rightarrow> w32" where
  "rotr n x = drop_bit n x OR push_bit (32 - n) x"

definition sha_ch :: "w32 \<Rightarrow> w32 \<Rightarrow> w32 \<Rightarrow> w32" where
  "sha_ch x y z = (x AND y) XOR ((NOT x) AND z)"

definition sha_maj :: "w32 \<Rightarrow> w32 \<Rightarrow> w32 \<Rightarrow> w32" where
  "sha_maj x y z = (x AND y) XOR (x AND z) XOR (y AND z)"

definition big_sigma0 :: "w32 \<Rightarrow> w32" where
  "big_sigma0 x = rotr 2 x XOR rotr 13 x XOR rotr 22 x"

definition big_sigma1 :: "w32 \<Rightarrow> w32" where
  "big_sigma1 x = rotr 6 x XOR rotr 11 x XOR rotr 25 x"

definition small_sigma0 :: "w32 \<Rightarrow> w32" where
  "small_sigma0 x = rotr 7 x XOR rotr 18 x XOR drop_bit 3 x"

definition small_sigma1 :: "w32 \<Rightarrow> w32" where
  "small_sigma1 x = rotr 17 x XOR rotr 19 x XOR drop_bit 10 x"

definition sha_k :: "w32 list" where
  "sha_k = [
     1116352408, 1899447441, 3049323471, 3921009573, 961987163, 1508970993, 2453635748, 2870763221,
     3624381080, 310598401, 607225278, 1426881987, 1925078388, 2162078206, 2614888103, 3248222580,
     3835390401, 4022224774, 264347078, 604807628, 770255983, 1249150122, 1555081692, 1996064986,
     2554220882, 2821834349, 2952996808, 3210313671, 3336571891, 3584528711, 113926993, 338241895,
     666307205, 773529912, 1294757372, 1396182291, 1695183700, 1986661051, 2177026350, 2456956037,
     2730485921, 2820302411, 3259730800, 3345764771, 3516065817, 3600352804, 4094571909, 275423344,
     430227734, 506948616, 659060556, 883997877, 958139571, 1322822218, 1537002063, 1747873779,
     1955562222, 2024104815, 2227730452, 2361852424, 2428436474, 2756734187, 3204031479, 3329325298]"

type_synonym sha_state = "w32 \<times> w32 \<times> w32 \<times> w32 \<times> w32 \<times> w32 \<times> w32 \<times> w32"

definition sha_init :: sha_state where
  "sha_init = (0x6a09e667, 0xbb67ae85, 0x3c6ef372, 0xa54ff53a,
     0x510e527f, 0x9b05688c, 0x1f83d9ab, 0x5be0cd19)"

text \<open>
  The message schedule, kept as a window of the last sixteen words: each step emits the oldest
  word and appends the next one.
\<close>

fun sha_schedule :: "nat \<Rightarrow> w32 list \<Rightarrow> w32 list" where
  "sha_schedule 0 ws = []"
| "sha_schedule (Suc n) ws = hd ws #
     sha_schedule n (tl ws @ [small_sigma1 (ws ! 14) + ws ! 9 + small_sigma0 (ws ! 1) + ws ! 0])"

fun sha_round :: "sha_state \<Rightarrow> w32 \<times> w32 \<Rightarrow> sha_state" where
  "sha_round (a, b, c, d, e, f, g, h) (k, w) =
     (let t1 = h + big_sigma1 e + sha_ch e f g + k + w;
          t2 = big_sigma0 a + sha_maj a b c
      in (t1 + t2, a, b, c, d + t1, e, f, g))"

fun sha_add :: "sha_state \<Rightarrow> sha_state \<Rightarrow> sha_state" where
  "sha_add (a, b, c, d, e, f, g, h) (a', b', c', d', e', f', g', h') =
     (a + a', b + b', c + c', d + d', e + e', f + f', g + g', h + h')"

definition sha_block :: "sha_state \<Rightarrow> w32 list \<Rightarrow> sha_state" where
  "sha_block st ws = sha_add st (foldl sha_round st (zip sha_k (sha_schedule 64 ws)))"

text \<open>Padding: a one bit, zeros to 56 modulo 64 bytes, the length in bits as eight bytes.\<close>

definition be_bytes :: "nat \<Rightarrow> nat \<Rightarrow> nat list" where
  "be_bytes k n = map (\<lambda>i. n div 256 ^ (k - 1 - i) mod 256) [0..<k]"

definition sha_pad :: "nat list \<Rightarrow> nat list" where
  "sha_pad bs = bs @ [128] @ replicate ((119 - length bs mod 64) mod 64) 0
     @ be_bytes 8 (8 * length bs)"

fun be_words :: "nat list \<Rightarrow> w32 list" where
  "be_words (a # b # c # d # bs) =
     of_nat (a * 16777216 + b * 65536 + c * 256 + d) # be_words bs"
| "be_words _ = []"

fun sha_blocks :: "nat \<Rightarrow> sha_state \<Rightarrow> w32 list \<Rightarrow> sha_state" where
  "sha_blocks 0 st ws = st"
| "sha_blocks (Suc n) st ws = sha_blocks n (sha_block st (take 16 ws)) (drop 16 ws)"

definition sha256_state :: "nat list \<Rightarrow> sha_state" where
  "sha256_state bs = (let ws = be_words (sha_pad bs) in sha_blocks (length ws div 16) sha_init ws)"

definition hex_digit :: "nat \<Rightarrow> char" where
  "hex_digit n = char_of (if n < 10 then 48 + n else 87 + n)"

definition hex_word :: "w32 \<Rightarrow> pystr" where
  "hex_word w = map (\<lambda>i. hex_digit (unat w div 16 ^ (7 - i) mod 16)) [0..<8]"

fun state_words :: "sha_state \<Rightarrow> w32 list" where
  "state_words (a, b, c, d, e, f, g, h) = [a, b, c, d, e, f, g, h]"

definition sha256_hex :: "nat list \<Rightarrow> pystr" where
  "sha256_hex bs = concat (map hex_word (state_words (sha256_state bs)))"

definition utf8_char :: "char \<Rightarrow> nat list" where
  "utf8_char c = (let n = of_char c in if n < 128 then [n] else [192 + n div 64, 128 + n mod 64])"

definition str_encode :: "pystr \<Rightarrow> nat list" where
  "str_encode s = concat (map utf8_char s)"

section \<open>Shape of the digest\<close>

lemma length_hex_word [simp]: "length (hex_word w) = 8"
  by (simp add: hex_word_def)

lemma length_sha256_hex [simp]: "length (sha256_hex bs) = 64"
  by (cases "sha256_state bs" rule: state_words.cases) (simp add: sha256_hex_def)

definition is_hex :: "char \<Rightarrow> bool" where
  "is_hex = in_ranges [(48, 57), (97, 102)]"

lemma is_hex_digit: "n < 16 \<Longrightarrow> is_hex (hex_digit n)"
  by (simp add: is_hex_def hex_digit_def in_ranges_def)

lemma sha256_hex_chars: "c \<in> set (sha256_hex bs) \<Longrightarrow> is_hex c"
  by (auto simp: sha256_hex_def hex_word_def intro: is_hex_digit)

text \<open>The padded message is a whole number of 64-byte blocks.\<close>

lemma length_sha_pad: "64 dvd length (sha_pad bs)"
proof -
  have "length (sha_pad bs) = length bs + 9 + (119 - length bs mod 64) mod 64"
    by (simp add: sha_pad_def be_bytes_def)
  moreover have "length bs = 64 * (length bs div 64) + length bs mod 64"
    by simp
  moreover have "r < 64 \<Longrightarrow> 64 dvd (r + 9 + (119 - r) mod 64)" for r :: nat
    by (cases "r < 56") (auto simp: mod_if)
  ultimately show ?thesis
    by (metis (no_types, lifting) add.assoc dvd_add dvd_triv_left mod_less_divisor zero_less_numeral)
qed

end
