(* ===== verification/Store.thy ===== *)
theory Store
  imports Agent_State Json Sha256 Complex_Main
begin

text \<open>
  The durable store: the tables of \<open>persistence/models\<close> and the operations of the repositories
  (\<open>persistence/repositories/tasks.py\<close>, \<open>audit.py\<close>). A table is the list of its rows in insertion
  order. Times are microseconds since the epoch; an operation that calls \<open>utcnow()\<close> or generates an
  identifier takes the values as arguments, in the order of the calls. A primary key the caller
  chooses (the idempotency key) or that links tables (the task id) is checked on insertion; the
  random identifiers of the audit rows are taken to be new. Costs are exact rationals.
\<close>

section \<open>Rows\<close>

record task_row =
  t_id :: pystr
  t_repository_url :: pystr
  t_repository_path :: "pystr option"
  t_issue :: pystr
  t_status :: task_status
  t_risk_level :: "pystr option"
  t_current_node :: "pystr option"
  t_iteration :: int
  t_ci_iteration :: int
  t_workspace_path :: "pystr option"
  t_branch :: "pystr option"
  t_commit_sha :: "pystr option"
  t_pull_request_url :: "pystr option"
  t_approval_required :: bool
  t_created_by :: "pystr option"
  t_idempotency_key :: "pystr option"
  t_state :: agent_state
  t_summary :: "pystr option"
  t_error :: "pystr option"
  t_locked_by :: "pystr option"
  t_lease_expires_at :: "int option"
  t_started_at :: "int option"
  t_finished_at :: "int option"
  t_created_at :: int
  t_updated_at :: int

record agent_run =
  ar_id :: pystr
  ar_task_id :: pystr
  ar_workflow_run_id :: pystr
  ar_node :: pystr
  ar_agent :: pystr
  ar_iteration :: int
  ar_status :: pystr
  ar_started_at :: "int option"
  ar_finished_at :: "int option"
  ar_duration_ms :: "int option"
  ar_input_tokens :: int
  ar_output_tokens :: int
  ar_cost_usd :: rat
  ar_error :: "pystr option"
  ar_created_at :: int

record tool_call =
  tc_id :: pystr
  tc_task_id :: pystr
  tc_agent_run_id :: "pystr option"
  tc_tool :: pystr
  tc_arguments :: dict
  tc_ok :: bool
  tc_result_preview :: "pystr option"
  tc_error :: "pystr option"
  tc_exit_code :: "int option"
  tc_duration_ms :: "int option"
  tc_created_at :: int

record task_event =
  e_id :: pystr
  e_task_id :: pystr
  e_sequence :: nat
  e_type :: event_type
  e_payload :: dict
  e_created_at :: int

record file_change =
  fc_id :: pystr
  fc_task_id :: pystr
  fc_path :: pystr
  fc_change_type :: pystr
  fc_iteration :: int
  fc_lines_added :: int
  fc_lines_removed :: int
  fc_diff :: "pystr option"
  fc_created_at :: int

record approval =
  ap_id :: pystr
  ap_task_id :: pystr
  ap_status :: pystr
  ap_reason :: "pystr option"
  ap_requested_reason :: "pystr option"
  ap_decided_by :: "pystr option"
  ap_decided_at :: "int option"
  ap_created_at :: int

record ci_run =
  cr_id :: pystr
  cr_task_id :: pystr
  cr_provider :: pystr
  cr_external_id :: "pystr option"
  cr_branch :: "pystr option"
  cr_status :: pystr
  cr_conclusion :: "pystr option"
  cr_url :: "pystr option"
  cr_logs :: "pystr option"
  cr_iteration :: int
  cr_created_at :: int

record evaluation_result =
  er_id :: pystr
  er_fixture :: pystr
  er_task_id :: "pystr option"
  er_passed :: bool
  er_metrics :: dict
  er_details :: dict
  er_created_at :: int

record idempotency_record =
  ik_key :: pystr
  ik_task_id :: pystr
  ik_request_fingerprint :: pystr

record repository_row =
  rp_id :: pystr
  rp_url :: pystr
  rp_path :: pystr
  rp_default_branch :: pystr
  rp_languages :: "pystr list"
  rp_indexed_at :: "int option"
  rp_chunk_count :: int

record code_chunk =
  cc_id :: pystr
  cc_repository_id :: pystr
  cc_file_path :: pystr
  cc_symbol_name :: "pystr option"
  cc_symbol_kind :: "pystr option"
  cc_language :: pystr
  cc_start_line :: nat
  cc_end_line :: nat
  cc_content :: pystr
  cc_embedding :: "real list option"
  cc_meta :: dict

record db =
  db_tasks :: "task_row list"
  db_agent_runs :: "agent_run list"
  db_tool_calls :: "tool_call list"
  db_events :: "task_event list"
  db_file_changes :: "file_change list"
  db_approvals :: "approval list"
  db_ci_runs :: "ci_run list"
  db_evaluations :: "evaluation_result list"
  db_idempotency :: "idempotency_record list"
  db_repositories :: "repository_row list"
  db_code_chunks :: "code_chunk list"

definition empty_db :: db where
  "empty_db = \<lparr>db_tasks = [], db_agent_runs = [], db_tool_calls = [], db_events = [],
     db_file_changes = [], db_approvals = [], db_ci_runs = [], db_evaluations = [],
     db_idempotency = [], db_repositories = [], db_code_chunks = []\<rparr>"

section \<open>Statements\<close>

text \<open>\<open>UPDATE \<dots> WHERE\<close> and its row count; \<open>ORDER BY k DESC\<close>.\<close>

definition update_where :: "('r \<Rightarrow> bool) \<Rightarrow> ('r \<Rightarrow> 'r) \<Rightarrow> 'r list \<Rightarrow> 'r list" where
  "update_where p f rows = map (\<lambda>r. if p r then f r else r) rows"

definition rowcount :: "('r \<Rightarrow> bool) \<Rightarrow> 'r list \<Rightarrow> nat" where
  "rowcount p rows = length (filter p rows)"

definition order_desc :: "('r \<Rightarrow> int) \<Rightarrow> 'r list \<Rightarrow> 'r list" where
  "order_desc k rows = sort_key (\<lambda>r. - k r) rows"

text \<open>\<open>int(x / 1000)\<close> for microseconds: truncation toward zero.\<close>

definition to_ms :: "int \<Rightarrow> int" where
  "to_ms d = sgn d * (\<bar>d\<bar> div 1000)"

section \<open>\<open>TaskRepository\<close>\<close>

definition fingerprint :: "pystr \<Rightarrow> pystr \<Rightarrow> pystr" where
  "fingerprint repository_url issue =
     take 64 (sha256_hex (str_encode (repository_url @ [CHR 0x0A] @ issue)))"

definition task_get :: "db \<Rightarrow> pystr \<Rightarrow> task_row option" where
  "task_get d tid = find (\<lambda>t. t_id t = tid) (db_tasks d)"

definition task_list :: "db \<Rightarrow> nat \<Rightarrow> pystr option \<Rightarrow> task_row list" where
  "task_list d limit status =
     take limit (order_desc t_created_at
       (filter (\<lambda>t. truthy_str status \<longrightarrow> Some (status_value (t_status t)) = status) (db_tasks d)))"

definition find_by_idempotency_key :: "db \<Rightarrow> pystr \<Rightarrow> idempotency_record option" where
  "find_by_idempotency_key d key = find (\<lambda>r. ik_key r = key) (db_idempotency d)"

definition new_task_row ::
  "pystr \<Rightarrow> int \<Rightarrow> int \<Rightarrow> pystr \<Rightarrow> pystr option \<Rightarrow> pystr \<Rightarrow> pystr option \<Rightarrow> pystr option \<Rightarrow> task_row" where
  "new_task_row tid now now' url path issue created_by key = \<lparr>
     t_id = tid, t_repository_url = url, t_repository_path = path, t_issue = issue,
     t_status = QUEUED, t_risk_level = None, t_current_node = None, t_iteration = 0,
     t_ci_iteration = 0, t_workspace_path = None, t_branch = None, t_commit_sha = None,
     t_pull_request_url = None, t_approval_required = False, t_created_by = created_by,
     t_idempotency_key = key, t_state = empty_state, t_summary = None, t_error = None,
     t_locked_by = None, t_lease_expires_at = None, t_started_at = None, t_finished_at = None,
     t_created_at = now, t_updated_at = now'\<rparr>"

text \<open>
  A duplicate primary key in either table makes the flush raise; the session is rolled back, so
  there is then no new store.
\<close>

definition task_create ::
  "pystr \<Rightarrow> int \<Rightarrow> int \<Rightarrow> pystr \<Rightarrow> pystr option \<Rightarrow> pystr \<Rightarrow> pystr option \<Rightarrow> pystr option \<Rightarrow> db
     \<Rightarrow> (task_row \<times> db) result" where
  "task_create tid now now' url path issue created_by key d =
     (let task = new_task_row tid now now' url path issue created_by key;
          d1 = d\<lparr>db_tasks := db_tasks d @ [task]\<rparr>;
          record = \<lparr>ik_key = get_default [] key, ik_task_id = tid,
                    ik_request_fingerprint = fingerprint url issue\<rparr>;
          d2 = (if truthy_str key
                then d1\<lparr>db_idempotency := db_idempotency d1 @ [record]\<rparr> else d1)
      in if task_get d tid \<noteq> None
           \<or> truthy_str key \<and> find_by_idempotency_key d (get_default [] key) \<noteq> None
         then Inl (OtherError ''IntegrityError'' ''duplicate key value'')
         else Inr (task, d2))"

definition set_status_values ::
  "int \<Rightarrow> int \<Rightarrow> task_status \<Rightarrow> pystr option \<Rightarrow> pystr option \<Rightarrow> task_row \<Rightarrow> task_row" where
  "set_status_values now now' status node error t =
     (let t1 = t\<lparr>t_status := status, t_updated_at := now\<rparr>;
          t2 = (case node of None \<Rightarrow> t1 | Some n \<Rightarrow> t1\<lparr>t_current_node := Some n\<rparr>);
          t3 = (case error of None \<Rightarrow> t2 | Some e \<Rightarrow> t2\<lparr>t_error := Some e\<rparr>)
      in if is_terminal status
         then t3\<lparr>t_finished_at := Some now', t_locked_by := None, t_lease_expires_at := None\<rparr>
         else t3)"

definition set_status ::
  "int \<Rightarrow> int \<Rightarrow> pystr \<Rightarrow> task_status \<Rightarrow> pystr option \<Rightarrow> pystr option \<Rightarrow> db \<Rightarrow> db" where
  "set_status now now' tid status node error d =
     d\<lparr>db_tasks := update_where (\<lambda>t. t_id t = tid) (set_status_values now now' status node error)
        (db_tasks d)\<rparr>"

definition save_state_values :: "int \<Rightarrow> agent_state \<Rightarrow> task_row \<Rightarrow> task_row" where
  "save_state_values now s t = t\<lparr>
     t_state := s,
     t_iteration := get_default (t_iteration t) (st_iteration s),
     t_ci_iteration := get_default (t_ci_iteration t) (st_ci_iteration s),
     t_risk_level := str_or (st_risk_level s) (t_risk_level t),
     t_workspace_path := str_or (st_workspace_path s) (t_workspace_path t),
     t_branch := str_or (st_git_branch s) (t_branch t),
     t_commit_sha := str_or (st_commit_sha s) (t_commit_sha t),
     t_pull_request_url := str_or (st_pull_request_url s) (t_pull_request_url t),
     t_approval_required := get_default (t_approval_required t) (st_approval_required s),
     t_summary := str_or (st_final_summary s) (t_summary t),
     t_updated_at := now\<rparr>"

definition save_state :: "int \<Rightarrow> pystr \<Rightarrow> agent_state \<Rightarrow> db \<Rightarrow> db" where
  "save_state now tid s d =
     d\<lparr>db_tasks := update_where (\<lambda>t. t_id t = tid) (save_state_values now s) (db_tasks d)\<rparr>"

text \<open>\<open>lease_expires_at < now\<close>: a NULL lease compares as unknown, which is not true.\<close>

definition lease_expired :: "int \<Rightarrow> task_row \<Rightarrow> bool" where
  "lease_expired now t = (case t_lease_expires_at t of None \<Rightarrow> False | Some e \<Rightarrow> e < now)"

definition claimable :: "int \<Rightarrow> pystr \<Rightarrow> task_row \<Rightarrow> bool" where
  "claimable now tid t \<longleftrightarrow>
     t_id t = tid \<and> \<not> is_terminal (t_status t) \<and> (t_locked_by t = None \<or> lease_expired now t)"

definition claim_values :: "int \<Rightarrow> pystr \<Rightarrow> int \<Rightarrow> task_row \<Rightarrow> task_row" where
  "claim_values now worker expires t = t\<lparr>
     t_locked_by := Some worker, t_lease_expires_at := Some expires, t_updated_at := now,
     t_started_at := (case t_started_at t of None \<Rightarrow> Some now | Some s \<Rightarrow> Some s)\<rparr>"

definition claim ::
  "int \<Rightarrow> pystr \<Rightarrow> pystr \<Rightarrow> int \<Rightarrow> db \<Rightarrow> task_row option \<times> db" where
  "claim now tid worker lease_seconds d =
     (let expires = now + lease_seconds * 1000000;
          d' = d\<lparr>db_tasks := update_where (claimable now tid) (claim_values now worker expires)
                 (db_tasks d)\<rparr>
      in if rowcount (claimable now tid) (db_tasks d) = 0 then (None, d)
         else (task_get d' tid, d'))"

definition held_by :: "pystr \<Rightarrow> pystr \<Rightarrow> task_row \<Rightarrow> bool" where
  "held_by tid worker t \<longleftrightarrow> t_id t = tid \<and> t_locked_by t = Some worker"

definition renew_lease :: "int \<Rightarrow> int \<Rightarrow> pystr \<Rightarrow> pystr \<Rightarrow> int \<Rightarrow> db \<Rightarrow> bool \<times> db" where
  "renew_lease now now' tid worker lease_seconds d =
     (rowcount (held_by tid worker) (db_tasks d) > 0,
      d\<lparr>db_tasks := update_where (held_by tid worker)
         (\<lambda>t. t\<lparr>t_lease_expires_at := Some (now + lease_seconds * 1000000), t_updated_at := now'\<rparr>)
         (db_tasks d)\<rparr>)"

definition release :: "int \<Rightarrow> pystr \<Rightarrow> pystr \<Rightarrow> db \<Rightarrow> db" where
  "release now tid worker d =
     d\<lparr>db_tasks := update_where (held_by tid worker)
        (\<lambda>t. t\<lparr>t_locked_by := None, t_lease_expires_at := None, t_updated_at := now\<rparr>)
        (db_tasks d)\<rparr>"

definition find_unclaimed :: "db \<Rightarrow> nat \<Rightarrow> task_row list" where
  "find_unclaimed d limit =
     take limit (sort_key t_created_at
       (filter (\<lambda>t. t_status t = QUEUED \<and> t_locked_by t = None) (db_tasks d)))"

definition find_recoverable :: "int \<Rightarrow> db \<Rightarrow> nat \<Rightarrow> task_row list" where
  "find_recoverable now d limit =
     take limit
       (filter (\<lambda>t. \<not> is_terminal (t_status t) \<and> t_status t \<noteq> READY_FOR_REVIEW
                 \<and> t_locked_by t \<noteq> None \<and> lease_expired now t) (db_tasks d))"

section \<open>Audit repositories\<close>

definition events_of :: "pystr \<Rightarrow> db \<Rightarrow> task_event list" where
  "events_of tid d = filter (\<lambda>e. e_task_id e = tid) (db_events d)"

text \<open>
  Appending is two statements: \<open>coalesce(max(sequence), 0) + 1\<close> is selected, then the row with that
  number is inserted. The index on task and sequence is not unique, so the store does not check the
  number. \<open>event_append\<close> is the two statements with nothing between them.
\<close>

definition next_sequence :: "pystr \<Rightarrow> db \<Rightarrow> nat" where
  "next_sequence tid d = fold max (map e_sequence (events_of tid d)) 0 + 1"

definition event_insert ::
  "pystr \<Rightarrow> int \<Rightarrow> pystr \<Rightarrow> nat \<Rightarrow> event_type \<Rightarrow> dict \<Rightarrow> db \<Rightarrow> task_event \<times> db" where
  "event_insert eid now tid next_seq typ payload d =
     (let event = \<lparr>e_id = eid, e_task_id = tid, e_sequence = next_seq, e_type = typ,
                   e_payload = payload, e_created_at = now\<rparr>
      in (event, d\<lparr>db_events := db_events d @ [event]\<rparr>))"

definition event_append ::
  "pystr \<Rightarrow> int \<Rightarrow> pystr \<Rightarrow> event_type \<Rightarrow> dict \<Rightarrow> db \<Rightarrow> task_event \<times> db" where
  "event_append eid now tid typ payload d =
     event_insert eid now tid (next_sequence tid d) typ payload d"

definition event_list :: "db \<Rightarrow> pystr \<Rightarrow> int \<Rightarrow> task_event list" where
  "event_list d tid after_sequence =
     sort_key e_sequence (filter (\<lambda>e. int (e_sequence e) > after_sequence) (events_of tid d))"

definition agent_run_start ::
  "pystr \<Rightarrow> int \<Rightarrow> int \<Rightarrow> pystr \<Rightarrow> pystr \<Rightarrow> pystr \<Rightarrow> pystr \<Rightarrow> int \<Rightarrow> db \<Rightarrow> agent_run \<times> db" where
  "agent_run_start rid now now' tid workflow_run_id node agent iteration d =
     (let run = \<lparr>ar_id = rid, ar_task_id = tid, ar_workflow_run_id = workflow_run_id,
                 ar_node = node, ar_agent = agent, ar_iteration = iteration,
                 ar_status = ''RUNNING'', ar_started_at = Some now, ar_finished_at = None,
                 ar_duration_ms = None, ar_input_tokens = 0, ar_output_tokens = 0,
                 ar_cost_usd = 0, ar_error = None, ar_created_at = now'\<rparr>
      in (run, d\<lparr>db_agent_runs := db_agent_runs d @ [run]\<rparr>))"

definition agent_run_finish ::
  "int \<Rightarrow> pystr \<Rightarrow> pystr \<Rightarrow> pystr option \<Rightarrow> int \<Rightarrow> int \<Rightarrow> rat \<Rightarrow> db \<Rightarrow> db" where
  "agent_run_finish now rid status error input_tokens output_tokens cost_usd d =
     d\<lparr>db_agent_runs := update_where (\<lambda>r. ar_id r = rid)
        (\<lambda>r. r\<lparr>ar_status := status, ar_error := error, ar_finished_at := Some now,
               ar_input_tokens := ar_input_tokens r + input_tokens,
               ar_output_tokens := ar_output_tokens r + output_tokens,
               ar_cost_usd := ar_cost_usd r + cost_usd,
               ar_duration_ms := (case ar_started_at r of None \<Rightarrow> ar_duration_ms r
                                  | Some s \<Rightarrow> Some (to_ms (now - s)))\<rparr>)
        (db_agent_runs d)\<rparr>"

definition agent_run_list :: "db \<Rightarrow> pystr \<Rightarrow> agent_run list" where
  "agent_run_list d tid = sort_key ar_created_at (filter (\<lambda>r. ar_task_id r = tid) (db_agent_runs d))"

text \<open>\<open>(s or "")[:n] or None\<close>.\<close>

definition clip :: "nat \<Rightarrow> pystr option \<Rightarrow> pystr option" where
  "clip n s = (let c = take n (get_default [] s) in if c = [] then None else Some c)"

definition tool_call_record ::
  "pystr \<Rightarrow> int \<Rightarrow> pystr \<Rightarrow> pystr option \<Rightarrow> pystr \<Rightarrow> dict \<Rightarrow> bool \<Rightarrow> pystr option \<Rightarrow> pystr option
     \<Rightarrow> int option \<Rightarrow> int option \<Rightarrow> db \<Rightarrow> db" where
  "tool_call_record cid now tid agent_run_id tool arguments ok result_preview error exit_code
     duration_ms d =
     d\<lparr>db_tool_calls := db_tool_calls d @ [\<lparr>tc_id = cid, tc_task_id = tid,
        tc_agent_run_id = agent_run_id, tc_tool = tool, tc_arguments = arguments, tc_ok = ok,
        tc_result_preview = clip 4000 result_preview, tc_error = error, tc_exit_code = exit_code,
        tc_duration_ms = duration_ms, tc_created_at = now\<rparr>]\<rparr>"

definition tool_call_list :: "db \<Rightarrow> pystr \<Rightarrow> tool_call list" where
  "tool_call_list d tid = sort_key tc_created_at (filter (\<lambda>c. tc_task_id c = tid) (db_tool_calls d))"

definition file_change_record ::
  "pystr \<Rightarrow> int \<Rightarrow> pystr \<Rightarrow> pystr \<Rightarrow> pystr \<Rightarrow> int \<Rightarrow> int \<Rightarrow> int \<Rightarrow> pystr option \<Rightarrow> db \<Rightarrow> db" where
  "file_change_record fid now tid path change_type iteration lines_added lines_removed diff d =
     d\<lparr>db_file_changes := db_file_changes d @ [\<lparr>fc_id = fid, fc_task_id = tid, fc_path = path,
        fc_change_type = change_type, fc_iteration = iteration, fc_lines_added = lines_added,
        fc_lines_removed = lines_removed, fc_diff = diff, fc_created_at = now\<rparr>]\<rparr>"

definition file_change_list :: "db \<Rightarrow> pystr \<Rightarrow> file_change list" where
  "file_change_list d tid =
     sort_key fc_created_at (filter (\<lambda>c. fc_task_id c = tid) (db_file_changes d))"

definition approval_request :: "pystr \<Rightarrow> int \<Rightarrow> pystr \<Rightarrow> pystr \<Rightarrow> db \<Rightarrow> db" where
  "approval_request aid now tid reason d =
     d\<lparr>db_approvals := db_approvals d @ [\<lparr>ap_id = aid, ap_task_id = tid, ap_status = ''PENDING'',
        ap_reason = None, ap_requested_reason = Some reason, ap_decided_by = None,
        ap_decided_at = None, ap_created_at = now\<rparr>]\<rparr>"

definition pending_for :: "db \<Rightarrow> pystr \<Rightarrow> approval option" where
  "pending_for d tid =
     (case order_desc ap_created_at
        (filter (\<lambda>a. ap_task_id a = tid \<and> ap_status a = ''PENDING'') (db_approvals d)) of
        [] \<Rightarrow> None | a # _ \<Rightarrow> Some a)"

definition approval_decide ::
  "int \<Rightarrow> pystr \<Rightarrow> pystr \<Rightarrow> pystr option \<Rightarrow> pystr option \<Rightarrow> db \<Rightarrow> db" where
  "approval_decide now aid status decided_by reason d =
     d\<lparr>db_approvals := update_where (\<lambda>a. ap_id a = aid)
        (\<lambda>a. a\<lparr>ap_status := status, ap_decided_by := decided_by, ap_reason := reason,
               ap_decided_at := Some now\<rparr>) (db_approvals d)\<rparr>"

definition approval_list :: "db \<Rightarrow> pystr \<Rightarrow> approval list" where
  "approval_list d tid = sort_key ap_created_at (filter (\<lambda>a. ap_task_id a = tid) (db_approvals d))"

definition ci_run_record ::
  "pystr \<Rightarrow> int \<Rightarrow> pystr \<Rightarrow> pystr \<Rightarrow> pystr option \<Rightarrow> pystr option \<Rightarrow> pystr \<Rightarrow> pystr option
     \<Rightarrow> pystr option \<Rightarrow> pystr option \<Rightarrow> int \<Rightarrow> db \<Rightarrow> db" where
  "ci_run_record cid now tid provider external_id branch status conclusion url logs iteration d =
     d\<lparr>db_ci_runs := db_ci_runs d @ [\<lparr>cr_id = cid, cr_task_id = tid, cr_provider = provider,
        cr_external_id = external_id, cr_branch = branch, cr_status = status,
        cr_conclusion = conclusion, cr_url = url, cr_logs = clip 20000 logs,
        cr_iteration = iteration, cr_created_at = now\<rparr>]\<rparr>"

definition ci_run_list :: "db \<Rightarrow> pystr \<Rightarrow> ci_run list" where
  "ci_run_list d tid = sort_key cr_created_at (filter (\<lambda>r. cr_task_id r = tid) (db_ci_runs d))"

definition evaluation_record ::
  "pystr \<Rightarrow> int \<Rightarrow> pystr \<Rightarrow> pystr option \<Rightarrow> bool \<Rightarrow> dict \<Rightarrow> dict \<Rightarrow> db \<Rightarrow> db" where
  "evaluation_record vid now fixture tid passed metrics details d =
     d\<lparr>db_evaluations := db_evaluations d @ [\<lparr>er_id = vid, er_fixture = fixture, er_task_id = tid,
        er_passed = passed, er_metrics = metrics, er_details = details, er_created_at = now\<rparr>]\<rparr>"

section \<open>Statements on rows\<close>

lemma update_where_ids:
  assumes "\<And>r. p r \<Longrightarrow> k (f r) = k r"
  shows "map k (update_where p f rows) = map k rows"
  using assms by (auto simp: update_where_def)

lemma find_update_where:
  assumes "\<And>r. k (f r) = k r"
  shows "find (\<lambda>r. k r = x) (update_where p f rows) =
    map_option (\<lambda>r. if p r then f r else r) (find (\<lambda>r. k r = x) rows)"
  using assms by (induction rows) (auto simp: update_where_def)

lemma rowcount_zero_iff: "rowcount p rows = 0 \<longleftrightarrow> (\<forall>r \<in> set rows. \<not> p r)"
  by (simp add: rowcount_def filter_empty_conv)

lemma update_where_none: "\<forall>r \<in> set rows. \<not> p r \<Longrightarrow> update_where p f rows = rows"
  by (simp add: update_where_def map_idI)

lemma find_Some_key: "find (\<lambda>r. k r = x) rows = Some r \<Longrightarrow> r \<in> set rows \<and> k r = x"
  by (induction rows) (auto split: if_splits)

lemma find_None_key: "find (\<lambda>r. k r = x) rows = None \<longleftrightarrow> x \<notin> k ` set rows"
  by (induction rows) auto

lemma find_distinct_key:
  "distinct (map k rows) \<Longrightarrow> r \<in> set rows \<Longrightarrow> find (\<lambda>q. k q = k r) rows = Some r"
  by (induction rows) (auto simp: image_iff)

section \<open>Task rows\<close>

text \<open>The key constraint of the task table.\<close>

definition ids_unique :: "db \<Rightarrow> bool" where
  "ids_unique d \<longleftrightarrow> distinct (map t_id (db_tasks d))"

lemma task_get_in: "task_get d tid = Some t \<Longrightarrow> t \<in> set (db_tasks d) \<and> t_id t = tid"
  unfolding task_get_def by (rule find_Some_key)

lemma task_get_unique: "ids_unique d \<Longrightarrow> t \<in> set (db_tasks d) \<Longrightarrow> task_get d (t_id t) = Some t"
  by (simp add: task_get_def ids_unique_def find_distinct_key)

lemma set_status_values_sel [simp]:
  "t_id (set_status_values now now' st node err t) = t_id t"
  "t_status (set_status_values now now' st node err t) = st"
  "t_state (set_status_values now now' st node err t) = t_state t"
  "t_locked_by (set_status_values now now' st node err t) =
     (if is_terminal st then None else t_locked_by t)"
  "t_lease_expires_at (set_status_values now now' st node err t) =
     (if is_terminal st then None else t_lease_expires_at t)"
  "t_finished_at (set_status_values now now' st node err t) =
     (if is_terminal st then Some now' else t_finished_at t)"
  "t_error (set_status_values now now' st node err t) = override (t_error t) err"
  by (cases node; cases err; simp add: set_status_values_def Let_def)+

lemma task_get_set_status [simp]:
  "task_get (set_status now now' tid st node err d) x =
     map_option (\<lambda>t. if t_id t = tid then set_status_values now now' st node err t else t)
       (task_get d x)"
  by (simp add: task_get_def set_status_def find_update_where)

lemma task_get_save_state [simp]:
  "task_get (save_state now tid s d) x =
     map_option (\<lambda>t. if t_id t = tid then save_state_values now s t else t) (task_get d x)"
  by (simp add: task_get_def save_state_def find_update_where save_state_values_def)

lemma task_get_release [simp]:
  "task_get (release now tid w d) x =
     map_option (\<lambda>t. if held_by tid w t
       then t\<lparr>t_locked_by := None, t_lease_expires_at := None, t_updated_at := now\<rparr> else t)
       (task_get d x)"
  by (simp add: task_get_def release_def find_update_where)

lemma task_get_renew_lease [simp]:
  "task_get (snd (renew_lease now now' tid w l d)) x =
     map_option (\<lambda>t. if held_by tid w t
       then t\<lparr>t_lease_expires_at := Some (now + l * 1000000), t_updated_at := now'\<rparr> else t)
       (task_get d x)"
  by (simp add: task_get_def renew_lease_def find_update_where)

lemma claim_db:
  "snd (claim now tid w l d) = d\<lparr>db_tasks := update_where (claimable now tid)
     (claim_values now w (now + l * 1000000)) (db_tasks d)\<rparr>"
  by (auto simp: claim_def Let_def rowcount_zero_iff update_where_none)

lemma claim_result:
  "fst (claim now tid w l d) =
     (if \<exists>t \<in> set (db_tasks d). claimable now tid t
      then task_get (snd (claim now tid w l d)) tid else None)"
  by (auto simp: claim_db claim_def Let_def rowcount_zero_iff)

lemma task_get_claim [simp]:
  "task_get (snd (claim now tid w l d)) x =
     map_option (\<lambda>t. if claimable now tid t then claim_values now w (now + l * 1000000) t else t)
       (task_get d x)"
  by (simp add: claim_db) (simp add: task_get_def find_update_where claim_values_def)

lemma claimable_row:
  assumes "ids_unique d"
  shows "(\<exists>t \<in> set (db_tasks d). claimable now tid t) \<longleftrightarrow>
    (case task_get d tid of None \<Rightarrow> False | Some t \<Rightarrow> claimable now tid t)"
  using assms
  by (auto simp: claimable_def task_get_unique dest: task_get_in split: option.splits)

text \<open>Claiming succeeds exactly on a claimable row, and gives that row with the new lease.\<close>

lemma claim_iff:
  assumes "ids_unique d"
  shows "fst (claim now tid w l d) =
    (case task_get d tid of None \<Rightarrow> None
     | Some t \<Rightarrow> if claimable now tid t then Some (claim_values now w (now + l * 1000000) t)
                 else None)"
  using assms by (auto simp: claim_result claimable_row split: option.splits)

lemma ids_unique_steps [intro]:
  "ids_unique d \<Longrightarrow> ids_unique (set_status now now' tid st node err d)"
  "ids_unique d \<Longrightarrow> ids_unique (save_state now tid s d)"
  "ids_unique d \<Longrightarrow> ids_unique (snd (claim now tid w l d))"
  "ids_unique d \<Longrightarrow> ids_unique (snd (renew_lease now now' tid w l d))"
  "ids_unique d \<Longrightarrow> ids_unique (release now tid w d)"
  by (simp_all add: ids_unique_def claim_db set_status_def save_state_def renew_lease_def
      release_def update_where_ids save_state_values_def claim_values_def)

lemma task_create_ids_unique:
  "ids_unique d \<Longrightarrow> task_create tid now now' url path issue by key d = Inr (t, d') \<Longrightarrow> ids_unique d'"
  by (auto simp: task_create_def ids_unique_def Let_def task_get_def find_None_key new_task_row_def
      split: if_splits)

text \<open>
  Reconciliation cannot publish work that cannot be taken. Every task returned by the sweep's
  two queries, the unclaimed QUEUED tasks and the tasks whose worker died, is claimed by the next
  worker that asks, at that time or later, and that worker then holds the lease.
\<close>

theorem swept_tasks_are_claimable:
  assumes "ids_unique d"
    and "t \<in> set (find_unclaimed d n) \<union> set (find_recoverable now d n)"
    and "now \<le> now'"
  shows "fst (claim now' (t_id t) w l d) = Some (claim_values now' w (now' + l * 1000000) t)
    \<and> task_get (snd (claim now' (t_id t) w l d)) (t_id t)
        = Some (claim_values now' w (now' + l * 1000000) t)"
proof -
  have t: "t \<in> set (db_tasks d)" "claimable now' (t_id t) t"
    using assms(2,3)
    by (auto simp: find_unclaimed_def find_recoverable_def claimable_def lease_expired_def
        dest!: in_set_takeD split: option.splits)
  then show ?thesis
    using assms(1) by (simp add: claim_iff task_get_unique)
qed

theorem swept_tasks_are_claimable_witness:
  "\<exists>d t. t \<in> set (find_recoverable 20 d 5) \<and>
     fst (claim 20 (t_id t) ''w2'' 900 d) = Some (claim_values 20 ''w2'' (20 + 900 * 1000000) t)"
proof -
  let ?t = "(new_task_row ''T'' 0 0 ''u'' None ''i'' None None)
     \<lparr>t_status := TESTING, t_locked_by := Some ''w1'', t_lease_expires_at := Some 10\<rparr>"
  let ?d = "empty_db\<lparr>db_tasks := [?t]\<rparr>"
  have "?t \<in> set (find_recoverable 20 ?d 5)"
    by (simp add: find_recoverable_def lease_expired_def is_terminal_def TERMINAL_STATUSES_def)
  moreover from this have
    "fst (claim 20 (t_id ?t) ''w2'' 900 ?d) = Some (claim_values 20 ''w2'' (20 + 900 * 1000000) ?t)"
    using swept_tasks_are_claimable [of ?d ?t 5 20 20 "''w2''" 900] by (simp add: ids_unique_def)
  ultimately show ?thesis by blast
qed

section \<open>The event log\<close>

definition well_sequenced :: "db \<Rightarrow> bool" where
  "well_sequenced d \<longleftrightarrow>
     (\<forall>tid. map e_sequence (events_of tid d) = [1..<Suc (length (events_of tid d))])"

lemma fold_max_upt: "fold max [1..<Suc n] (0::nat) = n"
  by (induction n) auto

lemma next_sequence_eq: "well_sequenced d \<Longrightarrow> next_sequence tid d = Suc (length (events_of tid d))"
  using fold_max_upt [of "length (events_of tid d)"]
  unfolding well_sequenced_def next_sequence_def by simp

lemma events_of_append [simp]:
  "events_of x (snd (event_append eid now tid typ p d)) =
     events_of x d @ (if x = tid then [fst (event_append eid now tid typ p d)] else [])"
  by (simp add: event_append_def event_insert_def events_of_def Let_def)

lemma event_append_sel [simp]:
  "e_type (fst (event_append eid now tid typ p d)) = typ"
  "e_payload (fst (event_append eid now tid typ p d)) = p"
  "e_sequence (fst (event_append eid now tid typ p d)) = next_sequence tid d"
  "e_task_id (fst (event_append eid now tid typ p d)) = tid"
  by (simp_all add: event_append_def event_insert_def Let_def)

lemma event_append_tables [simp]:
  "db_tasks (snd (event_append eid now tid typ p d)) = db_tasks d"
  by (simp add: event_append_def event_insert_def Let_def)

lemma well_sequenced_append:
  "well_sequenced d \<Longrightarrow> well_sequenced (snd (event_append eid now tid typ p d))"
  using next_sequence_eq [of d] by (auto simp: well_sequenced_def)

lemma well_sequenced_empty [simp]: "well_sequenced empty_db"
  by (simp add: well_sequenced_def empty_db_def events_of_def)

lemma events_of_empty [simp]: "events_of tid empty_db = []"
  by (simp add: empty_db_def events_of_def)

lemma drop_eq_filter_key:
  fixes f :: "'a \<Rightarrow> nat"
  assumes "map f xs = [1..<Suc (length xs)]"
  shows "filter (\<lambda>x. k < f x) xs = drop k xs"
  using assms
proof (induction xs rule: rev_induct)
  case (snoc x xs)
  then have "f x = Suc (length xs)" "map f xs = [1..<Suc (length xs)]" by simp_all
  with snoc.IH show ?case by auto
qed simp

lemma event_list_drop:
  assumes "well_sequenced d"
  shows "event_list d tid (int k) = drop k (events_of tid d)"
proof -
  have seq: "map e_sequence (events_of tid d) = [1..<Suc (length (events_of tid d))]"
    using assms by (simp add: well_sequenced_def)
  have "sorted (map e_sequence (drop k (events_of tid d)))"
    by (simp only: drop_map [symmetric] seq) (simp del: upt_Suc)
  then show ?thesis
    by (simp add: event_list_def drop_eq_filter_key [OF seq] sorted_sort_id sort_key_id_if_sorted)
qed

subsection \<open>Sessions that append concurrently\<close>

text \<open>
  The sessions of the API and of the workers run the two statements of an append interleaved.
  \<open>Select_Next s tid\<close> gives the session \<open>s\<close> the next number of the task; \<open>Insert_Event s \<dots>\<close> inserts the row
  with the number the session holds.
\<close>

datatype append_statement =
    Select_Next nat pystr
  | Insert_Event nat pystr int pystr event_type dict

fun append_step :: "append_statement \<Rightarrow> (nat \<Rightarrow> nat) \<times> db \<Rightarrow> (nat \<Rightarrow> nat) \<times> db" where
  "append_step (Select_Next s tid) (held, d) = (held(s := next_sequence tid d), d)"
| "append_step (Insert_Event s eid now tid typ p) (held, d) =
     (held, snd (event_insert eid now tid (held s) typ p d))"

definition append_run :: "append_statement list \<Rightarrow> (nat \<Rightarrow> nat) \<times> db \<Rightarrow> (nat \<Rightarrow> nat) \<times> db" where
  "append_run stmts c = fold append_step stmts c"

text \<open>The events a run inserts for a task, in the order of the insertions.\<close>

fun inserted :: "pystr \<Rightarrow> append_statement \<Rightarrow> (event_type \<times> dict) list" where
  "inserted tid (Select_Next s t) = []"
| "inserted tid (Insert_Event s eid now t typ p) = (if t = tid then [(typ, p)] else [])"

text \<open>
  No append is torn: between the number a session selects for a task and the row it inserts, no
  other session inserts a row of that task. Sessions may be torn apart by the appends of other
  tasks at will. \<open>holds s\<close> is the task whose current number the session \<open>s\<close> holds.
\<close>

fun untorn_from :: "(nat \<Rightarrow> pystr option) \<Rightarrow> append_statement list \<Rightarrow> bool" where
  "untorn_from holds [] \<longleftrightarrow> True"
| "untorn_from holds (Select_Next s tid # stmts) \<longleftrightarrow> untorn_from (holds(s := Some tid)) stmts"
| "untorn_from holds (Insert_Event s eid now tid typ p # stmts) \<longleftrightarrow>
     holds s = Some tid \<and> untorn_from (\<lambda>s'. if holds s' = Some tid then None else holds s') stmts"

definition untorn :: "append_statement list \<Rightarrow> bool" where
  "untorn stmts \<longleftrightarrow> untorn_from (\<lambda>_. None) stmts"

definition logged :: "pystr \<Rightarrow> db \<Rightarrow> (event_type \<times> dict) list" where
  "logged tid d = map (\<lambda>e. (e_type e, e_payload e)) (events_of tid d)"

lemma insert_next:
  assumes "well_sequenced d"
  shows "well_sequenced (snd (event_insert eid now tid (next_sequence tid d) typ p d))"
  using well_sequenced_append [OF assms, of eid now tid "typ" p] by (simp add: event_append_def)

lemma events_of_insert [simp]: "events_of x (snd (event_insert eid now tid n typ p d)) =
     events_of x d @ (if x = tid then [fst (event_insert eid now tid n typ p d)] else [])"
  by (simp add: event_insert_def events_of_def Let_def)

lemma next_sequence_insert_other:
  "x \<noteq> tid \<Longrightarrow> next_sequence x (snd (event_insert eid now tid n typ p d)) = next_sequence x d"
  by (simp add: next_sequence_def)

lemma logged_insert:
  "logged x (snd (event_insert eid now tid n typ p d)) = logged x d @ (if x = tid then [(typ, p)] else [])"
  by (simp add: logged_def) (simp add: event_insert_def Let_def)

lemma logged_run: "logged tid (snd (append_run stmts c)) = logged tid (snd c) @ concat (map (inserted tid) stmts)"
proof (induction stmts arbitrary: c)
  case (Cons st stmts)
  obtain held d where c: "c = (held, d)" by fastforce
  show ?case using Cons.IH [of "append_step st c"]
    by (cases st) (simp_all add: append_run_def c logged_insert)
qed (simp add: append_run_def)

lemma untorn_well_sequenced:
  assumes "untorn_from holds stmts" and "well_sequenced d"
    and "\<And>s tid. holds s = Some tid \<Longrightarrow> held s = next_sequence tid d"
  shows "well_sequenced (snd (append_run stmts (held, d)))"
  using assms
proof (induction stmts arbitrary: holds held d)
  case (Cons st stmts)
  show ?case
  proof (cases st)
    case (Select_Next s tid)
    have "well_sequenced (snd (append_run stmts (held(s := next_sequence tid d), d)))"
    proof (rule Cons.IH [of "holds(s := Some tid)"])
      show "(held(s := next_sequence tid d)) s' = next_sequence x d" if "(holds(s := Some tid)) s' = Some x" for s' x
        using that Cons.prems(3) by (cases "s' = s") simp_all
    qed (use Cons.prems Select_Next in \<open>simp_all add: fun_upd_def\<close>)
    with Select_Next show ?thesis by (simp add: append_run_def)
  next
    case (Insert_Event s eid now tid ty p)
    let ?d = "snd (event_insert eid now tid (held s) ty p d)"
    have "held s = next_sequence tid d" using Cons.prems Insert_Event by simp
    then have "well_sequenced ?d" using insert_next [OF Cons.prems(2)] by simp
    moreover have "held s' = next_sequence x ?d"
      if "(if holds s' = Some tid then None else holds s') = Some x" for s' x
      using that Cons.prems(3) by (auto simp: next_sequence_insert_other split: if_splits)
    ultimately show ?thesis
      using Cons.prems(1) Insert_Event Cons.IH [of "\<lambda>s'. if holds s' = Some tid then None else holds s'" ?d held]
      by (simp add: append_run_def)
  qed
qed (simp add: append_run_def)



text \<open>
  A torn append repeats a number: two sessions that append to one task, say a decision in the API
  and a checkpoint of a worker, both select the same number, and nothing in the store refuses the
  second row.
\<close>

lemma torn_appends_repeat_a_number:
  "map e_sequence (events_of ''T'' (snd (append_run
     [Select_Next 0 ''T'', Select_Next 1 ''T'', Insert_Event 0 ''e1'' 5 ''T'' Ev_TASK_CANCELLED [],
      Insert_Event 1 ''e2'' 6 ''T'' Ev_NODE_STARTED []] (held, empty_db)))) = [1, 1]"
  by (simp add: append_run_def next_sequence_def) (simp add: event_insert_def Let_def)

end
