(* ===== verification/Locks.thy ===== *)
theory Locks
  imports Store
begin

text \<open>
  Mutual exclusion between workers. \<open>lease_lock\<close> is the contract of \<open>infrastructure/locks/base.py\<close>
  (acquire, renew and release with a time to live); its client theorem says that at most one owner
  holds a live grant. The contract is met twice by the program: by the in-process lock manager
  (\<open>infrastructure/locks/memory_lock.py\<close>) and by the lease in the task row
  (\<open>TaskRepository.claim\<close>, \<open>renew_lease\<close>, \<open>release\<close>), the fast and the durable half of the guard.
  Every operation reads the clock at its start and may read it again when it writes, so it takes
  two readings; times are in microseconds.
\<close>

section \<open>The in-process lock manager\<close>

type_synonym lock_table = "pystr \<rightharpoonup> pystr \<times> int"

text \<open>\<open>_live\<close>: the live entry of a name; an expired entry is removed.\<close>

definition live_entry :: "int \<Rightarrow> pystr \<Rightarrow> lock_table \<Rightarrow> (pystr \<times> int) option \<times> lock_table" where
  "live_entry now name locks =
     (case locks name of
        None \<Rightarrow> (None, locks)
      | Some entry \<Rightarrow> if snd entry > now then (Some entry, locks) else (None, locks(name := None)))"

definition lock_acquire ::
  "int \<Rightarrow> int \<Rightarrow> pystr \<Rightarrow> int \<Rightarrow> pystr \<Rightarrow> lock_table \<Rightarrow> bool \<times> lock_table" where
  "lock_acquire now now' name ttl owner locks =
     (case live_entry now name locks of
        (Some _, locks') \<Rightarrow> (False, locks')
      | (None, locks') \<Rightarrow> (True, locks'(name \<mapsto> (owner, now' + ttl * 1000000))))"

definition lock_renew ::
  "int \<Rightarrow> int \<Rightarrow> pystr \<Rightarrow> int \<Rightarrow> pystr \<Rightarrow> lock_table \<Rightarrow> bool \<times> lock_table" where
  "lock_renew now now' name ttl owner locks =
     (case live_entry now name locks of
        (None, locks') \<Rightarrow> (False, locks')
      | (Some entry, locks') \<Rightarrow>
          if fst entry \<noteq> owner then (False, locks')
          else (True, locks'(name \<mapsto> (owner, now' + ttl * 1000000))))"

definition lock_release :: "pystr \<Rightarrow> pystr \<Rightarrow> lock_table \<Rightarrow> lock_table" where
  "lock_release name owner locks =
     (case locks name of
        None \<Rightarrow> locks
      | Some entry \<Rightarrow> if fst entry = owner then locks(name := None) else locks)"

definition lock_holder :: "int \<Rightarrow> lock_table \<Rightarrow> pystr \<Rightarrow> pystr option" where
  "lock_holder now locks name =
     (case locks name of None \<Rightarrow> None | Some (owner, e) \<Rightarrow> if e > now then Some owner else None)"

section \<open>The lease of a task row\<close>

definition lease_acquire :: "int \<Rightarrow> int \<Rightarrow> pystr \<Rightarrow> int \<Rightarrow> pystr \<Rightarrow> db \<Rightarrow> bool \<times> db" where
  "lease_acquire now now' tid lease_seconds worker d =
     (let (row, d') = claim now tid worker lease_seconds d in (row \<noteq> None, d'))"

definition lease_holder :: "int \<Rightarrow> db \<Rightarrow> pystr \<Rightarrow> pystr option" where
  "lease_holder now d tid =
     (case task_get d tid of None \<Rightarrow> None
      | Some t \<Rightarrow> if lease_expired now t then None else t_locked_by t)"

section \<open>The contract\<close>

datatype ('n, 'w) lock_op =
    Acquire 'n int 'w
  | Renew 'n int 'w
  | Release 'n 'w

text \<open>
  A run of operations, each with its two clock readings. The second component is what the owners
  know: a successful acquire or renew at time \<open>t\<close> is a grant until \<open>t + ttl\<close>, a release ends it.
\<close>

type_synonym ('n, 'w) grants = "'n \<times> 'w \<Rightarrow> int option"

fun lock_step ::
  "(int \<Rightarrow> int \<Rightarrow> 'n \<Rightarrow> int \<Rightarrow> 'w \<Rightarrow> 's \<Rightarrow> bool \<times> 's) \<Rightarrow> (int \<Rightarrow> int \<Rightarrow> 'n \<Rightarrow> int \<Rightarrow> 'w \<Rightarrow> 's \<Rightarrow> bool \<times> 's)
     \<Rightarrow> (int \<Rightarrow> 'n \<Rightarrow> 'w \<Rightarrow> 's \<Rightarrow> 's) \<Rightarrow> int \<times> int \<times> ('n, 'w) lock_op
     \<Rightarrow> 's \<times> ('n, 'w) grants \<Rightarrow> 's \<times> ('n, 'w) grants" where
  "lock_step acquire renew unlock (now, now', Acquire n ttl w) (s, g) =
     (let (b, s') = acquire now now' n ttl w s
      in (s', if b then g((n, w) \<mapsto> now + ttl * 1000000) else g))"
| "lock_step acquire renew unlock (now, now', Renew n ttl w) (s, g) =
     (let (b, s') = renew now now' n ttl w s
      in (s', if b then g((n, w) \<mapsto> now + ttl * 1000000) else g))"
| "lock_step acquire renew unlock (now, now', Release n w) (s, g) =
     (unlock now n w s, g((n, w) := None))"

definition live :: "('n, 'w) grants \<Rightarrow> int \<Rightarrow> 'n \<Rightarrow> 'w \<Rightarrow> bool" where
  "live g t n w \<longleftrightarrow> (case g (n, w) of None \<Rightarrow> False | Some e \<Rightarrow> t < e)"

text \<open>The clock readings of a run, in order, do not decrease.\<close>

fun ticks :: "int \<Rightarrow> (int \<times> int \<times> 'x) list \<Rightarrow> bool" where
  "ticks t [] \<longleftrightarrow> True"
| "ticks t ((now, now', x) # xs) \<longleftrightarrow> t \<le> now \<and> now \<le> now' \<and> ticks now' xs"

fun last_tick :: "int \<Rightarrow> (int \<times> int \<times> 'x) list \<Rightarrow> int" where
  "last_tick t [] = t"
| "last_tick t ((now, now', x) # xs) = last_tick now' xs"

locale lease_lock =
  fixes acquire :: "int \<Rightarrow> int \<Rightarrow> 'n \<Rightarrow> int \<Rightarrow> 'w \<Rightarrow> 's \<Rightarrow> bool \<times> 's"
    and renew :: "int \<Rightarrow> int \<Rightarrow> 'n \<Rightarrow> int \<Rightarrow> 'w \<Rightarrow> 's \<Rightarrow> bool \<times> 's"
    and unlock :: "int \<Rightarrow> 'n \<Rightarrow> 'w \<Rightarrow> 's \<Rightarrow> 's"
    and holder :: "int \<Rightarrow> 's \<Rightarrow> 'n \<Rightarrow> 'w option"
    and ok :: "'s \<Rightarrow> bool"
  assumes acquire_ok: "ok s \<Longrightarrow> ok (snd (acquire now now' n ttl w s))"
    and renew_ok: "ok s \<Longrightarrow> ok (snd (renew now now' n ttl w s))"
    and unlock_ok: "ok s \<Longrightarrow> ok (unlock now n w s)"
    and expires: "now \<le> t \<Longrightarrow> holder t s n = Some w \<Longrightarrow> holder now s n = Some w"
    and acquire_free: "ok s \<Longrightarrow> fst (acquire now now' n ttl w s) \<Longrightarrow> holder now s n = None"
    and acquire_grants: "ok s \<Longrightarrow> now \<le> now' \<Longrightarrow> fst (acquire now now' n ttl w s)
      \<Longrightarrow> t < now + ttl * 1000000 \<Longrightarrow> holder t (snd (acquire now now' n ttl w s)) n = Some w"
    and acquire_frame: "ok s \<Longrightarrow> m \<noteq> n \<or> \<not> fst (acquire now now' n ttl w s) \<Longrightarrow> now \<le> t
      \<Longrightarrow> holder t (snd (acquire now now' n ttl w s)) m = holder t s m"
    and renew_owner: "ok s \<Longrightarrow> holder now s n = Some v \<Longrightarrow> v \<noteq> w \<Longrightarrow> \<not> fst (renew now now' n ttl w s)"
    and renew_grants: "ok s \<Longrightarrow> now \<le> now' \<Longrightarrow> fst (renew now now' n ttl w s)
      \<Longrightarrow> t < now + ttl * 1000000 \<Longrightarrow> holder t (snd (renew now now' n ttl w s)) n = Some w"
    and renew_frame: "ok s \<Longrightarrow> m \<noteq> n \<or> \<not> fst (renew now now' n ttl w s) \<Longrightarrow> now \<le> t
      \<Longrightarrow> holder t (snd (renew now now' n ttl w s)) m = holder t s m"
    and unlock_frame: "ok s \<Longrightarrow> m \<noteq> n \<or> holder t s m \<noteq> Some w
      \<Longrightarrow> holder t (unlock now n w s) m = holder t s m"
begin

abbreviation step where "step \<equiv> lock_step acquire renew unlock"

text \<open>Every live grant is backed by the lock, at every time from \<open>now\<close> on.\<close>

definition backed :: "int \<Rightarrow> 's \<times> ('n \<times> 'w \<Rightarrow> int option) \<Rightarrow> bool" where
  "backed now sg \<longleftrightarrow> ok (fst sg) \<and>
     (\<forall>t n w. now \<le> t \<longrightarrow> live (snd sg) t n w \<longrightarrow> holder t (fst sg) n = Some w)"

lemma backed_later: "backed now sg \<Longrightarrow> now \<le> t \<Longrightarrow> backed t sg"
  by (simp add: backed_def)

lemma free_no_grant:
  assumes "backed now (s, g)" and "now \<le> t" and "holder now s n = None"
  shows "\<not> live g t n v"
  using assms expires [of now t s n v] by (auto simp: backed_def)

lemma grant_backed:
  assumes inv: "backed now (s, g)" and "ok s'" and "now \<le> now'"
    and own: "\<And>v. v \<noteq> w \<Longrightarrow> \<forall>t \<ge> now'. \<not> live g t n v"
    and grants: "\<And>t. t < e \<Longrightarrow> holder t s' n = Some w"
    and frame: "\<And>t m. m \<noteq> n \<Longrightarrow> now \<le> t \<Longrightarrow> holder t s' m = holder t s m"
  shows "backed now' (s', g((n, w) \<mapsto> e))"
  unfolding backed_def fst_conv snd_conv
proof (intro conjI allI impI)
  fix t m v assume t: "now' \<le> t" and l: "live (g((n, w) \<mapsto> e)) t m v"
  show "holder t s' m = Some v"
  proof (cases "m = n")
    case True
    with l t own [of v] have "v = w" by (auto simp: live_def split: if_splits)
    with True l show ?thesis by (auto simp: live_def intro: grants)
  next
    case False
    with l have "live g t m v" by (simp add: live_def)
    with False t inv \<open>now \<le> now'\<close> show ?thesis by (auto simp: backed_def frame)
  qed
qed (fact \<open>ok s'\<close>)

lemma step_backed:
  assumes "backed now (s, g)" and "now \<le> now'"
  shows "backed now' (step (now, now', x) (s, g))"
proof (cases x)
  case (Acquire n ttl w)
  have ok: "ok s" using assms by (simp add: backed_def)
  obtain b s' where a: "acquire now now' n ttl w s = (b, s')" by fastforce
  show ?thesis
  proof (cases b)
    case True
    have "backed now' (s', g((n, w) \<mapsto> now + ttl * 1000000))"
    proof (rule grant_backed [OF assms(1) _ assms(2)])
      show "ok s'" using acquire_ok [OF ok, of now now' n ttl w] a by simp
      show "\<forall>t \<ge> now'. \<not> live g t n v" for v
        using free_no_grant [OF assms(1)] acquire_free [OF ok, of now now' n ttl w] a True assms(2)
        by (metis fst_conv order_trans)
      show "t < now + ttl * 1000000 \<Longrightarrow> holder t s' n = Some w" for t
        using acquire_grants [OF ok assms(2), of n ttl w t] a True by simp
      show "m \<noteq> n \<Longrightarrow> now \<le> t \<Longrightarrow> holder t s' m = holder t s m" for t m
        using acquire_frame [OF ok, of m n now now' ttl w t] a by simp
    qed
    with Acquire a True show ?thesis by simp
  next
    case False
    with Acquire a assms acquire_ok [OF ok, of now now' n ttl w]
      acquire_frame [OF ok, of _ n now now' ttl w]
    show ?thesis by (auto simp: backed_def)
  qed
next
  case (Renew n ttl w)
  have ok: "ok s" using assms by (simp add: backed_def)
  obtain b s' where a: "renew now now' n ttl w s = (b, s')" by fastforce
  show ?thesis
  proof (cases b)
    case True
    have "backed now' (s', g((n, w) \<mapsto> now + ttl * 1000000))"
    proof (rule grant_backed [OF assms(1) _ assms(2)])
      show "ok s'" using renew_ok [OF ok, of now now' n ttl w] a by simp
      show "\<forall>t \<ge> now'. \<not> live g t n v" if "v \<noteq> w" for v
      proof (intro allI impI notI)
        fix t assume "now' \<le> t" "live g t n v"
        with assms have "holder now s n = Some v"
          using expires [of now t s n v] by (auto simp: backed_def)
        from renew_owner [OF ok this that, of now' ttl] a True show False by simp
      qed
      show "t < now + ttl * 1000000 \<Longrightarrow> holder t s' n = Some w" for t
        using renew_grants [OF ok assms(2), of n ttl w t] a True by simp
      show "m \<noteq> n \<Longrightarrow> now \<le> t \<Longrightarrow> holder t s' m = holder t s m" for t m
        using renew_frame [OF ok, of m n now now' ttl w t] a by simp
    qed
    with Renew a True show ?thesis by simp
  next
    case False
    with Renew a assms renew_ok [OF ok, of now now' n ttl w]
      renew_frame [OF ok, of _ n now now' ttl w]
    show ?thesis by (auto simp: backed_def)
  qed
next
  case (Release n w)
  have ok: "ok s" using assms by (simp add: backed_def)
  have "holder t (unlock now n w s) m = Some v"
    if "now' \<le> t" "live (g((n, w) := None)) t m v" for t m v
  proof -
    from that have "live g t m v" "(m, v) \<noteq> (n, w)" by (auto simp: live_def split: if_splits)
    with that assms have "holder t s m = Some v" by (auto simp: backed_def)
    with \<open>(m, v) \<noteq> (n, w)\<close> unlock_frame [OF ok, of m n t w now] show ?thesis by auto
  qed
  with Release unlock_ok [OF ok] show ?thesis by (simp add: backed_def)
qed

lemma run_backed: "backed t sg \<Longrightarrow> ticks t xs \<Longrightarrow> backed (last_tick t xs) (fold step xs sg)"
proof (induction t xs arbitrary: sg rule: ticks.induct)
  case (2 t now now' x xs)
  obtain s g where sg: "sg = (s, g)" by fastforce
  from 2 sg have "backed now' (step (now, now', x) sg)"
    using step_backed backed_later by (metis ticks.simps(2))
  with 2 show ?case by simp
qed simp

lemma mutual_exclusion:
  assumes "ok s" and "ticks t0 xs" and "last_tick t0 xs \<le> t"
    and "live (snd (fold step xs (s, \<lambda>_. None))) t n v"
    and "live (snd (fold step xs (s, \<lambda>_. None))) t n w"
  shows "v = w \<and> holder t (fst (fold step xs (s, \<lambda>_. None))) n = Some v"
proof -
  have "backed t0 (s, \<lambda>_. None)" using assms(1) by (simp add: backed_def live_def)
  then have "backed (last_tick t0 xs) (fold step xs (s, \<lambda>_. None))"
    using assms(2) by (rule run_backed)
  then show ?thesis using assms(3-5) unfolding backed_def by (metis option.inject)
qed

end

section \<open>Both halves meet the contract\<close>

interpretation memory_lock:
  lease_lock lock_acquire lock_renew "\<lambda>_. lock_release" lock_holder "\<lambda>_. True"
  by unfold_locales
    (auto simp: lock_acquire_def lock_renew_def lock_release_def lock_holder_def live_entry_def
      split: option.splits if_splits)

lemma lease_acquire_eq:
  assumes "ids_unique d"
  shows "lease_acquire now now' tid l w d =
    ((case task_get d tid of None \<Rightarrow> False | Some t \<Rightarrow> claimable now tid t),
     snd (claim now tid w l d))"
  using claim_iff [OF assms, of now tid w l]
  by (auto simp: lease_acquire_def split: prod.splits option.splits if_splits)

lemma renew_lease_eq:
  assumes "ids_unique d"
  shows "fst (renew_lease now now' tid w l d) =
    (case task_get d tid of None \<Rightarrow> False | Some t \<Rightarrow> held_by tid w t)"
  using assms task_get_unique [OF assms]
  by (force simp: renew_lease_def rowcount_def held_by_def filter_empty_conv
      dest: task_get_in split: option.splits)

lemma lease_expired_mono: "now \<le> t \<Longrightarrow> lease_expired now r \<Longrightarrow> lease_expired t r"
  by (auto simp: lease_expired_def split: option.splits)

lemma lease_holder_claim:
  assumes "now \<le> t"
  shows "lease_holder t (snd (claim now tid w l d)) x =
    (case task_get d x of None \<Rightarrow> None
     | Some r \<Rightarrow> if claimable now tid r
        then (if now + l * 1000000 < t then None else Some w) else lease_holder t d x)"
  by (auto simp: lease_holder_def lease_expired_def claim_values_def split: option.splits)

lemma lease_holder_renew:
  "lease_holder t (snd (renew_lease now now' tid w l d)) x =
    (case task_get d x of None \<Rightarrow> None
     | Some r \<Rightarrow> if held_by tid w r
        then (if now + l * 1000000 < t then None else Some w) else lease_holder t d x)"
  by (auto simp: lease_holder_def lease_expired_def held_by_def split: option.splits)

lemma lease_holder_release:
  "lease_holder t (release now tid w d) x =
    (case task_get d x of None \<Rightarrow> None
     | Some r \<Rightarrow> if held_by tid w r then None else lease_holder t d x)"
  by (auto simp: lease_holder_def lease_expired_def held_by_def split: option.splits)

interpretation task_lease:
  lease_lock lease_acquire "\<lambda>now now' tid l w. renew_lease now now' tid w l" release
    lease_holder ids_unique
proof unfold_locales
  fix d :: db and now now' l t :: int and n m w v :: pystr
  show "ids_unique d \<Longrightarrow> ids_unique (snd (lease_acquire now now' n l w d))"
    by (simp add: lease_acquire_eq ids_unique_steps)
  show "ids_unique d \<Longrightarrow> ids_unique (snd (renew_lease now now' n w l d))" by auto
  show "ids_unique d \<Longrightarrow> ids_unique (release now n w d)" by auto
  show "now \<le> t \<Longrightarrow> lease_holder t d n = Some w \<Longrightarrow> lease_holder now d n = Some w"
    by (auto simp: lease_holder_def lease_expired_mono split: option.splits if_splits)
  show "ids_unique d \<Longrightarrow> fst (lease_acquire now now' n l w d) \<Longrightarrow> lease_holder now d n = None"
    by (auto simp: lease_acquire_eq lease_holder_def claimable_def split: option.splits)
  show "ids_unique d \<Longrightarrow> now \<le> now' \<Longrightarrow> fst (lease_acquire now now' n l w d)
      \<Longrightarrow> t < now + l * 1000000 \<Longrightarrow> lease_holder t (snd (lease_acquire now now' n l w d)) n = Some w"
    by (auto simp: lease_acquire_eq lease_holder_def lease_expired_def claim_values_def
        split: option.splits)
  show "ids_unique d \<Longrightarrow> m \<noteq> n \<or> \<not> fst (lease_acquire now now' n l w d) \<Longrightarrow> now \<le> t
      \<Longrightarrow> lease_holder t (snd (lease_acquire now now' n l w d)) m = lease_holder t d m"
    using task_get_in [of d m] by (cases "task_get d m")
      (auto simp: lease_acquire_eq lease_holder_claim claimable_def lease_holder_def)
  show "ids_unique d \<Longrightarrow> lease_holder now d n = Some v \<Longrightarrow> v \<noteq> w
      \<Longrightarrow> \<not> fst (renew_lease now now' n w l d)"
    by (auto simp: renew_lease_eq lease_holder_def held_by_def split: option.splits if_splits)
  show "ids_unique d \<Longrightarrow> now \<le> now' \<Longrightarrow> fst (renew_lease now now' n w l d)
      \<Longrightarrow> t < now + l * 1000000 \<Longrightarrow> lease_holder t (snd (renew_lease now now' n w l d)) n = Some w"
    by (auto simp: renew_lease_eq lease_holder_renew split: option.splits)
  show "ids_unique d \<Longrightarrow> m \<noteq> n \<or> \<not> fst (renew_lease now now' n w l d) \<Longrightarrow> now \<le> t
      \<Longrightarrow> lease_holder t (snd (renew_lease now now' n w l d)) m = lease_holder t d m"
    using task_get_in [of d m] by (cases "task_get d m")
      (auto simp: renew_lease_eq lease_holder_renew held_by_def lease_holder_def)
  show "ids_unique d \<Longrightarrow> m \<noteq> n \<or> lease_holder t d m \<noteq> Some w
      \<Longrightarrow> lease_holder t (release now n w d) m = lease_holder t d m"
    using task_get_in [of d m] by (cases "task_get d m")
      (auto simp: lease_holder_release held_by_def lease_holder_def split: if_splits)
qed

text \<open>
  two workers never hold the same in-process lock. In any run of acquire, renew and release
  calls on the lock manager, with a clock that does not go back, two owners whose grants on a name
  are both live (acquired or renewed, not released, not past the time to live) are the same owner,
  and the lock table names that owner.
\<close>

theorem memory_lock_exclusive:
  assumes "ticks t0 xs" and "last_tick t0 xs \<le> t"
    and "(locks', g) = fold (lock_step lock_acquire lock_renew (\<lambda>_. lock_release)) xs (locks, \<lambda>_. None)"
    and "live g t n v" and "live g t n w"
  shows "v = w \<and> lock_holder t locks' n = Some v"
  using memory_lock.mutual_exclusion [OF TrueI assms(1,2), of locks n v w] assms(3-5)
  by (metis fst_conv snd_conv)

theorem memory_lock_exclusive_witness:
  "lock_holder 9 (fst (fold (lock_step lock_acquire lock_renew (\<lambda>_. lock_release))
     [(1, 2, Acquire ''task:T'' 1 ''w1''), (3, 3, Acquire ''task:T'' 1 ''w2'')]
     (\<lambda>_. None, \<lambda>_. None))) ''task:T'' = Some ''w1''"
  using memory_lock_exclusive [of 0
      "[(1, 2, Acquire ''task:T'' 1 ''w1''), (3, 3, Acquire ''task:T'' 1 ''w2'')]" 9
      _ _ "\<lambda>_. None" "''task:T''" "''w1''" "''w1''", OF _ _ prod.collapse]
  by (simp add: lock_acquire_def live_entry_def live_def)

section \<open>The lease among the other writes of the task table\<close>

text \<open>
  The rows that carry the leases are written by everything else the platform does: a checkpoint
  stores a state, a node or a person sets a status, a request creates a task. A terminal status
  clears the lease columns, so it ends the grant of whoever held the lease.
\<close>

datatype table_write =
    Lease_Op "(pystr, pystr) lock_op"
  | Set_Status pystr task_status "pystr option" "pystr option"
  | Save_State pystr agent_state
  | Create_Task pystr pystr "pystr option" pystr "pystr option" "pystr option"

abbreviation lease_op where
  "lease_op \<equiv> lock_step lease_acquire (\<lambda>now now' tid l w. renew_lease now now' tid w l) release"

definition revoke :: "pystr \<Rightarrow> (pystr, pystr) grants \<Rightarrow> (pystr, pystr) grants" where
  "revoke tid g = (\<lambda>(n, w). if n = tid then None else g (n, w))"

fun table_step :: "int \<times> int \<times> table_write \<Rightarrow> db \<times> (pystr, pystr) grants \<Rightarrow> db \<times> (pystr, pystr) grants" where
  "table_step (now, now', Lease_Op x) dg = lease_op (now, now', x) dg"
| "table_step (now, now', Set_Status tid st node err) (d, g) =
     (set_status now now' tid st node err d, if is_terminal st then revoke tid g else g)"
| "table_step (now, now', Save_State tid s) (d, g) = (save_state now tid s d, g)"
| "table_step (now, now', Create_Task tid url path issue created_by key) (d, g) =
     (case task_create tid now now' url path issue created_by key d of Inl _ \<Rightarrow> d | Inr (_, d') \<Rightarrow> d', g)"

lemma lease_holder_set_status:
  "lease_holder t (set_status now now' tid st node err d) x =
     (if x = tid \<and> is_terminal st then None else lease_holder t d x)"
  using task_get_in [of d x] by (cases "task_get d x") (auto simp: lease_holder_def lease_expired_def)

lemma lease_holder_save_state: "lease_holder t (save_state now tid s d) x = lease_holder t d x"
  by (cases "task_get d x") (simp_all add: lease_holder_def lease_expired_def save_state_values_def)

lemma lease_holder_create:
  assumes "task_create tid now now' url path issue created_by key d = Inr (r, d')"
  shows "lease_holder t d' x = lease_holder t d x"
proof -
  have "find p (xs @ [y]) = (case find p xs of None \<Rightarrow> if p y then Some y else None | Some z \<Rightarrow> Some z)"
    for p :: "task_row \<Rightarrow> bool" and xs y by (induction xs) auto
  then show ?thesis
    using assms by (auto simp: task_create_def Let_def lease_holder_def task_get_def lease_expired_def
        new_task_row_def split: if_splits option.splits)
qed

lemma table_step_backed:
  assumes "task_lease.backed now dg" and "now \<le> now'"
  shows "task_lease.backed now' (table_step (now, now', x) dg)"
proof -
  obtain d g where dg: "dg = (d, g)" by fastforce
  have ok: "ids_unique d" and held: "\<And>t n w. now \<le> t \<Longrightarrow> live g t n w \<Longrightarrow> lease_holder t d n = Some w"
    using assms(1) by (auto simp: task_lease.backed_def dg)
  show ?thesis
  proof (cases x)
    case (Lease_Op y)
    then show ?thesis using task_lease.step_backed [of now d g now' y] assms dg by simp
  next
    case (Set_Status tid st node err)
    then show ?thesis
      using ok held assms(2) dg
      by (auto simp: task_lease.backed_def lease_holder_set_status revoke_def live_def split: if_splits)
  next
    case (Save_State tid s)
    then show ?thesis
      using ok held assms(2) dg by (auto simp: task_lease.backed_def lease_holder_save_state)
  next
    case (Create_Task tid url path issue created_by key)
    then show ?thesis
      using ok held assms(2) dg
      by (auto simp: task_lease.backed_def lease_holder_create task_create_ids_unique split: sum.split)
  qed
qed

lemma table_run_backed:
  "task_lease.backed t dg \<Longrightarrow> ticks t xs \<Longrightarrow> task_lease.backed (last_tick t xs) (fold table_step xs dg)"
proof (induction t xs arbitrary: dg rule: ticks.induct)
  case (2 t now now' x xs)
  then have "task_lease.backed now dg" using task_lease.backed_later by simp
  with 2 table_step_backed [of now dg now' x] show ?case by simp
qed simp

text \<open>
  C12: two workers never hold the durable lease of the same task. In any run of the writes to the
  task table (\<open>claim\<close>, \<open>renew_lease\<close> and \<open>release\<close> of any workers, checkpoints, statuses and new tasks), with
  a clock that does not go back, two workers with live leases on a task are the same worker, and the
  row names it. A lease is live from its claim or last renewal until it runs out, is released, or the
  task is given a terminal status: that write clears the lease of a worker that may still be running,
  so what this excludes is a second holder of the lease, not a second execution of a task that was
  cancelled under its worker.
\<close>

theorem task_lease_exclusive:
  assumes "ids_unique d" and "ticks t0 xs" and "last_tick t0 xs \<le> t"
    and "(d', g) = fold table_step xs (d, \<lambda>_. None)"
    and "live g t tid v" and "live g t tid w"
  shows "v = w \<and> lease_holder t d' tid = Some v"
proof -
  have "task_lease.backed t0 (d, \<lambda>_. None)" using assms(1) by (simp add: task_lease.backed_def live_def)
  from table_run_backed [OF this assms(2)] have "task_lease.backed (last_tick t0 xs) (d', g)" by (simp add: assms(4))
  then show ?thesis using assms(3,5,6) unfolding task_lease.backed_def by (metis fst_conv option.inject snd_conv)
qed

text \<open>A worker claims, its checkpoint is stored, and the claim of a second worker is refused.\<close>

theorem task_lease_exclusive_witness:
  "lease_holder 9 (fst (fold table_step
     [(1, 2, Lease_Op (Acquire ''T'' 1 ''w1'')), (2, 2, Save_State ''T'' empty_state),
      (2, 2, Set_Status ''T'' TESTING (Some ''run_tests'') None), (3, 3, Lease_Op (Acquire ''T'' 1 ''w2''))]
     (empty_db\<lparr>db_tasks := [new_task_row ''T'' 0 0 ''u'' None ''i'' None None]\<rparr>, \<lambda>_. None)))
     ''T'' = Some ''w1''"
  using task_lease_exclusive [of
      "empty_db\<lparr>db_tasks := [new_task_row ''T'' 0 0 ''u'' None ''i'' None None]\<rparr>" 0
      "[(1, 2, Lease_Op (Acquire ''T'' 1 ''w1'')), (2, 2, Save_State ''T'' empty_state),
        (2, 2, Set_Status ''T'' TESTING (Some ''run_tests'') None), (3, 3, Lease_Op (Acquire ''T'' 1 ''w2''))]" 9
      _ _ "''T''" "''w1''" "''w1''", OF _ _ _ prod.collapse]
  by (simp add: lease_acquire_def claim_def rowcount_def claimable_def lease_expired_def set_status_def
      save_state_def save_state_values_def set_status_values_def is_terminal_def TERMINAL_STATUSES_def
      update_where_def claim_values_def task_get_def live_def ids_unique_def new_task_row_def)

text \<open>
  A task that is cancelled and then written by its worker's next checkpoint can be claimed by a
  second worker before the lease of the first has run out.
\<close>

lemma cancelled_lease_is_taken_over:
  "lease_holder 9 (fst (fold table_step
     [(1, 2, Lease_Op (Acquire ''T'' 1 ''w1'')), (3, 3, Set_Status ''T'' CANCELLED None None),
      (4, 4, Set_Status ''T'' TESTING (Some ''run_tests'') None), (5, 5, Lease_Op (Acquire ''T'' 1 ''w2''))]
     (empty_db\<lparr>db_tasks := [new_task_row ''T'' 0 0 ''u'' None ''i'' None None]\<rparr>, \<lambda>_. None)))
     ''T'' = Some ''w2''"
  by (simp add: lease_acquire_def claim_def rowcount_def claimable_def lease_expired_def set_status_def
      set_status_values_def is_terminal_def TERMINAL_STATUSES_def lease_holder_def
      update_where_def claim_values_def task_get_def new_task_row_def)

end
