(* ===== verification/Queue.thy ===== *)
theory Queue
  imports Prelude
begin

text \<open>
  The task queue (\<open>infrastructure/queue/base.py\<close>) and its in-process adapter
  (\<open>memory_queue.py\<close>). \<open>task_queue\<close> states the contract of the interface over the list of pending
  task ids: publish appends, receive takes the oldest, ack forgets the message, nack returns it to
  the queue. The client of the contract is the worker's handling of one message
  (\<open>WorkerConsumer.run_once\<close> and \<open>_handle\<close>), abstracted from what executing a task does.
\<close>

record queued_task =
  q_task_id :: pystr
  q_receipt :: "pystr option"
  q_attempt :: nat

record memory_queue =
  q_queue :: "pystr list"
  q_in_flight :: "pystr set"

definition empty_queue :: memory_queue where
  "empty_queue = \<lparr>q_queue = [], q_in_flight = {}\<rparr>"

definition queue_publish :: "pystr \<Rightarrow> memory_queue \<Rightarrow> memory_queue" where
  "queue_publish tid q = q\<lparr>q_queue := q_queue q @ [tid]\<rparr>"

text \<open>An empty queue is the timeout: no message arrives while the caller waits.\<close>

definition queue_receive :: "memory_queue \<Rightarrow> queued_task option \<times> memory_queue" where
  "queue_receive q =
     (case q_queue q of
        [] \<Rightarrow> (None, q)
      | tid # rest \<Rightarrow>
          (Some \<lparr>q_task_id = tid, q_receipt = Some tid, q_attempt = 1\<rparr>,
           q\<lparr>q_queue := rest, q_in_flight := insert tid (q_in_flight q)\<rparr>))"

definition queue_ack :: "queued_task \<Rightarrow> memory_queue \<Rightarrow> memory_queue" where
  "queue_ack item q = q\<lparr>q_in_flight := q_in_flight q - {q_task_id item}\<rparr>"

definition queue_nack :: "queued_task \<Rightarrow> memory_queue \<Rightarrow> memory_queue" where
  "queue_nack item q =
     q\<lparr>q_in_flight := q_in_flight q - {q_task_id item}, q_queue := q_queue q @ [q_task_id item]\<rparr>"

definition queue_depth :: "memory_queue \<Rightarrow> nat" where
  "queue_depth q = length (q_queue q)"

text \<open>
  A worker that handles \<open>n\<close> messages one after another: executing a task may fail, which returns the
  message to the queue. The log holds each handled id with the result.
\<close>

fun pump :: "('s \<Rightarrow> 'i option \<times> 's) \<Rightarrow> ('i \<Rightarrow> 's \<Rightarrow> 's) \<Rightarrow> ('i \<Rightarrow> 's \<Rightarrow> 's) \<Rightarrow> ('i \<Rightarrow> 'a)
    \<Rightarrow> ('a \<Rightarrow> 'e \<Rightarrow> bool \<times> 'e) \<Rightarrow> nat \<Rightarrow> 's \<Rightarrow> 'e \<Rightarrow> ('a \<times> bool) list \<times> 's \<times> 'e" where
  "pump receive ack nack key exec 0 s e = ([], s, e)"
| "pump receive ack nack key exec (Suc n) s e =
     (case receive s of
        (None, s') \<Rightarrow> ([], s', e)
      | (Some i, s') \<Rightarrow>
          (let (ok, e') = exec (key i) e;
               (log, s'', e'') =
                 pump receive ack nack key exec n (if ok then ack i s' else nack i s') e'
           in ((key i, ok) # log, s'', e'')))"

locale task_queue =
  fixes publish :: "'a \<Rightarrow> 's \<Rightarrow> 's"
    and receive :: "'s \<Rightarrow> 'i option \<times> 's"
    and ack :: "'i \<Rightarrow> 's \<Rightarrow> 's"
    and nack :: "'i \<Rightarrow> 's \<Rightarrow> 's"
    and key :: "'i \<Rightarrow> 'a"
    and pending :: "'s \<Rightarrow> 'a list"
  assumes publish_pending: "pending (publish x s) = pending s @ [x]"
    and receive_empty: "pending s = [] \<Longrightarrow> receive s = (None, s)"
    and receive_next: "pending s = x # xs \<Longrightarrow>
      \<exists>i s'. receive s = (Some i, s') \<and> key i = x \<and> pending s' = xs"
    and ack_pending: "pending (ack i s) = pending s"
    and nack_pending: "pending (nack i s) = pending s @ [key i]"
begin

abbreviation pump_queue where "pump_queue \<equiv> pump receive ack nack key"

lemma receive_cases:
  obtains (empty) "pending s = []" "receive s = (None, s)"
  | (item) x xs i s' where "pending s = x # xs" "receive s = (Some i, s')" "key i = x"
      "pending s' = xs"
  by (cases "pending s") (use receive_empty receive_next in blast)+

text \<open>No task is lost: what was pending has been executed or is still pending.\<close>

lemma pump_conserves:
  "pump_queue exec n s e = (log, s', e') \<Longrightarrow>
     mset (pending s) = mset (map fst (filter snd log)) + mset (pending s')"
proof (induction n arbitrary: s e log)
  case (Suc n)
  show ?case
  proof (cases s rule: receive_cases)
    case (item x xs i t)
    obtain ok f where x: "exec x e = (ok, f)" by fastforce
    obtain log1 where "pump_queue exec n (if ok then ack i t else nack i t) f = (log1, s', e')"
      and log: "log = (x, ok) # log1"
      using Suc.prems item x by (auto split: prod.splits)
    from Suc.IH [OF this(1)] log item show ?thesis
      by (cases ok) (simp_all add: ack_pending nack_pending)
  qed (use Suc.prems in simp)
qed simp

text \<open>First come, first served: one pass over the pending ids handles each of them in order.\<close>

lemma pump_fifo:
  "n \<le> length (pending s) \<Longrightarrow> pump_queue exec n s e = (log, s', e')
     \<Longrightarrow> map fst log = take n (pending s)"
proof (induction n arbitrary: s e log)
  case (Suc n)
  then show ?case
  proof (cases s rule: receive_cases)
    case (item x xs i t)
    obtain ok f where x: "exec x e = (ok, f)" by fastforce
    let ?t = "if ok then ack i t else nack i t"
    obtain log1 where p: "pump_queue exec n ?t f = (log1, s', e')"
      and log: "log = (x, ok) # log1"
      using Suc.prems item x by (auto split: prod.splits)
    have "n \<le> length (pending ?t)" and "take n (pending ?t) = take n xs"
      using Suc.prems item by (auto simp: ack_pending nack_pending)
    with Suc.IH [OF _ p] log item show ?thesis by simp
  qed simp
qed simp

end

interpretation mem_queue: task_queue queue_publish queue_receive queue_ack queue_nack q_task_id q_queue
  by unfold_locales
    (auto simp: queue_publish_def queue_receive_def queue_ack_def queue_nack_def)

text \<open>
  the queue loses no task and serves in order. A worker that handles \<open>n\<close> messages, each of which
  may fail, leaves every pending task either executed or pending again, and its first \<open>n\<close> deliveries
  are the first \<open>n\<close> pending tasks in publication order.
\<close>

theorem queue_no_loss_fifo:
  assumes "pump queue_receive queue_ack queue_nack q_task_id exec n q e = (log, q', e')"
  shows "mset (q_queue q) = mset (map fst (filter snd log)) + mset (q_queue q')
    \<and> (n \<le> queue_depth q \<longrightarrow> map fst log = take n (q_queue q))"
  using mem_queue.pump_conserves [OF assms] mem_queue.pump_fifo [OF _ assms]
  by (simp add: queue_depth_def)

theorem queue_no_loss_fifo_witness:
  "\<exists>log q' e'. pump queue_receive queue_ack queue_nack q_task_id (\<lambda>t (e::nat). (t = ''A'', Suc e)) 2
      (queue_publish ''B'' (queue_publish ''A'' empty_queue)) 0 = (log, q', e')
    \<and> log = [(''A'', True), (''B'', False)] \<and> mset (q_queue q') = {#''B''#}"
proof -
  let ?q = "queue_publish ''B'' (queue_publish ''A'' empty_queue)"
  let ?exec = "\<lambda>t (e::nat). (t = ''A'', Suc e)"
  have run: "pump queue_receive queue_ack queue_nack q_task_id ?exec 2 ?q 0 =
      ([(''A'', True), (''B'', False)], \<lparr>q_queue = [''B''], q_in_flight = {}\<rparr>, 2)"
    by (simp add: numeral_2_eq_2 queue_publish_def empty_queue_def queue_receive_def queue_ack_def
        queue_nack_def)
  with queue_no_loss_fifo [OF run] show ?thesis by simp
qed

end
