(* ===== verification/Filesystem.thy ===== *)
theory Filesystem
  imports Domain "HOL-Library.Sublist" "HOL-Library.AList"
begin

text \<open>
  POSIX paths as \<open>pathlib\<close> treats them, a file system with symbolic links, and the boundary check
  every tool path goes through (\<open>resolve_inside\<close> of \<open>tools/workspace.py\<close>). An absolute path is the
  list of its components, the file system an association list over absolute paths; files hold
  decoded text. \<open>Path.resolve\<close> follows links component by
  component; a chain of more than \<open>MAX_LINKS\<close> links is reported as a loop.
\<close>

type_synonym path = "pystr list"

datatype fs_entry =
    Dir
  | File pystr
  | Link pystr

type_synonym fs = "(path \<times> fs_entry) list"

definition path_parts :: "pystr \<Rightarrow> pystr list" where
  "path_parts s = filter (\<lambda>c. c \<noteq> [] \<and> c \<noteq> ''.'') (split_char (CHR ''/'') s)"

definition is_absolute :: "pystr \<Rightarrow> bool" where
  "is_absolute s = starts_with ''/'' s"

definition path_str :: "path \<Rightarrow> pystr" where
  "path_str p = ''/'' @ str_join ''/'' p"

text \<open>\<open>as_posix()\<close> of a relative path.\<close>

definition rel_str :: "pystr list \<Rightarrow> pystr" where
  "rel_str p = (if p = [] then ''.'' else str_join ''/'' p)"

definition MAX_LINKS :: nat where
  "MAX_LINKS = 1000"

definition loop_error :: "'a result" where
  "loop_error = Inl (OtherError ''RuntimeError'' ''Symlink loop'')"

text \<open>\<open>walk n f acc cs\<close> follows the components \<open>cs\<close> from the resolved directory \<open>acc\<close>.\<close>

function walk :: "nat \<Rightarrow> fs \<Rightarrow> path \<Rightarrow> pystr list \<Rightarrow> path result" where
  "walk n f acc [] = Inr acc"
| "walk n f acc (c # cs) =
     (if c = [] \<or> c = ''.'' then walk n f acc cs
      else if c = ''..'' then walk n f (butlast acc) cs
      else case map_of f (acc @ [c]) of
        Some (Link t) \<Rightarrow>
          if n = 0 then loop_error
          else walk (n - 1) f (if is_absolute t then [] else acc) (path_parts t @ cs)
      | _ \<Rightarrow> walk n f (acc @ [c]) cs)"
  by pat_completeness auto
termination
  by (relation "measures [\<lambda>(n, f, acc, cs). n, \<lambda>(n, f, acc, cs). length cs]") auto

definition resolve_path :: "fs \<Rightarrow> path \<Rightarrow> path result" where
  "resolve_path f p = walk MAX_LINKS f [] p"

text \<open>\<open>Path(s).resolve()\<close> for a string, relative to the directory \<open>cwd\<close>.\<close>

definition resolve_str :: "fs \<Rightarrow> path \<Rightarrow> pystr \<Rightarrow> path result" where
  "resolve_str f cwd s =
     (if CHR 0x00 \<in> set s then Inl (OtherError ''ValueError'' ''embedded null byte'')
      else if is_absolute s then resolve_path f (path_parts s)
      else resolve_path f (cwd @ path_parts s))"

definition resolve_inside :: "fs \<Rightarrow> path \<Rightarrow> pystr \<Rightarrow> path result" where
  "resolve_inside f root candidate =
     (case resolve_path f root of
        Inl e \<Rightarrow> Inl e
      | Inr r \<Rightarrow>
          (case resolve_str f r candidate of
             Inl e \<Rightarrow> Inl e
           | Inr target \<Rightarrow>
               if target \<noteq> r \<and> \<not> strict_prefix r target
               then Inl (WorkspaceViolationError (''path escapes workspace: '' @ candidate))
               else Inr target))"

text \<open>\<open>is_dir\<close>, \<open>is_file\<close> and \<open>exists\<close> follow links.\<close>

definition fs_lookup :: "fs \<Rightarrow> path \<Rightarrow> fs_entry option" where
  "fs_lookup f p = (case resolve_path f p of Inl _ \<Rightarrow> None
     | Inr q \<Rightarrow> if q = [] then Some Dir else map_of f q)"

definition fs_is_dir :: "fs \<Rightarrow> path \<Rightarrow> bool" where
  "fs_is_dir f p \<longleftrightarrow> fs_lookup f p = Some Dir"

definition fs_is_file :: "fs \<Rightarrow> path \<Rightarrow> bool" where
  "fs_is_file f p \<longleftrightarrow> (case fs_lookup f p of Some (File _) \<Rightarrow> True | _ \<Rightarrow> False)"

definition fs_exists :: "fs \<Rightarrow> path \<Rightarrow> bool" where
  "fs_exists f p \<longleftrightarrow> fs_lookup f p \<noteq> None"

definition fs_read :: "fs \<Rightarrow> path \<Rightarrow> pystr result" where
  "fs_read f p = (case fs_lookup f p of
       Some (File t) \<Rightarrow> Inr t
     | Some _ \<Rightarrow> Inl (OtherError ''IsADirectoryError'' (path_str p))
     | None \<Rightarrow> Inl (OtherError ''FileNotFoundError'' (path_str p)))"

text \<open>\<open>mkdir(parents=True, exist_ok=True)\<close>, from the root down, and \<open>write_text\<close>; both are applied
  to resolved paths only.\<close>

fun mkdir_from :: "path \<Rightarrow> pystr list \<Rightarrow> fs \<Rightarrow> fs result" where
  "mkdir_from p [] f = Inr f"
| "mkdir_from p (c # cs) f =
     (case map_of f (p @ [c]) of
        None \<Rightarrow> mkdir_from (p @ [c]) cs (AList.update (p @ [c]) Dir f)
      | Some Dir \<Rightarrow> mkdir_from (p @ [c]) cs f
      | Some _ \<Rightarrow> Inl (OtherError ''NotADirectoryError'' (path_str (p @ [c]))))"

definition fs_write :: "path \<Rightarrow> pystr \<Rightarrow> fs \<Rightarrow> fs result" where
  "fs_write p text f =
     (if butlast p \<noteq> [] \<and> map_of f (butlast p) \<noteq> Some Dir
      then Inl (OtherError ''FileNotFoundError'' (path_str p))
      else if p = [] \<or> map_of f p = Some Dir then Inl (OtherError ''IsADirectoryError'' (path_str p))
      else Inr (AList.update p (File text) f))"

section \<open>Resolved paths\<close>

text \<open>No directory on the way to a resolved path, nor the path itself, is a link.\<close>

definition link_free :: "fs \<Rightarrow> path \<Rightarrow> bool" where
  "link_free f p \<longleftrightarrow> (\<forall>q t. prefix q p \<longrightarrow> map_of f q \<noteq> Some (Link t) \<or> q = [])"

lemma link_free_Nil [simp]: "link_free f []"
  by (simp add: link_free_def)

lemma link_free_prefix: "link_free f p \<Longrightarrow> prefix q p \<Longrightarrow> link_free f q"
  by (meson link_free_def prefix_order.trans)

lemma link_free_butlast: "link_free f p \<Longrightarrow> link_free f (butlast p)"
  using link_free_prefix prefixeq_butlast by blast

lemma link_free_snoc:
  "link_free f (p @ [c]) \<longleftrightarrow> link_free f p \<and> (\<forall>t. map_of f (p @ [c]) \<noteq> Some (Link t))"
  by (auto simp: link_free_def)

text \<open>The shape of a resolved component: a real name.\<close>

definition real_name :: "pystr \<Rightarrow> bool" where
  "real_name c \<longleftrightarrow> c \<noteq> [] \<and> c \<noteq> ''.'' \<and> c \<noteq> ''..''"

lemma walk_link_free: "walk n f acc cs = Inr p \<Longrightarrow> link_free f acc \<Longrightarrow> link_free f p"
proof (induction n f acc cs rule: walk.induct)
  case (2 n f acc c cs)
  from "2.prems" show ?case
    by (auto split: if_splits option.splits fs_entry.splits simp: link_free_snoc loop_error_def
        intro: "2.IH" link_free_butlast)
qed simp

lemma walk_real_names:
  "walk n f acc cs = Inr p \<Longrightarrow> list_all real_name acc \<Longrightarrow> list_all real_name p"
proof (induction n f acc cs rule: walk.induct)
  case (2 n f acc c cs)
  have "list_all real_name (butlast acc)"
    using "2.prems"(2) by (auto simp: list_all_iff dest: in_set_butlastD)
  with "2.prems" show ?case
    by (auto split: if_splits option.splits fs_entry.splits
        simp: loop_error_def real_name_def [of c] intro: "2.IH")
qed simp

lemma walk_plain:
  assumes "link_free f (acc @ cs)" and "list_all real_name cs"
  shows "walk n f acc cs = Inr (acc @ cs)"
  using assms
proof (induction cs arbitrary: acc)
  case (Cons c cs)
  have "link_free f (acc @ [c])"
    using Cons.prems(1) by (rule link_free_prefix) simp
  with Cons show ?case
    by (auto simp: real_name_def link_free_snoc split: option.splits fs_entry.splits)
qed simp

text \<open>A path that is resolved resolves to itself.\<close>

definition resolved :: "fs \<Rightarrow> path \<Rightarrow> bool" where
  "resolved f p \<longleftrightarrow> link_free f p \<and> list_all real_name p"

lemma resolve_path_resolved: "resolve_path f p = Inr q \<Longrightarrow> resolved f q"
  unfolding resolve_path_def resolved_def
  using walk_link_free walk_real_names by (metis link_free_Nil list.pred_inject(1))

lemma resolve_path_id: "resolved f p \<Longrightarrow> resolve_path f p = Inr p"
  using walk_plain [of f "[]" p] by (simp add: resolve_path_def resolved_def)

lemma fs_lookup_resolved: "resolved f p \<Longrightarrow> fs_lookup f p = (if p = [] then Some Dir else map_of f p)"
  by (simp add: fs_lookup_def resolve_path_id)

lemma resolve_str_resolved: "resolve_str f d s = Inr p \<Longrightarrow> resolved f p"
  by (auto simp: resolve_str_def resolve_path_resolved split: if_splits)

lemma resolve_inside_cases:
  "resolve_inside f root candidate = Inr p \<Longrightarrow>
     \<exists>r. resolve_path f root = Inr r \<and> resolve_str f r candidate = Inr p \<and> prefix r p"
  by (auto simp: resolve_inside_def strict_prefix_def split: sum.splits if_splits)

text \<open>
  C28: the workspace boundary. A path that \<open>resolve_inside\<close> accepts lies under the real location of
  the root, is free of \<open>..\<close> components, and reaches its target without following any symbolic link,
  so that writing to it cannot leave the tree. It is refused as an escape only when it really does
  leave the tree; the other failures are a link loop or a null byte.
\<close>

theorem resolve_inside_contains:
  "case resolve_inside f root candidate of
     Inr p \<Rightarrow> (\<exists>r. resolve_path f root = Inr r \<and> prefix r p) \<and> resolved f p
   | Inl (WorkspaceViolationError m) \<Rightarrow>
       (\<exists>r p. resolve_path f root = Inr r \<and> resolve_str f r candidate = Inr p \<and> \<not> prefix r p)
   | Inl e \<Rightarrow> \<exists>c m. e = OtherError c m \<and> c \<in> {''RuntimeError'', ''ValueError''}"
proof (cases "resolve_inside f root candidate")
  case (Inl e)
  have err: "walk n f a cs = Inl e' \<Longrightarrow> \<exists>m. e' = OtherError ''RuntimeError'' m" for n a cs e'
    by (induction n f a cs rule: walk.induct)
       (auto simp: loop_error_def split: if_splits option.splits fs_entry.splits)
  then have res: "resolve_path f q = Inl e' \<Longrightarrow> \<exists>m. e' = OtherError ''RuntimeError'' m" for q e'
    by (simp add: resolve_path_def)
  from Inl show ?thesis
    by (auto simp: resolve_inside_def resolve_str_def strict_prefix_def
        split: sum.splits if_splits dest!: res)
next
  case (Inr p)
  then show ?thesis
    using resolve_inside_cases [OF Inr] by (auto dest: resolve_str_resolved)
qed

text \<open>
  Inside the tree a plain path means what it says. Below a resolved root, a relative path
  whose components are real names, with no link on the way, is accepted as the root followed by
  those components.
\<close>

theorem resolve_inside_plain:
  assumes "resolved f (root @ names)" and "names \<noteq> []"
    and "list_all (\<lambda>c. CHR ''/'' \<notin> set c \<and> CHR 0x00 \<notin> set c) names"
  shows "resolve_inside f root (str_join ''/'' names) = Inr (root @ names)"
proof -
  have names: "list_all real_name names" and root: "resolved f root"
    using assms(1) by (auto simp: resolved_def link_free_prefix)
  have "split_char (CHR ''/'') (str_join ''/'' names) = names"
    using assms(2,3) by (intro split_char_join) (auto simp: list_all_iff)
  then have parts: "path_parts (str_join ''/'' names) = names"
    using names by (auto simp: path_parts_def list_all_iff real_name_def intro!: filter_True)
  have "names = x # xs \<Longrightarrow> x \<noteq> [] \<and> hd x \<noteq> CHR ''/''" for x xs
    using names assms(3) by (cases x) (auto simp: real_name_def)
  then have "\<not> is_absolute (str_join ''/'' names)"
    using assms(2) by (cases "(''/'', names)" rule: str_join.cases)
      (auto simp: is_absolute_def starts_with_def neq_Nil_conv)
  moreover have "CHR 0x00 \<notin> set (str_join ''/'' names)"
    using assms(3) by (induction "''/''" names rule: str_join.induct) auto
  ultimately show ?thesis
    using root assms(1) parts
    by (simp add: resolve_inside_def resolve_str_def resolve_path_id strict_prefix_def)
qed

theorem resolve_inside_plain_witness:
  "resolve_inside [([''ws''], Dir)] [''ws''] ''src/a.py''
     = Inr [''ws'', ''src'', ''a.py'']"
  using resolve_inside_plain [of "[([''ws''], Dir)]" "[''ws'']"
      "[''src'', ''a.py'']"]
  by (simp add: resolved_def link_free_def real_name_def)

end
