(* ===== verification/Providers.thy ===== *)
theory Providers
  imports Json Effects Complex_Main
begin

text \<open>
  The provider interfaces: what a model returns (\<open>llm/base.py\<close>), a CI pipeline
  (\<open>providers/ci/base.py\<close>), a source-control host (\<open>providers/scm/base.py\<close>), and the requests and
  responses of the HTTP services behind them. The polling loop that waits for a CI run belongs to the
  interface and is modelled here over any status call and any monotonic clock.
\<close>

section \<open>Models\<close>

record usage =
  us_input_tokens :: int
  us_output_tokens :: int
  us_cache_read_tokens :: int
  us_cost_usd :: rat

definition no_usage :: usage where
  "no_usage = \<lparr>us_input_tokens = 0, us_output_tokens = 0, us_cache_read_tokens = 0, us_cost_usd = 0\<rparr>"

definition usage_merge :: "usage \<Rightarrow> usage \<Rightarrow> usage" where
  "usage_merge a b = \<lparr>
     us_input_tokens = us_input_tokens a + us_input_tokens b,
     us_output_tokens = us_output_tokens a + us_output_tokens b,
     us_cache_read_tokens = us_cache_read_tokens a + us_cache_read_tokens b,
     us_cost_usd = us_cost_usd a + us_cost_usd b\<rparr>"

record tool_spec =
  sp_name :: pystr
  sp_description :: pystr
  sp_input_schema :: json

definition tool_spec_dict :: "tool_spec \<Rightarrow> json" where
  "tool_spec_dict t = JObj [(''name'', JStr (sp_name t)), (''description'', JStr (sp_description t)),
     (''input_schema'', sp_input_schema t)]"

record tool_invocation =
  iv_id :: pystr
  iv_name :: pystr
  iv_arguments :: dict

record llm_response =
  rs_text :: pystr
  rs_tool_calls :: "tool_invocation list"
  rs_assistant_content :: json
  rs_stop_reason :: pystr
  rs_usage :: usage
  rs_parsed :: "dict option"

definition wants_tools :: "llm_response \<Rightarrow> bool" where
  "wants_tools r \<longleftrightarrow> rs_tool_calls r \<noteq> []"

record llm_request =
  rq_system :: pystr
  rq_messages :: "json list"
  rq_tools :: "tool_spec list"
  rq_json_schema :: "json option"

definition text_message :: "pystr \<Rightarrow> pystr \<Rightarrow> json" where
  "text_message role text = JObj [(''role'', JStr role),
     (''content'', JArr [JObj [(''type'', JStr ''text''), (''text'', JStr text)]])]"

definition tool_result_message :: "json list \<Rightarrow> json" where
  "tool_result_message results = JObj [(''role'', JStr ''user''), (''content'', JArr results)]"

definition tool_result_block :: "pystr \<Rightarrow> pystr \<Rightarrow> bool \<Rightarrow> json" where
  "tool_result_block tool_use_id content is_error =
     JObj ([(''type'', JStr ''tool_result''), (''tool_use_id'', JStr tool_use_id),
            (''content'', JStr content)] @ (if is_error then [(''is_error'', JBool True)] else []))"

lemma usage_merge_no_usage [simp]: "usage_merge no_usage u = u" "usage_merge u no_usage = u"
  by (simp_all add: usage_merge_def no_usage_def)

lemma usage_merge_assoc: "usage_merge (usage_merge a b) c = usage_merge a (usage_merge b c)"
  by (simp add: usage_merge_def)

section \<open>Source control\<close>

record pull_request =
  pr_id :: pystr
  pr_url :: pystr
  pr_title :: pystr
  pr_branch :: pystr
  pr_state :: pystr

section \<open>CI pipelines\<close>

datatype ci_status = CI_PENDING | CI_RUN | CI_PASS | CI_FAIL | CI_SKIP | CI_TIMEOUT

fun ci_status_value :: "ci_status \<Rightarrow> pystr" where
  "ci_status_value CI_PENDING = ''PENDING''"
| "ci_status_value CI_RUN = ''RUNNING''"
| "ci_status_value CI_PASS = ''PASSED''"
| "ci_status_value CI_FAIL = ''FAILED''"
| "ci_status_value CI_SKIP = ''SKIPPED''"
| "ci_status_value CI_TIMEOUT = ''TIMED_OUT''"

record ci_result =
  ci_id :: pystr
  ci_state :: ci_status
  ci_url :: pystr
  ci_logs :: pystr

definition ci_finished :: "ci_result \<Rightarrow> bool" where
  "ci_finished r \<longleftrightarrow> ci_state r \<in> {CI_PASS, CI_FAIL, CI_SKIP, CI_TIMEOUT}"

text \<open>
  \<open>wait\<close>, over the status call \<open>get_status\<close>. The monotonic clock is what remains until the deadline, in
  microseconds: \<open>spent\<close> gives the time since the clock was last accounted for, and the sleep between two
  polls takes the poll interval, whose default of ten seconds every caller uses.
\<close>

definition timed_out_run :: "pystr \<Rightarrow> pystr \<Rightarrow> ci_result" where
  "timed_out_run i url = \<lparr>ci_id = i, ci_state = CI_TIMEOUT, ci_url = url, ci_logs = []\<rparr>"

definition POLL_MICROSECONDS :: int where
  "POLL_MICROSECONDS = 10 * 1000000"

function ci_poll :: "('s, ci_result) eff \<Rightarrow> ('s, nat) eff \<Rightarrow> pystr \<Rightarrow> int \<Rightarrow> ('s, ci_result) eff" where
  "ci_poll get_status spent i remaining =
     mbind get_status (\<lambda>r.
     if ci_finished r then ret r
     else mbind spent (\<lambda>d.
       if remaining \<le> int d then ret (timed_out_run i (ci_url r))
       else ci_poll get_status spent i (remaining - int d - POLL_MICROSECONDS)))"
  by pat_completeness auto
termination
  by (relation "measure (\<lambda>(g, sp, i, remaining). nat remaining)") (auto simp: POLL_MICROSECONDS_def)

declare ci_poll.simps [simp del]

definition ci_wait :: "('s, ci_result) eff \<Rightarrow> ('s, nat) eff \<Rightarrow> pystr \<Rightarrow> int \<Rightarrow> ('s, ci_result) eff" where
  "ci_wait get_status spent i timeout_seconds = ci_poll get_status spent i (timeout_seconds * 1000000)"

section \<open>HTTP\<close>

record http_request =
  hq_method :: pystr
  hq_url :: pystr
  hq_params :: dict
  hq_json :: "json option"

text \<open>A response with its status and, when it is JSON, its body.\<close>

record http_response =
  hs_status :: int
  hs_body :: "json option"

section \<open>Waiting ends\<close>

text \<open>
  Along any relation between states that the status call and the clock respect, waiting stays in the
  relation, and what it returns is an answer of the status call on the way or the reported time-out.
\<close>

context effect_order
begin

lemma stays_ci_poll:
  assumes "stays R get_status" and "stays R spent"
  shows "stays R (ci_poll get_status spent i rem)"
  using assms
proof (induction get_status spent i rem rule: ci_poll.induct)
  case (1 get_status spent i rem)
  then show ?case
    by (subst ci_poll.simps) (auto intro!: stays_mbind stays_ret)
qed

lemma ci_poll_answer:
  assumes "stays R get_status" and "stays R spent" and "ci_poll get_status spent i rem s = (Inr r, t)"
  shows "(\<exists>u v. R s u \<and> get_status u = (Inr r, v) \<and> R v t \<and> ci_finished r) \<or> (\<exists>url. r = timed_out_run i url)"
  using assms
proof (induction get_status spent i rem arbitrary: s rule: ci_poll.induct)
  case (1 get_status spent i rem)
  note run = 1(4)
  from run obtain q u where q: "get_status s = (Inr q, u)"
    by (subst (asm) ci_poll.simps) (erule mbind_InrD)
  show ?case
  proof (cases "ci_finished q")
    case True
    with run q have "r = q" "t = u" by (subst (asm) ci_poll.simps, simp add: mbind_def)+
    with True q R_refl show ?thesis by blast
  next
    case False
    with run q obtain d v where d: "spent u = (Inr d, v)"
      and rest: "(if rem \<le> int d then ret (timed_out_run i (ci_url q))
        else ci_poll get_status spent i (rem - int d - POLL_MICROSECONDS)) v = (Inr r, t)"
      by (subst (asm) ci_poll.simps) (auto simp: mbind_def split: prod.splits sum.splits)
    have "R s v" using stays_D [OF 1(2) q] stays_D [OF 1(3) d] by (rule R_trans)
    show ?thesis
    proof (cases "rem \<le> int d")
      case False
      with rest 1(1) [OF \<open>\<not> ci_finished q\<close> False 1(2,3)] \<open>R s v\<close> show ?thesis
        by (simp, metis R_trans)
    qed (use rest in auto)
  qed
qed

end

interpretation any_states: effect_order "\<lambda>_ _. True"
  by unfold_locales simp_all

lemma ci_poll_result:
  assumes "ci_poll get_status spent i rem s = (Inr r, t)"
  shows "(\<exists>u v. get_status u = (Inr r, v) \<and> ci_finished r) \<or> (\<exists>url. r = timed_out_run i url)"
  using any_states.ci_poll_answer [OF _ _ assms] by (auto simp: stays_def)

lemma ci_poll_finished: "ci_poll get_status spent i rem s = (Inr r, t) \<Longrightarrow> ci_finished r"
  by (drule ci_poll_result) (auto simp: timed_out_run_def ci_finished_def)

text \<open>The number of polls is bounded by the time that is left.\<close>

lemma ci_poll_count:
  assumes "\<And>s. polls (snd (get_status s)) \<le> Suc (polls s)" and "\<And>s. polls (snd (spent s)) \<le> polls s"
    and "rem \<le> int n * POLL_MICROSECONDS"
  shows "polls (snd (ci_poll get_status spent i rem s)) \<le> polls s + Suc n"
  using assms(3)
proof (induction n arbitrary: rem s)
  case (Suc n)
  obtain r u where r: "get_status s = (r, u)" by fastforce
  obtain e v where e: "spent u = (e, v)" by fastforce
  have le: "polls u \<le> Suc (polls s)" "polls v \<le> polls u"
    using assms(1) [of s] assms(2) [of u] r e by simp_all
  have "polls (snd (ci_poll get_status spent i (rem - int d - POLL_MICROSECONDS) v)) \<le> polls s + Suc (Suc n)" for d
    using Suc.prems le Suc.IH [of "rem - int d - POLL_MICROSECONDS" v] by (simp add: algebra_simps)
  with r e le show ?case
    by (subst ci_poll.simps) (auto simp: mbind_def split: sum.split)
next
  case 0
  obtain r u where r: "get_status s = (r, u)" by fastforce
  obtain e v where e: "spent u = (e, v)" by fastforce
  have "polls u \<le> Suc (polls s)" "polls v \<le> polls u"
    using assms(1) [of s] assms(2) [of u] r e by simp_all
  with 0 r e show ?case
    by (subst ci_poll.simps) (auto simp: mbind_def split: sum.split)
qed

text \<open>
  waiting for a pipeline ends: whatever the service and the clock do, \<open>wait\<close> with its default timeout
  of 900 seconds makes at most 91 status calls and returns a finished run, which is an answer of the
  service or the run reported as TIMED_OUT, or raises.
\<close>

theorem ci_wait_ends:
  assumes "\<And>s. polls (snd (get_status s)) \<le> Suc (polls s)" and "\<And>s. polls (snd (spent s)) \<le> polls s"
  shows "case ci_wait get_status spent i 900 s of (r, t) \<Rightarrow>
     polls t \<le> polls s + 91
     \<and> (case r of
          Inl e \<Rightarrow> True
        | Inr q \<Rightarrow> ci_finished q \<and> ((\<exists>u v. get_status u = (Inr q, v)) \<or> (\<exists>url. q = timed_out_run i url)))"
proof -
  have "polls (snd (ci_wait get_status spent i 900 s)) \<le> polls s + Suc 90"
    unfolding ci_wait_def using assms by (intro ci_poll_count) (simp_all add: POLL_MICROSECONDS_def)
  then show ?thesis
    using ci_poll_result [of get_status spent i "900 * 1000000" s] ci_poll_finished [of get_status spent i "900 * 1000000" s]
    by (cases "ci_wait get_status spent i 900 s"; cases "fst (ci_wait get_status spent i 900 s)")
       (auto simp: ci_wait_def)
qed

text \<open>A service that never finishes a run, with a state that counts the calls.\<close>

theorem ci_wait_ends_witness:
  "case ci_wait (\<lambda>n. (Inr \<lparr>ci_id = ''7'', ci_state = CI_RUN, ci_url = '''', ci_logs = ''''\<rparr>, Suc n)) (ret 0) ''7'' 900 0
   of (r, t) \<Rightarrow> t \<le> (91 :: nat)"
  using ci_wait_ends [of "\<lambda>n :: nat. n" "\<lambda>n. (Inr \<lparr>ci_id = ''7'', ci_state = CI_RUN, ci_url = '''', ci_logs = ''''\<rparr>, Suc n)"
      "ret 0" 0 "''7''"]
  by (auto split: prod.splits)

end
