(* ===== verification/World.thy ===== *)
theory World
  imports Effects Store Locks Queue Filesystem Providers
begin

text \<open>
  The state of one worker process and what it touches: the store, the live event bus, the lock
  table, the queue, the file system, the registered workspaces, and the two mutable fields of the
  workflow context. What the program cannot compute (the clock, random identifiers, the outcome of
  a spawned process, the answers of the model, the responses of HTTP services,
  what \<open>re.compile\<close> makes of a pattern) comes from tapes of answers: each question reads the answer at the current position and moves the
  position on. Statements quantify over the tapes, so they hold for every behaviour of those
  services. The store is reliable: a transaction does not fail.

  The theory also holds the command runner (\<open>tools/runner.py\<close>), \<open>core/ids.py\<close> and \<open>core/time.py\<close>.
\<close>

section \<open>State\<close>

record workspace =
  ws_task_id :: pystr
  ws_path :: path
  ws_branch :: pystr
  ws_repository_path :: path

record bus_event =
  be_task_id :: pystr
  be_type :: event_type
  be_payload :: dict
  be_sequence :: nat
  be_id :: pystr
  be_timestamp :: int

text \<open>
  What became of a spawned process: it could not be started because the executable does not exist,
  or it ended with a return code, its decoded output, whether it was killed by the timeout, and its
  effect on the file system.
\<close>

datatype proc_outcome =
    No_Executable
  | Exited "int option" pystr pystr bool "fs \<Rightarrow> fs"

record answers =
  o_time :: "nat \<Rightarrow> int"
  o_uuid :: "nat \<Rightarrow> pystr"
  o_proc :: "nat \<Rightarrow> proc_outcome"
  o_llm :: "nat \<Rightarrow> llm_response result"
  o_http :: "nat \<Rightarrow> http_request \<Rightarrow> http_response result"
  o_spent :: "nat \<Rightarrow> nat"
  o_rg :: "nat \<Rightarrow> pystr list \<Rightarrow> path \<Rightarrow> (int \<times> pystr) option result"
  o_compile :: "pystr \<Rightarrow> pystr + (pystr \<Rightarrow> bool)"

record world =
  w_db :: db
  w_bus :: "bus_event list"
  w_locks :: lock_table
  w_queue :: memory_queue
  w_fs :: fs
  w_workspaces :: "pystr \<rightharpoonup> workspace"
  w_current_agent_run_id :: "pystr option"
  w_usage :: usage
  w_spawned :: "(pystr list \<times> path) list"
  w_requests :: "llm_request list"
  w_ci_runs :: "pystr \<rightharpoonup> ci_result"
  w_answers :: answers
  w_tick :: nat

type_synonym 'a io = "(world, 'a) eff"

record settings =
  max_agent_iterations :: int
  max_ci_iterations :: int
  task_lease_seconds :: int
  command_timeout_seconds :: int
  max_files_per_task :: int
  workspace_root :: path
  artifact_root :: path
  llm_provider :: pystr
  llm_script_path :: pystr
  scm_provider :: pystr
  ci_provider :: pystr
  github_token :: pystr
  github_repository :: pystr

text \<open>The defaults of \<open>core/config.py\<close>, with a workspace root and an artifact root.\<close>

definition default_settings :: settings where
  "default_settings = \<lparr>max_agent_iterations = 3, max_ci_iterations = 2, task_lease_seconds = 900,
     command_timeout_seconds = 600, max_files_per_task = 25, workspace_root = [''workspaces''],
     artifact_root = [''artifacts''], llm_provider = ''scripted'', llm_script_path = [],
     scm_provider = ''local'', ci_provider = ''none'', github_token = [], github_repository = []\<rparr>"

text \<open>A worker process that has just started, on a file system and with an empty store.\<close>

definition new_world :: "answers \<Rightarrow> fs \<Rightarrow> world" where
  "new_world a f = \<lparr>w_db = empty_db, w_bus = [], w_locks = (\<lambda>_. None), w_queue = empty_queue,
     w_fs = f, w_workspaces = (\<lambda>_. None), w_current_agent_run_id = None, w_usage = no_usage,
     w_spawned = [], w_requests = [], w_ci_runs = (\<lambda>_. None), w_answers = a, w_tick = 0\<rparr>"

text \<open>An environment for concrete runs: a clock that counts, no executables, a model that says
  nothing, and HTTP services that know nothing.\<close>

definition quiet_answers :: answers where
  "quiet_answers = \<lparr>
     o_time = (\<lambda>n. int n * 1000000),
     o_uuid = show_nat,
     o_proc = (\<lambda>_. No_Executable),
     o_llm = (\<lambda>_. Inr \<lparr>rs_text = '''', rs_tool_calls = [], rs_assistant_content = JNull,
        rs_stop_reason = ''end_turn'', rs_usage = no_usage, rs_parsed = None\<rparr>),
     o_http = (\<lambda>_ _. Inr \<lparr>hs_status = 404, hs_body = None\<rparr>),
     o_spent = (\<lambda>_. 0),
     o_rg = (\<lambda>_ _ _. Inr None),
     o_compile = (\<lambda>p. Inr (contains_sub p))\<rparr>"

section \<open>Questions to the environment\<close>

definition ask :: "(answers \<Rightarrow> nat \<Rightarrow> 'a) \<Rightarrow> 'a io" where
  "ask f w = (Inr (f (w_answers w) (w_tick w)), w\<lparr>w_tick := Suc (w_tick w)\<rparr>)"

definition ask_result :: "(answers \<Rightarrow> nat \<Rightarrow> 'a result) \<Rightarrow> 'a io" where
  "ask_result f = mbind (ask f) lift_result"

definition utcnow :: "int io" where
  "utcnow = ask o_time"

definition new_id :: "pystr \<Rightarrow> pystr io" where
  "new_id kind = mbind (ask o_uuid) (\<lambda>u. ret (kind @ ''-'' @ take 12 u))"

text \<open>
  A request of a client with a base address; the time the event loop has spent since the clock was last
  read, in microseconds.
\<close>

definition send_http :: "pystr \<Rightarrow> http_request \<Rightarrow> http_response io" where
  "send_http base q = mbind (ask o_http) (\<lambda>answer. lift_result (answer (q\<lparr>hq_url := base @ hq_url q\<rparr>)))"

definition time_spent :: "nat io" where
  "time_spent = ask o_spent"

definition run_id :: "pystr io" where
  "run_id = new_id ''run''"

definition event_id :: "pystr io" where
  "event_id = new_id ''evt''"

definition tool_call_id :: "pystr io" where
  "tool_call_id = new_id ''tc''"

section \<open>The command runner\<close>

definition ALLOWED_EXECUTABLES :: "pystr list" where
  "ALLOWED_EXECUTABLES = [''git'', ''dotnet'', ''npm'', ''node'', ''python'', ''ruff'', ''pytest'']"

definition MAX_OUTPUT_CHARS :: nat where
  "MAX_OUTPUT_CHARS = 200000"

record command_result =
  cm_command :: "pystr list"
  cm_cwd :: path
  cm_exit_code :: int
  cm_stdout :: pystr
  cm_stderr :: pystr
  cm_duration_ms :: int
  cm_timed_out :: bool

definition command_ok :: "command_result \<Rightarrow> bool" where
  "command_ok r \<longleftrightarrow> cm_exit_code r = 0 \<and> \<not> cm_timed_out r"

definition combined_output :: "command_result \<Rightarrow> pystr" where
  "combined_output r = str_strip (cm_stdout r @ [CHR 0x0A] @ cm_stderr r)"

definition last_n :: "nat \<Rightarrow> 'a list \<Rightarrow> 'a list" where
  "last_n n xs = drop (length xs - n) xs"

definition truncate_output :: "pystr \<Rightarrow> pystr" where
  "truncate_output text =
     (if length text \<le> MAX_OUTPUT_CHARS then text
      else let half = MAX_OUTPUT_CHARS div 2
        in take half text @ [CHR 0x0A] @ ''...['' @ show_nat (length text - MAX_OUTPUT_CHARS) @
           '' chars truncated]...'' @ [CHR 0x0A] @ last_n half text)"

text \<open>\<open>Path(s).stem\<close>: the last component without its last suffix.\<close>

definition path_name :: "pystr \<Rightarrow> pystr" where
  "path_name s = (case path_parts s of [] \<Rightarrow> [] | ps \<Rightarrow> last ps)"

definition path_stem :: "pystr \<Rightarrow> pystr" where
  "path_stem s =
     (let name = path_name s; ps = split_char (CHR ''.'') name; stem = str_join ''.'' (butlast ps)
      in if length ps < 2 \<or> stem = [] \<or> last ps = [] then name else stem)"

definition spawn :: "pystr list \<Rightarrow> path \<Rightarrow> proc_outcome io" where
  "spawn command cwd = mbind (ask o_proc) (\<lambda>p.
     case p of
       No_Executable \<Rightarrow> ret p
     | Exited code out err killed eff \<Rightarrow>
         mbind (modify (\<lambda>w. w\<lparr>w_spawned := w_spawned w @ [(command, cwd)], w_fs := eff (w_fs w)\<rparr>))
           (\<lambda>_. ret p))"

definition run_command :: "pystr list \<Rightarrow> path \<Rightarrow> command_result io" where
  "run_command command cwd =
     (case command of
        [] \<Rightarrow> raise (WorkspaceViolationError ''empty command'')
      | exe # _ \<Rightarrow>
          if str_lower (path_stem exe) \<notin> set ALLOWED_EXECUTABLES
          then raise (WorkspaceViolationError (''executable not allowed: '' @ exe))
          else mbind (gets w_fs) (\<lambda>f. mbind (lift_result (resolve_path f cwd)) (\<lambda>dir.
            if \<not> fs_is_dir f dir
            then raise (WorkspaceViolationError
                   (''working directory does not exist: '' @ path_str dir))
            else mbind (ask o_time) (\<lambda>started. mbind (spawn command dir) (\<lambda>p.
              case p of
                No_Executable \<Rightarrow>
                  raise (WorkspaceViolationError (''executable not found: '' @ exe))
              | Exited code out err killed eff \<Rightarrow> mbind (ask o_time) (\<lambda>ended. ret \<lparr>
                  cm_command = command, cm_cwd = dir, cm_exit_code = get_default (-1) code,
                  cm_stdout = truncate_output out, cm_stderr = truncate_output err,
                  cm_duration_ms = to_ms (ended - started), cm_timed_out = killed\<rparr>))))))"

section \<open>Truncation\<close>

lemma last_n_length [simp]: "length (last_n n xs) = min n (length xs)"
  by (simp add: last_n_def)

lemma show_nat_length: "length (show_nat n) \<le> Suc n"
proof (induction n rule: show_nat.induct)
  case (1 n)
  show ?case
  proof (cases "n < 10")
    case False
    with 1 have "length (show_nat (n div 10)) \<le> Suc (n div 10)" by simp
    with False show ?thesis by (subst show_nat.simps) simp
  qed (subst show_nat.simps, simp)
qed

section \<open>How a worker's state evolves\<close>

text \<open>
  \<open>evolves tid\<close> is what every computation done for the task \<open>tid\<close> respects: events, tool calls, file
  changes, CI runs and approvals are appended to, with rows of that task only; agent runs are
  appended for that task, and a row that was there keeps what was written when the run started and
  changes only when its primary key is the key of a run of that task; no other task's row changes, no task appears or
  disappears, the code index and the queue are not touched, and every process spawned runs an allowed executable.
\<close>

definition grows :: "('a \<Rightarrow> bool) \<Rightarrow> 'a list \<Rightarrow> 'a list \<Rightarrow> bool" where
  "grows p a b \<longleftrightarrow> (\<exists>xs. b = a @ xs \<and> list_all p xs)"

definition run_ids :: "pystr \<Rightarrow> agent_run list \<Rightarrow> pystr set" where
  "run_ids tid rs = ar_id ` {r \<in> set rs. ar_task_id r = tid}"

definition same_run :: "agent_run \<Rightarrow> agent_run \<Rightarrow> bool" where
  "same_run r r' \<longleftrightarrow> ar_id r' = ar_id r \<and> ar_task_id r' = ar_task_id r
     \<and> ar_workflow_run_id r' = ar_workflow_run_id r \<and> ar_node r' = ar_node r \<and> ar_agent r' = ar_agent r
     \<and> ar_iteration r' = ar_iteration r \<and> ar_started_at r' = ar_started_at r \<and> ar_created_at r' = ar_created_at r"

definition runs_evolve :: "pystr \<Rightarrow> agent_run list \<Rightarrow> agent_run list \<Rightarrow> bool" where
  "runs_evolve tid rs rs' \<longleftrightarrow> (\<exists>old new. rs' = old @ new \<and> list_all (\<lambda>r. ar_task_id r = tid) new
     \<and> list_all2 (\<lambda>r r'. same_run r r' \<and> (r' = r \<or> ar_id r \<in> run_ids tid rs')) rs old)"

definition allowed_command :: "pystr list \<times> path \<Rightarrow> bool" where
  "allowed_command c \<longleftrightarrow>
     (case fst c of [] \<Rightarrow> False | exe # _ \<Rightarrow> str_lower (path_stem exe) \<in> set ALLOWED_EXECUTABLES)"

definition db_evolves :: "pystr \<Rightarrow> db \<Rightarrow> db \<Rightarrow> bool" where
  "db_evolves tid d d' \<longleftrightarrow>
     map t_id (db_tasks d') = map t_id (db_tasks d)
     \<and> (\<forall>x. x \<noteq> tid \<longrightarrow> task_get d' x = task_get d x)
     \<and> db_idempotency d' = db_idempotency d \<and> db_evaluations d' = db_evaluations d
     \<and> db_repositories d' = db_repositories d \<and> db_code_chunks d' = db_code_chunks d
     \<and> grows (\<lambda>e. e_task_id e = tid) (db_events d) (db_events d')
     \<and> grows (\<lambda>c. tc_task_id c = tid) (db_tool_calls d) (db_tool_calls d')
     \<and> grows (\<lambda>c. fc_task_id c = tid) (db_file_changes d) (db_file_changes d')
     \<and> grows (\<lambda>r. cr_task_id r = tid) (db_ci_runs d) (db_ci_runs d')
     \<and> grows (\<lambda>a. ap_task_id a = tid) (db_approvals d) (db_approvals d')
     \<and> runs_evolve tid (db_agent_runs d) (db_agent_runs d')
     \<and> (well_sequenced d \<longrightarrow> well_sequenced d')"

definition evolves :: "pystr \<Rightarrow> world \<Rightarrow> world \<Rightarrow> bool" where
  "evolves tid w w' \<longleftrightarrow>
     w_answers w' = w_answers w \<and> w_tick w \<le> w_tick w' \<and> w_queue w' = w_queue w
     \<and> grows allowed_command (w_spawned w) (w_spawned w')
     \<and> db_evolves tid (w_db w) (w_db w')"

lemma grows_refl [simp]: "grows p a a"
  by (simp add: grows_def)

lemma grows_trans: "grows p a b \<Longrightarrow> grows p b c \<Longrightarrow> grows p a c"
  by (auto simp: grows_def)

lemma grows_snoc [simp]: "grows p a (a @ [x]) \<longleftrightarrow> p x"
  by (simp add: grows_def)

lemma same_run_refl [simp]: "same_run r r"
  by (simp add: same_run_def)

lemma same_run_trans: "same_run a b \<Longrightarrow> same_run b c \<Longrightarrow> same_run a c"
  by (simp add: same_run_def)

lemma runs_evolve_refl [simp]: "runs_evolve tid rs rs"
  unfolding runs_evolve_def by (intro exI [of _ rs] exI [of _ "[]"]) (simp add: list_all2_refl)

lemma runs_evolve_snoc [simp]: "ar_task_id r = tid \<Longrightarrow> runs_evolve tid rs (rs @ [r])"
  unfolding runs_evolve_def by (intro exI [of _ rs] exI [of _ "[r]"]) (simp add: list_all2_refl)

lemma list_all2_image: "list_all2 P xs ys \<Longrightarrow> (\<And>x y. P x y \<Longrightarrow> f y = f x) \<Longrightarrow> map f ys = map f xs"
  by (induction rule: list_all2_induct) auto

lemma run_ids_alt: "run_ids tid rs = {i. (i, tid) \<in> set (map (\<lambda>r. (ar_id r, ar_task_id r)) rs)}"
  by (auto simp: run_ids_def)

lemma run_ids_snoc: "run_ids tid (rs @ [r]) = run_ids tid rs \<union> (if ar_task_id r = tid then {ar_id r} else {})"
  by (auto simp: run_ids_def)

text \<open>A run that was started stays: its key remains a key of its task.\<close>

lemma run_ids_mono:
  assumes "runs_evolve tid rs rs'"
  shows "run_ids tid rs \<subseteq> run_ids tid rs'"
proof -
  obtain old new where rs': "rs' = old @ new"
    and old: "list_all2 (\<lambda>r r'. same_run r r' \<and> (r' = r \<or> ar_id r \<in> run_ids tid rs')) rs old"
    using assms unfolding runs_evolve_def by blast
  have m: "map (\<lambda>r. (ar_id r, ar_task_id r)) old = map (\<lambda>r. (ar_id r, ar_task_id r)) rs"
    by (rule list_all2_image [OF old]) (simp add: same_run_def)
  have "run_ids tid old = run_ids tid rs" by (simp only: run_ids_alt m)
  moreover have "run_ids tid old \<subseteq> run_ids tid rs'" by (auto simp: run_ids_def rs')
  ultimately show ?thesis by simp
qed

lemma runs_evolve_trans:
  assumes "runs_evolve tid a b" and "runs_evolve tid b c"
  shows "runs_evolve tid a c"
proof -
  obtain o1 n1 where b: "b = o1 @ n1" "list_all (\<lambda>r. ar_task_id r = tid) n1"
    and ab: "list_all2 (\<lambda>r r'. same_run r r' \<and> (r' = r \<or> ar_id r \<in> run_ids tid b)) a o1"
    using assms(1) unfolding runs_evolve_def by blast
  obtain o2 n2 where c: "c = o2 @ n2" "list_all (\<lambda>r. ar_task_id r = tid) n2"
    and bc: "list_all2 (\<lambda>r r'. same_run r r' \<and> (r' = r \<or> ar_id r \<in> run_ids tid c)) b o2"
    using assms(2) unfolding runs_evolve_def by blast
  obtain o3 n3 where o2: "o2 = o3 @ n3"
    and o3: "list_all2 (\<lambda>r r'. same_run r r' \<and> (r' = r \<or> ar_id r \<in> run_ids tid c)) o1 o3"
    and n3: "list_all2 (\<lambda>r r'. same_run r r' \<and> (r' = r \<or> ar_id r \<in> run_ids tid c)) n1 n3"
    using bc unfolding b(1) list_all2_append1 by blast
  have "list_all2 (\<lambda>r r'. same_run r r' \<and> (r' = r \<or> ar_id r \<in> run_ids tid c)) a o3"
    by (rule list_all2_trans [OF _ ab o3]) (use run_ids_mono [OF assms(2)] in \<open>auto simp: same_run_def\<close>)
  moreover have "map ar_task_id n3 = map ar_task_id n1"
    by (rule list_all2_image [OF n3]) (simp add: same_run_def)
  then have "ar_task_id ` set n3 = ar_task_id ` set n1" by (metis set_map)
  then have "list_all (\<lambda>r. ar_task_id r = tid) n3" using b(2) by (auto simp: list_all_iff)
  ultimately show ?thesis
    unfolding runs_evolve_def using c by (intro exI [of _ o3] exI [of _ "n3 @ n2"]) (simp add: o2)
qed

text \<open>Where the keys of the table are unique, the runs of every other task are as they were.\<close>

lemma runs_of_others:
  assumes "runs_evolve tid rs rs'" and "distinct (map ar_id rs')"
  shows "filter (\<lambda>r. ar_task_id r \<noteq> tid) rs' = filter (\<lambda>r. ar_task_id r \<noteq> tid) rs"
proof -
  obtain old new where rs': "rs' = old @ new" "list_all (\<lambda>r. ar_task_id r = tid) new"
    and old: "list_all2 (\<lambda>r r'. same_run r r' \<and> (r' = r \<or> ar_id r \<in> run_ids tid rs')) rs old"
    using assms(1) unfolding runs_evolve_def by blast
  have keep: "r' = r" if r: "r' \<in> set rs'" "same_run r r'" "r' = r \<or> ar_id r \<in> run_ids tid rs'" "ar_task_id r \<noteq> tid" for r r'
  proof (rule ccontr)
    assume "r' \<noteq> r"
    with r(3) obtain q where q: "q \<in> set rs'" "ar_task_id q = tid" "ar_id q = ar_id r'"
      using r(2) by (auto simp: run_ids_def same_run_def)
    with assms(2) r(1) have "q = r'" by (auto simp: distinct_map dest: inj_onD)
    with q(2) r(2,4) show False by (simp add: same_run_def)
  qed
  have "list_all2 (\<lambda>r r'. (ar_task_id r' = tid \<longleftrightarrow> ar_task_id r = tid) \<and> (ar_task_id r \<noteq> tid \<longrightarrow> r' = r)) rs old"
    unfolding list_all2_conv_all_nth
  proof (intro conjI allI impI)
    fix i assume i: "i < length rs"
    with old have o: "same_run (rs ! i) (old ! i)" "old ! i = rs ! i \<or> ar_id (rs ! i) \<in> run_ids tid rs'"
      by (simp_all add: list_all2_conv_all_nth)
    then show "(ar_task_id (old ! i) = tid) = (ar_task_id (rs ! i) = tid)" by (simp add: same_run_def)
    have "old ! i \<in> set rs'" using i list_all2_lengthD [OF old] by (simp add: rs'(1))
    then show "ar_task_id (rs ! i) \<noteq> tid \<Longrightarrow> old ! i = rs ! i" using keep o by blast
  qed (use list_all2_lengthD [OF old] in simp)
  then have "filter (\<lambda>r. ar_task_id r \<noteq> tid) old = filter (\<lambda>r. ar_task_id r \<noteq> tid) rs"
    by (induction rule: list_all2_induct) simp_all
  moreover have "filter (\<lambda>r. ar_task_id r \<noteq> tid) new = []"
    using rs'(2) by (auto simp: filter_empty_conv list_all_iff)
  ultimately show ?thesis by (simp add: rs'(1))
qed

lemma db_evolves_refl [simp]: "db_evolves tid d d"
  by (simp add: db_evolves_def)

lemma db_evolves_trans: "db_evolves tid a b \<Longrightarrow> db_evolves tid b c \<Longrightarrow> db_evolves tid a c"
  unfolding db_evolves_def by (elim conjE, intro conjI) (auto elim: grows_trans runs_evolve_trans)

lemma evolves_refl [simp]: "evolves tid w w"
  by (simp add: evolves_def)

lemma evolves_trans: "evolves tid a b \<Longrightarrow> evolves tid b c \<Longrightarrow> evolves tid a c"
  unfolding evolves_def by (metis grows_trans db_evolves_trans le_trans)

interpretation evo: effect_order "evolves tid" for tid
  by unfold_locales (auto intro: evolves_trans)

named_theorems evo_intros "computations that respect evolves"

lemmas [evo_intros] = evo.stays_rules

lemma evo_modify [evo_intros]:
  "(\<And>w. evolves tid w (f w)) \<Longrightarrow> stays (evolves tid) (modify f)"
  by (rule evo.stays_modify)

lemma evo_modify_db [evo_intros]:
  "(\<And>d. db_evolves tid d (f d)) \<Longrightarrow> stays (evolves tid) (modify (\<lambda>w. w\<lparr>w_db := f (w_db w)\<rparr>))"
  by (intro evo.stays_modify) (simp add: evolves_def)

lemma evo_ask [evo_intros]: "stays (evolves tid) (ask f)"
  by (simp add: stays_def ask_def evolves_def)

lemma evo_ask_result [evo_intros]: "stays (evolves tid) (ask_result f)"
  unfolding ask_result_def by (intro evo_intros)

lemma evo_ids [evo_intros]:
  "stays (evolves tid) utcnow" "stays (evolves tid) (new_id p)" "stays (evolves tid) run_id"
  "stays (evolves tid) event_id" "stays (evolves tid) tool_call_id"
  "stays (evolves tid) (send_http base q)" "stays (evolves tid) time_spent"
  unfolding send_http_def time_spent_def utcnow_def new_id_def run_id_def event_id_def tool_call_id_def by (intro evo_intros)+

lemma evo_spawn:
  "allowed_command (command, cwd) \<Longrightarrow> stays (evolves tid) (spawn command cwd)"
  unfolding spawn_def
  by (intro evo_intros, split proc_outcome.split, intro conjI allI impI)
     (auto intro!: evo_intros simp: evolves_def)

lemma evo_run_command [evo_intros]: "stays (evolves tid) (run_command command cwd)"
proof (cases command)
  case (Cons exe rest)
  show ?thesis
  proof (cases "str_lower (path_stem exe) \<in> set ALLOWED_EXECUTABLES")
    case True
    then have "stays (evolves tid) (spawn command dir)" for dir
      using Cons by (intro evo_spawn) (simp add: allowed_command_def)
    with True Cons show ?thesis
      unfolding run_command_def
      by (auto intro!: evo_intros split: proc_outcome.split)
  qed (use Cons in \<open>simp add: run_command_def evo_intros\<close>)
qed (simp add: run_command_def evo_intros)

end
