(* ===== verification/Difflib.thy ===== *)
theory Difflib
  imports Prelude
begin

text \<open>
  Line counts of an edit (\<open>_count_changes\<close> of \<open>tools/filesystem/apply_patch.py\<close>). The source counts the
  \<open>+\<close> and \<open>-\<close> lines of \<open>difflib.unified_diff(before, after, n=0)\<close>; the part of the standard library
  it relies on is \<open>SequenceMatcher\<close> with its popularity heuristic, modelled here: the longest
  matching block of a range, found by the table of match lengths, then the ranges to its left and
  to its right.
\<close>

text \<open>Positions of a line in \<open>b\<close>; lines that are too frequent in a long \<open>b\<close> are ignored.\<close>

definition b2j :: "pystr list \<Rightarrow> pystr \<Rightarrow> nat list" where
  "b2j b x =
     (let idxs = filter (\<lambda>j. b ! j = x) [0..<length b]
      in if length b \<ge> 200 \<and> length idxs > length b div 100 + 1 then [] else idxs)"

record matching =
  mt_i :: nat
  mt_j :: nat
  mt_size :: nat

text \<open>One row of the table: \<open>lens (Suc j)\<close> is the length of the match ending at \<open>j\<close>.\<close>

definition match_row ::
  "pystr list \<Rightarrow> nat \<Rightarrow> nat \<Rightarrow> nat \<Rightarrow> nat list \<Rightarrow> matching \<times> (nat \<Rightarrow> nat) \<Rightarrow> matching \<times> (nat \<Rightarrow> nat)"
  where
  "match_row b i blo bhi js st =
     fold (\<lambda>j (best, new).
       let k = (snd st) j + 1
       in (if k > mt_size best then \<lparr>mt_i = i + 1 - k, mt_j = j + 1 - k, mt_size = k\<rparr> else best,
           new(Suc j := k)))
       (filter (\<lambda>j. blo \<le> j \<and> j < bhi) js) (fst st, \<lambda>_. 0)"

fun match_rows ::
  "pystr list \<Rightarrow> pystr list \<Rightarrow> nat \<Rightarrow> nat \<Rightarrow> nat list \<Rightarrow> matching \<times> (nat \<Rightarrow> nat) \<Rightarrow> matching" where
  "match_rows a b blo bhi [] st = fst st"
| "match_rows a b blo bhi (i # rows) st =
     match_rows a b blo bhi rows (match_row b i blo bhi (b2j b (a ! i)) st)"

text \<open>Extension of the best match over equal neighbours.\<close>

fun extend_left :: "pystr list \<Rightarrow> pystr list \<Rightarrow> nat \<Rightarrow> nat \<Rightarrow> nat \<Rightarrow> nat \<Rightarrow> nat \<Rightarrow> matching" where
  "extend_left a b alo blo 0 j k = \<lparr>mt_i = 0, mt_j = j, mt_size = k\<rparr>"
| "extend_left a b alo blo (Suc i) j k =
     (if Suc i > alo \<and> j > blo \<and> a ! i = b ! (j - 1)
      then extend_left a b alo blo i (j - 1) (Suc k)
      else \<lparr>mt_i = Suc i, mt_j = j, mt_size = k\<rparr>)"

function extend_right :: "pystr list \<Rightarrow> pystr list \<Rightarrow> nat \<Rightarrow> nat \<Rightarrow> matching \<Rightarrow> matching" where
  "extend_right a b ahi bhi m =
     (if mt_i m + mt_size m < ahi \<and> mt_j m + mt_size m < bhi
         \<and> a ! (mt_i m + mt_size m) = b ! (mt_j m + mt_size m)
      then extend_right a b ahi bhi (m\<lparr>mt_size := Suc (mt_size m)\<rparr>) else m)"
  by pat_completeness auto
termination
  by (relation "measure (\<lambda>(a, b, ahi, bhi, m). ahi - (mt_i m + mt_size m))") auto

declare extend_right.simps [simp del]

definition find_longest_match ::
  "pystr list \<Rightarrow> pystr list \<Rightarrow> nat \<Rightarrow> nat \<Rightarrow> nat \<Rightarrow> nat \<Rightarrow> matching" where
  "find_longest_match a b alo ahi blo bhi =
     (let best = match_rows a b blo bhi [alo..<ahi]
            (\<lparr>mt_i = alo, mt_j = blo, mt_size = 0\<rparr>, \<lambda>_. 0);
          left = extend_left a b alo blo (mt_i best) (mt_j best) (mt_size best)
      in extend_right a b ahi bhi left)"

definition segment :: "'a list \<Rightarrow> nat \<Rightarrow> nat \<Rightarrow> 'a list" where
  "segment xs lo hi = take (hi - lo) (drop lo xs)"

text \<open>
  The lines of the two sides outside every matching block. The bounds in the guard always hold
  for a match of a range; they make the recursion well founded.
\<close>

function changed_lines ::
  "pystr list \<Rightarrow> pystr list \<Rightarrow> nat \<Rightarrow> nat \<Rightarrow> nat \<Rightarrow> nat \<Rightarrow> pystr list \<times> pystr list" where
  "changed_lines a b alo ahi blo bhi =
     (let m = find_longest_match a b alo ahi blo bhi; i = mt_i m; j = mt_j m; k = mt_size m
      in if k = 0 \<or> \<not> (alo \<le> i \<and> i + k \<le> ahi \<and> blo \<le> j \<and> j + k \<le> bhi)
         then (segment a alo ahi, segment b blo bhi)
         else let (r1, a1) = changed_lines a b alo i blo j;
                  (r2, a2) = changed_lines a b (i + k) ahi (j + k) bhi
              in (r1 @ r2, a1 @ a2))"
  by pat_completeness auto
termination
  by (relation "measure (\<lambda>(a, b, alo, ahi, blo, bhi). ahi - alo)") auto

declare changed_lines.simps [simp del]

text \<open>A \<open>+\<close> line that looks like a \<open>+++\<close> header is not counted, nor a \<open>-\<close> line like \<open>---\<close>.\<close>

definition count_changes :: "pystr \<Rightarrow> pystr \<Rightarrow> nat \<times> nat" where
  "count_changes original updated =
     (let a = str_splitlines original; b = str_splitlines updated;
          (removed, added) = changed_lines a b 0 (length a) 0 (length b)
      in (length (filter (\<lambda>l. \<not> starts_with ''++'' l) added),
          length (filter (\<lambda>l. \<not> starts_with ''--'' l) removed)))"

section \<open>The matches are real\<close>

definition valid_match :: "pystr list \<Rightarrow> pystr list \<Rightarrow> nat \<Rightarrow> nat \<Rightarrow> nat \<Rightarrow> nat \<Rightarrow> matching \<Rightarrow> bool" where
  "valid_match a b alo ahi blo bhi m \<longleftrightarrow>
     alo \<le> mt_i m \<and> mt_i m + mt_size m \<le> ahi \<and> blo \<le> mt_j m \<and> mt_j m + mt_size m \<le> bhi
     \<and> (\<forall>d < mt_size m. a ! (mt_i m + d) = b ! (mt_j m + d))"

text \<open>The table after the rows below \<open>i\<close>: every entry is the length of a real match.\<close>

definition valid_lens :: "pystr list \<Rightarrow> pystr list \<Rightarrow> nat \<Rightarrow> nat \<Rightarrow> nat \<Rightarrow> nat \<Rightarrow> (nat \<Rightarrow> nat) \<Rightarrow> bool" where
  "valid_lens a b alo blo bhi i lens \<longleftrightarrow> lens 0 = 0 \<and>
     (\<forall>j. lens (Suc j) > 0 \<longrightarrow> lens (Suc j) \<le> i - alo \<and> lens (Suc j) \<le> Suc j - blo \<and> j < bhi
        \<and> (\<forall>d < lens (Suc j). a ! (i - 1 - d) = b ! (j - d)))"

lemma valid_match_later:
  "valid_match a b alo i blo bhi m \<Longrightarrow> i \<le> i' \<Longrightarrow> valid_match a b alo i' blo bhi m"
  by (auto simp: valid_match_def)

lemma match_entry_valid:
  assumes "valid_lens a b alo blo bhi i lens" and "alo \<le> i" and "blo \<le> j" and "j < bhi"
    and "b ! j = a ! i"
  shows "lens j + 1 \<le> Suc i - alo \<and> lens j + 1 \<le> Suc j - blo
    \<and> (\<forall>d < lens j + 1. a ! (i - d) = b ! (j - d))"
proof (cases "lens j")
  case 0
  then show ?thesis using assms by auto
next
  case (Suc n)
  with assms(1) obtain j' where j: "j = Suc j'"
    by (cases j) (auto simp: valid_lens_def)
  with assms(1) Suc have v: "lens j \<le> i - alo" "lens j \<le> Suc j' - blo"
    "\<forall>d < lens j. a ! (i - 1 - d) = b ! (j' - d)"
    unfolding valid_lens_def by (metis zero_less_Suc)+
  have "a ! (i - d) = b ! (j - d)" if "d < lens j + 1" for d
    using v(3) j that assms(5) by (cases d) auto
  then show ?thesis using v(1,2) j assms(2,3) by auto
qed

lemma match_row_valid:
  assumes lens: "valid_lens a b alo blo bhi i (snd st)" and "alo \<le> i"
    and best: "valid_match a b alo i blo bhi (fst st)" and js: "\<forall>j \<in> set js. b ! j = a ! i"
  shows "valid_match a b alo (Suc i) blo bhi (fst (match_row b i blo bhi js st))
    \<and> valid_lens a b alo blo bhi (Suc i) (snd (match_row b i blo bhi js st))"
  unfolding match_row_def
proof (rule fold_invariant [where Q = "\<lambda>j. blo \<le> j \<and> j < bhi \<and> b ! j = a ! i"])
  show "j \<in> set (filter (\<lambda>j. blo \<le> j \<and> j < bhi) js) \<Longrightarrow> blo \<le> j \<and> j < bhi \<and> b ! j = a ! i" for j
    using js by auto
  show "valid_match a b alo (Suc i) blo bhi (fst (fst st, \<lambda>_. 0)) \<and>
      valid_lens a b alo blo bhi (Suc i) (snd (fst st, \<lambda>_. 0))"
    using valid_match_later [OF best, of "Suc i"] by (simp add: valid_lens_def)
next
  fix j and s :: "matching \<times> (nat \<Rightarrow> nat)"
  assume j: "blo \<le> j \<and> j < bhi \<and> b ! j = a ! i"
    and inv: "valid_match a b alo (Suc i) blo bhi (fst s) \<and> valid_lens a b alo blo bhi (Suc i) (snd s)"
  have k: "snd st j + 1 \<le> Suc i - alo" "snd st j + 1 \<le> Suc j - blo"
    "\<forall>d < snd st j + 1. a ! (i - d) = b ! (j - d)"
    using match_entry_valid [OF lens \<open>alo \<le> i\<close>, of j] j by blast+
  have "a ! (i + 1 - (snd st j + 1) + d) = b ! (j + 1 - (snd st j + 1) + d)"
    if "d < snd st j + 1" for d
  proof -
    have "a ! (i - (snd st j - d)) = b ! (j - (snd st j - d))"
      using k(3) by simp
    moreover have "i - (snd st j - d) = i + 1 - (snd st j + 1) + d"
      "j - (snd st j - d) = j + 1 - (snd st j + 1) + d"
      using that k(1,2) by auto
    ultimately show ?thesis by simp
  qed
  with k j inv \<open>alo \<le> i\<close> show
    "valid_match a b alo (Suc i) blo bhi (fst ((\<lambda>(best, new). let k = snd st j + 1
        in (if k > mt_size best then \<lparr>mt_i = i + 1 - k, mt_j = j + 1 - k, mt_size = k\<rparr> else best,
            new(Suc j := k))) s)) \<and>
     valid_lens a b alo blo bhi (Suc i) (snd ((\<lambda>(best, new). let k = snd st j + 1
        in (if k > mt_size best then \<lparr>mt_i = i + 1 - k, mt_j = j + 1 - k, mt_size = k\<rparr> else best,
            new(Suc j := k))) s))"
    by (cases s) (auto simp: Let_def valid_match_def valid_lens_def)
qed

lemma match_rows_valid:
  assumes "valid_match a b alo i blo bhi (fst st)" and "valid_lens a b alo blo bhi i (snd st)"
    and "alo \<le> i" and "i \<le> ahi"
  shows "valid_match a b alo ahi blo bhi (match_rows a b blo bhi [i..<ahi] st)"
  using assms
proof (induction "ahi - i" arbitrary: i st)
  case (Suc n)
  then have "[i..<ahi] = i # [Suc i..<ahi]" by (simp add: upt_conv_Cons)
  moreover have "\<forall>j \<in> set (b2j b (a ! i)). b ! j = a ! i" by (auto simp: b2j_def Let_def)
  ultimately show ?case
    using Suc match_row_valid [of a b alo blo bhi i st "b2j b (a ! i)"] by simp
qed simp

lemma extend_left_valid:
  "valid_match a b alo ahi blo bhi \<lparr>mt_i = i, mt_j = j, mt_size = k\<rparr> \<Longrightarrow>
     valid_match a b alo ahi blo bhi (extend_left a b alo blo i j k)"
proof (induction a b alo blo i j k rule: extend_left.induct)
  case (2 a b alo blo i j k)
  have "a ! (i + d) = b ! (j - 1 + d)"
    if "j > blo" "a ! i = b ! (j - 1)" "d < Suc k" for d
    using that "2.prems" by (cases d) (auto simp: valid_match_def)
  with 2 show ?case by (auto simp: valid_match_def)
qed simp

lemma extend_right_valid:
  "valid_match a b alo ahi blo bhi m \<Longrightarrow> valid_match a b alo ahi blo bhi (extend_right a b ahi bhi m)"
proof (induction a b ahi bhi m rule: extend_right.induct)
  case (1 a b ahi bhi m)
  then show ?case
    by (subst extend_right.simps) (auto simp: valid_match_def less_Suc_eq)
qed

lemma find_longest_match_valid:
  assumes "alo \<le> ahi" and "blo \<le> bhi"
  shows "valid_match a b alo ahi blo bhi (find_longest_match a b alo ahi blo bhi)"
proof -
  have "valid_match a b alo ahi blo bhi (match_rows a b blo bhi [alo..<ahi]
      (\<lparr>mt_i = alo, mt_j = blo, mt_size = 0\<rparr>, \<lambda>_. 0))"
    using assms by (intro match_rows_valid) (simp_all add: valid_match_def valid_lens_def)
  then have "valid_match a b alo ahi blo bhi \<lparr>mt_i = mt_i m, mt_j = mt_j m, mt_size = mt_size m\<rparr>"
    if "m = match_rows a b blo bhi [alo..<ahi] (\<lparr>mt_i = alo, mt_j = blo, mt_size = 0\<rparr>, \<lambda>_. 0)" for m
    using that by (simp add: valid_match_def)
  then show ?thesis
    unfolding find_longest_match_def Let_def
    by (intro extend_right_valid extend_left_valid) simp
qed

text \<open>So the guard of the recursion holds whenever there is a match at all.\<close>

lemma changed_lines_unfold:
  assumes "alo \<le> ahi" and "blo \<le> bhi" and "m = find_longest_match a b alo ahi blo bhi"
  shows "changed_lines a b alo ahi blo bhi =
    (if mt_size m = 0 then (segment a alo ahi, segment b blo bhi)
     else let (r1, a1) = changed_lines a b alo (mt_i m) blo (mt_j m);
              (r2, a2) = changed_lines a b (mt_i m + mt_size m) ahi (mt_j m + mt_size m) bhi
          in (r1 @ r2, a1 @ a2))"
  using find_longest_match_valid [OF assms(1,2), of a b]
  by (subst changed_lines.simps) (auto simp: Let_def valid_match_def assms(3))

section \<open>Counting\<close>

lemma length_segment: "hi \<le> length xs \<Longrightarrow> length (segment xs lo hi) = hi - lo"
  by (simp add: segment_def)

lemma set_segment: "set (segment xs lo hi) \<subseteq> set xs"
  unfolding segment_def by (meson order_trans set_drop_subset set_take_subset)

lemma changed_lines_spec:
  assumes "changed_lines a b alo ahi blo bhi = (r, ad)"
    and "ahi \<le> length a" and "bhi \<le> length b" and "alo \<le> ahi" and "blo \<le> bhi"
  shows "int (length ad) - int (length r) = int (bhi - blo) - int (ahi - alo)
    \<and> set r \<subseteq> set a \<and> set ad \<subseteq> set b"
  using assms
proof (induction "ahi - alo" arbitrary: alo ahi blo bhi r ad rule: less_induct)
  case less
  define m where "m = find_longest_match a b alo ahi blo bhi"
  note unfold = changed_lines_unfold [OF less.prems(4,5) m_def]
  show ?case
  proof (cases "mt_size m = 0")
    case True
    with less.prems unfold show ?thesis
      using set_segment [of a alo ahi] set_segment [of b blo bhi] by (auto simp: length_segment)
  next
    case False
    have v: "alo \<le> mt_i m" "mt_i m + mt_size m \<le> ahi" "blo \<le> mt_j m" "mt_j m + mt_size m \<le> bhi"
      using find_longest_match_valid [OF less.prems(4,5), of a b]
      by (auto simp: valid_match_def m_def)
    obtain r1 a1 where l: "changed_lines a b alo (mt_i m) blo (mt_j m) = (r1, a1)" by fastforce
    obtain r2 a2 where
      r: "changed_lines a b (mt_i m + mt_size m) ahi (mt_j m + mt_size m) bhi = (r2, a2)"
      by fastforce
    have eq: "r = r1 @ r2" "ad = a1 @ a2" using less.prems(1) unfold False l r by auto
    have "int (length a1) - int (length r1) = int (mt_j m - blo) - int (mt_i m - alo)
        \<and> set r1 \<subseteq> set a \<and> set a1 \<subseteq> set b"
      using v False less.prems by (intro less.hyps [OF _ l]) auto
    moreover have "int (length a2) - int (length r2) =
        int (bhi - (mt_j m + mt_size m)) - int (ahi - (mt_i m + mt_size m))
        \<and> set r2 \<subseteq> set a \<and> set a2 \<subseteq> set b"
      using v False less.prems by (intro less.hyps [OF _ r]) auto
    ultimately show ?thesis using v eq by auto
  qed
qed

text \<open>
  The line counts of an edit balance. When no changed line starts with \<open>++\<close> or \<open>--\<close>, the lines
  counted as added minus the lines counted as removed are the growth of the file in lines.
\<close>

theorem count_changes_balance:
  assumes "count_changes original updated = (added, removed)"
    and "list_all (\<lambda>l. \<not> starts_with ''--'' l) (str_splitlines original)"
    and "list_all (\<lambda>l. \<not> starts_with ''++'' l) (str_splitlines updated)"
  shows "int added - int removed =
    int (length (str_splitlines updated)) - int (length (str_splitlines original))"
proof -
  let ?a = "str_splitlines original" and ?b = "str_splitlines updated"
  obtain r ad where c: "changed_lines ?a ?b 0 (length ?a) 0 (length ?b) = (r, ad)" by fastforce
  note spec = changed_lines_spec [OF c]
  then have "filter (\<lambda>l. \<not> starts_with ''++'' l) ad = ad" "filter (\<lambda>l. \<not> starts_with ''--'' l) r = r"
    using assms(2,3) by (auto simp: list_all_iff intro!: filter_True)
  with assms(1) c spec show ?thesis by (auto simp: count_changes_def)
qed

theorem count_changes_balance_witness:
  "count_changes ''a'' (''a'' @ [CHR 0x0A] @ ''b'') = (1, 0) \<and> int 1 - int 0 =
    int (length (str_splitlines (''a'' @ [CHR 0x0A] @ ''b''))) - int (length (str_splitlines ''a''))"
proof -
  have c: "count_changes ''a'' (''a'' @ [CHR 0x0A] @ ''b'') = (1, 0)"
    by code_simp
  with count_changes_balance [OF c] show ?thesis
    by (simp add: str_splitlines_def starts_with_def is_line_break_def in_ranges_def)
qed

end
