(* ===== verification/Tools_Fs.thy ===== *)
theory Tools_Fs
  imports World Difflib
begin

text \<open>
  The tool contract (\<open>tools/base.py\<close>) and the file-system tools (\<open>tools/filesystem\<close>): \<open>read_file\<close>,
  \<open>list_directory\<close>, and the only two tools that change files, \<open>apply_patch\<close> and \<open>create_file\<close>. A
  tool takes its context and the arguments of the call as a JSON object. A missing argument or one
  of the wrong type raises \<open>TypeError\<close>, at the call. \<open>read_text\<close> translates every line ending to a
  line feed; \<open>write_text\<close> with \<open>newline=""\<close> writes what it is given.
\<close>

section \<open>Contract\<close>

record tool_context =
  tx_task_id :: pystr
  tx_repository_path :: path
  tx_workspace :: "workspace option"
  tx_iteration :: int
  tx_agent_run_id :: "pystr option"
  tx_write_allowed :: bool

definition tx_root :: "tool_context \<Rightarrow> path" where
  "tx_root tx = (case tx_workspace tx of None \<Rightarrow> tx_repository_path tx | Some ws \<Rightarrow> ws_path ws)"

record tool_result =
  tr_ok :: bool
  tr_content :: pystr
  tr_data :: dict
  tr_exit_code :: "int option"
  tr_duration_ms :: "int option"

definition tool_success :: "pystr \<Rightarrow> dict \<Rightarrow> tool_result" where
  "tool_success content data =
     \<lparr>tr_ok = True, tr_content = content, tr_data = data, tr_exit_code = None, tr_duration_ms = None\<rparr>"

definition tool_failure :: "pystr \<Rightarrow> tool_result" where
  "tool_failure content =
     \<lparr>tr_ok = False, tr_content = content, tr_data = [], tr_exit_code = None, tr_duration_ms = None\<rparr>"

text \<open>\<open>context.relative(path)\<close>.\<close>

definition tx_relative :: "fs \<Rightarrow> tool_context \<Rightarrow> path \<Rightarrow> pystr result" where
  "tx_relative f tx p =
     (case resolve_path f p of
        Inl e \<Rightarrow> Inl e
      | Inr q \<Rightarrow> (case resolve_path f (tx_root tx) of
          Inl e \<Rightarrow> Inl e
        | Inr r \<Rightarrow> if prefix r q then Inr (rel_str (drop (length r) q))
                  else Inl (OtherError ''ValueError''
                    (path_str q @ '' is not in the subpath of '' @ path_str r))))"

text \<open>\<open>try: context.resolve(path) except WorkspaceViolationError as exc: return failure(str(exc))\<close>.\<close>

definition resolve_or_fail ::
  "tool_context \<Rightarrow> pystr \<Rightarrow> (path \<Rightarrow> tool_result io) \<Rightarrow> tool_result io" where
  "resolve_or_fail tx p k =
     mbind (gets (\<lambda>w. resolve_inside (w_fs w) (tx_root tx) p)) (\<lambda>r.
       case r of
         Inl e \<Rightarrow> (case e of WorkspaceViolationError m \<Rightarrow> ret (tool_failure m) | _ \<Rightarrow> raise e)
       | Inr target \<Rightarrow> k target)"

section \<open>Arguments\<close>

definition type_error :: "pystr \<Rightarrow> 'a result" where
  "type_error k = Inl (OtherError ''TypeError'' (''bad argument: '' @ k))"

definition need_str :: "dict \<Rightarrow> pystr \<Rightarrow> pystr result" where
  "need_str args k = (case dict_get args k of Some (JStr s) \<Rightarrow> Inr s | _ \<Rightarrow> type_error k)"

text \<open>An optional argument: absent and \<open>None\<close> are \<open>None\<close>.\<close>

definition opt_int :: "dict \<Rightarrow> pystr \<Rightarrow> int option result" where
  "opt_int args k = (case dict_get args k of
       None \<Rightarrow> Inr None | Some JNull \<Rightarrow> Inr None
     | Some (JInt i) \<Rightarrow> Inr (Some i) | Some (JBool b) \<Rightarrow> Inr (Some (if b then 1 else 0))
     | Some _ \<Rightarrow> type_error k)"

definition opt_str :: "dict \<Rightarrow> pystr \<Rightarrow> pystr option result" where
  "opt_str args k = (case dict_get args k of
       None \<Rightarrow> Inr None | Some JNull \<Rightarrow> Inr None | Some (JStr s) \<Rightarrow> Inr (Some s)
     | Some _ \<Rightarrow> type_error k)"

text \<open>\<open>x or d\<close> for an optional integer: zero is falsy.\<close>

definition int_or :: "int option \<Rightarrow> int \<Rightarrow> int" where
  "int_or x d = (case x of None \<Rightarrow> d | Some i \<Rightarrow> if i = 0 then d else i)"

text \<open>\<open>xs[lo:hi]\<close> for a non-negative lower and an arbitrary upper bound.\<close>

definition py_slice :: "'a list \<Rightarrow> nat \<Rightarrow> int \<Rightarrow> 'a list" where
  "py_slice xs lo hi =
     (let h = (if hi < 0 then nat (int (length xs) + hi) else nat hi) in drop lo (take h xs))"

definition rjust5 :: "pystr \<Rightarrow> pystr" where
  "rjust5 s = replicate (5 - length s) (CHR '' '') @ s"

section \<open>\<open>read_file\<close>\<close>

definition READ_MAX_BYTES :: nat where
  "READ_MAX_BYTES = 200000"

fun universal_newlines :: "pystr \<Rightarrow> pystr" where
  "universal_newlines [] = []"
| "universal_newlines (c # cs) =
     (if c = CHR 0x0D
      then CHR 0x0A # (case cs of d # ds \<Rightarrow> if d = CHR 0x0A then universal_newlines ds
                                    else universal_newlines cs
                       | [] \<Rightarrow> [])
      else c # universal_newlines cs)"

definition read_text :: "path \<Rightarrow> pystr io" where
  "read_text p = mbind (gets (\<lambda>w. fs_read (w_fs w) p)) (\<lambda>r.
     mbind (lift_result r) (\<lambda>t. ret (universal_newlines t)))"

definition numbered_lines :: "int \<Rightarrow> pystr list \<Rightarrow> pystr" where
  "numbered_lines first ls =
     str_join [CHR 0x0A]
       (map (\<lambda>(n, l). rjust5 (show_int (first + int n)) @ ''  '' @ l) (zip [0..<length ls] ls))"

definition read_file :: "tool_context \<Rightarrow> dict \<Rightarrow> tool_result io" where
  "read_file tx args =
     mbind (lift_result (need_str args ''path'')) (\<lambda>p.
     mbind (lift_result (opt_int args ''start_line'')) (\<lambda>start_line.
     mbind (lift_result (opt_int args ''end_line'')) (\<lambda>end_line.
     resolve_or_fail tx p (\<lambda>target. mbind (gets w_fs) (\<lambda>f.
       if \<not> fs_is_file f target then ret (tool_failure (''file not found: '' @ p))
       else mbind (lift_result (fs_read f target)) (\<lambda>raw.
         let size = length (str_encode raw) in
         if size > READ_MAX_BYTES
         then ret (tool_failure
                (''file too large ('' @ show_nat size @ '' bytes); read a line range instead''))
         else
           let ls = str_splitlines (universal_newlines raw);
               first = max 1 (int_or start_line 1);
               upto = min (int (length ls)) (int_or end_line (int (length ls)));
               body = numbered_lines first (py_slice ls (nat (first - 1)) upto)
           in mbind (lift_result (tx_relative f tx target)) (\<lambda>rel.
                ret (tool_success (if body = [] then ''(empty selection)'' else body)
                  [(''path'', JStr rel), (''total_lines'', JInt (int (length ls)))]))))))))"

section \<open>\<open>list_directory\<close>\<close>

definition IGNORED :: "pystr list" where
  "IGNORED = [''.git'', ''bin'', ''obj'', ''node_modules'', ''.vs'', ''.idea'', ''__pycache__'', ''.next'']"

definition MAX_ENTRIES :: nat where
  "MAX_ENTRIES = 300"

definition fs_children :: "fs \<Rightarrow> path \<Rightarrow> path list" where
  "fs_children f d = filter (\<lambda>p. p \<noteq> [] \<and> butlast p = d) (remdups (map fst f))"

definition fs_descendants :: "fs \<Rightarrow> path \<Rightarrow> path list" where
  "fs_descendants f d = filter (strict_prefix d) (remdups (map fst f))"

fun list_entries :: "fs \<Rightarrow> tool_context \<Rightarrow> path list \<Rightarrow> pystr list \<Rightarrow> pystr list result" where
  "list_entries f tx [] acc = Inr acc"
| "list_entries f tx (p # ps) acc =
     (if \<exists>c \<in> set p. c \<in> set IGNORED then list_entries f tx ps acc
      else case tx_relative f tx p of
        Inl e \<Rightarrow> Inl e
      | Inr rel \<Rightarrow>
          let acc' = acc @ [if fs_is_dir f p then rel @ ''/'' else rel]
          in if length acc' \<ge> MAX_ENTRIES
             then Inr (acc' @ [''... truncated at '' @ show_nat MAX_ENTRIES @ '' entries''])
             else list_entries f tx ps acc')"

definition list_directory :: "tool_context \<Rightarrow> dict \<Rightarrow> tool_result io" where
  "list_directory tx args =
     mbind (lift_result (opt_str args ''path'')) (\<lambda>path_arg.
     let recursive = py_bool (get_default (JBool False) (dict_get args ''recursive''));
         p = get_default ''.'' path_arg in
     resolve_or_fail tx (if p = [] then ''.'' else p) (\<lambda>target. mbind (gets w_fs) (\<lambda>f.
       if \<not> fs_is_dir f target then ret (tool_failure (''not a directory: '' @ p))
       else mbind (lift_result (list_entries f tx
              (sort (if recursive then fs_descendants f target else fs_children f target)) []))
            (\<lambda>entries. ret (tool_success
               (if entries = [] then ''(empty)'' else str_join [CHR 0x0A] entries)
               [(''count'', JInt (int (length entries)))])))))"

section \<open>\<open>apply_patch\<close> and \<open>create_file\<close>\<close>

text \<open>What \<open>apply_patch\<close> does to the text of the file: replace the anchor if it occurs exactly once.\<close>

definition patch_text :: "pystr \<Rightarrow> pystr \<Rightarrow> pystr \<Rightarrow> pystr \<Rightarrow> pystr + pystr" where
  "patch_text p original old_text new_text =
     (let occurrences = str_count old_text original in
      if occurrences = 0
      then Inl (''old_text not found in '' @ p @
             ''. Read the file again and copy the exact text.'')
      else if occurrences > 1
      then Inl (''old_text appears '' @ show_nat occurrences @ '' times in '' @ p @
             ''; include more surrounding context so the anchor is unique.'')
      else Inr (str_replace_first old_text new_text original))"

definition write_text :: "path \<Rightarrow> pystr \<Rightarrow> unit io" where
  "write_text p text =
     mbind (gets (\<lambda>w. fs_write p text (w_fs w))) (\<lambda>r.
     mbind (lift_result r) (\<lambda>f. modify (\<lambda>w. w\<lparr>w_fs := f\<rparr>)))"

definition mkdir_parents :: "path \<Rightarrow> unit io" where
  "mkdir_parents p =
     mbind (gets (\<lambda>w. mkdir_from [] p (w_fs w))) (\<lambda>r.
     mbind (lift_result r) (\<lambda>f. modify (\<lambda>w. w\<lparr>w_fs := f\<rparr>)))"

definition apply_patch :: "tool_context \<Rightarrow> dict \<Rightarrow> tool_result io" where
  "apply_patch tx args =
     mbind (lift_result (need_str args ''path'')) (\<lambda>p.
     mbind (lift_result (need_str args ''old_text'')) (\<lambda>old_text.
     mbind (lift_result (need_str args ''new_text'')) (\<lambda>new_text.
     if \<not> tx_write_allowed tx
     then ret (tool_failure ''writes are not permitted for this task (policy)'')
     else resolve_or_fail tx p (\<lambda>target. mbind (gets w_fs) (\<lambda>f.
       if \<not> fs_is_file f target then ret (tool_failure (''file not found: '' @ p))
       else if old_text = new_text
       then ret (tool_failure ''old_text and new_text are identical - nothing to do'')
       else mbind (read_text target) (\<lambda>original.
         case patch_text p original old_text new_text of
           Inl message \<Rightarrow> ret (tool_failure message)
         | Inr updated \<Rightarrow>
             mbind (write_text target updated) (\<lambda>_.
             let (added, removed) = count_changes original updated in
             mbind (gets (\<lambda>w. tx_relative (w_fs w) tx target)) (\<lambda>r. mbind (lift_result r) (\<lambda>rel.
             ret (tool_success
               (''patched '' @ rel @ '' (+'' @ show_nat added @ ''/-'' @ show_nat removed @ '')'')
               [(''path'', JStr rel), (''change_type'', JStr ''MODIFIED''),
                (''lines_added'', JInt (int added)), (''lines_removed'', JInt (int removed))]))))))))))"

definition create_file :: "tool_context \<Rightarrow> dict \<Rightarrow> tool_result io" where
  "create_file tx args =
     mbind (lift_result (need_str args ''path'')) (\<lambda>p.
     mbind (lift_result (need_str args ''content'')) (\<lambda>content.
     if \<not> tx_write_allowed tx
     then ret (tool_failure ''writes are not permitted for this task (policy)'')
     else resolve_or_fail tx p (\<lambda>target. mbind (gets w_fs) (\<lambda>f.
       if fs_exists f target then ret (tool_failure (p @ '' already exists - use apply_patch''))
       else mbind (mkdir_parents (butlast target)) (\<lambda>_.
         mbind (write_text target content) (\<lambda>_.
         let n = length (str_splitlines content) in
         mbind (gets (\<lambda>w. tx_relative (w_fs w) tx target)) (\<lambda>r. mbind (lift_result r) (\<lambda>rel.
         ret (tool_success (''created '' @ rel @ '' ('' @ show_nat n @ '' lines)'')
           [(''path'', JStr rel), (''change_type'', JStr ''ADDED''),
            (''lines_added'', JInt (int n)), (''lines_removed'', JInt 0)]))))))))) "

section \<open>Writes and links\<close>

text \<open>Resolution depends on the links only.\<close>

definition same_links :: "fs \<Rightarrow> fs \<Rightarrow> bool" where
  "same_links f g \<longleftrightarrow> (\<forall>q t. map_of f q = Some (Link t) \<longleftrightarrow> map_of g q = Some (Link t))"

lemma same_links_case:
  assumes "same_links f g"
  shows "(case map_of f q of Some (Link t) \<Rightarrow> x t | _ \<Rightarrow> y) =
    (case map_of g q of Some (Link t) \<Rightarrow> x t | _ \<Rightarrow> y)"
proof (cases "\<exists>t. map_of f q = Some (Link t)")
  case True
  then obtain t where "map_of f q = Some (Link t)" by blast
  moreover from this have "map_of g q = Some (Link t)" using assms by (simp add: same_links_def)
  ultimately show ?thesis by simp
next
  case False
  with assms have "\<forall>t. map_of g q \<noteq> Some (Link t)" by (auto simp: same_links_def)
  with False show ?thesis by (auto split: option.splits fs_entry.splits)
qed

lemma walk_same_links: "same_links f g \<Longrightarrow> walk n f acc cs = walk n g acc cs"
proof (induction n f acc cs rule: walk.induct)
  case (2 n f acc c cs)
  show ?case
    unfolding walk.simps same_links_case [OF "2.prems", symmetric]
    using "2.IH" "2.prems" by (simp split: option.split fs_entry.split)
qed simp

lemma resolve_same_links: "same_links f g \<Longrightarrow> resolve_path f p = resolve_path g p"
  by (simp add: resolve_path_def walk_same_links)

lemma tx_relative_same_links: "same_links f g \<Longrightarrow> tx_relative f tx p = tx_relative g tx p"
  by (simp add: tx_relative_def resolve_same_links [of f g] split: sum.split)

lemma tx_relative_inside:
  assumes "resolve_inside f (tx_root tx) p = Inr target"
  shows "\<exists>rel. tx_relative f tx target = Inr rel"
proof -
  obtain r where r: "resolve_path f (tx_root tx) = Inr r" "resolve_str f r p = Inr target"
    "prefix r target"
    using resolve_inside_cases [OF assms] by auto
  then have "resolve_path f target = Inr target"
    by (simp add: resolve_path_id resolve_str_resolved)
  with r show ?thesis by (simp add: tx_relative_def)
qed

lemma resolve_inside_resolved: "resolve_inside f rt p = Inr t \<Longrightarrow> resolved f t"
  using resolve_inside_cases resolve_str_resolved by blast

lemma same_links_update:
  "\<forall>t. map_of f p \<noteq> Some (Link t) \<Longrightarrow> \<forall>t. e \<noteq> Link t \<Longrightarrow> same_links f (AList.update p e f)"
  by (auto simp: same_links_def update_conv')

section \<open>\<open>apply_patch\<close> is all or nothing\<close>

lemma patch_text_cases:
  assumes "patch_text p original old_text new_text = Inr updated"
  obtains pre post where "original = pre @ old_text @ post" and "updated = pre @ new_text @ post"
    and "str_count old_text original = 1"
proof -
  have c: "str_count old_text original = 1"
    and u: "updated = str_replace_first old_text new_text original"
    using assms by (auto simp: patch_text_def Let_def split: if_splits)
  then have "contains_sub old_text original"
    using str_count_zero_iff [of old_text original] by simp
  then obtain pre post where "original = pre @ old_text @ post"
    "str_replace_first old_text new_text original = pre @ new_text @ post"
    by (rule str_replace_first_split)
  with c u that show ?thesis by blast
qed

lemma fs_write_cases:
  "fs_write p t f = Inr g \<Longrightarrow> g = AList.update p (File t) f"
  by (auto simp: fs_write_def split: if_splits)

lemma resolved_file_cases:
  assumes "resolved f p" and "fs_is_file f p"
  obtains raw where "map_of f p = Some (File raw)" and "fs_read f p = Inr raw" and "p \<noteq> []"
  using assms
  by (auto simp: fs_is_file_def fs_read_def fs_lookup_resolved split: if_splits option.splits fs_entry.splits)

text \<open>The last part of \<open>apply_patch\<close>, once the new text is known.\<close>

lemma write_then_report:
  assumes "resolve_inside (w_fs w) (tx_root tx) p = Inr target"
    and "map_of (w_fs w) target = Some (File raw)"
  shows "(\<exists>e. write_text target updated w = (Inl e, w)) \<or>
    (\<exists>rel. write_text target updated w =
        (Inr (), w\<lparr>w_fs := AList.update target (File updated) (w_fs w)\<rparr>)
      \<and> tx_relative (AList.update target (File updated) (w_fs w)) tx target = Inr rel)"
proof (cases "fs_write target updated (w_fs w)")
  case (Inr g)
  then have g: "g = AList.update target (File updated) (w_fs w)" by (rule fs_write_cases)
  have "same_links (w_fs w) g" using assms(2) unfolding g by (intro same_links_update) auto
  then have "\<exists>rel. tx_relative g tx target = Inr rel"
    using tx_relative_inside [OF assms(1)] tx_relative_same_links by metis
  with Inr g show ?thesis by (auto simp: write_text_def mbind_def)
qed (auto simp: write_text_def mbind_def)

lemma apply_patch_effect:
  "case apply_patch tx args w of
     (Inr res, w') \<Rightarrow>
       if tr_ok res
       then \<exists>p old new target raw pre post.
         need_str args ''path'' = Inr p \<and> need_str args ''old_text'' = Inr old
         \<and> need_str args ''new_text'' = Inr new \<and> old \<noteq> new \<and> tx_write_allowed tx
         \<and> resolve_inside (w_fs w) (tx_root tx) p = Inr target
         \<and> map_of (w_fs w) target = Some (File raw)
         \<and> universal_newlines raw = pre @ old @ post
         \<and> str_count old (universal_newlines raw) = 1
         \<and> w' = w\<lparr>w_fs := AList.update target (File (pre @ new @ post)) (w_fs w)\<rparr>
       else w' = w
   | (Inl e, w') \<Rightarrow> w' = w"
proof (cases "need_str args ''path''")
  case (Inr p)
  note path = Inr
  show ?thesis
  proof (cases "need_str args ''old_text''")
    case (Inr old)
    note old = Inr
    show ?thesis
    proof (cases "need_str args ''new_text''")
      case (Inr new)
      note run = apply_patch_def mbind_def resolve_or_fail_def path old Inr
      show ?thesis
      proof (cases "tx_write_allowed tx \<and> old \<noteq> new")
        case True
        show ?thesis
        proof (cases "resolve_inside (w_fs w) (tx_root tx) p")
          case (Inl e)
          then show ?thesis using True by (cases e) (simp_all add: run tool_failure_def)
        next
          case (Inr target)
          show ?thesis
          proof (cases "fs_is_file (w_fs w) target")
            case True': True
            obtain raw where raw: "map_of (w_fs w) target = Some (File raw)"
              "fs_read (w_fs w) target = Inr raw" "target \<noteq> []"
              using resolved_file_cases [OF resolve_inside_resolved [OF Inr] True'] by blast
            show ?thesis
            proof (cases "patch_text p (universal_newlines raw) old new")
              case (Inl m)
              then show ?thesis
                using True True' Inr raw by (simp add: run read_text_def tool_failure_def)
            next
              case upd: (Inr updated)
              obtain pre post where pp: "universal_newlines raw = pre @ old @ post"
                "updated = pre @ new @ post" "str_count old (universal_newlines raw) = 1"
                using patch_text_cases [OF upd] by blast
              show ?thesis
                using write_then_report [OF Inr raw(1), of updated] True True' Inr raw upd pp path old
                  \<open>need_str args ''new_text'' = Inr new\<close>
                by (auto simp: run read_text_def tool_success_def split: prod.splits) blast
            qed
          next
            case False
            then show ?thesis using True Inr by (simp add: run tool_failure_def)
          qed
        qed
      next
        case False
        then show ?thesis
          by (auto simp: run tool_failure_def split: sum.splits py_error.splits)
      qed
    qed (simp add: apply_patch_def mbind_def path old)
  qed (simp add: apply_patch_def mbind_def path)
qed (simp add: apply_patch_def mbind_def)

section \<open>\<open>create_file\<close> only adds\<close>

lemma strict_prefix_step:
  assumes "strict_prefix p q" and "prefix q (p @ c # cs)"
  shows "prefix (p @ [c]) q"
  using assms by (auto simp: strict_prefix_def prefix_def append_eq_append_conv2 Cons_eq_append_conv)

lemma strict_prefix_snoc:
  "prefix (p @ [c]) q \<Longrightarrow> strict_prefix p q" "strict_prefix (p @ [c]) q \<Longrightarrow> strict_prefix p q"
  by (auto simp: strict_prefix_def prefix_def)

text \<open>Only directories on the way are added, and afterwards all of them are there.\<close>

lemma mkdir_from_adds:
  "mkdir_from p cs f = Inr g \<Longrightarrow> map_of g q \<noteq> map_of f q \<Longrightarrow>
     map_of f q = None \<and> map_of g q = Some Dir \<and> strict_prefix p q \<and> prefix q (p @ cs)"
proof (induction p cs f rule: mkdir_from.induct)
  case (2 p c cs f)
  show ?case
  proof (cases "map_of f (p @ [c])")
    case None
    show ?thesis
    proof (cases "map_of g q = map_of (AList.update (p @ [c]) Dir f) q")
      case True
      with None 2 show ?thesis
        by (auto simp: update_conv' strict_prefix_def split: if_splits)
    next
      case False
      with None 2 have "map_of (AList.update (p @ [c]) Dir f) q = None \<and> map_of g q = Some Dir
          \<and> strict_prefix (p @ [c]) q \<and> prefix q ((p @ [c]) @ cs)"
        by simp
      then show ?thesis
        by (auto simp: update_conv' split: if_splits intro: strict_prefix_snoc)
    qed
  next
    case (Some e)
    with 2 show ?thesis by (cases e) (auto intro: strict_prefix_snoc)
  qed
qed simp

lemma mkdir_from_dirs:
  "mkdir_from p cs f = Inr g \<Longrightarrow> strict_prefix p q \<Longrightarrow> prefix q (p @ cs) \<Longrightarrow> map_of g q = Some Dir"
proof (induction p cs f rule: mkdir_from.induct)
  case (2 p c cs f)
  have step: "q = p @ [c] \<or> strict_prefix (p @ [c]) q"
    using strict_prefix_step [OF "2.prems"(2,3)] by (auto simp: strict_prefix_def)
  show ?case
  proof (cases "map_of f (p @ [c])")
    case None
    with "2.prems" have g: "mkdir_from (p @ [c]) cs (AList.update (p @ [c]) Dir f) = Inr g" by simp
    have "map_of g (p @ [c]) = Some Dir"
      using mkdir_from_adds [OF g, of "p @ [c]"] by (auto simp: update_conv')
    with "2.IH"(1) [OF None g] step "2.prems" show ?thesis by auto
  next
    case (Some e)
    with "2.prems" have e: "e = Dir" and g: "mkdir_from (p @ [c]) cs f = Inr g" by (cases e; auto)+
    have "map_of g (p @ [c]) = Some Dir"
      using mkdir_from_adds [OF g, of "p @ [c]"] Some e by auto
    with "2.IH"(2) [OF Some e g] step "2.prems" show ?thesis by auto
  qed
qed (auto simp: strict_prefix_def dest: prefix_order.antisym)

lemma mkdir_from_links: "mkdir_from p cs f = Inr g \<Longrightarrow> same_links f g"
  unfolding same_links_def by (metis fs_entry.distinct(3) mkdir_from_adds option.inject option.simps(3))

text \<open>Creating a missing file under an existing root: directories first, then the file.\<close>

lemma mkdir_then_write:
  assumes "resolved (w_fs w) target" and "\<not> fs_exists (w_fs w) target"
    and "mkdir_from [] (butlast target) (w_fs w) = Inr g"
  shows "fs_write target content g = Inr (AList.update target (File content) g)"
    and "same_links (w_fs w) (AList.update target (File content) g)"
    and "map_of (w_fs w) target = None"
    and "q \<noteq> target \<Longrightarrow> map_of (AList.update target (File content) g) q \<noteq> map_of (w_fs w) q \<Longrightarrow>
      map_of (w_fs w) q = None \<and> map_of (AList.update target (File content) g) q = Some Dir
        \<and> q \<noteq> [] \<and> strict_prefix q target"
proof -
  have t: "target \<noteq> []" "map_of (w_fs w) target = None"
    using assms(1,2) by (auto simp: fs_exists_def fs_lookup_resolved split: if_splits)
  have np: "\<not> prefix target (butlast target)"
    using t(1) by (metis length_butlast length_greater_0_conv diff_less leD prefix_length_le zero_less_one)
  have gt: "map_of g target = None"
    using mkdir_from_adds [OF assms(3), of target] t np by (metis append_Nil)
  have "butlast target = [] \<or> map_of g (butlast target) = Some Dir"
    using mkdir_from_dirs [OF assms(3), of "butlast target"]
    by (metis append_Nil prefix_order.order_refl prefix_bot.not_eq_extremum)
  then show "fs_write target content g = Inr (AList.update target (File content) g)"
    using t gt by (auto simp: fs_write_def)
  have "same_links g (AList.update target (File content) g)"
    by (intro same_links_update) (simp_all add: gt)
  then show "same_links (w_fs w) (AList.update target (File content) g)"
    using mkdir_from_links [OF assms(3)] by (auto simp: same_links_def)
  show "map_of (w_fs w) target = None" by (rule t(2))
  show "map_of (w_fs w) q = None \<and> map_of (AList.update target (File content) g) q = Some Dir
      \<and> q \<noteq> [] \<and> strict_prefix q target"
    if "q \<noteq> target" "map_of (AList.update target (File content) g) q \<noteq> map_of (w_fs w) q"
    using mkdir_from_adds [OF assms(3), of q] that
    by (auto simp: update_conv' strict_prefix_def intro: prefix_order.trans [OF _ prefixeq_butlast])
qed

lemma create_file_effect:
  "case create_file tx args w of
     (Inr res, w') \<Rightarrow>
       if tr_ok res
       then \<exists>p content target f.
         need_str args ''path'' = Inr p \<and> need_str args ''content'' = Inr content
         \<and> tx_write_allowed tx \<and> resolve_inside (w_fs w) (tx_root tx) p = Inr target
         \<and> map_of (w_fs w) target = None \<and> map_of f target = Some (File content)
         \<and> (\<forall>q. q \<noteq> target \<longrightarrow> map_of f q = map_of (w_fs w) q
              \<or> map_of (w_fs w) q = None \<and> map_of f q = Some Dir \<and> q \<noteq> [] \<and> strict_prefix q target)
         \<and> w' = w\<lparr>w_fs := f\<rparr>
       else w' = w
   | (Inl e, w') \<Rightarrow> w' = w"
proof (cases "need_str args ''path''")
  case path: (Inr p)
  show ?thesis
  proof (cases "need_str args ''content''")
    case content: (Inr content)
    note run = create_file_def mbind_def resolve_or_fail_def path content
    show ?thesis
    proof (cases "tx_write_allowed tx")
      case allowed: True
      show ?thesis
      proof (cases "resolve_inside (w_fs w) (tx_root tx) p")
        case (Inl e)
        then show ?thesis using allowed by (cases e) (simp_all add: run tool_failure_def)
      next
        case target: (Inr target)
        show ?thesis
        proof (cases "fs_exists (w_fs w) target \<or> (\<exists>e. mkdir_from [] (butlast target) (w_fs w) = Inl e)")
          case True
          then show ?thesis
            using allowed target by (auto simp: run tool_failure_def mkdir_parents_def)
        next
          case False
          then obtain g where g: "mkdir_from [] (butlast target) (w_fs w) = Inr g"
            by (cases "mkdir_from [] (butlast target) (w_fs w)") auto
          let ?f = "AList.update target (File content) g"
          have ex: "\<not> fs_exists (w_fs w) target" using False by blast
          note new = mkdir_then_write [OF resolve_inside_resolved [OF target] ex g]
          obtain rel where rel: "tx_relative ?f tx target = Inr rel"
            using tx_relative_inside [OF target] tx_relative_same_links [OF new(2)] by metis
          have "create_file tx args w = (Inr (tool_success
              (''created '' @ rel @ '' ('' @ show_nat (length (str_splitlines content)) @ '' lines)'')
              [(''path'', JStr rel), (''change_type'', JStr ''ADDED''),
               (''lines_added'', JInt (int (length (str_splitlines content)))),
               (''lines_removed'', JInt 0)]), w\<lparr>w_fs := ?f\<rparr>)"
            using allowed target ex g new(1) rel
            by (simp add: run mkdir_parents_def write_text_def Let_def)
          moreover have "map_of ?f target = Some (File content)" by (simp add: update_conv')
          ultimately show ?thesis
            using path content allowed target new(3) new(4) by (auto simp: tool_success_def)
        qed
      qed
    qed (simp add: run tool_failure_def)
  qed (simp add: create_file_def mbind_def path)
qed (simp add: create_file_def mbind_def)

section \<open>What the mutating tools promise\<close>

lemma universal_newlines_id: "CHR 0x0D \<notin> set t \<Longrightarrow> universal_newlines t = t"
  by (induction t) auto

text \<open>
  C33: an edit is exact up to line endings, or does not happen. When \<open>apply_patch\<close> reports success,
  writes were allowed, the target is inside the root, the anchor occurred exactly once in the text
  read, and the only change to the world is that the target now holds that text with the anchor
  replaced. The text read is the file with its line endings translated to newlines, and it is
  written back as it is: a file without carriage returns keeps every character outside the anchor,
  in any other file the carriage returns are gone. In every other case, failure result or exception,
  the world is unchanged.
\<close>

theorem apply_patch_exact:
  "case apply_patch tx args w of
     (Inr res, w') \<Rightarrow>
       if tr_ok res
       then \<exists>p old new target raw pre post.
         need_str args ''path'' = Inr p \<and> need_str args ''old_text'' = Inr old
         \<and> need_str args ''new_text'' = Inr new \<and> old \<noteq> new \<and> tx_write_allowed tx
         \<and> resolve_inside (w_fs w) (tx_root tx) p = Inr target
         \<and> map_of (w_fs w) target = Some (File raw)
         \<and> universal_newlines raw = pre @ old @ post
         \<and> (raw = pre @ old @ post \<or> CHR 0x0D \<in> set raw)
         \<and> str_count old (universal_newlines raw) = 1
         \<and> w' = w\<lparr>w_fs := AList.update target (File (pre @ new @ post)) (w_fs w)\<rparr>
       else w' = w
   | (Inl e, w') \<Rightarrow> w' = w"
  using apply_patch_effect [where tx = tx and args = args and w = w] universal_newlines_id
  by (fastforce split: prod.split sum.split if_splits)

text \<open>
  creating a file never overwrites. When \<open>create_file\<close> reports success, the target is inside
  the root, did not exist, and now holds the content; the only other change is that missing
  directories above it were created. In every other case the world is unchanged.
\<close>

theorem create_file_fresh:
  "case create_file tx args w of
     (Inr res, w') \<Rightarrow>
       if tr_ok res
       then \<exists>p content target f.
         need_str args ''path'' = Inr p \<and> need_str args ''content'' = Inr content
         \<and> tx_write_allowed tx \<and> resolve_inside (w_fs w) (tx_root tx) p = Inr target
         \<and> map_of (w_fs w) target = None \<and> map_of f target = Some (File content)
         \<and> (\<forall>q. q \<noteq> target \<longrightarrow> map_of f q = map_of (w_fs w) q
              \<or> map_of (w_fs w) q = None \<and> map_of f q = Some Dir \<and> q \<noteq> [] \<and> strict_prefix q target)
         \<and> w' = w\<lparr>w_fs := f\<rparr>
       else w' = w
   | (Inl e, w') \<Rightarrow> w' = w"
  by (rule create_file_effect)

definition demo_context :: tool_context where
  "demo_context = \<lparr>tx_task_id = ''T'', tx_repository_path = [''repo''], tx_workspace = None,
     tx_iteration = 0, tx_agent_run_id = None, tx_write_allowed = True\<rparr>"

definition demo_world :: world where
  "demo_world = new_world quiet_answers [([''repo''], Dir)]"

definition demo_args :: dict where
  "demo_args = [(''path'', JStr ''a.cs''), (''content'', JStr ''x'')]"

lemma demo_run: "case fst (create_file demo_context demo_args demo_world) of Inr r \<Rightarrow> tr_ok r | Inl e \<Rightarrow> False"
  by code_simp

theorem create_file_fresh_witness:
  "\<exists>target. map_of (w_fs demo_world) target = None
     \<and> map_of (w_fs (snd (create_file demo_context demo_args demo_world))) target = Some (File ''x'')"
proof -
  obtain r w' where run: "create_file demo_context demo_args demo_world = (Inr r, w')" "tr_ok r"
    using demo_run by (cases "create_file demo_context demo_args demo_world") (auto split: sum.splits)
  have c: "need_str demo_args ''content'' = Inr ''x''" by code_simp
  show ?thesis
    using create_file_fresh [where tx = demo_context and args = demo_args and w = demo_world] run c by auto
qed

text \<open>A directory all of whose ancestors are directories too.\<close>

definition dir_chain :: "fs \<Rightarrow> path \<Rightarrow> bool" where
  "dir_chain f r \<longleftrightarrow> (\<forall>q. prefix q r \<longrightarrow> q = [] \<or> map_of f q = Some Dir)"

lemma inside_root:
  "resolve_inside f rt p = Inr target \<Longrightarrow> resolve_path f rt = Inr r \<Longrightarrow> prefix r target"
  using resolve_inside_cases by fastforce

lemma apply_patch_confined:
  assumes "resolve_path (w_fs w) (tx_root tx) = Inr r" and "\<not> prefix r q"
  shows "map_of (w_fs (snd (apply_patch tx args w))) q = map_of (w_fs w) q"
proof -
  obtain x w' where run: "apply_patch tx args w = (x, w')" by fastforce
  show ?thesis
    using apply_patch_effect [where tx = tx and args = args and w = w] run assms inside_root [OF _ assms(1)]
    by (auto simp: update_conv' split: sum.splits if_splits)
qed

lemma create_file_confined:
  assumes "resolve_path (w_fs w) (tx_root tx) = Inr r" and "dir_chain (w_fs w) r"
    and "\<not> prefix r q"
  shows "map_of (w_fs (snd (create_file tx args w))) q = map_of (w_fs w) q"
proof -
  obtain x w' where run: "create_file tx args w = (x, w')" by fastforce
  have q: "\<not> (q \<noteq> [] \<and> map_of (w_fs w) q = None \<and> strict_prefix q target)"
    if "prefix r target" for target
    using that assms(2,3) unfolding dir_chain_def strict_prefix_def
    by (metis option.distinct(1) prefix_same_cases)
  show ?thesis
    using create_file_effect [where tx = tx and args = args and w = w] run assms(3) inside_root [OF _ assms(1)] q
    by (auto split: sum.splits if_splits) (metis option.distinct(1))
qed

text \<open>
  C5: an agent cannot write outside its tree. When the root of a tool call is a real directory, no
  call of the two mutating tools, whatever its arguments and its outcome, changes what any path
  outside that directory holds.
\<close>

theorem write_tools_confined:
  assumes "resolve_path (w_fs w) (tx_root tx) = Inr r" and "dir_chain (w_fs w) r"
    and "\<not> prefix r q"
  shows "map_of (w_fs (snd (apply_patch tx args w))) q = map_of (w_fs w) q
    \<and> map_of (w_fs (snd (create_file tx args w))) q = map_of (w_fs w) q"
  using apply_patch_confined create_file_confined assms by blast

theorem write_tools_confined_witness:
  "map_of (w_fs (snd (create_file
      \<lparr>tx_task_id = ''T'', tx_repository_path = [''repo''], tx_workspace = None, tx_iteration = 0,
       tx_agent_run_id = None, tx_write_allowed = True\<rparr>
      [(''path'', JStr ''../etc/passwd''), (''content'', JStr ''x'')]
      (new_world quiet_answers [([''repo''], Dir), ([''etc''], Dir), ([''etc'', ''passwd''], File ''root'')]))))
     [''etc'', ''passwd''] = Some (File ''root'')"
  using write_tools_confined [of
      "new_world quiet_answers [([''repo''], Dir), ([''etc''], Dir), ([''etc'', ''passwd''], File ''root'')]"
      "\<lparr>tx_task_id = ''T'', tx_repository_path = [''repo''], tx_workspace = None, tx_iteration = 0,
        tx_agent_run_id = None, tx_write_allowed = True\<rparr>" "[''repo'']" "[''etc'', ''passwd'']"]
  by (simp add: new_world_def tx_root_def resolve_path_def dir_chain_def prefix_Cons)

end
