(* ===== verification/Factories.thy ===== *)
theory Factories
  imports Tools_Fs
begin

text \<open>
  Provider selection (\<open>llm/factory.py\<close>, \<open>providers/factory.py\<close>) with the checks the constructors
  of the chosen adapters make. A provider is represented by what its constructor keeps: the local one
  resolves and creates its artifact directory. Loading a YAML
  script and constructing the Anthropic client are the parameters \<open>load_script\<close> and \<open>sdk_client\<close>.
\<close>

section \<open>The model\<close>

datatype llm_choice = Anthropic_Provider | Scripted_From pystr | Scripted_Empty

definition build_llm_provider ::
  "(pystr \<Rightarrow> unit result) \<Rightarrow> unit result \<Rightarrow> settings \<Rightarrow> llm_choice result" where
  "build_llm_provider load_script sdk_client st =
     (let provider = str_lower (llm_provider st) in
      if provider \<in> {''anthropic'', ''claude''}
      then (case sdk_client of
              Inl e \<Rightarrow> Inl (ConfigurationError (''cannot construct Anthropic client: '' @ error_message e))
            | Inr _ \<Rightarrow> Inr Anthropic_Provider)
      else if provider = ''scripted''
      then if llm_script_path st \<noteq> []
           then (case load_script (llm_script_path st) of
                   Inl e \<Rightarrow> Inl e | Inr _ \<Rightarrow> Inr (Scripted_From (llm_script_path st)))
           else Inr Scripted_Empty
      else Inl (ConfigurationError (''unknown LLM_PROVIDER: '' @ llm_provider st)))"

section \<open>Source control\<close>

datatype scm_choice = Local_Git path | GitHub_Scm pystr pystr | Azure_DevOps pystr pystr pystr pystr

definition split_azure_target :: "pystr \<Rightarrow> (pystr \<times> pystr \<times> pystr) result" where
  "split_azure_target target =
     (case filter (\<lambda>p. p \<noteq> []) (split_char (CHR ''/'') target) of
        [a, b, c] \<Rightarrow> Inr (a, b, c)
      | _ \<Rightarrow> Inl (ConfigurationError (''for Azure DevOps set GITHUB_REPOSITORY to '' @ [CHR 0x27] @
          ''organization/project/repository'' @ [CHR 0x27])))"

definition github_scm :: "pystr \<Rightarrow> pystr \<Rightarrow> scm_choice result" where
  "github_scm token repository =
     (if token = [] then Inl (ConfigurationError ''GITHUB_TOKEN is required for SCM_PROVIDER=github'')
      else if CHR ''/'' \<notin> set repository
      then Inl (ConfigurationError (''GITHUB_REPOSITORY must be '' @ [CHR 0x27] @ ''owner/name'' @ [CHR 0x27]))
      else Inr (GitHub_Scm token repository))"

definition azure_scm :: "pystr \<Rightarrow> pystr \<Rightarrow> pystr \<Rightarrow> pystr \<Rightarrow> scm_choice result" where
  "azure_scm organization project repository token =
     (if token = [] then Inl (ConfigurationError ''a PAT is required for SCM_PROVIDER=azure_devops'')
      else Inr (Azure_DevOps organization project repository token))"

definition local_git :: "path \<Rightarrow> scm_choice io" where
  "local_git artifacts =
     mbind (gets (\<lambda>w. resolve_path (w_fs w) artifacts)) (\<lambda>r. mbind (lift_result r) (\<lambda>p.
     mbind (mkdir_parents p) (\<lambda>_. ret (Local_Git p))))"

definition build_scm_provider :: "settings \<Rightarrow> scm_choice io" where
  "build_scm_provider st =
     (let provider = str_lower (scm_provider st) in
      if provider = ''local'' then local_git (artifact_root st)
      else if provider = ''github'' then lift_result (github_scm (github_token st) (github_repository st))
      else if provider \<in> {''azure'', ''azure_devops''}
      then mbind (lift_result (split_azure_target (github_repository st)))
             (\<lambda>(organization, project, repository).
                lift_result (azure_scm organization project repository (github_token st)))
      else raise (ConfigurationError (''unknown SCM_PROVIDER: '' @ scm_provider st)))"

section \<open>CI\<close>

datatype ci_choice = Noop_CI | GitHub_Actions pystr

fun ci_choice_name :: "ci_choice \<Rightarrow> pystr" where
  "ci_choice_name Noop_CI = ''none''"
| "ci_choice_name (GitHub_Actions repository) = ''github_actions''"

definition github_actions :: "pystr \<Rightarrow> pystr \<Rightarrow> ci_choice result" where
  "github_actions token repository =
     (if token = [] \<or> CHR ''/'' \<notin> set repository
      then Inl (ConfigurationError
        ''GITHUB_TOKEN and GITHUB_REPOSITORY are required for CI_PROVIDER=github_actions'')
      else Inr (GitHub_Actions repository))"

definition build_ci_provider :: "settings \<Rightarrow> ci_choice result" where
  "build_ci_provider st =
     (let provider = str_lower (ci_provider st) in
      if provider \<in> {''none'', ''noop'', ''''} then Inr Noop_CI
      else if provider \<in> {''github'', ''github_actions''}
      then github_actions (github_token st) (github_repository st)
      else Inl (ConfigurationError (''unknown CI_PROVIDER: '' @ ci_provider st)))"

section \<open>Facts\<close>

lemma default_providers:
  "build_llm_provider load_script sdk_client default_settings = Inr Scripted_Empty"
  "build_scm_provider default_settings = local_git [''artifacts'']"
  "build_ci_provider default_settings = Inr Noop_CI"
  by (simp_all add: build_llm_provider_def build_scm_provider_def build_ci_provider_def
      default_settings_def str_lower_def lower_char_def in_ranges_def Let_def)

text \<open>Building the source-control provider reads and changes nothing but the file system.\<close>

lemma local_git_run:
  "local_git p w = (case resolve_path (w_fs w) p of
     Inl e \<Rightarrow> (Inl e, w)
   | Inr q \<Rightarrow> (case mkdir_from [] q (w_fs w) of Inl e \<Rightarrow> (Inl e, w) | Inr f \<Rightarrow> (Inr (Local_Git q), w\<lparr>w_fs := f\<rparr>)))"
  by (simp add: local_git_def mkdir_parents_def mbind_def split: sum.split)

lemma build_scm_provider_pure:
  assumes "str_lower (scm_provider st) \<noteq> ''local''"
  shows "build_scm_provider st w = (fst (build_scm_provider st v), w)"
  using assms by (auto simp: build_scm_provider_def Let_def mbind_def split: sum.split)

lemma build_scm_provider_frame:
  obtains f where "\<And>v. w_fs v = w_fs w \<Longrightarrow> build_scm_provider st v = (fst (build_scm_provider st w), v\<lparr>w_fs := f\<rparr>)"
proof (cases "str_lower (scm_provider st) = ''local''")
  case True
  then have b: "build_scm_provider st = local_git (artifact_root st)" by (simp add: build_scm_provider_def)
  define f where "f = w_fs (snd (local_git (artifact_root st) w))"
  have "local_git (artifact_root st) v = (fst (local_git (artifact_root st) w), v\<lparr>w_fs := f\<rparr>)" if "w_fs v = w_fs w" for v
    using that by (simp add: f_def local_git_run split: sum.split)
  then show ?thesis unfolding b [symmetric] by (rule that)
next
  case False
  have "build_scm_provider st v = (fst (build_scm_provider st w), v\<lparr>w_fs := w_fs w\<rparr>)" if e: "w_fs v = w_fs w" for v
  proof -
    have "v\<lparr>w_fs := w_fs w\<rparr> = v" by (subst e [symmetric]) simp
    then show ?thesis using build_scm_provider_pure [OF False, of v w] by (simp only:)
  qed
  with that show ?thesis by blast
qed

lemma build_scm_provider_fs:
  assumes "w_fs v = w_fs w"
  shows "fst (build_scm_provider st v) = fst (build_scm_provider st w)"
proof -
  obtain f where F: "\<And>v. w_fs v = w_fs w \<Longrightarrow> build_scm_provider st v = (fst (build_scm_provider st w), v\<lparr>w_fs := f\<rparr>)"
    by (rule build_scm_provider_frame [of w st]) blast
  show ?thesis by (subst F [OF assms]) simp
qed

lemma split_azure_target_Inr:
  assumes "split_azure_target t = Inr (a, b, c)"
  shows "a \<noteq> [] \<and> b \<noteq> [] \<and> c \<noteq> []"
proof -
  obtain qs where qs: "filter (\<lambda>p. p \<noteq> []) (split_char (CHR ''/'') t) = qs" "[] \<notin> set qs" by auto
  with assms have "qs = [a, b, c]" by (auto simp: split_azure_target_def split: list.splits)
  with qs(2) show ?thesis by auto
qed

lemma split_azure_target_Inl: "split_azure_target t = Inl e \<Longrightarrow> \<exists>m. e = ConfigurationError m"
  by (auto simp: split_azure_target_def split: list.splits)

text \<open>
  a provider that talks to GitHub or Azure is never built without its credentials. Whatever the
  settings, building the source-control provider or the CI provider either gives an adapter that is
  local, or one with a non-empty token and a repository it can address, or fails with a
  configuration error; only preparing the artifact directory of the local one can fail otherwise.
\<close>

theorem providers_have_credentials:
  "(case fst (build_scm_provider st w) of
      Inr (Local_Git p) \<Rightarrow> str_lower (scm_provider st) = ''local''
    | Inr (GitHub_Scm token repository) \<Rightarrow> token = github_token st \<and> token \<noteq> [] \<and> CHR ''/'' \<in> set repository
    | Inr (Azure_DevOps organization project repository token) \<Rightarrow>
        token = github_token st \<and> token \<noteq> [] \<and> organization \<noteq> [] \<and> project \<noteq> [] \<and> repository \<noteq> []
    | Inl e \<Rightarrow> str_lower (scm_provider st) = ''local'' \<or> (\<exists>m. e = ConfigurationError m))
   \<and> (case build_ci_provider st of
      Inr Noop_CI \<Rightarrow> True
    | Inr (GitHub_Actions repository) \<Rightarrow> github_token st \<noteq> [] \<and> CHR ''/'' \<in> set repository
    | Inl e \<Rightarrow> \<exists>m. e = ConfigurationError m)"
proof
  show "case fst (build_scm_provider st w) of
      Inr (Local_Git p) \<Rightarrow> str_lower (scm_provider st) = ''local''
    | Inr (GitHub_Scm token repository) \<Rightarrow> token = github_token st \<and> token \<noteq> [] \<and> CHR ''/'' \<in> set repository
    | Inr (Azure_DevOps organization project repository token) \<Rightarrow>
        token = github_token st \<and> token \<noteq> [] \<and> organization \<noteq> [] \<and> project \<noteq> [] \<and> repository \<noteq> []
    | Inl e \<Rightarrow> str_lower (scm_provider st) = ''local'' \<or> (\<exists>m. e = ConfigurationError m)"
  proof (cases "str_lower (scm_provider st) = ''local''")
    case True
    then show ?thesis by (simp add: build_scm_provider_def local_git_run split: sum.split)
  next
    case False
    then show ?thesis
      by (auto simp: build_scm_provider_def github_scm_def azure_scm_def Let_def mbind_def
          split: sum.split dest: split_azure_target_Inr split_azure_target_Inl)
  qed
qed (auto simp: build_ci_provider_def github_actions_def Let_def)

end
