(* ===== verification/Regex.thy ===== *)
theory Regex
  imports Prelude
begin

text \<open>
  Backtracking regular expressions: the part of Python's \<open>re\<close> the platform uses. A pattern is a
  syntax tree; \<open>rmatch\<close> lists every way it matches at a position in the order a backtracking
  engine tries them, so the first element is the match \<open>re\<close> reports. A position is a cursor in
  the text (what is behind it, reversed, and what is ahead of it) with the groups captured so far.
  Iterations of a star that consume nothing are cut off, which bounds every star by the length of
  the remaining text.
\<close>

section \<open>Patterns\<close>

datatype rx =
    REps
  | RSet "char \<Rightarrow> bool"
  | RSeq rx rx
  | RAlt rx rx
  | RStar bool rx        \<comment> \<open>\<open>True\<close>: greedy, \<open>False\<close>: lazy\<close>
  | RGroup nat rx
  | RBound               \<comment> \<open>\<open>\\b\<close>\<close>
  | RBol                 \<comment> \<open>\<open>^\<close> under \<open>re.MULTILINE\<close>\<close>

record cursor =
  behind :: pystr
  ahead :: pystr
  groups :: "(nat \<times> pystr) list"

definition start_cursor :: "pystr \<Rightarrow> cursor" where
  "start_cursor s = \<lparr>behind = [], ahead = s, groups = []\<rparr>"

text \<open>The whole text a cursor stands in.\<close>

definition text_of :: "cursor \<Rightarrow> pystr" where
  "text_of p = rev (behind p) @ ahead p"

section \<open>Matching\<close>

definition word_before :: "cursor \<Rightarrow> bool" where
  "word_before p = (case behind p of [] \<Rightarrow> False | c # _ \<Rightarrow> is_word c)"

definition word_after :: "cursor \<Rightarrow> bool" where
  "word_after p = (case ahead p of [] \<Rightarrow> False | c # _ \<Rightarrow> is_word c)"

definition at_line_start :: "cursor \<Rightarrow> bool" where
  "at_line_start p = (case behind p of [] \<Rightarrow> True | c # _ \<Rightarrow> c = CHR 0x0A)"

definition step_set :: "(char \<Rightarrow> bool) \<Rightarrow> cursor \<Rightarrow> cursor list" where
  "step_set P p = (case ahead p of [] \<Rightarrow> []
     | c # cs \<Rightarrow> if P c then [p\<lparr>behind := c # behind p, ahead := cs\<rparr>] else [])"

definition progressed :: "cursor \<Rightarrow> cursor \<Rightarrow> bool" where
  "progressed p q \<longleftrightarrow> length (ahead q) < length (ahead p)"

fun star_iter :: "nat \<Rightarrow> (cursor \<Rightarrow> cursor list) \<Rightarrow> bool \<Rightarrow> cursor \<Rightarrow> cursor list" where
  "star_iter 0 m greedy p = [p]"
| "star_iter (Suc n) m greedy p =
     (let more = concat (map (star_iter n m greedy) (filter (progressed p) (m p)))
      in if greedy then more @ [p] else p # more)"

definition capture :: "nat \<Rightarrow> cursor \<Rightarrow> cursor \<Rightarrow> cursor" where
  "capture k p q =
     q\<lparr>groups := (k, rev (take (length (behind q) - length (behind p)) (behind q))) # groups q\<rparr>"

primrec rmatch :: "rx \<Rightarrow> cursor \<Rightarrow> cursor list" where
  "rmatch REps p = [p]"
| "rmatch (RSet P) p = step_set P p"
| "rmatch (RSeq a b) p = concat (map (rmatch b) (rmatch a p))"
| "rmatch (RAlt a b) p = rmatch a p @ rmatch b p"
| "rmatch (RStar greedy a) p = star_iter (length (ahead p)) (rmatch a) greedy p"
| "rmatch (RGroup k a) p = map (capture k p) (rmatch a p)"
| "rmatch RBound p = (if word_before p \<noteq> word_after p then [p] else [])"
| "rmatch RBol p = (if at_line_start p then [p] else [])"

text \<open>\<open>pattern.match\<close> at a cursor: the first way to match.\<close>

definition match_at :: "rx \<Rightarrow> cursor \<Rightarrow> cursor option" where
  "match_at r p = (case rmatch r p of [] \<Rightarrow> None | q # _ \<Rightarrow> Some q)"

definition advance :: "cursor \<Rightarrow> cursor" where
  "advance p = (case ahead p of [] \<Rightarrow> p
     | c # cs \<Rightarrow> p\<lparr>behind := c # behind p, ahead := cs, groups := []\<rparr>)"

text \<open>\<open>pattern.search\<close>: the leftmost position with a match, and the cursor after it.\<close>

fun search_from :: "nat \<Rightarrow> rx \<Rightarrow> cursor \<Rightarrow> (cursor \<times> cursor) option" where
  "search_from n r p = (case match_at r p of
       Some q \<Rightarrow> Some (p, q)
     | None \<Rightarrow> (case n of 0 \<Rightarrow> None | Suc m \<Rightarrow> search_from m r (advance p)))"

definition search_at :: "rx \<Rightarrow> cursor \<Rightarrow> (cursor \<times> cursor) option" where
  "search_at r p = search_from (length (ahead p)) r p"

definition re_search :: "rx \<Rightarrow> pystr \<Rightarrow> (cursor \<times> cursor) option" where
  "re_search r s = search_at r (start_cursor s)"

definition re_matches :: "rx \<Rightarrow> pystr \<Rightarrow> bool" where
  "re_matches r s \<longleftrightarrow> re_search r s \<noteq> None"

definition group :: "nat \<Rightarrow> cursor \<Rightarrow> pystr option" where
  "group k p = map_of (groups p) k"

text \<open>What lies between two cursors of one text.\<close>

definition between :: "cursor \<Rightarrow> cursor \<Rightarrow> pystr" where
  "between p q = rev (take (length (behind q) - length (behind p)) (behind q))"

definition fresh :: "cursor \<Rightarrow> cursor" where
  "fresh p = p\<lparr>groups := []\<rparr>"

text \<open>
  \<open>pattern.finditer\<close>: the matches from left to right, each search starting where the last match
  ended, or one character further where it was empty. Every match found uses up one unit of
  fuel and at least one position, so \<open>length + 1\<close> units are enough.
\<close>

fun finditer_from :: "nat \<Rightarrow> rx \<Rightarrow> cursor \<Rightarrow> (cursor \<times> cursor) list" where
  "finditer_from 0 r p = []"
| "finditer_from (Suc n) r p = (case search_at r p of
       None \<Rightarrow> []
     | Some (a, b) \<Rightarrow> (a, b) #
         (if progressed a b then finditer_from n r (fresh b)
          else if ahead b = [] then [] else finditer_from n r (advance b)))"

definition re_finditer :: "rx \<Rightarrow> pystr \<Rightarrow> (cursor \<times> cursor) list" where
  "re_finditer r s = finditer_from (Suc (length s)) r (start_cursor s)"

text \<open>\<open>pattern.sub(repl, s)\<close> for a constant replacement.\<close>

fun splice :: "pystr \<Rightarrow> cursor \<Rightarrow> (cursor \<times> cursor) list \<Rightarrow> pystr" where
  "splice repl p [] = ahead p"
| "splice repl p ((a, b) # ms) = between p a @ repl @ splice repl b ms"

definition re_sub :: "rx \<Rightarrow> pystr \<Rightarrow> pystr \<Rightarrow> pystr" where
  "re_sub r repl s = splice repl (start_cursor s) (re_finditer r s)"

section \<open>Derived patterns\<close>

definition RChar :: "char \<Rightarrow> rx" where
  "RChar c = RSet (\<lambda>d. d = c)"

definition RCharI :: "char \<Rightarrow> rx" where
  "RCharI c = RSet (\<lambda>d. lower_char d = lower_char c)"

fun RLit :: "pystr \<Rightarrow> rx" where
  "RLit [] = REps"
| "RLit [c] = RChar c"
| "RLit (c # d # cs) = RSeq (RChar c) (RLit (d # cs))"

fun RLitI :: "pystr \<Rightarrow> rx" where
  "RLitI [] = REps"
| "RLitI [c] = RCharI c"
| "RLitI (c # d # cs) = RSeq (RCharI c) (RLitI (d # cs))"

definition RPlus :: "rx \<Rightarrow> rx" where
  "RPlus r = RSeq r (RStar True r)"

definition ROpt :: "rx \<Rightarrow> rx" where
  "ROpt r = RAlt r REps"

fun RSeqs :: "rx list \<Rightarrow> rx" where
  "RSeqs [] = REps"
| "RSeqs [r] = r"
| "RSeqs (r # s # rs) = RSeq r (RSeqs (s # rs))"

fun RAlts :: "rx \<Rightarrow> rx list \<Rightarrow> rx" where
  "RAlts r [] = r"
| "RAlts r (s # rs) = RAlt r (RAlts s rs)"

definition RRep :: "nat \<Rightarrow> rx \<Rightarrow> rx" where
  "RRep n r = RSeqs (replicate n r)"

definition RSpace :: rx where "RSpace = RSet is_space"
definition RDigit :: rx where "RDigit = RSet is_digit"
definition RWord :: rx where "RWord = RSet is_word"

text \<open>\<open>.\<close> without \<open>re.DOTALL\<close>: anything but a line feed.\<close>

definition RDot :: rx where "RDot = RSet (\<lambda>c. c \<noteq> CHR 0x0A)"
definition RAny :: rx where "RAny = RSet (\<lambda>c. True)"

definition RRanges :: "(nat \<times> nat) list \<Rightarrow> rx" where
  "RRanges rs = RSet (in_ranges rs)"

section \<open>Matches stay inside the text\<close>

definition reaches :: "cursor \<Rightarrow> cursor \<Rightarrow> bool" where
  "reaches p q \<longleftrightarrow> (\<exists>w. ahead p = w @ ahead q \<and> behind q = rev w @ behind p)"

lemma reaches_refl [simp]: "reaches p p"
  by (simp add: reaches_def)

lemma reaches_trans: "reaches p q \<Longrightarrow> reaches q r \<Longrightarrow> reaches p r"
  unfolding reaches_def by (metis append.assoc rev_append)

lemma reaches_text: "reaches p q \<Longrightarrow> text_of q = text_of p"
  by (auto simp: reaches_def text_of_def)

lemma reaches_length: "reaches p q \<Longrightarrow> length (ahead q) \<le> length (ahead p)"
  by (auto simp: reaches_def)

lemma reaches_capture [simp]: "reaches p (capture k p' q) = reaches p q"
  by (simp add: reaches_def capture_def)

lemma reaches_fresh [simp]: "reaches p (fresh q) = reaches p q" "reaches (fresh p) q = reaches p q"
  by (simp_all add: reaches_def fresh_def)

lemma reaches_advance: "reaches p (advance p)"
  by (auto simp: reaches_def advance_def split: list.splits)

lemma reaches_step_set: "q \<in> set (step_set P p) \<Longrightarrow> reaches p q"
  by (auto simp: step_set_def reaches_def split: list.splits if_splits)

lemma reaches_star_iter:
  assumes "\<And>p q. q \<in> set (m p) \<Longrightarrow> reaches p q"
  shows "q \<in> set (star_iter n m g p) \<Longrightarrow> reaches p q"
proof (induction n arbitrary: p)
  case (Suc n)
  then have "q = p \<or> (\<exists>x. x \<in> set (m p) \<and> q \<in> set (star_iter n m g x))"
    by (auto simp: Let_def split: if_splits)
  then show ?case by (metis Suc.IH assms reaches_refl reaches_trans)
qed simp

lemma reaches_rmatch: "q \<in> set (rmatch r p) \<Longrightarrow> reaches p q"
proof (induction r arbitrary: p q)
  case (RStar g r)
  then show ?case using reaches_star_iter [of "rmatch r"] by auto
next
  case (RSeq a b)
  then show ?case by simp (blast intro: reaches_trans)
qed (auto intro: reaches_step_set split: if_splits)

lemma match_at_reaches: "match_at r p = Some q \<Longrightarrow> reaches p q"
  by (auto simp: match_at_def intro!: reaches_rmatch [where r = r] split: list.splits)

declare search_from.simps [simp del]

lemma search_from_reaches: "search_from n r p = Some (a, b) \<Longrightarrow> reaches p a \<and> reaches a b"
proof (induction n arbitrary: p)
  case 0
  then show ?case
    by (subst (asm) search_from.simps) (auto dest: match_at_reaches split: option.splits)
next
  case (Suc n)
  then show ?case
    by (subst (asm) search_from.simps)
       (auto dest!: match_at_reaches split: option.splits intro: reaches_trans reaches_advance)
qed

lemma search_from_leftmost:
  "search_from n r p = Some (a, b) \<Longrightarrow> match_at r a = Some b"
proof (induction n arbitrary: p)
  case 0
  then show ?case by (subst (asm) search_from.simps) (auto split: option.splits)
next
  case (Suc n)
  then show ?case by (subst (asm) search_from.simps) (auto split: option.splits)
qed

text \<open>A successful search reports a real match of the text.\<close>

lemma re_search_sound:
  assumes "re_search r s = Some (a, b)"
  shows "match_at r a = Some b" and "s = rev (behind a) @ between a b @ ahead b"
proof -
  from assms have s: "search_from (length s) r (start_cursor s) = Some (a, b)"
    by (simp add: re_search_def search_at_def start_cursor_def)
  then show "match_at r a = Some b" by (rule search_from_leftmost)
  from search_from_reaches [OF s] obtain w where
    a: "text_of a = s" and w: "ahead a = w @ ahead b" "behind b = rev w @ behind a"
    by (auto dest!: reaches_text simp: start_cursor_def text_of_def reaches_def)
  have "between a b = w" using w(2) by (simp add: between_def)
  with a w(1) show "s = rev (behind a) @ between a b @ ahead b" by (simp add: text_of_def)
qed

text \<open>A text has a match exactly when the pattern matches at one of its positions.\<close>

lemma search_from_iff: "search_from n r p \<noteq> None \<longleftrightarrow> (\<exists>k\<le>n. rmatch r ((advance ^^ k) p) \<noteq> [])"
proof (induction n arbitrary: p)
  case 0
  then show ?case by (subst search_from.simps) (auto simp: match_at_def split: list.splits)
next
  case (Suc n)
  have "(\<exists>k\<le>Suc n. rmatch r ((advance ^^ k) p) \<noteq> []) \<longleftrightarrow>
      rmatch r p \<noteq> [] \<or> (\<exists>k\<le>n. rmatch r ((advance ^^ k) (advance p)) \<noteq> [])"
    unfolding less_Suc_eq_le [symmetric] Ex_less_Suc2 by (simp add: funpow_swap1)
  with Suc.IH [of "advance p"] show ?case
    by (subst search_from.simps) (auto simp: match_at_def split: list.splits)
qed

lemma advance_funpow:
  "k \<le> length s \<Longrightarrow> (advance ^^ k) (start_cursor s) = \<lparr>behind = rev (take k s), ahead = drop k s, groups = []\<rparr>"
proof (induction k)
  case (Suc k)
  then have "drop k s = s ! k # drop (Suc k) s" by (simp add: Cons_nth_drop_Suc)
  with Suc show ?case by (simp add: advance_def take_Suc_conv_app_nth)
qed (simp add: start_cursor_def)

lemma re_matches_iff:
  "re_matches r s \<longleftrightarrow> (\<exists>pre post. s = pre @ post \<and> rmatch r \<lparr>behind = rev pre, ahead = post, groups = []\<rparr> \<noteq> [])"
    (is "?l \<longleftrightarrow> ?r")
proof
  assume ?l
  then have "\<exists>k\<le>length s. rmatch r ((advance ^^ k) (start_cursor s)) \<noteq> []"
    unfolding re_matches_def re_search_def search_at_def search_from_iff by (simp add: start_cursor_def)
  then obtain k where "k \<le> length s" "rmatch r ((advance ^^ k) (start_cursor s)) \<noteq> []" by blast
  then show ?r by (intro exI [of _ "take k s"] exI [of _ "drop k s"]) (simp add: advance_funpow)
next
  assume ?r
  then obtain pre post where "s = pre @ post" "rmatch r \<lparr>behind = rev pre, ahead = post, groups = []\<rparr> \<noteq> []" by blast
  then have "rmatch r ((advance ^^ length pre) (start_cursor s)) \<noteq> []" "length pre \<le> length s"
    by (simp_all add: advance_funpow)
  then show ?l
    by (simp only: re_matches_def re_search_def search_at_def search_from_iff)
       (auto simp: start_cursor_def)
qed

lemma rmatch_RLitI:
  "rmatch (RLitI t) p =
     (if length t \<le> length (ahead p) \<and> str_lower (take (length t) (ahead p)) = str_lower t
      then [p\<lparr>behind := rev (take (length t) (ahead p)) @ behind p, ahead := drop (length t) (ahead p)\<rparr>] else [])"
proof (induction t arbitrary: p rule: RLitI.induct)
  case (2 c)
  then show ?case by (cases "ahead p") (auto simp: RCharI_def step_set_def str_lower_def)
next
  case (3 c d cs)
  show ?case
  proof (cases "ahead p")
    case (Cons x xs)
    then show ?thesis by (auto simp: RCharI_def step_set_def str_lower_def 3)
  qed (simp add: RCharI_def step_set_def)
qed simp

lemma re_sub_no_match: "re_search r s = None \<Longrightarrow> re_sub r repl s = s"
  by (simp add: re_sub_def re_finditer_def re_search_def start_cursor_def)

end
