(* ===== verification/Policy.thy ===== *)
theory Policy
  imports Domain Regex
begin

text \<open>
  The policy engine (\<open>policies/evaluator.py\<close>) and the rules shipped with it
  (\<open>policies/rules.yaml\<close>). Path rules use Python's \<open>fnmatch\<close> on the base name and a
  case-insensitive substring test; content rules search the added lines of the diff. The engine
  reports one finding per rule that fires, adds the scope findings, and resolves them to the
  strongest action and the highest risk.
\<close>

section \<open>Shell patterns: \<open>fnmatch.fnmatch\<close>\<close>

datatype glob =
    GStar
  | GAny
  | GLit char
  | GClass bool "(char \<times> char) list"   \<comment> \<open>\<open>True\<close>: negated; the items as ranges\<close>
  | GNever                                \<comment> \<open>a class all of whose ranges are empty\<close>

text \<open>The items of a bracket expression: ranges and single characters, empty ranges dropped.\<close>

fun class_items :: "pystr \<Rightarrow> (char \<times> char) list" where
  "class_items (a # d # b # cs) =
     (if d = CHR ''-'' then
        (if (of_char a :: nat) \<le> of_char b then [(a, b)] else []) @ class_items cs
      else (a, a) # class_items (d # b # cs))"
| "class_items (a # cs) = (a, a) # class_items cs"
| "class_items [] = []"

definition glob_class :: "pystr \<Rightarrow> glob" where
  "glob_class stuff = (case stuff of
       [] \<Rightarrow> GNever
     | c # cs \<Rightarrow>
         if c = CHR ''!'' then (if cs = [] then GAny else GClass True (class_items cs))
         else (if class_items stuff = [] then GNever else GClass False (class_items stuff)))"

text \<open>The closing bracket of a class: the first \<open>]\<close> after an optional \<open>!\<close> and a leading \<open>]\<close>.\<close>

fun find_close :: "pystr \<Rightarrow> nat option" where
  "find_close [] = None"
| "find_close (c # cs) = (if c = CHR '']'' then Some 0 else map_option Suc (find_close cs))"

definition class_end :: "pystr \<Rightarrow> nat option" where
  "class_end s =
     (let skip1 = (if starts_with ''!'' s then 1 else 0);
          skip2 = (if starts_with '']'' (drop skip1 s) then 1 else 0)
      in map_option (\<lambda>n. skip1 + skip2 + n) (find_close (drop (skip1 + skip2) s)))"

function glob_parse :: "pystr \<Rightarrow> glob list" where
  "glob_parse [] = []"
| "glob_parse (c # cs) =
     (if c = CHR ''*'' then GStar # glob_parse cs
      else if c = CHR ''?'' then GAny # glob_parse cs
      else if c = CHR ''['' then
        (case class_end cs of
           None \<Rightarrow> GLit c # glob_parse cs
         | Some n \<Rightarrow> glob_class (take n cs) # glob_parse (drop (Suc n) cs))
      else GLit c # glob_parse cs)"
  by pat_completeness auto
termination by (relation "measure length") auto

fun glob_one :: "glob \<Rightarrow> char \<Rightarrow> bool" where
  "glob_one GAny c = True"
| "glob_one (GLit d) c = (c = d)"
| "glob_one (GClass neg items) c =
     (neg \<noteq> list_ex (\<lambda>(a, b). (of_char a :: nat) \<le> of_char c \<and> (of_char c :: nat) \<le> of_char b) items)"
| "glob_one GStar c = False"
| "glob_one GNever c = False"

fun glob_match :: "glob list \<Rightarrow> pystr \<Rightarrow> bool" where
  "glob_match [] s = (s = [])"
| "glob_match (GStar # gs) [] = glob_match gs []"
| "glob_match (GStar # gs) (c # cs) = (glob_match gs (c # cs) \<or> glob_match (GStar # gs) cs)"
| "glob_match (g # gs) [] = False"
| "glob_match (g # gs) (c # cs) = (glob_one g c \<and> glob_match gs cs)"

definition fnmatch :: "pystr \<Rightarrow> pystr \<Rightarrow> bool" where
  "fnmatch name pat = glob_match (glob_parse pat) name"

section \<open>Rules, findings, decisions\<close>

record rule =
  rule_name :: pystr
  rule_action :: policy_action
  rule_risk :: risk_level
  rule_description :: pystr
  rule_patterns :: "pystr list"
  rule_paths :: "pystr list"
  rule_content :: "rx list"

definition matches_path :: "rule \<Rightarrow> pystr \<Rightarrow> bool" where
  "matches_path r path =
     (let normalized = str_replace_char (CHR 0x5C) (CHR ''/'') path;
          basename = last (split_char (CHR ''/'') normalized)
      in list_ex (\<lambda>pat. fnmatch basename pat) (rule_patterns r)
         \<or> list_ex (\<lambda>fragment. contains_sub (str_lower fragment) (str_lower normalized)) (rule_paths r))"

definition matches_content :: "rule \<Rightarrow> pystr \<Rightarrow> bool" where
  "matches_content r added = list_ex (\<lambda>e. re_matches e added) (rule_content r)"

record policy_finding =
  finding_rule :: pystr
  finding_action :: policy_action
  finding_risk :: risk_level
  finding_reason :: pystr

record policy_decision =
  decision_action :: policy_action
  decision_risk :: risk_level
  decision_findings :: "policy_finding list"

definition blocked :: "policy_decision \<Rightarrow> bool" where
  "blocked d \<longleftrightarrow> decision_action d = BLOCK"

definition requires_approval :: "policy_decision \<Rightarrow> bool" where
  "requires_approval d \<longleftrightarrow> decision_action d \<in> {HUMAN_APPROVAL, BLOCK}"

definition reasons :: "policy_decision \<Rightarrow> pystr list" where
  "reasons d = map (\<lambda>f. finding_rule f @ '': '' @ finding_reason f) (decision_findings d)"

definition decision_summary :: "policy_decision \<Rightarrow> pystr" where
  "decision_summary d =
     (if decision_findings d = [] then ''no policy findings'' else str_join ''; '' (reasons d))"

fun strongest_from :: "policy_action \<Rightarrow> policy_finding list \<Rightarrow> policy_action" where
  "strongest_from action [] = action"
| "strongest_from action (f # fs) =
     strongest_from
       (if ACTION_STRENGTH (finding_action f) > ACTION_STRENGTH action then finding_action f
        else action) fs"

definition resolve_findings :: "policy_finding list \<Rightarrow> policy_decision" where
  "resolve_findings findings =
     \<lparr>decision_action = strongest_from ALLOW findings,
      decision_risk = max_risk (map (\<lambda>f. Some (finding_risk f)) findings),
      decision_findings = findings\<rparr>"

definition added_lines_of :: "pystr \<Rightarrow> pystr" where
  "added_lines_of diff =
     str_join [CHR 0x0A]
       (map tl (filter (\<lambda>line. starts_with ''+'' line \<and> \<not> starts_with ''+++'' line)
          (str_splitlines diff)))"

section \<open>The engine\<close>

record policy_engine =
  rules :: "rule list"
  thresholds :: "(pystr \<times> int) list"

definition threshold :: "policy_engine \<Rightarrow> pystr \<Rightarrow> int \<Rightarrow> int" where
  "threshold e key d = get_default d (map_of (thresholds e) key)"

text \<open>The body of the loop over the rules: at most one finding per rule.\<close>

definition rule_findings :: "pystr list \<Rightarrow> pystr \<Rightarrow> rule \<Rightarrow> policy_finding list" where
  "rule_findings files added r =
     (let hit_paths = filter (matches_path r) files in
      if hit_paths \<noteq> [] then
        [\<lparr>finding_rule = rule_name r, finding_action = rule_action r, finding_risk = rule_risk r,
          finding_reason =
            (if rule_description r = [] then ''matched'' else rule_description r)
            @ '' ('' @ str_join '', '' (take 5 hit_paths) @ '')''\<rparr>]
      else if rule_content r \<noteq> [] \<and> added \<noteq> [] \<and> matches_content r added then
        [\<lparr>finding_rule = rule_name r, finding_action = rule_action r, finding_risk = rule_risk r,
          finding_reason =
            (if rule_description r = [] then ''matched added content'' else rule_description r)\<rparr>]
      else [])"

definition scope_findings :: "policy_engine \<Rightarrow> pystr list \<Rightarrow> int option \<Rightarrow> policy_finding list" where
  "scope_findings e files lines_changed =
     (let n = int (length files);
          max_files = threshold e ''max_files_changed'' 12;
          max_lines = threshold e ''max_lines_changed'' 800;
          medium_files = threshold e ''medium_risk_files'' 4
      in (if n > max_files then
            [\<lparr>finding_rule = ''scope-sprawl'', finding_action = HUMAN_APPROVAL, finding_risk = HIGH,
              finding_reason =
                show_int n @ '' files changed (limit '' @ show_int max_files @ '')''\<rparr>] else [])
         @ (case lines_changed of None \<Rightarrow> []
            | Some l \<Rightarrow>
                if l > max_lines then
                  [\<lparr>finding_rule = ''large-change'', finding_action = HUMAN_APPROVAL,
                    finding_risk = MEDIUM,
                    finding_reason =
                      show_int l @ '' lines changed (limit '' @ show_int max_lines @ '')''\<rparr>]
                else [])
         @ (if n \<ge> medium_files then
              [\<lparr>finding_rule = ''multi-file-change'', finding_action = ALLOW, finding_risk = MEDIUM,
                finding_reason = show_int n @ '' files changed''\<rparr>] else []))"

definition evaluate ::
  "policy_engine \<Rightarrow> pystr list \<Rightarrow> pystr \<Rightarrow> int option \<Rightarrow> bool \<Rightarrow> policy_decision" where
  "evaluate e files diff lines_changed apply_scope_thresholds =
     (let added = (if diff \<noteq> [] then added_lines_of diff else []);
          findings = concat (map (rule_findings files added) (rules e))
      in if \<not> apply_scope_thresholds then resolve_findings findings
         else resolve_findings (findings @ scope_findings e files lines_changed))"

definition check_path_writable :: "policy_engine \<Rightarrow> pystr \<Rightarrow> policy_decision" where
  "check_path_writable e path = evaluate e [path] [] None False"

text \<open>
  \<open>PolicyEngine.from_file\<close> on the document the YAML reader returns: an entry without a name raises
  \<open>KeyError\<close>, an unknown action or risk \<open>ValueError\<close>; every other key has a default.
\<close>

record rule_entry =
  entry_name :: "pystr option"
  entry_action :: "pystr option"
  entry_risk :: "pystr option"
  entry_description :: "pystr option"
  entry_patterns :: "pystr list option"
  entry_paths :: "pystr list option"
  entry_content :: "rx list option"

definition action_of_value :: "pystr \<Rightarrow> policy_action option" where
  "action_of_value s =
     (if s = ''ALLOW'' then Some ALLOW else if s = ''HUMAN_APPROVAL'' then Some HUMAN_APPROVAL
      else if s = ''BLOCK'' then Some BLOCK else None)"

definition rule_of_entry :: "rule_entry \<Rightarrow> rule result" where
  "rule_of_entry en = (case entry_name en of
       None \<Rightarrow> Inl (OtherError ''KeyError'' ''name'')
     | Some n \<Rightarrow>
         (case action_of_value (get_default ''ALLOW'' (entry_action en)) of
            None \<Rightarrow> Inl (OtherError ''ValueError'' (get_default ''ALLOW'' (entry_action en)))
          | Some a \<Rightarrow>
              (case risk_of_value (get_default ''LOW'' (entry_risk en)) of
                 None \<Rightarrow> Inl (OtherError ''ValueError'' (get_default ''LOW'' (entry_risk en)))
               | Some r \<Rightarrow> Inr
                   \<lparr>rule_name = n, rule_action = a, rule_risk = r,
                    rule_description = get_default [] (entry_description en),
                    rule_patterns = get_default [] (entry_patterns en),
                    rule_paths = get_default [] (entry_paths en),
                    rule_content = get_default [] (entry_content en)\<rparr>)))"

fun rules_of_entries :: "rule_entry list \<Rightarrow> rule list result" where
  "rules_of_entries [] = Inr []"
| "rules_of_entries (en # ens) = (case rule_of_entry en of
       Inl x \<Rightarrow> Inl x
     | Inr r \<Rightarrow> (case rules_of_entries ens of Inl x \<Rightarrow> Inl x | Inr rs \<Rightarrow> Inr (r # rs)))"

definition from_file :: "rule_entry list \<Rightarrow> (pystr \<times> int) list \<Rightarrow> policy_engine result" where
  "from_file ens ths = (case rules_of_entries ens of
       Inl x \<Rightarrow> Inl x
     | Inr rs \<Rightarrow> Inr \<lparr>rules = rs, thresholds = ths\<rparr>)"

section \<open>The shipped rules\<close>

definition ci_lit :: "pystr \<Rightarrow> rx" where "ci_lit = RLitI"

text \<open>\<open>(?i)(aws_secret_access_key|private[_-]?key)\\s*[:=]\<close>\<close>

definition secret_key_rx :: rx where
  "secret_key_rx = RSeqs
     [RAlt (ci_lit ''aws_secret_access_key'')
        (RSeqs [ci_lit ''private'', ROpt (RSet (\<lambda>c. c \<in> set ''_-'')), ci_lit ''key'']),
      RStar True RSpace, RSet (\<lambda>c. c \<in> set '':='')]"

text \<open>\<open>-----BEGIN [A-Z ]*PRIVATE KEY-----\<close>\<close>

definition private_key_rx :: rx where
  "private_key_rx = RSeqs
     [RLit ''-----BEGIN '', RStar True (RRanges [(65, 90), (32, 32)]), RLit ''PRIVATE KEY-----'']"

text \<open>\<open>(?i)\\b(password|passwd|pwd)\\s*[:=]\\s*["'][^"'{}$]{6,}["']\<close>\<close>

definition password_rx :: rx where
  "password_rx =
     (let quote = RSet (\<lambda>c. c = CHR 0x22 \<or> c = CHR 0x27);
          inner = RSet (\<lambda>c. c \<notin> {CHR 0x22, CHR 0x27, CHR 0x7B, CHR 0x7D, CHR 0x24})
      in RSeqs [RBound, RAlts (ci_lit ''password'') [ci_lit ''passwd'', ci_lit ''pwd''],
           RStar True RSpace, RSet (\<lambda>c. c \<in> set '':=''), RStar True RSpace, quote,
           RRep 6 inner, RStar True inner, quote])"

definition path_rule :: "pystr \<Rightarrow> pystr \<Rightarrow> pystr list \<Rightarrow> pystr list \<Rightarrow> policy_action \<Rightarrow> risk_level \<Rightarrow> rule" where
  "path_rule n d pats ps a r =
     \<lparr>rule_name = n, rule_action = a, rule_risk = r, rule_description = d, rule_patterns = pats,
      rule_paths = ps, rule_content = []\<rparr>"

definition DEFAULT_RULES :: "rule list" where
  "DEFAULT_RULES =
    [path_rule ''block-secrets'' ''Never let the agent add or modify credential material.''
       [''.env'', ''*.pem'', ''*.pfx'', ''*.key'', ''*credentials*'', ''*secrets*''] [] BLOCK HIGH,
     \<lparr>rule_name = ''block-committed-secret-values'', rule_action = BLOCK, rule_risk = HIGH,
      rule_description = ''Catch a secret pasted into an otherwise ordinary file.'',
      rule_patterns = [], rule_paths = [],
      rule_content = [secret_key_rx, private_key_rx, password_rx]\<rparr>,
     path_rule ''production-infrastructure''
       ''Production infrastructure is out of scope for the POC (section 54).''
       [] [''infra/prod/'', ''deploy/production/'', ''kubernetes/production/''] BLOCK HIGH,
     path_rule ''sensitive-auth'' ''Authentication and security code always needs a human.''
       [] [''Authentication/'', ''Authorization/'', ''Security/'', ''Identity/''] HUMAN_APPROVAL HIGH,
     path_rule ''ci-workflow-changes'' ''The agent may propose CI changes, but a person approves them.''
       [] [''.github/workflows/'', ''azure-pipelines''] HUMAN_APPROVAL MEDIUM,
     path_rule ''database-migrations'' ''Schema changes are irreversible in ways tests do not catch.''
       [] [''Migrations/'', ''migrations/''] HUMAN_APPROVAL MEDIUM,
     path_rule ''dependency-manifest'' ''Adding dependencies changes the supply chain.''
       [''*.csproj'', ''packages.config'', ''package.json'', ''pyproject.toml'', ''requirements.txt'']
       [] HUMAN_APPROVAL MEDIUM]"

definition DEFAULT_ENGINE :: policy_engine where
  "DEFAULT_ENGINE =
     \<lparr>rules = DEFAULT_RULES,
      thresholds = [(''max_files_changed'', 12), (''max_lines_changed'', 800), (''medium_risk_files'', 4)]\<rparr>"

definition rules_as_dicts :: "policy_engine \<Rightarrow> (pystr \<times> pystr) list list" where
  "rules_as_dicts e = map (\<lambda>r.
     [(''name'', rule_name r), (''action'', action_value (rule_action r)),
      (''risk'', risk_value (rule_risk r)), (''description'', rule_description r)]) (rules e)"

section \<open>What a shell pattern without brackets matches\<close>

definition plain :: "char \<Rightarrow> bool" where
  "plain c \<longleftrightarrow> c \<notin> {CHR ''*'', CHR ''?'', CHR ''[''}"

lemma glob_parse_plain: "list_all plain pat \<Longrightarrow> glob_parse pat = map GLit pat"
  by (induction pat) (auto simp: plain_def)

lemma glob_match_literal [simp]: "glob_match (map GLit pat) s \<longleftrightarrow> s = pat"
proof (induction pat arbitrary: s)
  case (Cons c pat)
  then show ?case by (cases s) auto
qed auto

lemma glob_match_star: "glob_match (GStar # gs) s \<longleftrightarrow> (\<exists>a b. s = a @ b \<and> glob_match gs b)"
proof (induction s)
  case Nil
  then show ?case by auto
next
  case (Cons c s)
  then show ?case by (auto simp: Cons_eq_append_conv)
qed

lemma fnmatch_literal: "list_all plain pat \<Longrightarrow> fnmatch s pat \<longleftrightarrow> s = pat"
  by (simp add: fnmatch_def glob_parse_plain)

lemma fnmatch_suffix:
  "list_all plain pat \<Longrightarrow> fnmatch s (CHR ''*'' # pat) \<longleftrightarrow> (\<exists>a. s = a @ pat)"
  by (simp add: fnmatch_def glob_parse_plain glob_match_star)

section \<open>Resolution\<close>

lemma strongest_from_eq:
  "strongest_from a fs = fold (\<lambda>f m. max m (finding_action f)) fs a"
proof (induction fs arbitrary: a)
  case (Cons f fs)
  have "(if ACTION_STRENGTH (finding_action f) > ACTION_STRENGTH a then finding_action f else a)
      = max a (finding_action f)"
    by (cases a; cases "finding_action f") (simp_all add: max_def less_eq_policy_action_def)
  with Cons show ?case by simp
qed simp

lemma strongest_from_ge:
  "a \<le> strongest_from a fs" "f \<in> set fs \<Longrightarrow> finding_action f \<le> strongest_from a fs"
proof (induction fs arbitrary: a)
  case (Cons g fs)
  { case 1
    show ?case by (simp add: strongest_from_eq) (metis Cons.IH(1) max.bounded_iff strongest_from_eq) }
  { case 2
    then show ?case
      by (simp add: strongest_from_eq)
         (metis Cons.IH(1) Cons.IH(2) max.bounded_iff strongest_from_eq) }
qed auto

lemma strongest_from_attained:
  "strongest_from a fs = a \<or> (\<exists>f \<in> set fs. strongest_from a fs = finding_action f)"
  by (induction fs arbitrary: a) auto

text \<open>The resolved decision is the least upper bound of the findings.\<close>

lemma resolve_action_le_iff:
  "decision_action (resolve_findings fs) \<le> b \<longleftrightarrow> (\<forall>f \<in> set fs. finding_action f \<le> b)"
proof
  assume "decision_action (resolve_findings fs) \<le> b"
  then show "\<forall>f \<in> set fs. finding_action f \<le> b"
    by (auto simp: resolve_findings_def intro: order_trans strongest_from_ge(2))
next
  assume "\<forall>f \<in> set fs. finding_action f \<le> b"
  then show "decision_action (resolve_findings fs) \<le> b"
    using strongest_from_attained [of ALLOW fs] by (auto simp: resolve_findings_def)
qed

lemma finding_risk_le: "f \<in> set fs \<Longrightarrow> finding_risk f \<le> decision_risk (resolve_findings fs)"
  by (simp add: resolve_findings_def max_risk_ge)

lemma resolve_risk_le_iff:
  "decision_risk (resolve_findings fs) \<le> b \<longleftrightarrow> (\<forall>f \<in> set fs. finding_risk f \<le> b)"
proof
  show "decision_risk (resolve_findings fs) \<le> b \<Longrightarrow> \<forall>f \<in> set fs. finding_risk f \<le> b"
    using finding_risk_le order_trans by blast
next
  assume "\<forall>f \<in> set fs. finding_risk f \<le> b"
  then show "decision_risk (resolve_findings fs) \<le> b"
    using max_risk_attained [of "map (\<lambda>f. Some (finding_risk f)) fs"]
    by (auto simp: resolve_findings_def)
qed

lemma finding_action_le: "f \<in> set fs \<Longrightarrow> finding_action f \<le> decision_action (resolve_findings fs)"
  using resolve_action_le_iff [of fs "decision_action (resolve_findings fs)"] by simp

lemma resolve_mono:
  assumes "\<And>f. f \<in> set fs \<Longrightarrow> \<exists>g \<in> set gs. finding_action f = finding_action g \<and> finding_risk f = finding_risk g"
  shows "decision_action (resolve_findings fs) \<le> decision_action (resolve_findings gs)"
    and "decision_risk (resolve_findings fs) \<le> decision_risk (resolve_findings gs)"
  using assms finding_action_le finding_risk_le
  by (fastforce simp: resolve_action_le_iff resolve_risk_le_iff)+

section \<open>Which rules fire\<close>

definition fires :: "pystr list \<Rightarrow> pystr \<Rightarrow> rule \<Rightarrow> bool" where
  "fires files added r \<longleftrightarrow>
     (\<exists>p \<in> set files. matches_path r p) \<or> (rule_content r \<noteq> [] \<and> added \<noteq> [] \<and> matches_content r added)"

lemma rule_findings_fires:
  "f \<in> set (rule_findings files added r) \<Longrightarrow>
     fires files added r \<and> finding_action f = rule_action r \<and> finding_risk f = rule_risk r"
  "fires files added r \<Longrightarrow>
     \<exists>f \<in> set (rule_findings files added r). finding_action f = rule_action r \<and> finding_risk f = rule_risk r"
  by (auto simp: rule_findings_def fires_def Let_def filter_empty_conv split: if_splits)

lemma scope_findings_action: "f \<in> set (scope_findings e files l) \<Longrightarrow> finding_action f \<noteq> BLOCK"
  by (auto simp: scope_findings_def Let_def split: if_splits option.splits)

definition added_of :: "pystr \<Rightarrow> pystr" where
  "added_of diff = (if diff \<noteq> [] then added_lines_of diff else [])"

lemma evaluate_alt:
  "evaluate e files diff l sc =
     resolve_findings (concat (map (rule_findings files (added_of diff)) (rules e))
       @ (if sc then scope_findings e files l else []))"
  by (simp add: evaluate_def added_of_def Let_def)

lemma resolve_blocked_iff:
  "blocked (resolve_findings fs) \<longleftrightarrow> (\<exists>f \<in> set fs. finding_action f = BLOCK)"
  using resolve_action_le_iff [of fs HUMAN_APPROVAL] by (auto simp: blocked_def)

lemma blocked_iff:
  "blocked (evaluate e files diff l sc) \<longleftrightarrow>
     (\<exists>r \<in> set (rules e). rule_action r = BLOCK \<and> fires files (added_of diff) r)"
  (is "_ \<longleftrightarrow> ?R")
proof
  assume "blocked (evaluate e files diff l sc)"
  then obtain r f where "r \<in> set (rules e)" "f \<in> set (rule_findings files (added_of diff) r)"
      "finding_action f = BLOCK"
    by (auto simp: evaluate_alt resolve_blocked_iff dest: scope_findings_action split: if_splits)
  then show ?R using rule_findings_fires(1) by metis
next
  assume ?R
  then obtain r where r: "r \<in> set (rules e)" "rule_action r = BLOCK" "fires files (added_of diff) r"
    by blast
  from rule_findings_fires(2) [OF r(3)] r(1,2) show "blocked (evaluate e files diff l sc)"
    by (auto simp: evaluate_alt resolve_blocked_iff)
qed

lemma fires_mono: "set files \<subseteq> set files' \<Longrightarrow> fires files added r \<Longrightarrow> fires files' added r"
  by (auto simp: fires_def)

lemma rule_findings_mono:
  assumes "set files \<subseteq> set files'" and "f \<in> set (rule_findings files added r)"
  shows "\<exists>g \<in> set (rule_findings files' added r). finding_action f = finding_action g \<and> finding_risk f = finding_risk g"
proof -
  from rule_findings_fires(1) [OF assms(2)] assms(1) have "fires files' added r"
    by (blast intro: fires_mono)
  then show ?thesis
    using rule_findings_fires(1) [OF assms(2)] rule_findings_fires(2) [of files' added r] by metis
qed

text \<open>The scope findings as sets of actions and risks.\<close>

definition sprawled :: "policy_engine \<Rightarrow> pystr list \<Rightarrow> bool" where
  "sprawled e files \<longleftrightarrow> int (length files) > threshold e ''max_files_changed'' 12"

definition oversized :: "policy_engine \<Rightarrow> int option \<Rightarrow> bool" where
  "oversized e l \<longleftrightarrow> (case l of None \<Rightarrow> False | Some n \<Rightarrow> n > threshold e ''max_lines_changed'' 800)"

definition multi_file :: "policy_engine \<Rightarrow> pystr list \<Rightarrow> bool" where
  "multi_file e files \<longleftrightarrow> int (length files) \<ge> threshold e ''medium_risk_files'' 4"

lemma scope_findings_sets:
  "finding_action ` set (scope_findings e files l) =
     (if sprawled e files \<or> oversized e l then {HUMAN_APPROVAL} else {})
     \<union> (if multi_file e files then {ALLOW} else {})"
  "finding_risk ` set (scope_findings e files l) =
     (if sprawled e files then {HIGH} else {})
     \<union> (if oversized e l \<or> multi_file e files then {MEDIUM} else {})"
  by (auto simp: scope_findings_def sprawled_def oversized_def multi_file_def Let_def
      split: option.splits if_splits)

lemma rule_findings_sets:
  "finding_action ` (\<Union>r \<in> R. set (rule_findings files added r)) = rule_action ` {r \<in> R. fires files added r}"
  "finding_risk ` (\<Union>r \<in> R. set (rule_findings files added r)) = rule_risk ` {r \<in> R. fires files added r}"
  using rule_findings_fires by (fastforce simp: image_iff)+

lemma resolve_action_Max:
  "decision_action (resolve_findings fs) = Max (insert ALLOW (finding_action ` set fs))"
proof (rule sym, rule Max_eqI)
  show "decision_action (resolve_findings fs) \<in> insert ALLOW (finding_action ` set fs)"
    using strongest_from_attained [of ALLOW fs] by (auto simp: resolve_findings_def)
qed (auto simp: finding_action_le)

lemma resolve_risk_Max:
  "decision_risk (resolve_findings fs) = Max (insert LOW (finding_risk ` set fs))"
proof (rule sym, rule Max_eqI)
  show "decision_risk (resolve_findings fs) \<in> insert LOW (finding_risk ` set fs)"
    using max_risk_attained [of "map (\<lambda>f. Some (finding_risk f)) fs"]
    by (auto simp: resolve_findings_def)
qed (auto simp: finding_risk_le)

definition fired_rules :: "policy_engine \<Rightarrow> pystr list \<Rightarrow> pystr \<Rightarrow> rule set" where
  "fired_rules e files diff = {r \<in> set (rules e). fires files (added_of diff) r}"

lemma evaluate_action_Max:
  "decision_action (evaluate e files diff l sc) =
     Max (insert ALLOW (rule_action ` fired_rules e files diff
       \<union> (if sc then finding_action ` set (scope_findings e files l) else {})))"
  unfolding evaluate_alt resolve_action_Max fired_rules_def
  by (simp add: image_Un rule_findings_sets)

lemma evaluate_risk_Max:
  "decision_risk (evaluate e files diff l sc) =
     Max (insert LOW (rule_risk ` fired_rules e files diff
       \<union> (if sc then finding_risk ` set (scope_findings e files l) else {})))"
  unfolding evaluate_alt resolve_risk_Max fired_rules_def
  by (simp add: image_Un rule_findings_sets)

lemma finite_fired_rules [simp]: "finite (fired_rules e files diff)"
  by (simp add: fired_rules_def)

section \<open>Properties of the engine\<close>

text \<open>
  C31: \<open>PolicyEngine.evaluate\<close> implements the declarative reading of the rules file: the action is
  the strongest among the rules that fire on a changed path or on added content and the scope
  limits, the risk the highest among them, with ALLOW and LOW as the defaults.
\<close>

theorem evaluate_is_strongest:
  "decision_action (evaluate e files diff l sc) =
      Max ({ALLOW} \<union> rule_action ` fired_rules e files diff
        \<union> (if sc \<and> (sprawled e files \<or> oversized e l) then {HUMAN_APPROVAL} else {}))
   \<and> decision_risk (evaluate e files diff l sc) =
      Max ({LOW} \<union> rule_risk ` fired_rules e files diff
        \<union> (if sc \<and> sprawled e files then {HIGH} else {})
        \<union> (if sc \<and> (oversized e l \<or> multi_file e files) then {MEDIUM} else {}))"
proof -
  have "insert ALLOW (rule_action ` fired_rules e files diff
          \<union> (if sc then finding_action ` set (scope_findings e files l) else {}))
      = {ALLOW} \<union> rule_action ` fired_rules e files diff
        \<union> (if sc \<and> (sprawled e files \<or> oversized e l) then {HUMAN_APPROVAL} else {})"
    unfolding scope_findings_sets by auto
  moreover have "insert LOW (rule_risk ` fired_rules e files diff
          \<union> (if sc then finding_risk ` set (scope_findings e files l) else {}))
      = {LOW} \<union> rule_risk ` fired_rules e files diff
        \<union> (if sc \<and> sprawled e files then {HIGH} else {})
        \<union> (if sc \<and> (oversized e l \<or> multi_file e files) then {MEDIUM} else {})"
    unfolding scope_findings_sets by auto
  ultimately show ?thesis by (simp only: evaluate_action_Max evaluate_risk_Max simp_thms)
qed

text \<open>
  touching more files never weakens a decision: with the same diff, a larger set of files (and
  at least as many of them) gives at least the action and at least the risk.
\<close>

theorem evaluate_monotone:
  assumes "set files \<subseteq> set files'" and "length files \<le> length files'"
  shows "decision_action (evaluate e files diff l sc) \<le> decision_action (evaluate e files' diff l sc)
    \<and> decision_risk (evaluate e files diff l sc) \<le> decision_risk (evaluate e files' diff l sc)"
proof
  have scope: "sprawled e files \<Longrightarrow> sprawled e files'" "multi_file e files \<Longrightarrow> multi_file e files'"
    using assms(2) by (auto simp: sprawled_def multi_file_def)
  have fired: "fired_rules e files diff \<subseteq> fired_rules e files' diff"
    using fires_mono [OF assms(1)] by (auto simp: fired_rules_def)
  have "finding_action ` set (scope_findings e files l)
      \<subseteq> insert ALLOW (finding_action ` set (scope_findings e files' l))"
    unfolding scope_findings_sets using scope by auto
  with fired show "decision_action (evaluate e files diff l sc) \<le> decision_action (evaluate e files' diff l sc)"
    unfolding evaluate_action_Max by (intro Max_mono) auto
  have "finding_risk ` set (scope_findings e files l)
      \<subseteq> finding_risk ` set (scope_findings e files' l)"
    unfolding scope_findings_sets using scope by auto
  with fired show "decision_risk (evaluate e files diff l sc) \<le> decision_risk (evaluate e files' diff l sc)"
    unfolding evaluate_risk_Max by (intro Max_mono) auto
qed

theorem evaluate_monotone_witness:
  "decision_action (evaluate DEFAULT_ENGINE [''a.cs''] [] None True)
     \<le> decision_action (evaluate DEFAULT_ENGINE [''a.cs'', ''keys/id.pem''] [] None True)"
  using evaluate_monotone [of "[''a.cs'']" "[''a.cs'', ''keys/id.pem'']" DEFAULT_ENGINE "[]" None True]
  by simp

text \<open>
  C32: the two uses of the engine agree. The commit gate blocks a change exactly when it contains a
  file the pre-write gate refuses, or when a blocking content rule matches its added lines:
  nothing the pre-write gate refuses can pass the commit gate, and the scope limits never block.
\<close>

theorem write_gate_agrees_with_commit_gate:
  "blocked (evaluate e files diff l sc) \<longleftrightarrow>
     (\<exists>p \<in> set files. blocked (check_path_writable e p))
     \<or> (\<exists>r \<in> set (rules e). rule_action r = BLOCK \<and> added_of diff \<noteq> [] \<and> matches_content r (added_of diff))"
  unfolding check_path_writable_def blocked_iff
  by (auto simp: fires_def added_of_def matches_content_def)

text \<open>
  The shipped rules refuse a write to credential material in any directory: a file called
  \<open>.env\<close> and every file with a \<open>.pem\<close>, \<open>.pfx\<close> or \<open>.key\<close> suffix.
\<close>

theorem default_rules_refuse_credentials:
  "blocked (check_path_writable DEFAULT_ENGINE ''.env'')
   \<and> blocked (check_path_writable DEFAULT_ENGINE (dir @ ''/.env''))
   \<and> blocked (check_path_writable DEFAULT_ENGINE (stem @ ''.pem''))
   \<and> blocked (check_path_writable DEFAULT_ENGINE (stem @ ''.pfx''))
   \<and> blocked (check_path_writable DEFAULT_ENGINE (stem @ ''.key''))"
proof -
  let ?r = "hd DEFAULT_RULES"
  have r: "?r \<in> set (rules DEFAULT_ENGINE)" "rule_action ?r = BLOCK"
    by (simp_all add: DEFAULT_ENGINE_def DEFAULT_RULES_def path_rule_def)
  have *: "blocked (check_path_writable DEFAULT_ENGINE p)" if "matches_path ?r p" for p
    unfolding check_path_writable_def blocked_iff using r that by (auto simp: fires_def)
  have pats: "rule_patterns ?r = [''.env'', ''*.pem'', ''*.pfx'', ''*.key'', ''*credentials*'', ''*secrets*'']"
    by (simp add: DEFAULT_RULES_def path_rule_def)
  note facts = matches_path_def Let_def pats str_replace_char_def last_split_char_append
    last_split_char_suffix split_char_no_sep fnmatch_literal fnmatch_suffix plain_def
  show ?thesis by (intro conjI; rule *) (simp_all add: facts)
qed

end
