(* ===== verification/Prompts.thy ===== *)
theory Prompts
  imports Json
begin

text \<open>
  \<open>str.format\<close> without arguments, which is how the agents format their prompt templates
  (\<open>agents/base.py\<close>): doubled braces stand for themselves, and the first replacement field raises,
  since there is nothing to replace it with. The scanner is the one of the standard library.
\<close>

definition value_error :: "pystr \<Rightarrow> py_error" where
  "value_error m = OtherError ''ValueError'' m"

definition key_error :: "pystr \<Rightarrow> py_error" where
  "key_error k = OtherError ''KeyError'' (repr_str k)"

definition OPEN :: char where
  "OPEN = CHR 0x7B"

definition CLOSE :: char where
  "CLOSE = CHR 0x7D"

text \<open>The rest of a field after its format specification began: \<open>depth\<close> braces are still open.\<close>

fun spec_closes :: "nat \<Rightarrow> pystr \<Rightarrow> bool" where
  "spec_closes depth [] = False"
| "spec_closes depth (c # s) =
     (if c = OPEN then spec_closes (Suc depth) s
      else if c = CLOSE then depth = 1 \<or> spec_closes (depth - 1) s
      else spec_closes depth s)"

text \<open>The conversion after an exclamation mark, and what follows it.\<close>

definition after_conversion :: "pystr \<Rightarrow> py_error option" where
  "after_conversion s =
     (case s of
        [] \<Rightarrow> Some (value_error ''end of string while looking for conversion specifier'')
      | _ # [] \<Rightarrow> Some (value_error (''unmatched '' @ [CHR 0x27, OPEN, CHR 0x27] @ '' in format spec''))
      | _ # c # rest \<Rightarrow>
          if c = CLOSE then None
          else if c \<noteq> CHR '':'' then Some (value_error (''expected '' @ [CHR 0x27] @ '':'' @ [CHR 0x27] @ '' after conversion specifier''))
          else if spec_closes 1 rest then None
          else Some (value_error (''unmatched '' @ [CHR 0x27, OPEN, CHR 0x27] @ '' in format spec'')))"

text \<open>
  Reading a field: its name up to a closing brace, a colon or an exclamation mark; an index in square
  brackets is skipped. The result is the name, or the error of a malformed field.
\<close>

function field_name :: "pystr \<Rightarrow> pystr \<Rightarrow> pystr result" where
  "field_name acc s =
     (case s of
        [] \<Rightarrow> Inl (value_error (''expected '' @ [CHR 0x27, CLOSE, CHR 0x27] @ '' before end of string''))
      | c # r \<Rightarrow>
          if c = OPEN then Inl (value_error (''unexpected '' @ [CHR 0x27, OPEN, CHR 0x27] @ '' in field name''))
          else if c = CHR ''['' then field_name (acc @ c # takeWhile (\<lambda>x. x \<noteq> CHR '']'') r) (dropWhile (\<lambda>x. x \<noteq> CHR '']'') r)
          else if c = CLOSE then Inr acc
          else if c = CHR '':'' then
            (if spec_closes 1 r then Inr acc
             else Inl (value_error (''unmatched '' @ [CHR 0x27, OPEN, CHR 0x27] @ '' in format spec'')))
          else if c = CHR ''!'' then (case after_conversion r of None \<Rightarrow> Inr acc | Some e \<Rightarrow> Inl e)
          else field_name (acc @ [c]) r)"
  by pat_completeness auto
termination
  by (relation "measure (\<lambda>(acc, s). length s)") (auto simp: less_Suc_eq_le length_dropWhile_le)

declare field_name.simps [simp del]

text \<open>
  Looking up a field with no arguments: an empty or numeric name is a position, anything else a key.
\<close>

definition lookup_error :: "pystr \<Rightarrow> py_error" where
  "lookup_error name =
     (let key = takeWhile (\<lambda>c. c \<noteq> CHR ''.'' \<and> c \<noteq> CHR ''['') name in
      if list_all is_digit key
      then OtherError ''IndexError'' (''Replacement index '' @ show_nat (nat_of_digits 0 key) @ '' out of range for positional args tuple'')
      else key_error key)"

fun format_plain :: "pystr \<Rightarrow> pystr result" where
  "format_plain [] = Inr []"
| "format_plain [c] =
     (if c = CLOSE then Inl (value_error (''Single '' @ [CHR 0x27, CLOSE, CHR 0x27] @ '' encountered in format string''))
      else if c = OPEN then Inl (value_error (''Single '' @ [CHR 0x27, OPEN, CHR 0x27] @ '' encountered in format string''))
      else Inr [c])"
| "format_plain (c # d # s) =
     (if c = CLOSE then
        (if d = CLOSE then map_sum id (Cons CLOSE) (format_plain s)
         else Inl (value_error (''Single '' @ [CHR 0x27, CLOSE, CHR 0x27] @ '' encountered in format string'')))
      else if c = OPEN then
        (if d = OPEN then map_sum id (Cons OPEN) (format_plain s)
         else (case field_name [] (d # s) of Inl e \<Rightarrow> Inl e | Inr name \<Rightarrow> Inl (lookup_error name)))
      else map_sum id (Cons c) (format_plain (d # s)))"

text \<open>A template without braces is its own formatting, and doubling the braces of any text protects it.\<close>

definition escape_braces :: "pystr \<Rightarrow> pystr" where
  "escape_braces s = concat (map (\<lambda>c. if c = OPEN \<or> c = CLOSE then [c, c] else [c]) s)"

lemma format_plain_other: "c \<noteq> OPEN \<Longrightarrow> c \<noteq> CLOSE \<Longrightarrow> format_plain (c # s) = map_sum id (Cons c) (format_plain s)"
  by (cases s) simp_all

theorem format_escaped: "format_plain (escape_braces s) = Inr s"
proof (induction s)
  case (Cons c s)
  show ?case
  proof (cases "c = OPEN \<or> c = CLOSE")
    case True
    with Cons show ?thesis by (auto simp: escape_braces_def OPEN_def CLOSE_def)
  next
    case False
    with Cons show ?thesis by (simp add: escape_braces_def format_plain_other)
  qed
qed (simp add: escape_braces_def)

lemma format_without_braces: "OPEN \<notin> set s \<Longrightarrow> CLOSE \<notin> set s \<Longrightarrow> format_plain s = Inr s"
  by (induction s) (auto simp: format_plain_other)

end
