(* ===== verification/Json_Text.thy ===== *)
theory Json_Text
  imports Json
begin

text \<open>
  The text of JSON: \<open>json.dumps\<close>, on one line or with \<open>indent\<close>, and \<open>json.loads\<close>, as the standard
  library defines them and as payload columns, live events, review records and scripts use them.
  Strings are escaped to ASCII. \<open>None\<close> is a \<open>JSONDecodeError\<close>; a \<open>\\u\<close> escape above one byte, which
  the model's characters cannot hold, is one too. The conversion of a decimal text to a float and
  back, \<open>repr(float(text))\<close>, is the argument \<open>fr\<close>. The main result is that what was printed is read
  back.
\<close>

section \<open>Printing\<close>

definition escape_char :: "char \<Rightarrow> pystr" where
  "escape_char c =
     (if c = CHR 0x22 \<or> c = CHR 0x5C then [CHR 0x5C, c]
      else if c = CHR 0x0A then [CHR 0x5C, CHR ''n'']
      else if c = CHR 0x0D then [CHR 0x5C, CHR ''r'']
      else if c = CHR 0x09 then [CHR 0x5C, CHR ''t'']
      else if c = CHR 0x0C then [CHR 0x5C, CHR ''f'']
      else if c = CHR 0x08 then [CHR 0x5C, CHR ''b'']
      else if in_ranges [(32, 126)] c then [c]
      else [CHR 0x5C, CHR ''u'', CHR ''0'', CHR ''0''] @ hex2 (of_char c))"

definition json_string :: "pystr \<Rightarrow> pystr" where
  "json_string s = CHR 0x22 # concat (map escape_char s) @ [CHR 0x22]"

definition FLOAT_CONSTANTS :: "(pystr \<times> pystr) list" where
  "FLOAT_CONSTANTS = [(''nan'', ''NaN''), (''inf'', ''Infinity''), (''-inf'', ''-Infinity'')]"

definition json_float :: "pystr \<Rightarrow> pystr" where
  "json_float f = get_default f (map_of FLOAT_CONSTANTS f)"

text \<open>With an indentation, items stand on lines of their own, indented by the nesting level.\<close>

definition margin :: "nat option \<Rightarrow> nat \<Rightarrow> pystr" where
  "margin indent level =
     (case indent of None \<Rightarrow> [] | Some n \<Rightarrow> CHR 0x0A # replicate (n * level) (CHR '' ''))"

definition item_gap :: "nat option \<Rightarrow> nat \<Rightarrow> pystr" where
  "item_gap indent level = (case indent of None \<Rightarrow> '' '' | Some n \<Rightarrow> margin indent level)"

definition enclosed :: "nat option \<Rightarrow> nat \<Rightarrow> char \<Rightarrow> pystr list \<Rightarrow> char \<Rightarrow> pystr" where
  "enclosed indent level left items right =
     (if items = [] then [left, right]
      else [left] @ margin indent (Suc level) @ str_join ('','' @ item_gap indent (Suc level)) items
        @ margin indent level @ [right])"

fun dump :: "nat option \<Rightarrow> nat \<Rightarrow> json \<Rightarrow> pystr" where
  "dump indent level JNull = ''null''"
| "dump indent level (JBool b) = (if b then ''true'' else ''false'')"
| "dump indent level (JInt i) = show_int i"
| "dump indent level (JFloat f) = json_float f"
| "dump indent level (JStr s) = json_string s"
| "dump indent level (JArr xs) =
     enclosed indent level (CHR ''['') (map (dump indent (Suc level)) xs) (CHR '']'')"
| "dump indent level (JObj kvs) =
     enclosed indent level (CHR 0x7B)
       (map (\<lambda>kv. json_string (fst kv) @ '': '' @ dump indent (Suc level) (snd kv)) kvs) (CHR 0x7D)"

definition dumps :: "json \<Rightarrow> pystr" where
  "dumps j = dump None 0 j"

definition dumps_indent :: "nat \<Rightarrow> json \<Rightarrow> pystr" where
  "dumps_indent n j = dump (Some n) 0 j"

section \<open>Reading\<close>

definition skip_ws :: "pystr \<Rightarrow> pystr" where
  "skip_ws s = dropWhile (\<lambda>c. c \<in> {CHR '' '', CHR 0x09, CHR 0x0A, CHR 0x0D}) s"

definition hex_value :: "char \<Rightarrow> nat option" where
  "hex_value c =
     (if in_ranges [(48, 57)] c then Some (of_char c - 48)
      else if in_ranges [(97, 102)] c then Some (of_char c - 87)
      else if in_ranges [(65, 70)] c then Some (of_char c - 55)
      else None)"

fun hex_code :: "nat \<Rightarrow> pystr \<Rightarrow> nat option" where
  "hex_code n [] = Some n"
| "hex_code n (c # cs) = (case hex_value c of None \<Rightarrow> None | Some d \<Rightarrow> hex_code (16 * n + d) cs)"

definition BACKSLASH :: "(char \<times> char) list" where
  "BACKSLASH = [(CHR 0x22, CHR 0x22), (CHR 0x5C, CHR 0x5C), (CHR ''/'', CHR ''/''), (CHR ''b'', CHR 0x08),
     (CHR ''f'', CHR 0x0C), (CHR ''n'', CHR 0x0A), (CHR ''r'', CHR 0x0D), (CHR ''t'', CHR 0x09)]"

text \<open>One character of a string literal with the rest of the text; \<open>None\<close> is an error.\<close>

definition scan_char :: "pystr \<Rightarrow> (char \<times> pystr) option" where
  "scan_char s =
     (case s of
        [] \<Rightarrow> None
      | c # r \<Rightarrow>
          if c = CHR 0x5C
          then (case r of
                  [] \<Rightarrow> None
                | e # t \<Rightarrow>
                    if e = CHR ''u''
                    then (if length t < 4 then None
                          else case hex_code 0 (take 4 t) of
                            None \<Rightarrow> None
                          | Some n \<Rightarrow> if n < 256 then Some (char_of n, drop 4 t) else None)
                    else (case map_of BACKSLASH e of None \<Rightarrow> None | Some d \<Rightarrow> Some (d, t)))
          else if (of_char c :: nat) < 32 then None
          else Some (c, r))"

text \<open>The rest of a string literal after its opening quote; control characters are not allowed.\<close>

function scan_string :: "pystr \<Rightarrow> (pystr \<times> pystr) option" where
  "scan_string s =
     (if s \<noteq> [] \<and> hd s = CHR 0x22 then Some ([], tl s)
      else case scan_char s of
        None \<Rightarrow> None
      | Some (c, r) \<Rightarrow> (case scan_string r of None \<Rightarrow> None | Some (cs, t) \<Rightarrow> Some (c # cs, t)))"
  by pat_completeness auto

lemma scan_char_shorter: "scan_char s = Some (c, r) \<Longrightarrow> length r < length s"
  by (auto simp: scan_char_def split: list.splits if_splits option.splits)

termination scan_string
  by (relation "measure length") (auto dest: scan_char_shorter)

declare scan_string.simps [simp del]

text \<open>The longest number at the front, in its three parts: integer, fraction, exponent.\<close>

definition scan_nat :: "pystr \<Rightarrow> (pystr \<times> pystr) option" where
  "scan_nat s =
     (case s of
        [] \<Rightarrow> None
      | c # t \<Rightarrow>
          if c = CHR ''0'' then Some ([c], t)
          else if is_digit c then Some (takeWhile is_digit s, dropWhile is_digit s)
          else None)"

definition scan_int :: "pystr \<Rightarrow> (pystr \<times> pystr) option" where
  "scan_int s =
     (if starts_with ''-'' s then map_option (\<lambda>(i, t). (CHR ''-'' # i, t)) (scan_nat (tl s)) else scan_nat s)"

definition scan_frac :: "pystr \<Rightarrow> pystr \<times> pystr" where
  "scan_frac s =
     (case s of
        [] \<Rightarrow> ([], s)
      | c # r \<Rightarrow> if c = CHR ''.'' \<and> takeWhile is_digit r \<noteq> [] then (c # takeWhile is_digit r, dropWhile is_digit r)
          else ([], s))"

definition exp_sign :: "pystr \<Rightarrow> pystr" where
  "exp_sign s = (if starts_with ''-'' s \<or> starts_with ''+'' s then take 1 s else [])"

definition scan_exp :: "pystr \<Rightarrow> pystr \<times> pystr" where
  "scan_exp s =
     (case s of
        [] \<Rightarrow> ([], s)
      | c # r \<Rightarrow>
          let t = drop (length (exp_sign r)) r in
          if (c = CHR ''e'' \<or> c = CHR ''E'') \<and> takeWhile is_digit t \<noteq> []
          then (c # exp_sign r @ takeWhile is_digit t, dropWhile is_digit t)
          else ([], s))"

definition int_of_text :: "pystr \<Rightarrow> int" where
  "int_of_text s = (if starts_with ''-'' s then - int (nat_of_digits 0 (tl s)) else int (nat_of_digits 0 s))"

definition scan_number :: "(pystr \<Rightarrow> pystr) \<Rightarrow> pystr \<Rightarrow> (json \<times> pystr) option" where
  "scan_number fr s =
     (case scan_int s of
        None \<Rightarrow> None
      | Some (i, r) \<Rightarrow>
          (case scan_frac r of (f, r') \<Rightarrow>
           case scan_exp r' of (e, r'') \<Rightarrow>
             Some (if f = [] \<and> e = [] then JInt (int_of_text i) else JFloat (fr (i @ f @ e)), r'')))"

definition WORDS :: "(pystr \<times> json) list" where
  "WORDS = [(''null'', JNull), (''true'', JBool True), (''false'', JBool False), (''NaN'', JFloat ''nan''),
     (''Infinity'', JFloat ''inf''), (''-Infinity'', JFloat ''-inf'')]"

definition scan_word :: "pystr \<Rightarrow> (json \<times> pystr) option" where
  "scan_word s = map_option (\<lambda>(w, j). (j, drop (length w) s)) (find (\<lambda>(w, j). starts_with w s) WORDS)"

definition scan_atom :: "(pystr \<Rightarrow> pystr) \<Rightarrow> pystr \<Rightarrow> (json \<times> pystr) option" where
  "scan_atom fr s = (case scan_number fr s of Some x \<Rightarrow> Some x | None \<Rightarrow> scan_word s)"

text \<open>A dictionary built from pairs: the last value of a key counts, at the place of the first.\<close>

definition dict_of :: "(pystr \<times> json) list \<Rightarrow> dict" where
  "dict_of ps = fold (\<lambda>(k, v) d. dict_set d k v) ps []"

text \<open>
  A value at the front of a text, the items of an array and the members of an object after the
  opening bracket. Every call takes one unit of fuel.
\<close>

fun parse_value :: "(pystr \<Rightarrow> pystr) \<Rightarrow> nat \<Rightarrow> pystr \<Rightarrow> (json \<times> pystr) option"
  and parse_items :: "(pystr \<Rightarrow> pystr) \<Rightarrow> nat \<Rightarrow> pystr \<Rightarrow> (json list \<times> pystr) option"
  and parse_members :: "(pystr \<Rightarrow> pystr) \<Rightarrow> nat \<Rightarrow> pystr \<Rightarrow> ((pystr \<times> json) list \<times> pystr) option" where
  "parse_value fr 0 s = None"
| "parse_value fr (Suc n) s =
     (if starts_with [CHR 0x22] s then map_option (\<lambda>(t, r). (JStr t, r)) (scan_string (tl s))
      else if starts_with ''['' s
      then (let r = skip_ws (tl s) in
            if starts_with '']'' r then Some (JArr [], tl r)
            else map_option (\<lambda>(vs, t). (JArr vs, t)) (parse_items fr n r))
      else if starts_with [CHR 0x7B] s
      then (let r = skip_ws (tl s) in
            if starts_with [CHR 0x7D] r then Some (JObj [], tl r)
            else map_option (\<lambda>(ps, t). (JObj (dict_of ps), t)) (parse_members fr n r))
      else scan_atom fr s)"
| "parse_items fr 0 s = None"
| "parse_items fr (Suc n) s =
     (case parse_value fr n s of
        None \<Rightarrow> None
      | Some (v, r) \<Rightarrow>
          (let t = skip_ws r in
           if starts_with '']'' t then Some ([v], tl t)
           else if starts_with '','' t
           then map_option (\<lambda>(vs, u). (v # vs, u)) (parse_items fr n (skip_ws (tl t)))
           else None))"
| "parse_members fr 0 s = None"
| "parse_members fr (Suc n) s =
     (if \<not> starts_with [CHR 0x22] s then None
      else case scan_string (tl s) of
        None \<Rightarrow> None
      | Some (k, r) \<Rightarrow>
          if \<not> starts_with '':'' (skip_ws r) then None
          else case parse_value fr n (skip_ws (tl (skip_ws r))) of
            None \<Rightarrow> None
          | Some (v, u) \<Rightarrow>
              (let t = skip_ws u in
               if starts_with [CHR 0x7D] t then Some ([(k, v)], tl t)
               else if starts_with '','' t
               then map_option (\<lambda>(ps, x). ((k, v) # ps, x)) (parse_members fr n (skip_ws (tl t)))
               else None))"

definition loads :: "(pystr \<Rightarrow> pystr) \<Rightarrow> pystr \<Rightarrow> json option" where
  "loads fr s =
     (case parse_value fr (2 * length s + 2) (skip_ws s) of
        None \<Rightarrow> None
      | Some (v, r) \<Rightarrow> if skip_ws r = [] then Some v else None)"

section \<open>Fuel\<close>

lemma skip_ws_length: "length (skip_ws s) \<le> length s"
  by (simp add: skip_ws_def length_dropWhile_le)

lemma scan_string_shorter: "scan_string s = Some (t, r) \<Longrightarrow> length r < length s"
proof (induction s arbitrary: t r rule: scan_string.induct)
  case (1 s)
  then show ?case
    by (subst (asm) (2) scan_string.simps)
      (fastforce split: if_splits option.splits prod.splits dest: scan_char_shorter less_trans)
qed

lemma scan_nat_shorter: "scan_nat s = Some (i, t) \<Longrightarrow> length t < length s"
  by (auto simp: scan_nat_def length_dropWhile_le le_imp_less_Suc split: list.splits if_splits)

lemma scan_atom_shorter: "scan_atom fr s = Some (j, r) \<Longrightarrow> length r < length s"
proof (cases "scan_number fr s")
  case (Some x)
  assume a: "scan_atom fr s = Some (j, r)"
  obtain i t where i: "scan_int s = Some (i, t)"
    using Some by (cases "scan_int s") (auto simp: scan_number_def)
  have "length t < length s" using i scan_nat_shorter [of s] scan_nat_shorter [of "tl s"]
    by (cases s) (auto simp: scan_int_def split: if_splits)
  moreover have "length (dropWhile is_digit (drop k u)) \<le> Suc (length u)" for k and u :: pystr
    using length_dropWhile_le [of is_digit "drop k u"] by simp
  then have "length (snd (scan_frac u)) \<le> length u" "length (snd (scan_exp u)) \<le> length u" for u
    by (auto simp: scan_frac_def scan_exp_def Let_def length_dropWhile_le le_SucI split: list.splits)
  moreover have "r = snd (scan_exp (snd (scan_frac t)))"
    using a i Some by (auto simp: scan_atom_def scan_number_def split: prod.splits)
  ultimately show ?thesis by (meson le_less_trans order_trans)
next
  case None
  assume "scan_atom fr s = Some (j, r)"
  with None obtain w where w: "find (\<lambda>(w, j). starts_with w s) WORDS = Some (w, j)" "r = drop (length w) s"
    by (auto simp: scan_atom_def scan_word_def)
  from w(1) have "(w, j) \<in> set WORDS" "starts_with w s" by (auto simp: find_Some_iff in_set_conv_nth)
  then have "w \<noteq> []" "\<exists>t. s = w @ t" by (auto simp: WORDS_def starts_with_iff)
  with w(2) show ?thesis by (auto simp: length_greater_0_conv [symmetric] simp del: length_greater_0_conv)
qed

lemma starts_with_length: "starts_with [c] s \<Longrightarrow> length (tl s) < length s"
  by (cases s) (simp_all add: starts_with_def)

lemma parse_shorter:
  "parse_value fr n s = Some (j, r) \<Longrightarrow> length r < length s"
  "parse_items fr n s = Some (js, r) \<Longrightarrow> length r < length s"
  "parse_members fr n s = Some (ps, r) \<Longrightarrow> length r < length s"
proof (induction fr n s and fr n s and fr n s arbitrary: j r and js r and ps r
    rule: parse_value_parse_items_parse_members.induct)
  case (2 fr n s)
  note skip = skip_ws_length [of "tl s"] starts_with_length [of _ s] starts_with_length [of _ "skip_ws (tl s)"]
  from 2 skip show ?case
    by (fastforce simp: Let_def dest: scan_string_shorter scan_atom_shorter split: if_splits)
next
  case (4 fr n s)
  then obtain v u where v: "parse_value fr n s = Some (v, u)" "length u < length s"
    by (auto split: option.splits)
  note skip = skip_ws_length [of u] starts_with_length [of _ "skip_ws u"] skip_ws_length [of "tl (skip_ws u)"]
  from 4 v skip show ?case by (fastforce simp: Let_def split: if_splits)
next
  case (6 fr n s)
  then obtain k t v u where k: "scan_string (tl s) = Some (k, t)" "starts_with [CHR 0x22] s"
    and v: "parse_value fr n (skip_ws (tl (skip_ws t))) = Some (v, u)"
    by (auto split: option.splits if_splits)
  have len: "length u < length s"
    using 6(1) [OF _ k(1) _ _ v] 6(3) k v scan_string_shorter [OF k(1)] skip_ws_length [of "tl (skip_ws t)"] skip_ws_length [of t]
    by (auto split: if_splits option.splits)
  note skip = skip_ws_length [of u] starts_with_length [of _ "skip_ws u"] skip_ws_length [of "tl (skip_ws u)"]
  from 6 k v len skip show ?case by (fastforce simp: Let_def split: if_splits)
qed simp_all

text \<open>Beyond twice the length of the text, more fuel does not change the result.\<close>

lemma parse_fuel_step:
  "2 * length s < n \<Longrightarrow> parse_value fr (Suc n) s = parse_value fr n s"
  "2 * length s + 1 < n \<Longrightarrow> parse_items fr (Suc n) s = parse_items fr n s"
  "2 * length s + 1 < n \<Longrightarrow> parse_members fr (Suc n) s = parse_members fr n s"
proof (induction n arbitrary: s)
  case (Suc n)
  have tail: "2 * length (skip_ws (tl t)) + 1 < n" if "starts_with [c] t" "length t < m" "2 * m \<le> n + 1" for c t m
    using skip_ws_length [of "tl t"] starts_with_length [OF that(1)] that(2,3) by simp
  {
    case 1
    have "2 * length (skip_ws (tl s)) + 1 < n" if "starts_with [c] s" for c
      using skip_ws_length [of "tl s"] starts_with_length [OF that] 1 by simp
    then show ?case using Suc.IH(2,3) [of "skip_ws (tl s)"] by (simp add: Let_def)
  next
    case 2
    have v: "parse_value fr (Suc n) s = parse_value fr n s" using 2 by (intro Suc.IH(1)) simp
    have "parse_items fr (Suc n) (skip_ws (tl (skip_ws r))) = parse_items fr n (skip_ws (tl (skip_ws r)))"
      if "parse_value fr n s = Some (j, r)" "starts_with '','' (skip_ws r)" for j r
      using tail [OF that(2), of "length s"] parse_shorter(1) [OF that(1)] skip_ws_length [of r] 2
      by (intro Suc.IH(2)) simp
    with v show ?case by (auto simp: Let_def split: option.splits simp del: parse_value.simps)
  next
    case 3
    have v: "parse_value fr (Suc n) (skip_ws (tl (skip_ws r))) = parse_value fr n (skip_ws (tl (skip_ws r)))"
      if "scan_string (tl s) = Some (k, r)" for k r
      using scan_string_shorter [OF that] skip_ws_length [of r] skip_ws_length [of "tl (skip_ws r)"] 3
      by (intro Suc.IH(1)) simp
    have "parse_members fr (Suc n) (skip_ws (tl (skip_ws u))) = parse_members fr n (skip_ws (tl (skip_ws u)))"
      if "scan_string (tl s) = Some (k, r)" "parse_value fr n (skip_ws (tl (skip_ws r))) = Some (j, u)"
        "starts_with '','' (skip_ws u)" for k r j u
      using tail [OF that(3), of "length s"] parse_shorter(1) [OF that(2)] scan_string_shorter [OF that(1)]
        skip_ws_length [of r] skip_ws_length [of "tl (skip_ws r)"] skip_ws_length [of u] 3
      by (intro Suc.IH(3)) simp
    with v show ?case by (auto simp: Let_def split: option.splits simp del: parse_value.simps)
  }
qed simp_all

lemma parse_fuel:
  assumes "2 * length s < n"
  shows "parse_value fr (n + k) s = parse_value fr n s"
  by (induction k) (use assms in \<open>simp_all add: parse_fuel_step(1) del: parse_value.simps\<close>)

lemma loads_eventually:
  assumes "\<forall>\<^sub>F n in sequentially. parse_value fr n (skip_ws s) = Some (j, r)" and "skip_ws r = []"
  shows "loads fr s = Some j"
proof -
  let ?n = "2 * length s + 2"
  obtain m where m: "parse_value fr n (skip_ws s) = Some (j, r)" if "m \<le> n" for n
    using assms(1) by (auto simp: eventually_sequentially)
  have "parse_value fr (?n + m) (skip_ws s) = parse_value fr ?n (skip_ws s)"
    using skip_ws_length [of s] by (intro parse_fuel) simp
  with m [of "?n + m"] have "parse_value fr ?n (skip_ws s) = Some (j, r)" by (simp only: le_add2)
  with assms(2) show ?thesis by (simp only: loads_def option.case prod.case simp_thms if_True)
qed

section \<open>What is printed is read back\<close>

subsection \<open>Strings\<close>

lemma hex_digit_value: "d < 16 \<Longrightarrow> hex_value (char_of (if d < 10 then 48 + d else 87 + d)) = Some d"
  by (auto simp: hex_value_def in_ranges_def)

lemma hex_code_hex2: "n < 256 \<Longrightarrow> hex_code 0 (''00'' @ hex2 n) = Some n"
proof -
  assume "n < 256"
  then have "n div 16 < 16" "n mod 16 < 16" by auto
  then show ?thesis
    using hex_digit_value [of "n div 16"] hex_digit_value [of "n mod 16"]
    by (simp add: hex2_def Let_def hex_value_def [of "CHR ''0''"] in_ranges_def)
qed

lemma scan_escaped: "scan_char (escape_char c @ r) = Some (c, r)"
proof -
  have c: "(of_char c :: nat) < 256" by (rule nat_of_char_less_256)
  show ?thesis
  proof (cases "c \<in> {CHR 0x22, CHR 0x5C, CHR 0x0A, CHR 0x0D, CHR 0x09, CHR 0x0C, CHR 0x08}")
    case True
    then show ?thesis by (auto simp: escape_char_def scan_char_def BACKSLASH_def)
  next
    case False
    then show ?thesis
      using hex_code_hex2 [OF c]
      by (auto simp: escape_char_def scan_char_def in_ranges_def hex2_def Let_def)
  qed
qed

lemma escape_char_head: "\<exists>d t. escape_char c = d # t \<and> d \<noteq> CHR 0x22"
  by (auto simp: escape_char_def)

lemma scan_escaped_string: "scan_string (concat (map escape_char s) @ CHR 0x22 # r) = Some (s, r)"
proof (induction s)
  case (Cons c s)
  then show ?case
    using escape_char_head [of c]
    by (subst scan_string.simps) (auto simp: scan_escaped)
qed (simp add: scan_string.simps)

subsection \<open>Numbers\<close>

lemma nat_of_digits_snoc: "nat_of_digits n (s @ [c]) = 10 * nat_of_digits n s + (of_char c - 48)"
  by (induction s arbitrary: n) simp_all

lemma show_nat_digits: "list_all is_digit (show_nat n) \<and> show_nat n \<noteq> []"
proof (induction n rule: show_nat.induct)
  case (1 n)
  have "is_digit (char_of (48 + k))" if "k < 10" for k :: nat
    using that by (simp add: is_digit_def in_ranges_def)
  with 1 show ?case by (subst (1 2) show_nat.simps) simp
qed

lemma show_nat_value: "nat_of_digits 0 (show_nat n) = n"
proof (induction n rule: show_nat.induct)
  case (1 n)
  then show ?case by (subst show_nat.simps) (auto simp: nat_of_digits_snoc)
qed

lemma show_nat_zero: "hd (show_nat n) = CHR ''0'' \<Longrightarrow> show_nat n = ''0''"
proof (induction n rule: show_nat.induct)
  case (1 n)
  show ?case
  proof (cases "n < 10")
    case True
    with 1(2) have "char_of (48 + n) = (CHR ''0'' :: char)" by (simp only: show_nat.simps [of n] if_True list.sel)
    then show ?thesis by (simp only: show_nat.simps [of n] True if_True)
  next
    case False
    then have "hd (show_nat (n div 10)) = CHR ''0''"
      using 1(2) show_nat_digits [of "n div 10"] by (simp add: show_nat.simps [of n])
    with 1(1) [OF False] have "show_nat (n div 10) = ''0''" by simp
    then have "n div 10 = 0" using show_nat_value [of "n div 10"] by simp
    with False show ?thesis by simp
  qed
qed

text \<open>What follows a number in a JSON text does not continue it.\<close>

definition number_ends :: "pystr \<Rightarrow> bool" where
  "number_ends r \<longleftrightarrow> (case r of [] \<Rightarrow> True | c # _ \<Rightarrow> \<not> is_digit c \<and> c \<notin> {CHR ''.'', CHR ''e'', CHR ''E''})"

lemma number_ends_digits:
  assumes "number_ends r" and "list_all is_digit s"
  shows "takeWhile is_digit (s @ r) = s" "dropWhile is_digit (s @ r) = r"
  using assms by (auto simp: list_all_iff number_ends_def split: list.splits)

lemma scan_nat_show: "number_ends r \<Longrightarrow> scan_nat (show_nat n @ r) = Some (show_nat n, r)"
proof -
  assume r: "number_ends r"
  obtain c t where s: "show_nat n = c # t" using show_nat_digits [of n] by (cases "show_nat n") auto
  then have d: "is_digit c" "list_all is_digit t" using show_nat_digits [of n] by auto
  show ?thesis
  proof (cases "c = CHR ''0''")
    case True
    with show_nat_zero [of n] s have "t = []" by simp
    with True s show ?thesis by (simp add: scan_nat_def)
  next
    case False
    with d number_ends_digits [OF r d(2)] s show ?thesis by (simp add: scan_nat_def)
  qed
qed

lemma digit_not_minus: "is_digit c \<Longrightarrow> c \<noteq> CHR ''-''"
  by (auto simp: is_digit_def in_ranges_def)

lemma show_nat_not_minus: "\<not> starts_with ''-'' (show_nat n @ r)"
proof -
  obtain c t where "show_nat n = c # t" "is_digit c" using show_nat_digits [of n] by (cases "show_nat n") auto
  then show ?thesis by (auto simp: starts_with_def dest: digit_not_minus)
qed

lemma scan_number_show_int: "number_ends r \<Longrightarrow> scan_number fr (show_int i @ r) = Some (JInt i, r)"
proof -
  assume r: "number_ends r"
  have "scan_int (show_int i @ r) = Some (show_int i, r)"
    using scan_nat_show [OF r] show_nat_not_minus by (simp add: scan_int_def show_int_def starts_with_def)
  moreover have "int_of_text (show_int i) = i"
    using show_nat_not_minus [of _ "[]"] by (simp add: int_of_text_def show_int_def show_nat_value starts_with_def)
  moreover have "scan_frac r = ([], r)" "scan_exp r = ([], r)"
    using r by (auto simp: scan_frac_def scan_exp_def number_ends_def Let_def split: list.splits)
  ultimately show ?thesis by (simp add: scan_number_def)
qed

subsection \<open>Values\<close>

text \<open>
  Values that have a JSON text: floats are what \<open>repr\<close> gives, which \<open>float\<close> reads back, and no key of a
  dictionary occurs twice.
\<close>

definition float_ok :: "(pystr \<Rightarrow> pystr) \<Rightarrow> pystr \<Rightarrow> bool" where
  "float_ok fr f \<longleftrightarrow> f \<in> set (map fst FLOAT_CONSTANTS) \<or> scan_number fr f = Some (JFloat f, [])"

fun storable :: "(pystr \<Rightarrow> pystr) \<Rightarrow> json \<Rightarrow> bool" where
  "storable fr (JFloat f) = float_ok fr f"
| "storable fr (JArr xs) = list_all (storable fr) xs"
| "storable fr (JObj kvs) = (distinct (map fst kvs) \<and> list_all (\<lambda>kv. storable fr (snd kv)) kvs)"
| "storable fr _ = True"

lemma exp_sign_append: "t \<noteq> [] \<Longrightarrow> exp_sign (t @ r) = exp_sign t" "length (exp_sign t) \<le> length t"
  by (cases t; simp add: exp_sign_def starts_with_def)+

lemma scan_exp_append:
  assumes "scan_exp s = (e, [])" and r: "number_ends r"
  shows "scan_exp (s @ r) = (e, r)"
proof (cases s)
  case (Cons c t)
  let ?u = "drop (length (exp_sign t)) t"
  have c: "c = CHR ''e'' \<or> c = CHR ''E''" "takeWhile is_digit ?u \<noteq> []" "dropWhile is_digit ?u = []"
    and e: "e = c # exp_sign t @ takeWhile is_digit ?u"
    using assms(1) Cons by (auto simp: scan_exp_def Let_def split: if_splits)
  from c(3) have u: "list_all is_digit ?u" "takeWhile is_digit ?u = ?u" by (auto simp: list_all_iff takeWhile_eq_all_conv)
  have "t \<noteq> []" using c(2) by auto
  with exp_sign_append [of t] have "exp_sign (t @ r) = exp_sign t" "drop (length (exp_sign t)) (t @ r) = ?u @ r"
    by simp_all
  moreover have "takeWhile is_digit (?u @ r) = ?u" "dropWhile is_digit (?u @ r) = r"
    using number_ends_digits [OF r u(1)] by simp_all
  moreover have "?u \<noteq> []" using c(2) by auto
  ultimately show ?thesis unfolding Cons append_Cons e u(2) using c(1) by (simp only: scan_exp_def list.case Let_def) simp
next
  case Nil
  with assms show ?thesis by (auto simp: scan_exp_def number_ends_def Let_def split: list.splits)
qed

lemma scan_frac_append:
  assumes "scan_frac s = (f, t)" and "scan_exp t = (e, [])" and r: "number_ends r"
  shows "scan_frac (s @ r) = (f, t @ r)"
proof (cases s)
  case (Cons c u)
  show ?thesis
  proof (cases "c = CHR ''.'' \<and> takeWhile is_digit u \<noteq> []")
    case True
    have f: "f = c # takeWhile is_digit u" "t = dropWhile is_digit u"
      using assms(1) Cons True by (auto simp: scan_frac_def)
    have "takeWhile is_digit (u @ r) = takeWhile is_digit u \<and> dropWhile is_digit (u @ r) = t @ r"
    proof (cases "list_all is_digit u")
      case True
      then show ?thesis using number_ends_digits [OF r True] f
        by (simp add: list_all_iff takeWhile_eq_all_conv [THEN iffD2])
    next
      case False
      then obtain x where "x \<in> set u" "\<not> is_digit x" by (auto simp: list_all_iff)
      then show ?thesis using f by (simp add: takeWhile_append1 dropWhile_append1)
    qed
    with True Cons f show ?thesis by (simp add: scan_frac_def)
  next
    case False
    with assms(1) Cons have "t = s" "f = []" by (auto simp: scan_frac_def)
    with assms(2) Cons have "c = CHR ''e'' \<or> c = CHR ''E''" by (auto simp: scan_exp_def Let_def split: if_splits)
    with \<open>t = s\<close> \<open>f = []\<close> Cons show ?thesis by (auto simp: scan_frac_def)
  qed
next
  case Nil
  with assms show ?thesis by (auto simp: scan_frac_def number_ends_def split: list.splits)
qed

lemma scan_nat_append:
  assumes "scan_nat s = Some (i, t)" and "t = [] \<longrightarrow> number_ends r"
  shows "scan_nat (s @ r) = Some (i, t @ r)"
proof (cases s)
  case (Cons c u)
  show ?thesis
  proof (cases "list_all is_digit s \<and> c \<noteq> CHR ''0''")
    case True
    then have "t = []" "i = s" using assms(1) Cons
      by (auto simp: scan_nat_def list_all_iff takeWhile_eq_all_conv split: if_splits)
    with assms(2) True number_ends_digits [of r s] Cons show ?thesis by (auto simp: scan_nat_def)
  next
    case False
    show ?thesis
    proof (cases "c = CHR ''0''")
      case True
      with assms(1) Cons show ?thesis by (auto simp: scan_nat_def)
    next
      case zero: False
      with False obtain x where "x \<in> set s" "\<not> is_digit x" by (auto simp: list_all_iff)
      then have "takeWhile is_digit (s @ r) = takeWhile is_digit s" "dropWhile is_digit (s @ r) = dropWhile is_digit s @ r"
        by (simp_all add: takeWhile_append1 dropWhile_append1)
      with assms(1) Cons zero show ?thesis by (auto simp: scan_nat_def split: if_splits)
    qed
  qed
qed (use assms in \<open>simp add: scan_nat_def\<close>)

lemma scan_float_append:
  assumes "scan_number fr s = Some (JFloat f, [])" and r: "number_ends r"
  shows "scan_number fr (s @ r) = Some (JFloat f, r)"
proof -
  obtain i t where i: "scan_int s = Some (i, t)" using assms(1) by (auto simp: scan_number_def split: option.splits)
  obtain p u where p: "scan_frac t = (p, u)" by fastforce
  obtain e v where e: "scan_exp u = (e, v)" by fastforce
  from assms(1) i p e have v: "v = []" and f: "\<not> (p = [] \<and> e = [])" "f = fr (i @ p @ e)"
    by (auto simp: scan_number_def split: if_splits)
  have "t \<noteq> []" using p e f(1) by (auto simp: scan_frac_def scan_exp_def)
  have "scan_int (s @ r) = Some (i, t @ r)"
  proof (cases "starts_with ''-'' s")
    case True
    then obtain w where w: "s = CHR ''-'' # w" by (auto simp: starts_with_iff)
    with i obtain i' where "scan_nat w = Some (i', t)" "i = CHR ''-'' # i'"
      by (auto simp: scan_int_def starts_with_def)
    with w scan_nat_append [of w i' t r] \<open>t \<noteq> []\<close> show ?thesis by (simp add: scan_int_def starts_with_def)
  next
    case False
    with i have "scan_nat s = Some (i, t)" by (simp add: scan_int_def)
    moreover have "s \<noteq> []" using calculation by (auto simp: scan_nat_def)
    then have "\<not> starts_with ''-'' (s @ r)" using False by (cases s) (simp_all add: starts_with_def)
    ultimately show ?thesis using scan_nat_append [of s i t r] \<open>t \<noteq> []\<close> by (simp add: scan_int_def)
  qed
  moreover have "scan_frac (t @ r) = (p, u @ r)" using p e v r by (blast intro: scan_frac_append)
  moreover have "scan_exp (u @ r) = (e, r)" using e v r by (blast intro: scan_exp_append)
  ultimately show ?thesis using f by (simp add: scan_number_def)
qed

lemma starts_with_char [simp]: "starts_with [c] (d # s) \<longleftrightarrow> d = c" "\<not> starts_with [c] []"
  by (auto simp: starts_with_def)

definition blank_chars :: "pystr \<Rightarrow> bool" where
  "blank_chars s \<longleftrightarrow> list_all (\<lambda>c. c \<in> {CHR '' '', CHR 0x09, CHR 0x0A, CHR 0x0D}) s"

lemma skip_blank: "blank_chars s \<Longrightarrow> skip_ws (s @ r) = skip_ws r"
  by (induction s) (auto simp: blank_chars_def skip_ws_def)

lemma skip_blank_all: "blank_chars s \<Longrightarrow> skip_ws s = []"
  using skip_blank [of s "[]"] by (simp add: skip_ws_def)

lemma margin_blank: "blank_chars (margin ind l)" "blank_chars (item_gap ind l)"
  by (auto simp: blank_chars_def margin_def item_gap_def list_all_iff split: option.splits)

text \<open>A token of its own: what a value can begin with.\<close>

definition opener :: "char \<Rightarrow> bool" where
  "opener c \<longleftrightarrow> c \<notin> set '' ,:]'' \<and> c \<notin> {CHR 0x09, CHR 0x0A, CHR 0x0D, CHR 0x7D}"

lemma opener_simps [simp]:
  "opener (CHR ''n'')" "opener (CHR ''t'')" "opener (CHR ''f'')" "opener (CHR ''N'')" "opener (CHR ''I'')"
  "opener (CHR ''-'')" "opener (CHR 0x22)" "opener (CHR ''['')" "opener (CHR 0x7B)"
  by (simp_all add: opener_def)

lemma skip_opener: "opener c \<Longrightarrow> skip_ws (c # s) = c # s"
  by (auto simp: skip_ws_def opener_def)

lemma digit_opener: "is_digit c \<Longrightarrow> opener c \<and> c \<notin> {CHR 0x22, CHR ''['', CHR 0x7B}"
  by (auto simp: is_digit_def in_ranges_def opener_def)

lemma scan_number_head:
  assumes "scan_number fr (s @ r) = Some (x, r)"
  shows "\<exists>c t. s = c # t \<and> opener c \<and> c \<notin> {CHR 0x22, CHR ''['', CHR 0x7B}"
proof -
  have "s \<noteq> []"
    using scan_atom_shorter [of fr "s @ r" x r] assms by (auto simp: scan_atom_def)
  then obtain c t where s: "s = c # t" by (cases s) auto
  with assms have "c = CHR ''-'' \<or> is_digit c"
    by (auto simp: scan_number_def scan_int_def scan_nat_def is_digit_def in_ranges_def split: option.splits if_splits)
  then show ?thesis
  proof
    assume "c = CHR ''-''"
    with s show ?thesis by simp
  next
    assume "is_digit c"
    with s digit_opener [of c] show ?thesis by simp
  qed
qed

lemma scan_int_letter: "\<not> is_digit c \<Longrightarrow> c \<noteq> CHR ''-'' \<Longrightarrow> scan_int (c # s) = None"
  "\<not> is_digit c \<Longrightarrow> scan_int (CHR ''-'' # c # s) = None"
  by (auto simp: scan_int_def scan_nat_def is_digit_def in_ranges_def)

lemma scan_word_printed:
  assumes "(w, j) \<in> set WORDS"
  shows "scan_atom fr (w @ r) = Some (j, r) \<and> (\<exists>c t. w = c # t \<and> opener c \<and> c \<notin> {CHR 0x22, CHR ''['', CHR 0x7B})"
proof -
  consider "(w, j) = (''null'', JNull)" | "(w, j) = (''true'', JBool True)" | "(w, j) = (''false'', JBool False)"
    | "(w, j) = (''NaN'', JFloat ''nan'')" | "(w, j) = (''Infinity'', JFloat ''inf'')"
    | "(w, j) = (''-Infinity'', JFloat ''-inf'')"
    using assms unfolding WORDS_def list.set insert_iff empty_iff by fast
  then show ?thesis
    by cases
      (simp_all add: scan_atom_def scan_number_def scan_int_letter is_digit_def in_ranges_def scan_word_def WORDS_def
        starts_with_def)
qed

definition atomic :: "json \<Rightarrow> bool" where
  "atomic j \<longleftrightarrow> (case j of JStr _ \<Rightarrow> False | JArr _ \<Rightarrow> False | JObj _ \<Rightarrow> False | _ \<Rightarrow> True)"

lemma scan_atom_printed:
  assumes "atomic j" and "storable fr j" and "number_ends r"
  shows "scan_atom fr (dump ind l j @ r) = Some (j, r)
    \<and> (\<exists>c t. dump ind l j = c # t \<and> opener c \<and> c \<notin> {CHR 0x22, CHR ''['', CHR 0x7B})"
proof (cases j)
  case JNull
  then show ?thesis using scan_word_printed [of "''null''" JNull] by (simp add: WORDS_def)
next
  case (JBool b)
  then show ?thesis using scan_word_printed [of "''true''" "JBool True"] scan_word_printed [of "''false''" "JBool False"]
    by (simp add: WORDS_def)
next
  case (JInt i)
  with scan_number_show_int [OF assms(3)] have "scan_number fr (dump ind l j @ r) = Some (j, r)" by simp
  with scan_number_head [OF this] show ?thesis by (simp add: scan_atom_def)
next
  case (JFloat f)
  show ?thesis
  proof (cases "f \<in> set (map fst FLOAT_CONSTANTS)")
    case True
    then consider "f = ''nan''" | "f = ''inf''" | "f = ''-inf''" by (auto simp: FLOAT_CONSTANTS_def)
    then have "(json_float f, JFloat f) \<in> set WORDS"
      by cases (simp_all add: FLOAT_CONSTANTS_def json_float_def WORDS_def)
    with JFloat scan_word_printed show ?thesis by simp
  next
    case False
    with JFloat assms(2) have "scan_number fr f = Some (JFloat f, [])" by (simp add: float_ok_def)
    moreover have "json_float f = f" using False by (simp add: json_float_def map_of_eq_None_iff [THEN iffD2])
    ultimately have "scan_number fr (dump ind l j @ r) = Some (j, r)" using JFloat assms(3) by (simp add: scan_float_append)
    with scan_number_head [OF this] show ?thesis by (simp add: scan_atom_def)
  qed
qed (use assms(1) in \<open>simp_all add: atomic_def\<close>)

lemma dump_head: "storable fr j \<Longrightarrow> \<exists>c t. dump ind l j = c # t \<and> opener c"
  using scan_atom_printed [of j fr "[]" ind l]
  by (cases j) (auto simp: atomic_def number_ends_def json_string_def enclosed_def)

lemma skip_dump: "storable fr j \<Longrightarrow> skip_ws (dump ind l j @ r) = dump ind l j @ r"
  using dump_head [of fr j ind l] by (auto simp: skip_opener)

text \<open>With enough fuel, and so with the fuel of \<open>loads\<close>, the printed value is read.\<close>

abbreviation read_as :: "(nat \<Rightarrow> pystr \<Rightarrow> ('a \<times> pystr) option) \<Rightarrow> pystr \<Rightarrow> 'a \<Rightarrow> pystr \<Rightarrow> bool" where
  "read_as parse s j r \<equiv> \<forall>\<^sub>F n in sequentially. parse n s = Some (j, r)"

lemma read_as_Suc: "read_as (\<lambda>n. parse (Suc n)) s j r \<Longrightarrow> read_as parse s j r"
  by (subst (asm) eventually_sequentially_Suc)

lemma number_ends_simps [simp]:
  "number_ends []" "number_ends (CHR '','' # r)" "number_ends (CHR '']'' # r)" "number_ends (CHR 0x7D # r)"
  "number_ends (margin ind l @ CHR '']'' # r)" "number_ends (margin ind l @ CHR 0x7D # r)"
  by (auto simp: number_ends_def margin_def is_digit_def in_ranges_def split: option.splits)

lemma skip_margin [simp]: "skip_ws (margin ind l @ r) = skip_ws r" "skip_ws (item_gap ind l @ r) = skip_ws r"
  using skip_blank margin_blank by blast+

lemma skip_closer [simp]: "skip_ws (CHR '']'' # r) = CHR '']'' # r" "skip_ws (CHR 0x7D # r) = CHR 0x7D # r"
  "skip_ws (CHR '','' # r) = CHR '','' # r" "skip_ws (CHR '':'' # r) = CHR '':'' # r"
  "skip_ws (CHR '' '' # r) = skip_ws r" "skip_ws (CHR 0x22 # r) = CHR 0x22 # r"
  by (simp_all add: skip_ws_def)

lemma join_Cons: "ys \<noteq> [] \<Longrightarrow> str_join sep (x # ys) = x @ sep @ str_join sep ys"
  by (cases ys) simp_all

lemma skip_items:
  assumes "xs \<noteq> []" and "list_all (storable fr) xs"
  shows "skip_ws (str_join sep (map (dump ind l) xs) @ r) = str_join sep (map (dump ind l) xs) @ r"
proof -
  obtain x ys where xs: "xs = x # ys" using assms(1) by (cases xs) auto
  have "\<exists>t. str_join sep (map (dump ind l) xs) = dump ind l x @ t" using xs by (cases ys) auto
  with skip_dump [of fr x ind l] assms(2) xs show ?thesis by auto
qed

lemma parse_items_comma:
  "parse_value fr n s = Some (v, CHR '','' # gap @ t) \<Longrightarrow> skip_ws (gap @ t) = t
    \<Longrightarrow> parse_items fr n t = Some (vs, u) \<Longrightarrow> parse_items fr (Suc n) s = Some (v # vs, u)"
  by (simp add: Let_def)

lemma parse_members_comma:
  "parse_value fr n s = Some (v, CHR '','' # gap @ t) \<Longrightarrow> skip_ws (gap @ t) = t \<Longrightarrow> skip_ws s = s
    \<Longrightarrow> parse_members fr n t = Some (ps, u)
    \<Longrightarrow> parse_members fr (Suc n) (json_string k @ '': '' @ s) = Some ((k, v) # ps, u)"
  by (simp add: Let_def json_string_def scan_escaped_string)

lemma read_items:
  assumes "xs \<noteq> []" and "list_all (storable fr) xs"
    and "\<And>x r. x \<in> set xs \<Longrightarrow> number_ends r \<Longrightarrow> read_as (parse_value fr) (dump ind l x @ r) x r"
  shows "read_as (parse_items fr) (str_join ('','' @ item_gap ind l) (map (dump ind l) xs) @ margin ind k @ CHR '']'' # r) xs r"
  using assms
proof (induction xs rule: list_nonempty_induct)
  case (single x)
  have v: "read_as (parse_value fr) (dump ind l x @ margin ind k @ CHR '']'' # r) x (margin ind k @ CHR '']'' # r)"
    using single by simp
  show ?case by (rule read_as_Suc) (rule eventually_mono [OF v], simp)
next
  case (cons x xs)
  define more where "more = str_join ('','' @ item_gap ind l) (map (dump ind l) xs) @ margin ind k @ CHR '']'' # r"
  let ?r = "CHR '','' # item_gap ind l @ more"
  have skip: "skip_ws (item_gap ind l @ more) = more"
    unfolding more_def using cons(1,3) by (subst skip_margin) (intro skip_items [of _ fr], simp_all)
  have v: "read_as (parse_value fr) (dump ind l x @ ?r) x ?r" using cons(4) by simp
  have more: "read_as (parse_items fr) more xs r" using cons by (simp add: more_def)
  have "read_as (\<lambda>n. parse_items fr (Suc n)) (dump ind l x @ ?r) (x # xs) r"
    by (rule eventually_elim2 [OF v more]) (rule parse_items_comma [OF _ skip])
  then have "read_as (parse_items fr) (dump ind l x @ ?r) (x # xs) r" by (rule read_as_Suc)
  with cons(1) show ?case by (simp add: join_Cons more_def)
qed

lemma read_members:
  assumes "kvs \<noteq> []" and "list_all (\<lambda>kv. storable fr (snd kv)) kvs"
    and "\<And>kv r. kv \<in> set kvs \<Longrightarrow> number_ends r \<Longrightarrow> read_as (parse_value fr) (dump ind l (snd kv) @ r) (snd kv) r"
  shows "read_as (parse_members fr)
    (str_join ('','' @ item_gap ind l) (map (\<lambda>kv. json_string (fst kv) @ '': '' @ dump ind l (snd kv)) kvs)
      @ margin ind k @ CHR 0x7D # r) kvs r"
  using assms
proof (induction kvs rule: list_nonempty_induct)
  case (single kv)
  let ?r = "margin ind k @ CHR 0x7D # r"
  have v: "read_as (parse_value fr) (dump ind l (snd kv) @ ?r) (snd kv) ?r" using single by simp
  have skip: "skip_ws (dump ind l (snd kv) @ ?r) = dump ind l (snd kv) @ ?r" 
    using single skip_dump [of fr "snd kv" ind l] by simp
  have step: "parse_members fr (Suc n) (json_string (fst kv) @ '': '' @ dump ind l (snd kv) @ ?r) = Some ([kv], r)"
    if "parse_value fr n (dump ind l (snd kv) @ ?r) = Some (snd kv, ?r)" for n
    by (simp add: json_string_def scan_escaped_string skip that)
  show ?case by (rule read_as_Suc) (rule eventually_mono [OF v], use step in simp)
next
  case (cons kv kvs)
  let ?show = "\<lambda>kv. json_string (fst kv) @ '': '' @ dump ind l (snd kv)"
  define more where "more = str_join ('','' @ item_gap ind l) (map ?show kvs) @ margin ind k @ CHR 0x7D # r"
  let ?r = "CHR '','' # item_gap ind l @ more"
  have "\<exists>t. more = CHR 0x22 # t"
    using cons(1) unfolding more_def by (cases kvs; cases "tl kvs") (auto simp: json_string_def)
  then have skip: "skip_ws (item_gap ind l @ more) = more" by auto
  have v: "read_as (parse_value fr) (dump ind l (snd kv) @ ?r) (snd kv) ?r" using cons(4) by simp
  have skip_v: "skip_ws (dump ind l (snd kv) @ ?r) = dump ind l (snd kv) @ ?r"
    using cons(3) by (intro skip_dump [of fr]) simp
  have more: "read_as (parse_members fr) more kvs r" using cons by (simp add: more_def)
  have "read_as (\<lambda>n. parse_members fr (Suc n)) (json_string (fst kv) @ '': '' @ dump ind l (snd kv) @ ?r)
      ((fst kv, snd kv) # kvs) r"
    by (rule eventually_elim2 [OF v more]) (rule parse_members_comma [OF _ skip skip_v])
  then have "read_as (parse_members fr) (json_string (fst kv) @ '': '' @ dump ind l (snd kv) @ ?r) (kv # kvs) r"
    unfolding prod.collapse by (rule read_as_Suc)
  with cons(1) show ?case by (simp add: join_Cons more_def)
qed

lemma dict_of_distinct: "distinct (map fst kvs) \<Longrightarrow> dict_of kvs = kvs"
proof (induction kvs rule: rev_induct)
  case (snoc kv kvs)
  have "k \<notin> set (map fst d) \<Longrightarrow> dict_set d k v = d @ [(k, v)]" for d k v
    by (induction d k v rule: dict_set.induct) auto
  with snoc show ?case by (cases kv) (simp add: dict_of_def)
qed (simp add: dict_of_def)

lemma read_atom:
  assumes "atomic j" and "storable fr j" and "number_ends r"
  shows "read_as (parse_value fr) (dump ind l j @ r) j r"
proof -
  obtain c t where c: "dump ind l j = c # t" "c \<notin> {CHR 0x22, CHR ''['', CHR 0x7B}"
    and atom: "scan_atom fr (dump ind l j @ r) = Some (j, r)"
    using scan_atom_printed [OF assms, of ind l] by auto
  then have "parse_value fr (Suc n) (dump ind l j @ r) = Some (j, r)" for n by simp
  then show ?thesis by (intro read_as_Suc [where parse = "parse_value fr"] always_eventually) simp
qed

lemma read_value:
  "storable fr j \<Longrightarrow> number_ends r \<Longrightarrow> read_as (parse_value fr) (dump ind l j @ r) j r"
proof (induction j arbitrary: l r)
  case (JStr s)
  show ?case by (rule read_as_Suc) (simp add: json_string_def scan_escaped_string)
next
  case (JArr xs)
  let ?items = "str_join ('','' @ item_gap ind (Suc l)) (map (dump ind (Suc l)) xs) @ margin ind l @ CHR '']'' # r"
  show ?case
  proof (cases "xs = []")
    case False
    have items: "read_as (parse_items fr) ?items xs r"
      using False JArr by (intro read_items) (auto simp: list_all_iff)
    have "skip_ws ?items = ?items" using False JArr(2) by (intro skip_items [of _ fr]) simp_all
    moreover have "\<not> starts_with '']'' ?items"
      using dump_head [of fr "hd xs" ind "Suc l"] False JArr(2)
      by (cases xs; cases "tl xs") (auto simp: opener_def)
    ultimately have step: "parse_value fr (Suc n) (dump ind l (JArr xs) @ r) = Some (JArr xs, r)"
      if "parse_items fr n ?items = Some (xs, r)" for n
      using that False by (simp add: enclosed_def Let_def)
    show ?thesis by (rule read_as_Suc) (rule eventually_mono [OF items], rule step)
  qed (rule read_as_Suc, simp add: enclosed_def)
next
  case (JObj kvs)
  let ?show = "\<lambda>kv. json_string (fst kv) @ '': '' @ dump ind (Suc l) (snd kv)"
  let ?items = "str_join ('','' @ item_gap ind (Suc l)) (map ?show kvs) @ margin ind l @ CHR 0x7D # r"
  show ?case
  proof (cases "kvs = []")
    case False
    have items: "read_as (parse_members fr) ?items kvs r"
      using False JObj by (intro read_members) (auto simp: list_all_iff snds.simps)
    have "\<exists>t. ?items = CHR 0x22 # t" using False by (cases kvs; cases "tl kvs") (auto simp: json_string_def)
    then have "skip_ws ?items = ?items" "\<not> starts_with [CHR 0x7D] ?items" by auto
    then have step: "parse_value fr (Suc n) (dump ind l (JObj kvs) @ r) = Some (JObj kvs, r)"
      if "parse_members fr n ?items = Some (kvs, r)" for n
      using that False JObj(2) by (simp add: enclosed_def Let_def dict_of_distinct)
    show ?thesis by (rule read_as_Suc) (rule eventually_mono [OF items], rule step)
  qed (rule read_as_Suc, simp add: enclosed_def)
qed (rule read_atom; simp add: atomic_def)+

text \<open>
  JSON text round-trips. Reading what was printed gives the value back, on one line as well as
  indented, and with white space around it, for every value whose floats are printed as \<open>float\<close> reads
  them and whose dictionaries have distinct keys; strings may hold any characters.
\<close>

lemma json_round_trip:
  assumes "storable fr j" and "blank_chars before_text" and "blank_chars after_text"
  shows "loads fr (before_text @ dumps j @ after_text) = Some j
    \<and> loads fr (before_text @ dumps_indent n j @ after_text) = Some j"
proof -
  have after_ends: "number_ends after_text"
    using assms(3) by (cases after_text) (auto simp: number_ends_def blank_chars_def is_digit_def in_ranges_def)
  have "loads fr (before_text @ dump ind 0 j @ after_text) = Some j" for ind
    using read_value [OF assms(1) after_ends, of ind 0] assms(2,3) skip_dump [OF assms(1), of ind 0 after_text]
    by (intro loads_eventually [where r = after_text]) (simp_all add: skip_blank skip_blank_all)
  then show ?thesis by (simp add: dumps_def dumps_indent_def)
qed

lemma loads_dumps: "storable fr j \<Longrightarrow> loads fr (dumps j) = Some j"
  using json_round_trip [of fr j "[]" "[]"] by (simp add: blank_chars_def)

section \<open>Printable text\<close>

text \<open>A string literal is printable ASCII, whatever the string holds.\<close>

lemma escape_printable: "x \<in> set (escape_char c) \<Longrightarrow> in_ranges [(32, 126)] x"
proof -
  have digit: "in_ranges [(32, 126)] (char_of (if k < 10 then 48 + k else 87 + k))" if "k < 16" for k :: nat
    using that by (simp add: in_ranges_def)
  have "(of_char c :: nat) < 256" by (rule nat_of_char_less_256)
  then have "(of_char c :: nat) div 16 < 16" by (simp add: div_less_iff_less_mult)
  from digit [OF this] digit [of "of_char c mod 16"] have hex: "\<forall>x \<in> set (hex2 (of_char c)). in_ranges [(32, 126)] x"
    by (simp add: hex2_def Let_def)
  moreover have "in_ranges [(32, 126)] (CHR 0x5C)" "in_ranges [(32, 126)] (CHR 0x22)" "in_ranges [(32, 126)] (CHR ''n'')"
    "in_ranges [(32, 126)] (CHR ''r'')" "in_ranges [(32, 126)] (CHR ''t'')" "in_ranges [(32, 126)] (CHR ''f'')"
    "in_ranges [(32, 126)] (CHR ''b'')" "in_ranges [(32, 126)] (CHR ''u'')" "in_ranges [(32, 126)] (CHR ''0'')"
    by (simp_all add: in_ranges_def)
  ultimately show "x \<in> set (escape_char c) \<Longrightarrow> in_ranges [(32, 126)] x"
    unfolding escape_char_def by (simp split: if_split_asm) (elim disjE; simp)+
qed

lemma json_string_printable: "x \<in> set (json_string s) \<Longrightarrow> in_ranges [(32, 126)] x"
  using escape_printable by (auto simp: json_string_def in_ranges_def)

lemma set_str_join: "set (str_join sep xs) \<subseteq> set sep \<union> (\<Union>x \<in> set xs. set x)"
  by (induction sep xs rule: str_join.induct) auto

end
