(* ===== verification/Context.thy ===== *)
theory Context
  imports Factories Policy Prompts Json_Text
begin

text \<open>
  The workflow context (\<open>graph/context.py\<close>): the seam through which nodes and agents reach the
  store and the event bus. The immutable dependencies are the record \<open>ctx\<close>; the two mutable fields
  (\<open>current_agent_run_id\<close>, \<open>usage\<close>) are in the world. \<open>cx_float\<close> gives the text of the
  number that the text of a JSON float is read as.
\<close>

record ctx =
  cx_settings :: settings
  cx_policy :: policy_engine
  cx_task_id :: pystr
  cx_workflow_run_id :: pystr
  cx_scm :: scm_choice
  cx_ci :: ci_choice
  cx_prompts_path :: path
  cx_float :: "pystr \<Rightarrow> pystr"

definition PROMPTS_PATH :: path where
  "PROMPTS_PATH = [''prompts'']"

definition sample_ctx :: ctx where
  "sample_ctx = \<lparr>cx_settings = default_settings, cx_policy = DEFAULT_ENGINE, cx_task_id = ''TASK-1'',
     cx_workflow_run_id = ''run-1'', cx_scm = Local_Git [''artifacts''], cx_ci = Noop_CI, cx_prompts_path = PROMPTS_PATH,
     cx_float = id\<rparr>"

definition on_db :: "(db \<Rightarrow> db) \<Rightarrow> unit io" where
  "on_db f = modify (\<lambda>w. w\<lparr>w_db := f (w_db w)\<rparr>)"

section \<open>Events\<close>

text \<open>\<open>EventRepository.append\<close> in its own transaction; the value is the new sequence number.\<close>

definition append_event :: "pystr \<Rightarrow> event_type \<Rightarrow> dict \<Rightarrow> nat io" where
  "append_event tid typ payload =
     mbind event_id (\<lambda>eid. mbind utcnow (\<lambda>now.
     mbind (gets (\<lambda>w. next_sequence tid (w_db w))) (\<lambda>sequence.
     mbind (on_db (\<lambda>d. snd (event_append eid now tid typ payload d))) (\<lambda>_. ret sequence))))"

text \<open>\<open>EventBus.publish\<close> of a new \<open>Event\<close>, whose id and time stamp are defaults.\<close>

definition publish_event :: "pystr \<Rightarrow> event_type \<Rightarrow> dict \<Rightarrow> nat \<Rightarrow> unit io" where
  "publish_event tid typ payload sequence =
     mbind event_id (\<lambda>eid. mbind utcnow (\<lambda>now.
     modify (\<lambda>w. w\<lparr>w_bus := w_bus w @ [\<lparr>be_task_id = tid, be_type = typ, be_payload = payload,
       be_sequence = sequence, be_id = eid, be_timestamp = now\<rparr>]\<rparr>)))"

definition emit :: "ctx \<Rightarrow> event_type \<Rightarrow> dict \<Rightarrow> unit io" where
  "emit cx typ payload =
     mbind (append_event (cx_task_id cx) typ payload) (\<lambda>sequence.
     publish_event (cx_task_id cx) typ payload sequence)"

section \<open>Audit\<close>

definition record_tool_call ::
  "ctx \<Rightarrow> pystr \<Rightarrow> dict \<Rightarrow> bool \<Rightarrow> pystr option \<Rightarrow> pystr option \<Rightarrow> int option \<Rightarrow> int option \<Rightarrow> unit io"
  where
  "record_tool_call cx tool arguments ok result_preview error exit_code duration_ms =
     mbind (gets w_current_agent_run_id) (\<lambda>rid. mbind tool_call_id (\<lambda>cid. mbind utcnow (\<lambda>now.
     on_db (tool_call_record cid now (cx_task_id cx) rid tool arguments ok result_preview error
       exit_code duration_ms))))"

definition record_file_change :: "ctx \<Rightarrow> pystr \<Rightarrow> pystr \<Rightarrow> int \<Rightarrow> int \<Rightarrow> int \<Rightarrow> unit io" where
  "record_file_change cx path change_type iteration lines_added lines_removed =
     mbind (new_id ''fc'') (\<lambda>fid. mbind utcnow (\<lambda>now.
     on_db (file_change_record fid now (cx_task_id cx) path change_type iteration lines_added
       lines_removed None)))"

definition record_ci_run ::
  "ctx \<Rightarrow> pystr \<Rightarrow> pystr option \<Rightarrow> pystr option \<Rightarrow> pystr \<Rightarrow> pystr option \<Rightarrow> pystr option
     \<Rightarrow> pystr option \<Rightarrow> int \<Rightarrow> unit io" where
  "record_ci_run cx provider external_id branch status conclusion url logs iteration =
     mbind (new_id ''ci'') (\<lambda>cid. mbind utcnow (\<lambda>now.
     on_db (ci_run_record cid now (cx_task_id cx) provider external_id branch status conclusion url
       logs iteration)))"

definition request_approval :: "ctx \<Rightarrow> pystr \<Rightarrow> unit io" where
  "request_approval cx reason =
     mbind (gets (\<lambda>w. pending_for (w_db w) (cx_task_id cx))) (\<lambda>pending.
     unless (pending \<noteq> None) (mbind (new_id ''apr'') (\<lambda>aid. mbind utcnow (\<lambda>now.
       on_db (approval_request aid now (cx_task_id cx) reason)))))"

definition start_agent_run :: "ctx \<Rightarrow> pystr \<Rightarrow> pystr \<Rightarrow> int \<Rightarrow> pystr io" where
  "start_agent_run cx node agent iteration =
     mbind run_id (\<lambda>rid. mbind utcnow (\<lambda>now. mbind utcnow (\<lambda>now'.
     mbind (on_db (\<lambda>d. snd (agent_run_start rid now now' (cx_task_id cx) (cx_workflow_run_id cx)
       node agent iteration d))) (\<lambda>_. ret rid))))"

definition finish_agent_run :: "pystr \<Rightarrow> pystr \<Rightarrow> pystr option \<Rightarrow> usage option \<Rightarrow> unit io" where
  "finish_agent_run rid status error us =
     mbind (gets (\<lambda>w. find (\<lambda>r. ar_id r = rid) (db_agent_runs (w_db w)))) (\<lambda>run.
     unless (run = None) (mbind utcnow (\<lambda>now.
       let u = get_default no_usage us in
       on_db (agent_run_finish now rid status error (us_input_tokens u) (us_output_tokens u)
         (us_cost_usd u)))))"

section \<open>Prompts\<close>

definition load_prompt :: "ctx \<Rightarrow> pystr \<Rightarrow> pystr io" where
  "load_prompt cx name =
     (let p = cx_prompts_path cx @ [name @ ''.md''] in
      mbind (gets (\<lambda>w. fs_exists (w_fs w) p)) (\<lambda>present.
      if \<not> present then raise (OtherError ''FileNotFoundError'' (''prompt not found: '' @ path_str p))
      else read_text p))"

section \<open>Checkpoints\<close>

definition do_save_state :: "pystr \<Rightarrow> agent_state \<Rightarrow> unit io" where
  "do_save_state tid s =
     mbind (gets (\<lambda>w. task_get (w_db w) tid)) (\<lambda>t.
     unless (t = None) (mbind utcnow (\<lambda>now. on_db (save_state now tid s))))"

definition do_set_status ::
  "pystr \<Rightarrow> task_status \<Rightarrow> pystr option \<Rightarrow> pystr option \<Rightarrow> unit io" where
  "do_set_status tid status node error =
     mbind utcnow (\<lambda>now. mbind (if is_terminal status then utcnow else ret now) (\<lambda>now'.
     on_db (set_status now now' tid status node error)))"

definition save_checkpoint :: "ctx \<Rightarrow> agent_state \<Rightarrow> pystr \<Rightarrow> task_status \<Rightarrow> unit io" where
  "save_checkpoint cx s node status =
     mbind (do_save_state (cx_task_id cx) s) (\<lambda>_.
     do_set_status (cx_task_id cx) status (Some node) None)"

section \<open>The context respects the audit discipline\<close>

lemma db_evolves_event: "db_evolves tid d (snd (event_append eid now tid typ p d))"
  by (simp add: db_evolves_def well_sequenced_append)
     (simp add: event_append_def event_insert_def Let_def task_get_def)

lemma task_get_tables: "db_tasks d' = db_tasks d \<Longrightarrow> task_get d' = task_get d"
  by (simp add: task_get_def fun_eq_iff)

lemma well_sequenced_tables: "db_events d' = db_events d \<Longrightarrow> well_sequenced d' = well_sequenced d"
  by (simp add: well_sequenced_def events_of_def)

lemma db_evolves_audit:
  "db_evolves tid d (tool_call_record cid now tid rid tool args ok res err ec dur d)"
  "db_evolves tid d (file_change_record cid now tid path ct it la lr diff d)"
  "db_evolves tid d (ci_run_record cid now tid prov ext br st con url logs it d)"
  "db_evolves tid d (approval_request cid now tid reason d)"
  "db_evolves tid d (snd (agent_run_start cid now now' tid wrid node agent it d))"
  by (simp_all add: db_evolves_def tool_call_record_def file_change_record_def ci_run_record_def
      approval_request_def agent_run_start_def Let_def task_get_def
      well_sequenced_def events_of_def)

text \<open>Finishing a run is for its task only when the task owns the run.\<close>

lemma db_evolves_finish:
  assumes "rid \<in> run_ids tid (db_agent_runs d)"
  shows "db_evolves tid d (agent_run_finish now rid st err i out cost d)"
proof -
  let ?f = "\<lambda>r. r\<lparr>ar_status := st, ar_error := err, ar_finished_at := Some now,
    ar_input_tokens := ar_input_tokens r + i, ar_output_tokens := ar_output_tokens r + out,
    ar_cost_usd := ar_cost_usd r + cost, ar_duration_ms := (case ar_started_at r of None \<Rightarrow> ar_duration_ms r
      | Some s \<Rightarrow> Some (to_ms (now - s)))\<rparr>"
  let ?rs = "update_where (\<lambda>r. ar_id r = rid) ?f (db_agent_runs d)"
  have "map (\<lambda>r. (ar_id r, ar_task_id r)) ?rs = map (\<lambda>r. (ar_id r, ar_task_id r)) (db_agent_runs d)"
    by (rule update_where_ids) simp
  then have "run_ids tid ?rs = run_ids tid (db_agent_runs d)" by (simp only: run_ids_alt)
  then have "rid \<in> run_ids tid ?rs" using assms by simp
  then have "runs_evolve tid (db_agent_runs d) ?rs"
    unfolding runs_evolve_def
    by (intro exI [of _ ?rs] exI [of _ "[]"])
       (auto simp: list_all2_conv_all_nth update_where_def same_run_def)
  then show ?thesis
    by (simp add: db_evolves_def agent_run_finish_def task_get_def well_sequenced_def events_of_def)
qed

lemma db_evolves_task:
  "db_evolves tid d (set_status now now' tid st node err d)"
  "db_evolves tid d (save_state now tid s d)"
  by (auto simp: db_evolves_def set_status_def save_state_def update_where_ids save_state_values_def
      well_sequenced_def events_of_def task_get_def find_update_where
      intro!: option.map_ident_strong dest: find_Some_key)

lemmas db_evolves_intros [evo_intros] = db_evolves_event db_evolves_audit db_evolves_task

lemma evo_on_db [evo_intros]: "(\<And>d. db_evolves tid d (f d)) \<Longrightarrow> stays (evolves tid) (on_db f)"
  unfolding on_db_def by (rule evo_modify_db)

lemma evo_publish [evo_intros]: "stays (evolves tid) (publish_event t typ p n)"
  unfolding publish_event_def by (intro evo_intros) (simp add: evolves_def)

lemma evo_append_event [evo_intros]: "stays (evolves tid) (append_event tid typ p)"
  unfolding append_event_def by (intro evo_intros)

lemma evo_context [evo_intros]:
  "stays (evolves (cx_task_id cx)) (emit cx typ p)"
  "stays (evolves (cx_task_id cx)) (record_tool_call cx tool args ok res err ec dur)"
  "stays (evolves (cx_task_id cx)) (record_file_change cx path ct it la lr)"
  "stays (evolves (cx_task_id cx)) (record_ci_run cx prov ext br st con url logs it)"
  "stays (evolves (cx_task_id cx)) (request_approval cx reason)"
  "stays (evolves (cx_task_id cx)) (start_agent_run cx node agent it)"
  "stays (evolves tid) (do_save_state tid s)"
  "stays (evolves tid) (do_set_status tid stt nd err)"
  "stays (evolves (cx_task_id cx)) (save_checkpoint cx s node stt)"
  unfolding emit_def record_tool_call_def record_file_change_def record_ci_run_def
    request_approval_def start_agent_run_def do_save_state_def
    do_set_status_def save_checkpoint_def Let_def
  by (auto intro!: evo_intros)

section \<open>Agent runs of a task\<close>

text \<open>What a computation does when the run \<open>rid\<close> belongs to the task; the task keeps the run.\<close>

definition owns_run :: "pystr \<Rightarrow> pystr \<Rightarrow> world \<Rightarrow> bool" where
  "owns_run tid rid w \<longleftrightarrow> rid \<in> run_ids tid (db_agent_runs (w_db w))"

definition evolves_owned :: "pystr \<Rightarrow> pystr \<Rightarrow> world \<Rightarrow> world \<Rightarrow> bool" where
  "evolves_owned tid rid w w' \<longleftrightarrow> (owns_run tid rid w \<longrightarrow> evolves tid w w')"

lemma evolves_owns: "evolves tid w w' \<Longrightarrow> owns_run tid rid w \<Longrightarrow> owns_run tid rid w'"
  using run_ids_mono by (auto simp: owns_run_def evolves_def db_evolves_def)

interpretation owned: effect_order "evolves_owned tid rid" for tid rid
  by unfold_locales (auto simp: evolves_owned_def intro: evolves_trans evolves_owns)

lemma owned_finish: "stays (evolves_owned tid rid) (finish_agent_run rid st err us)"
  unfolding stays_def
proof
  fix w
  show "evolves_owned tid rid w (snd (finish_agent_run rid st err us w))"
    using db_evolves_finish [of rid tid "w_db w"]
    by (auto simp: evolves_owned_def owns_run_def finish_agent_run_def unless_def mbind_def utcnow_def
        ask_def on_db_def evolves_def Let_def)
qed

lemma owned_stays: "stays (evolves tid) m \<Longrightarrow> stays (evolves_owned tid rid) m"
  by (simp add: stays_def evolves_owned_def)

lemma start_agent_run_owns:
  "start_agent_run cx node agent it w = (Inr rid, w') \<Longrightarrow> owns_run (cx_task_id cx) rid w'"
  by (auto simp: start_agent_run_def run_id_def new_id_def utcnow_def ask_def mbind_def on_db_def owns_run_def
      run_ids_snoc agent_run_start_def Let_def)

end
