(* ===== verification/Testing.thy ===== *)
theory Testing
  imports Tools_Fs Regex
begin

text \<open>
  Build and test tools (\<open>tools/testing/test.py\<close>): running \<open>dotnet\<close>, reading its output into a
  structured outcome, and the two tools on top. The outcome of a run is what the workflow routes on.
\<close>

section \<open>Outcomes\<close>

record test_failure =
  tf_test_name :: pystr
  tf_exception_type :: pystr
  tf_message :: pystr

definition render_failure :: "test_failure \<Rightarrow> pystr" where
  "render_failure f =
     (let head = str_rstrip_chars '': '' (tf_test_name f @ '': '' @ tf_exception_type f)
      in str_rstrip (head @ [CHR 0x0A] @ ''  '' @ tf_message f))"

record test_outcome =
  to_passed :: nat
  to_failed :: nat
  to_skipped :: nat
  to_failures :: "test_failure list"
  to_exit_code :: int
  to_output :: pystr
  to_timed_out :: bool

definition outcome_ok :: "test_outcome \<Rightarrow> bool" where
  "outcome_ok o1 \<longleftrightarrow> to_exit_code o1 = 0 \<and> to_failed o1 = 0 \<and> \<not> to_timed_out o1"

definition outcome_summary :: "test_outcome \<Rightarrow> pystr" where
  "outcome_summary o1 = ''passed='' @ show_nat (to_passed o1) @ '' failed='' @ show_nat (to_failed o1)
     @ '' skipped='' @ show_nat (to_skipped o1) @ '' exit_code='' @ show_int (to_exit_code o1)"

section \<open>Parsing\<close>

definition digits_group :: "nat \<Rightarrow> rx" where
  "digits_group k = RGroup k (RPlus RDigit)"

definition spaces0 :: rx where
  "spaces0 = RStar True RSpace"

definition DOTNET_TOTALS :: rx where
  "DOTNET_TOTALS = RSeqs [RAlt (RLitI ''Passed!'') (RLitI ''Failed!''), RStar False RDot,
     RLitI ''Failed:'', spaces0, digits_group 1, RLitI '','', spaces0,
     RLitI ''Passed:'', spaces0, digits_group 2, RLitI '','', spaces0,
     RLitI ''Skipped:'', spaces0, digits_group 3]"

definition VSTEST_TOTALS :: rx where
  "VSTEST_TOTALS = RSeqs [RLitI ''Total tests:'', spaces0, digits_group 1, RStar False RAny,
     RLitI ''Passed:'', spaces0, digits_group 2, RStar False RAny,
     RLitI ''Failed:'', spaces0, digits_group 3]"

definition FAILED_TEST :: rx where
  "FAILED_TEST = RSeqs [RBol, spaces0, RAlt (RLit ''Failed'') (RLit ''X''), RPlus RSpace,
     RGroup 1 (RSeq (RPlus (RSet (\<lambda>c. is_word c \<or> c \<in> {CHR ''.'', CHR ''+'', CHR 0x60})))
       (ROpt (RSeqs [RLit ''('', RStar True (RSet (\<lambda>c. c \<noteq> CHR '')'')), RLit '')''])))]"

definition EXCEPTION :: rx where
  "EXCEPTION = RSeqs [
     RGroup 1 (RSeqs [RRanges [(65, 90), (97, 122), (95, 95)],
       RStar True (RSet (\<lambda>c. is_word c \<or> c = CHR ''.'')), RAlt (RLit ''Exception'') (RLit ''Error'')]),
     spaces0, RLit '':'', spaces0, RGroup 2 (RStar True RDot)]"

definition group_nat :: "nat \<Rightarrow> cursor \<Rightarrow> nat" where
  "group_nat k c = nat_of_digits 0 (get_default [] (group k c))"

definition parse_totals :: "pystr \<Rightarrow> nat \<times> nat \<times> nat" where
  "parse_totals text =
     (case re_search DOTNET_TOTALS text of
        Some (_, m) \<Rightarrow> (group_nat 1 m, group_nat 2 m, group_nat 3 m)
      | None \<Rightarrow> (case re_search VSTEST_TOTALS text of
          Some (_, m) \<Rightarrow> (group_nat 3 m, group_nat 2 m, 0)
        | None \<Rightarrow> (0, 0, 0)))"

definition failure_of_match :: "pystr \<Rightarrow> cursor \<Rightarrow> test_failure" where
  "failure_of_match name m =
     (let tail = take 800 (ahead m) in
      case re_search EXCEPTION tail of
        Some (_, e) \<Rightarrow> \<lparr>tf_test_name = name, tf_exception_type = get_default [] (group 1 e),
                        tf_message = take 400 (str_strip (get_default [] (group 2 e)))\<rparr>
      | None \<Rightarrow> \<lparr>tf_test_name = name, tf_exception_type = [],
                 tf_message = take 400 (str_strip tail)\<rparr>)"

fun collect_failures :: "pystr list \<Rightarrow> (cursor \<times> cursor) list \<Rightarrow> test_failure list" where
  "collect_failures seen [] = []"
| "collect_failures seen ((_, m) # ms) =
     (let name = str_strip (get_default [] (group 1 m)) in
      if name \<in> set seen then collect_failures seen ms
      else failure_of_match name m # collect_failures (name # seen) ms)"

definition parse_dotnet_output :: "command_result \<Rightarrow> test_outcome" where
  "parse_dotnet_output result =
     (let text = combined_output result;
          (failed0, passed, skipped) = parse_totals text;
          failures = collect_failures [] (re_finditer FAILED_TEST text);
          failed1 = (if failed0 = 0 \<and> failures \<noteq> [] then length failures else failed0);
          crashed = (cm_exit_code result \<noteq> 0 \<and> failed1 = 0 \<and> passed = 0)
      in \<lparr>to_passed = passed, to_failed = (if crashed then 1 else failed1), to_skipped = skipped,
          to_failures = failures @ (if crashed then [\<lparr>tf_test_name = ''<test run>'',
            tf_exception_type = ''RunFailure'', tf_message = last_n 600 text\<rparr>] else []),
          to_exit_code = cm_exit_code result, to_output = text,
          to_timed_out = cm_timed_out result\<rparr>)"

section \<open>Running\<close>

definition ends_with :: "pystr \<Rightarrow> pystr \<Rightarrow> bool" where
  "ends_with suf s \<longleftrightarrow> length suf \<le> length s \<and> last_n (length suf) s = suf"

definition detect_project_kind :: "fs \<Rightarrow> path \<Rightarrow> pystr" where
  "detect_project_kind f r =
     (if \<exists>p \<in> set (fs_descendants f r). ends_with ''.sln'' (last p) \<or> ends_with ''.csproj'' (last p)
      then ''dotnet''
      else if fs_exists f (r @ [''package.json'']) then ''node''
      else if fs_exists f (r @ [''pyproject.toml'']) then ''python''
      else ''unknown'')"

definition run_dotnet_build :: "path \<Rightarrow> command_result io" where
  "run_dotnet_build r = run_command [''dotnet'', ''build'', ''--nologo'', ''-v'', ''minimal''] r"

definition run_dotnet_test :: "path \<Rightarrow> pystr option \<Rightarrow> command_result io" where
  "run_dotnet_test r filter_expression =
     run_command ([''dotnet'', ''test'', ''--nologo'', ''-v'', ''minimal''] @
       (if truthy_str filter_expression then [''--filter'', get_default [] filter_expression] else [])) r"

definition run_build_tool :: "tool_context \<Rightarrow> dict \<Rightarrow> tool_result io" where
  "run_build_tool tx args =
     mbind (gets (\<lambda>w. detect_project_kind (w_fs w) (tx_root tx))) (\<lambda>kind.
     if kind \<noteq> ''dotnet''
     then ret (tool_failure (''no dotnet project found in workspace (detected: '' @ kind @ '')''))
     else mbind (run_dotnet_build (tx_root tx)) (\<lambda>r.
       let out = last_n 8000 (combined_output r) in
       ret \<lparr>tr_ok = command_ok r,
            tr_content = (if out = [] then ''build produced no output'' else out),
            tr_data = [], tr_exit_code = Some (cm_exit_code r),
            tr_duration_ms = Some (cm_duration_ms r)\<rparr>))"

definition run_tests_tool :: "tool_context \<Rightarrow> dict \<Rightarrow> tool_result io" where
  "run_tests_tool tx args =
     mbind (lift_result (opt_str args ''filter'')) (\<lambda>filter_expression.
     mbind (gets (\<lambda>w. detect_project_kind (w_fs w) (tx_root tx))) (\<lambda>kind.
     if kind \<noteq> ''dotnet''
     then ret (tool_failure (''no dotnet project found in workspace (detected: '' @ kind @ '')''))
     else mbind (run_dotnet_test (tx_root tx) filter_expression) (\<lambda>r.
       let outcome = parse_dotnet_output r; rendered = map render_failure (to_failures outcome) in
       ret \<lparr>tr_ok = outcome_ok outcome,
            tr_content = outcome_summary outcome @ [CHR 0x0A, CHR 0x0A] @
              (if to_failures outcome = [] then ''All tests passed.''
               else ''Failures:'' @ [CHR 0x0A] @ str_join [CHR 0x0A] (take 10 rendered)),
            tr_data = [(''passed'', JInt (int (to_passed outcome))),
              (''failed'', JInt (int (to_failed outcome))),
              (''skipped'', JInt (int (to_skipped outcome))), (''failures'', jstrs rendered)],
            tr_exit_code = Some (cm_exit_code r), tr_duration_ms = Some (cm_duration_ms r)\<rparr>)))"

section \<open>The test signal\<close>

lemma collect_failures_names:
  "distinct (map tf_test_name (collect_failures seen ms)) \<and>
     set (map tf_test_name (collect_failures seen ms)) \<inter> set seen = {}"
proof (induction seen ms rule: collect_failures.induct)
  case (2 seen a m ms)
  have name: "tf_test_name (failure_of_match n m) = n" for n
    by (auto simp: failure_of_match_def Let_def split: option.splits)
  show ?case
    using 2 by (auto simp: Let_def name)
qed simp

text \<open>
  a test run cannot look green by accident. The parsed outcome of \<open>dotnet test\<close> counts as ok
  exactly when the process exited with code 0 within its time limit and the output reports no
  failing test, neither in its totals nor by name; a run that ended with an error code and named
  no test at all has exactly one synthetic failure, and the failing tests are listed once each.
\<close>

theorem test_outcome_sound:
  "let o1 = parse_dotnet_output r; text = combined_output r in
   (outcome_ok o1 \<longleftrightarrow> cm_exit_code r = 0 \<and> \<not> cm_timed_out r \<and> fst (parse_totals text) = 0
      \<and> re_finditer FAILED_TEST text = [])
   \<and> distinct (map tf_test_name (filter (\<lambda>f. tf_exception_type f \<noteq> ''RunFailure'') (to_failures o1)))
   \<and> (cm_exit_code r = 0 \<or> to_failed o1 > 0 \<or> to_passed o1 > 0)"
proof -
  obtain f p s where t: "parse_totals (combined_output r) = (f, p, s)" by (metis prod_cases3)
  let ?ms = "re_finditer FAILED_TEST (combined_output r)"
  have empty: "collect_failures [] ?ms = [] \<longleftrightarrow> ?ms = []"
    by (cases ?ms) (auto simp: Let_def)
  have "distinct (map tf_test_name (filter P (collect_failures [] ?ms)))" for P
    using collect_failures_names [of "[]" ?ms] by (simp add: distinct_map_filter)
  then show ?thesis
    using t empty by (auto simp: parse_dotnet_output_def outcome_ok_def Let_def)
qed

end
