(* ===== verification/Ingestion.thy ===== *)
theory Ingestion
  imports Tools_Fs Regex
begin

text \<open>
  Ingestion of a repository into the code index: symbol extraction (\<open>retrieval/ingestion/parser.py\<close>),
  scanning (\<open>scanner.py\<close>) and chunking (\<open>chunker.py\<close>). Line numbers count from one. The proofs show
  that symbols and chunks lie inside their file, that a chunk's text is exactly its lines, and that
  the chunks of a file without usable symbols cover every line that is not blank.
\<close>

section \<open>Languages\<close>

definition LANGUAGE_BY_SUFFIX :: "(pystr \<times> pystr) list" where
  "LANGUAGE_BY_SUFFIX = [(''.cs'', ''csharp''), (''.py'', ''python''), (''.ts'', ''typescript''),
     (''.tsx'', ''typescript''), (''.js'', ''javascript''), (''.jsx'', ''javascript''), (''.sql'', ''sql''),
     (''.md'', ''markdown''), (''.json'', ''json''), (''.yml'', ''yaml''), (''.yaml'', ''yaml'')]"

definition language_of :: "pystr \<Rightarrow> pystr" where
  "language_of file_path =
     (let suffix = (if CHR ''.'' \<in> set file_path
        then ''.'' @ str_lower (last (split_char (CHR ''.'') file_path)) else [])
      in get_default ''text'' (map_of LANGUAGE_BY_SUFFIX suffix))"

section \<open>Symbols\<close>

record symbol =
  sy_name :: pystr
  sy_kind :: pystr
  sy_file_path :: pystr
  sy_start_line :: nat
  sy_end_line :: nat
  sy_language :: pystr

text \<open>Group 1 is \<open>kind\<close>, group 2 is \<open>name\<close>.\<close>

definition identifier_rx :: rx where
  "identifier_rx = RGroup 2 (RSeq (RRanges [(65, 90), (97, 122), (95, 95)]) (RStar True RWord))"

definition CSHARP_TYPE :: rx where
  "CSHARP_TYPE = RSeqs [RStar True RSpace,
     RStar True (RAlts (RLit ''public'') [RLit ''internal'', RLit ''private'', RLit ''protected'', RLit ''sealed'',
       RLit ''static'', RLit ''abstract'', RLit ''partial'', RSpace]),
     RBound, RGroup 1 (RAlts (RLit ''class'') [RLit ''interface'', RLit ''record'', RLit ''struct'', RLit ''enum'']),
     RPlus RSpace, identifier_rx]"

definition CSHARP_MEMBER :: rx where
  "CSHARP_MEMBER = RSeqs [RStar True RSpace,
     RPlus (RAlts (RLit ''public'') [RLit ''internal'', RLit ''private'', RLit ''protected'', RLit ''static'',
       RLit ''async'', RLit ''virtual'', RLit ''override'', RLit ''sealed'', RSpace]),
     RPlus (RSeqs [RRanges [(65, 90), (97, 122), (95, 95)],
       RStar True (RSet (\<lambda>c. is_word c \<or> c \<in> set ''<>,[].?'')), RPlus RSpace]),
     identifier_rx, RStar True RSpace, RLit ''('']"

definition PYTHON_DEF :: rx where
  "PYTHON_DEF = RSeqs [RStar True RSpace, RGroup 1 (RAlt (RLit ''class'') (RLit ''def'')), RPlus RSpace, identifier_rx]"

definition TS_DEF :: rx where
  "TS_DEF = RSeqs [RStar True RSpace, ROpt (RSeq (RLit ''export'') (RPlus RSpace)),
     ROpt (RSeq (RLit ''default'') (RPlus RSpace)),
     RGroup 1 (RAlts (RLit ''class'') [RLit ''interface'', RLit ''type'', RLit ''function'', RLit ''const'']),
     RPlus RSpace,
     RGroup 2 (RSeq (RRanges [(65, 90), (97, 122), (95, 95), (36, 36)]) (RStar True (RSet (\<lambda>c. is_word c \<or> c = CHR ''$''))))]"

definition CSHARP_KEYWORDS :: "pystr list" where
  "CSHARP_KEYWORDS = [''if'', ''for'', ''foreach'', ''while'', ''switch'', ''catch'', ''using'', ''lock'', ''return'']"

text \<open>\<open>pattern.match(line)\<close>, and a named group of the match.\<close>

definition match_line :: "rx \<Rightarrow> pystr \<Rightarrow> cursor option" where
  "match_line r line = match_at r (start_cursor line)"

definition named :: "nat \<Rightarrow> cursor \<Rightarrow> pystr" where
  "named k m = get_default [] (group k m)"

text \<open>The characters of one line: \<open>None\<close> when the block closes inside it.\<close>

fun scan_braces :: "int \<Rightarrow> bool \<Rightarrow> pystr \<Rightarrow> (int \<times> bool) option" where
  "scan_braces depth opened [] = Some (depth, opened)"
| "scan_braces depth opened (c # cs) =
     (if c = CHR ''{'' then scan_braces (depth + 1) True cs
      else if c = CHR ''}'' then
        (if opened \<and> depth - 1 = 0 then None else scan_braces (depth - 1) opened cs)
      else scan_braces depth opened cs)"

fun block_end_from :: "nat \<Rightarrow> nat \<Rightarrow> int \<Rightarrow> bool \<Rightarrow> pystr list \<Rightarrow> nat" where
  "block_end_from whole offset depth opened [] = whole"
| "block_end_from whole offset depth opened (l # ls) =
     (case scan_braces depth opened l of
        None \<Rightarrow> offset + 1
      | Some (d, op) \<Rightarrow> if op \<and> d = 0 then offset + 1 else block_end_from whole (offset + 1) d op ls)"

definition block_end :: "pystr list \<Rightarrow> nat \<Rightarrow> nat" where
  "block_end lines start_index = block_end_from (length lines) start_index 0 False (drop start_index lines)"

definition csharp_symbols_at :: "pystr \<Rightarrow> pystr list \<Rightarrow> nat \<times> pystr \<Rightarrow> symbol list" where
  "csharp_symbols_at file_path lines il =
     (let (index, line) = il; stripped = str_strip line in
      if stripped = [] \<or> starts_with ''//'' stripped then []
      else case match_line CSHARP_TYPE line of
        Some m \<Rightarrow> [\<lparr>sy_name = named 2 m, sy_kind = named 1 m, sy_file_path = file_path,
          sy_start_line = index + 1, sy_end_line = block_end lines index, sy_language = ''csharp''\<rparr>]
      | None \<Rightarrow> (case match_line CSHARP_MEMBER line of
          Some m \<Rightarrow>
            if named 2 m \<in> set CSHARP_KEYWORDS then []
            else [\<lparr>sy_name = named 2 m, sy_kind = ''method'', sy_file_path = file_path,
              sy_start_line = index + 1, sy_end_line = block_end lines index, sy_language = ''csharp''\<rparr>]
        | None \<Rightarrow> []))"

definition parse_csharp :: "pystr \<Rightarrow> pystr list \<Rightarrow> symbol list" where
  "parse_csharp file_path lines = concat (map (csharp_symbols_at file_path lines) (enumerate 0 lines))"

definition indent_of :: "pystr \<Rightarrow> nat" where
  "indent_of line = length line - length (str_lstrip line)"

fun python_end :: "nat \<Rightarrow> nat \<Rightarrow> nat \<Rightarrow> pystr list \<Rightarrow> nat" where
  "python_end whole indent offset [] = whole"
| "python_end whole indent offset (candidate # ls) =
     (if str_strip candidate \<noteq> [] \<and> indent_of candidate \<le> indent then offset
      else python_end whole indent (offset + 1) ls)"

definition python_symbols_at :: "pystr \<Rightarrow> pystr list \<Rightarrow> nat \<times> pystr \<Rightarrow> symbol list" where
  "python_symbols_at file_path lines il =
     (let (index, line) = il in
      case match_line PYTHON_DEF line of
        None \<Rightarrow> []
      | Some m \<Rightarrow> [\<lparr>sy_name = named 2 m, sy_kind = (if named 1 m = ''class'' then ''class'' else ''function''),
          sy_file_path = file_path, sy_start_line = index + 1,
          sy_end_line = python_end (length lines) (indent_of line) (index + 1) (drop (index + 1) lines),
          sy_language = ''python''\<rparr>])"

definition parse_python :: "pystr \<Rightarrow> pystr list \<Rightarrow> symbol list" where
  "parse_python file_path lines = concat (map (python_symbols_at file_path lines) (enumerate 0 lines))"

definition braced_symbols_at :: "pystr \<Rightarrow> pystr list \<Rightarrow> rx \<Rightarrow> pystr \<Rightarrow> nat \<times> pystr \<Rightarrow> symbol list" where
  "braced_symbols_at file_path lines pattern language il =
     (let (index, line) = il in
      case match_line pattern line of
        None \<Rightarrow> []
      | Some m \<Rightarrow> [\<lparr>sy_name = named 2 m, sy_kind = named 1 m, sy_file_path = file_path,
          sy_start_line = index + 1, sy_end_line = block_end lines index, sy_language = language\<rparr>])"

definition parse_braced :: "pystr \<Rightarrow> pystr list \<Rightarrow> rx \<Rightarrow> pystr \<Rightarrow> symbol list" where
  "parse_braced file_path lines pattern language =
     concat (map (braced_symbols_at file_path lines pattern language) (enumerate 0 lines))"

definition parse_symbols :: "pystr \<Rightarrow> pystr \<Rightarrow> symbol list" where
  "parse_symbols file_path content =
     (let language = language_of file_path; lines = str_splitlines content in
      if language = ''csharp'' then parse_csharp file_path lines
      else if language = ''python'' then parse_python file_path lines
      else if language \<in> {''typescript'', ''javascript''} then parse_braced file_path lines TS_DEF language
      else [])"

section \<open>Scanning\<close>

definition SKIP_DIRECTORIES :: "pystr list" where
  "SKIP_DIRECTORIES = [''.git'', ''bin'', ''obj'', ''node_modules'', ''.vs'', ''.idea'', ''__pycache__'', ''.next'',
     ''dist'', ''build'', ''packages'', ''.venv'', ''venv'', ''TestResults'']"

definition INDEXABLE_SUFFIXES :: "pystr list" where
  "INDEXABLE_SUFFIXES = [''.cs'', ''.py'', ''.ts'', ''.tsx'', ''.js'', ''.jsx'', ''.sql'', ''.md'']"

definition MAX_FILE_BYTES :: nat where
  "MAX_FILE_BYTES = 1000000"

record scanned_file =
  sf_path :: path
  sf_relative_path :: pystr
  sf_language :: pystr
  sf_content :: pystr

text \<open>\<open>Path.suffix\<close>: from the last dot of the name, unless it is the first or the last character.\<close>

definition path_suffix :: "path \<Rightarrow> pystr" where
  "path_suffix p =
     (let name = (if p = [] then [] else last p); ps = split_char (CHR ''.'') name in
      if length ps < 2 \<or> str_join ''.'' (butlast ps) = [] \<or> last ps = [] then [] else CHR ''.'' # last ps)"

text \<open>The size of a file is that of its text in UTF-8.\<close>

definition file_size :: "pystr \<Rightarrow> nat" where
  "file_size t = length (str_encode t)"

definition scan_file :: "fs \<Rightarrow> path \<Rightarrow> path \<Rightarrow> scanned_file list" where
  "scan_file f base p =
     (let parts = drop (length base) p in
      case fs_lookup f p of
        Some (File t) \<Rightarrow>
          if \<exists>c \<in> set parts. c \<in> set SKIP_DIRECTORIES then []
          else if str_lower (path_suffix p) \<notin> set INDEXABLE_SUFFIXES then []
          else if file_size t > MAX_FILE_BYTES then []
          else [\<lparr>sf_path = p, sf_relative_path = rel_str parts, sf_language = language_of (rel_str parts),
                 sf_content = universal_newlines t\<rparr>]
      | _ \<Rightarrow> [])"

definition scan_repository :: "fs \<Rightarrow> path \<Rightarrow> scanned_file list result" where
  "scan_repository f base =
     (case resolve_path f base of
        Inl e \<Rightarrow> Inl e
      | Inr r \<Rightarrow> Inr (concat (map (scan_file f r) (sort (fs_descendants f r)))))"

definition detect_languages :: "scanned_file list \<Rightarrow> pystr list" where
  "detect_languages files = sorted_list_of_set (set (filter (\<lambda>l. l \<noteq> ''text'') (map sf_language files)))"

section \<open>Chunking\<close>

definition MAX_CHUNK_LINES :: nat where
  "MAX_CHUNK_LINES = 160"

definition WINDOW_LINES :: nat where
  "WINDOW_LINES = 80"

definition WINDOW_OVERLAP :: nat where
  "WINDOW_OVERLAP = 15"

record chunk =
  ck_file_path :: pystr
  ck_language :: pystr
  ck_content :: pystr
  ck_start_line :: nat
  ck_end_line :: nat
  ck_symbol_name :: "pystr option"
  ck_symbol_kind :: "pystr option"

text \<open>\<open>lines[start - 1 : end]\<close> for line numbers from one.\<close>

definition slice :: "pystr list \<Rightarrow> nat \<Rightarrow> nat \<Rightarrow> pystr" where
  "slice lines start end_line = str_join [CHR 0x0A] (drop (start - 1) (take end_line lines))"

function window_chunks_from :: "scanned_file \<Rightarrow> pystr list \<Rightarrow> nat \<Rightarrow> chunk list" where
  "window_chunks_from file lines start =
     (if start \<le> length lines
      then let end_line = min (length lines) (start + WINDOW_LINES - 1);
               body = slice lines start end_line
           in (if str_strip body \<noteq> []
               then [\<lparr>ck_file_path = sf_relative_path file, ck_language = sf_language file, ck_content = body,
                      ck_start_line = start, ck_end_line = end_line, ck_symbol_name = None, ck_symbol_kind = None\<rparr>]
               else []) @
              (if end_line = length lines then []
               else window_chunks_from file lines (end_line - WINDOW_OVERLAP + 1))
      else [])"
  by pat_completeness auto
termination
  by (relation "measure (\<lambda>(file, lines, start). Suc (length lines) - start)")
     (auto simp: WINDOW_LINES_def WINDOW_OVERLAP_def)

definition window_chunks :: "scanned_file \<Rightarrow> pystr list \<Rightarrow> chunk list" where
  "window_chunks file lines = window_chunks_from file lines 1"

definition usable :: "symbol \<Rightarrow> bool" where
  "usable s \<longleftrightarrow> sy_start_line s \<le> sy_end_line s \<and> sy_end_line s - sy_start_line s \<le> MAX_CHUNK_LINES"

definition symbol_chunk :: "scanned_file \<Rightarrow> pystr list \<Rightarrow> symbol \<Rightarrow> chunk" where
  "symbol_chunk file lines s = \<lparr>ck_file_path = sf_relative_path file, ck_language = sf_language file,
     ck_content = slice lines (sy_start_line s) (sy_end_line s), ck_start_line = sy_start_line s,
     ck_end_line = sy_end_line s, ck_symbol_name = Some (sy_name s), ck_symbol_kind = Some (sy_kind s)\<rparr>"

definition chunk_file :: "scanned_file \<Rightarrow> chunk list" where
  "chunk_file file =
     (let lines = str_splitlines (sf_content file) in
      if lines = [] then []
      else let symbols = filter usable (parse_symbols (sf_relative_path file) (sf_content file)) in
        if symbols = [] then window_chunks file lines
        else filter (\<lambda>c. str_strip (ck_content c) \<noteq> []) (map (symbol_chunk file lines) symbols))"

section \<open>Blank text\<close>

definition blank :: "pystr \<Rightarrow> bool" where
  "blank s \<longleftrightarrow> list_all is_space s"

lemma str_strip_Nil_iff: "str_strip s = [] \<longleftrightarrow> blank s"
proof -
  have "blank s \<longleftrightarrow> list_all is_space (dropWhile is_space s)"
    unfolding blank_def by (induction s) auto
  then show ?thesis
    by (auto simp: str_strip_def str_rstrip_def str_lstrip_def list_all_iff dropWhile_eq_Nil_conv)
qed

lemma blank_join: "blank (str_join [CHR 0x0A] xs) \<longleftrightarrow> (\<forall>x \<in> set xs. blank x)"
proof -
  have "is_space (CHR 0x0A)" by (simp add: is_space_def in_ranges_def)
  then show ?thesis
    by (induction "[CHR 0x0A]" xs rule: str_join.induct) (simp_all add: blank_def)
qed

lemma set_drop_take:
  assumes "b \<le> length xs"
  shows "x \<in> set (drop k (take b xs)) \<longleftrightarrow> (\<exists>i. k \<le> i \<and> i < b \<and> x = xs ! i)"
proof
  assume "x \<in> set (drop k (take b xs))"
  then obtain j where j: "j < length (drop k (take b xs))" "x = drop k (take b xs) ! j"
    by (auto simp: in_set_conv_nth)
  then have "k + j < b" "x = xs ! (k + j)" using assms by auto
  then show "\<exists>i. k \<le> i \<and> i < b \<and> x = xs ! i" by (intro exI [of _ "k + j"]) simp
next
  assume "\<exists>i. k \<le> i \<and> i < b \<and> x = xs ! i"
  then obtain i where i: "k \<le> i" "i < b" "x = xs ! i" by blast
  then have "drop k (take b xs) ! (i - k) = x" "i - k < length (drop k (take b xs))" using assms by simp_all
  then show "x \<in> set (drop k (take b xs))" by (metis nth_mem)
qed

lemma blank_slice:
  assumes "1 \<le> a" "b \<le> length lines"
  shows "blank (slice lines a b) \<longleftrightarrow> (\<forall>i. a \<le> Suc i \<longrightarrow> i < b \<longrightarrow> blank (lines ! i))"
proof -
  have "a - 1 \<le> i \<longleftrightarrow> a \<le> Suc i" for i by auto
  then show ?thesis
    unfolding slice_def blank_join Ball_def set_drop_take [OF assms(2)] by auto
qed

section \<open>Symbols lie in their file\<close>

lemma block_end_from_bounds:
  "whole = offset + length ls \<Longrightarrow> ls \<noteq> [] \<Longrightarrow>
     offset + 1 \<le> block_end_from whole offset d op ls \<and> block_end_from whole offset d op ls \<le> whole"
proof (induction ls arbitrary: offset d op)
  case (Cons l ls)
  show ?case
  proof (cases ls)
    case Nil
    with Cons.prems show ?thesis by (auto split: option.splits)
  next
    case (Cons l' ls')
    with Cons.IH [of "offset + 1"] Cons.prems show ?thesis by (fastforce split: option.splits)
  qed
qed simp

lemma block_end_bounds: "i < length lines \<Longrightarrow> Suc i \<le> block_end lines i \<and> block_end lines i \<le> length lines"
  using block_end_from_bounds [of "length lines" i "drop i lines" 0 False] by (simp add: block_end_def)

lemma python_end_bounds:
  "whole = offset + length ls \<Longrightarrow> offset \<le> python_end whole indent offset ls \<and> python_end whole indent offset ls \<le> whole"
  by (induction ls arbitrary: offset) fastforce+

definition in_file :: "pystr list \<Rightarrow> symbol \<Rightarrow> bool" where
  "in_file lines s \<longleftrightarrow> 1 \<le> sy_start_line s \<and> sy_start_line s \<le> sy_end_line s \<and> sy_end_line s \<le> length lines"

lemma enumerate_nth: "(i, l) \<in> set (enumerate 0 lines) \<Longrightarrow> i < length lines \<and> l = lines ! i"
  by (auto simp: in_set_enumerate_eq)

lemma csharp_in_file:
  "(i, l) \<in> set (enumerate 0 lines) \<Longrightarrow> s \<in> set (csharp_symbols_at file_path lines (i, l)) \<Longrightarrow>
     in_file lines s \<and> lines ! (sy_start_line s - 1) = l \<and> \<not> blank l"
  using block_end_bounds [of i lines]
  by (auto simp: csharp_symbols_at_def in_file_def Let_def str_strip_Nil_iff dest!: enumerate_nth
      split: option.splits if_splits)

lemma python_in_file:
  "(i, l) \<in> set (enumerate 0 lines) \<Longrightarrow> s \<in> set (python_symbols_at file_path lines (i, l)) \<Longrightarrow>
     in_file lines s \<and> lines ! (sy_start_line s - 1) = l \<and> match_line PYTHON_DEF l \<noteq> None"
  using python_end_bounds [of "length lines" "Suc i" "drop (Suc i) lines" "indent_of l"]
  by (cases "match_line PYTHON_DEF l") (auto simp: python_symbols_at_def in_file_def dest!: enumerate_nth)

lemma braced_in_file:
  "(i, l) \<in> set (enumerate 0 lines) \<Longrightarrow> s \<in> set (braced_symbols_at file_path lines r lang (i, l)) \<Longrightarrow>
     in_file lines s \<and> lines ! (sy_start_line s - 1) = l \<and> match_line r l \<noteq> None"
  using block_end_bounds [of i lines]
  by (cases "match_line r l") (auto simp: braced_symbols_at_def in_file_def dest!: enumerate_nth)

text \<open>A pattern every match of which consumes a character that is not white space.\<close>

definition solid :: "rx \<Rightarrow> bool" where
  "solid r \<longleftrightarrow> (\<forall>p q. q \<in> set (rmatch r p) \<longrightarrow> (\<exists>c \<in> set (ahead p). \<not> is_space c))"

lemma solid_RSeq_left: "solid a \<Longrightarrow> solid (RSeq a b)"
  by (auto simp: solid_def)

lemma solid_RSeq_right: "solid b \<Longrightarrow> solid (RSeq a b)"
  unfolding solid_def
proof (intro allI impI)
  fix p q
  assume b: "\<forall>p q. q \<in> set (rmatch b p) \<longrightarrow> (\<exists>c\<in>set (ahead p). \<not> is_space c)"
    and "q \<in> set (rmatch (RSeq a b) p)"
  then obtain m where m: "m \<in> set (rmatch a p)" and "q \<in> set (rmatch b m)" by auto
  with b have "\<exists>c\<in>set (ahead m). \<not> is_space c" by blast
  moreover have "set (ahead m) \<subseteq> set (ahead p)" using reaches_rmatch [OF m] by (auto simp: reaches_def)
  ultimately show "\<exists>c\<in>set (ahead p). \<not> is_space c" by blast
qed

lemma solid_RAlt: "solid a \<Longrightarrow> solid b \<Longrightarrow> solid (RAlt a b)"
  by (auto simp: solid_def)

lemma solid_RGroup: "solid a \<Longrightarrow> solid (RGroup k a)"
  by (auto simp: solid_def)

lemma solid_RChar: "\<not> is_space c \<Longrightarrow> solid (RChar c)"
  unfolding solid_def
proof (intro allI impI)
  fix p q
  assume "\<not> is_space c" "q \<in> set (rmatch (RChar c) p)"
  then show "\<exists>c\<in>set (ahead p). \<not> is_space c"
    by (cases "ahead p") (auto simp: RChar_def step_set_def split: if_splits)
qed

lemma solid_RLit: "cs \<noteq> [] \<Longrightarrow> list_all (\<lambda>c. \<not> is_space c) cs \<Longrightarrow> solid (RLit cs)"
  by (induction cs rule: RLit.induct) (auto intro: solid_RChar solid_RSeq_left)

lemmas solid_intros = solid_RAlt solid_RGroup solid_RLit

lemma solid_match: "solid r \<Longrightarrow> match_line r l \<noteq> None \<Longrightarrow> \<not> blank l"
proof (cases "rmatch r (start_cursor l)")
  case (Cons q qs)
  assume "solid r"
  with Cons have "\<exists>c \<in> set (ahead (start_cursor l)). \<not> is_space c" by (metis list.set_intros(1) solid_def)
  then show ?thesis by (auto simp: start_cursor_def blank_def list_all_iff)
qed (simp add: match_line_def match_at_def)

lemma solid_definitions: "solid PYTHON_DEF" "solid TS_DEF"
proof -
  have word: "solid (RLit ''class'')" "solid (RLit ''def'')" "solid (RLit ''interface'')" "solid (RLit ''type'')"
    "solid (RLit ''function'')" "solid (RLit ''const'')"
    by (rule solid_RLit; simp add: is_space_def in_ranges_def)+
  show "solid PYTHON_DEF"
    unfolding PYTHON_DEF_def RSeqs.simps
    by (rule solid_RSeq_right, rule solid_RSeq_left, intro solid_RGroup solid_RAlt word)
  show "solid TS_DEF"
    unfolding TS_DEF_def RSeqs.simps RAlts.simps
    by (rule solid_RSeq_right, rule solid_RSeq_right, rule solid_RSeq_right, rule solid_RSeq_left,
        intro solid_RGroup solid_RAlt word)
qed

lemma symbols_in_file:
  assumes "s \<in> set (parse_symbols file_path content)"
  shows "in_file (str_splitlines content) s \<and> \<not> blank (str_splitlines content ! (sy_start_line s - 1))"
proof -
  let ?lines = "str_splitlines content"
  from assms consider
      i l where "(i, l) \<in> set (enumerate 0 ?lines)" "s \<in> set (csharp_symbols_at file_path ?lines (i, l))"
    | i l where "(i, l) \<in> set (enumerate 0 ?lines)" "s \<in> set (python_symbols_at file_path ?lines (i, l))"
    | i l where "(i, l) \<in> set (enumerate 0 ?lines)"
        "s \<in> set (braced_symbols_at file_path ?lines TS_DEF (language_of file_path) (i, l))"
    by (auto simp: parse_symbols_def parse_csharp_def parse_python_def parse_braced_def Let_def split: if_splits)
  then show ?thesis
  proof cases
    case 1 then show ?thesis using csharp_in_file by blast
  next
    case 2 then show ?thesis using python_in_file solid_match [OF solid_definitions(1)] by blast
  next
    case 3 then show ?thesis using braced_in_file solid_match [OF solid_definitions(2)] by blast
  qed
qed

section \<open>Chunks\<close>

declare window_chunks_from.simps [simp del]

text \<open>What a chunk of a file is: a range of its lines, its text exactly these lines, and not blank.\<close>

definition chunk_of :: "scanned_file \<Rightarrow> chunk \<Rightarrow> bool" where
  "chunk_of file c \<longleftrightarrow>
     (let lines = str_splitlines (sf_content file) in
      ck_file_path c = sf_relative_path file \<and> ck_language c = sf_language file
      \<and> 1 \<le> ck_start_line c \<and> ck_start_line c \<le> ck_end_line c \<and> ck_end_line c \<le> length lines
      \<and> ck_content c = slice lines (ck_start_line c) (ck_end_line c) \<and> \<not> blank (ck_content c))"

lemma window_next: "e = start + WINDOW_LINES - 1 \<Longrightarrow> start < e - WINDOW_OVERLAP + 1 \<and> e - WINDOW_OVERLAP + 1 \<le> Suc e"
  by (auto simp: WINDOW_LINES_def WINDOW_OVERLAP_def)

lemma window_sound:
  assumes "c \<in> set (window_chunks_from file lines start)" and "1 \<le> start" and "lines = str_splitlines (sf_content file)"
  shows "chunk_of file c \<and> ck_end_line c - ck_start_line c < WINDOW_LINES"
  using assms
proof (induction "file" lines start rule: window_chunks_from.induct)
  case (1 "file" lines start)
  let ?e = "min (length lines) (start + WINDOW_LINES - 1)"
  from "1.prems"(1) have le: "start \<le> length lines"
    by (subst (asm) window_chunks_from.simps) (simp split: if_splits)
  from "1.prems"(1) le consider
      "c = \<lparr>ck_file_path = sf_relative_path file, ck_language = sf_language file, ck_content = slice lines start ?e,
         ck_start_line = start, ck_end_line = ?e, ck_symbol_name = None, ck_symbol_kind = None\<rparr>"
        "\<not> blank (slice lines start ?e)"
    | "?e \<noteq> length lines" "c \<in> set (window_chunks_from file lines (?e - WINDOW_OVERLAP + 1))"
    by (subst (asm) window_chunks_from.simps) (auto simp: Let_def str_strip_Nil_iff split: if_splits)
  then show ?case
  proof cases
    case 1
    then show ?thesis using le "1.prems"(2,3) by (auto simp: chunk_of_def WINDOW_LINES_def Let_def)
  next
    case 2
    then show ?thesis using "1.IH" [OF le refl refl 2] "1.prems"(3) by simp
  qed
qed

lemma window_cover:
  assumes "i < length lines" and "\<not> blank (lines ! i)" and "1 \<le> start" and "start \<le> Suc i"
  shows "\<exists>c \<in> set (window_chunks_from file lines start). ck_start_line c \<le> Suc i \<and> Suc i \<le> ck_end_line c"
  using assms
proof (induction "file" lines start rule: window_chunks_from.induct)
  case (1 "file" lines start)
  let ?e = "min (length lines) (start + WINDOW_LINES - 1)"
  have le: "start \<le> length lines" using "1.prems" by simp
  show ?case
  proof (cases "Suc i \<le> ?e")
    case True
    then have "\<not> blank (slice lines start ?e)" using "1.prems" by (auto simp: blank_slice)
    with le True "1.prems"(4) show ?thesis
      by (subst window_chunks_from.simps) (auto simp: Let_def str_strip_Nil_iff)
  next
    case False
    then have e: "?e = start + WINDOW_LINES - 1" "?e \<noteq> length lines" using "1.prems"(1) by auto
    with False window_next [OF e(1)]
    have "\<exists>c \<in> set (window_chunks_from file lines (?e - WINDOW_OVERLAP + 1)). ck_start_line c \<le> Suc i \<and> Suc i \<le> ck_end_line c"
      by (intro "1.IH" [OF le refl refl e(2)] "1.prems"(1,2)) auto
    with le e(2) show ?thesis by (subst window_chunks_from.simps) (auto simp: Let_def)
  qed
qed

lemma symbol_chunk_sound:
  assumes "s \<in> set (parse_symbols (sf_relative_path file) (sf_content file))" and "usable s"
  shows "chunk_of file (symbol_chunk file (str_splitlines (sf_content file)) s)
    \<and> ck_end_line (symbol_chunk file lines s) - ck_start_line (symbol_chunk file lines s) \<le> MAX_CHUNK_LINES"
proof -
  let ?lines = "str_splitlines (sf_content file)"
  have s: "in_file ?lines s" "\<not> blank (?lines ! (sy_start_line s - 1))"
    using symbols_in_file [OF assms(1)] by simp_all
  then have "\<not> blank (slice ?lines (sy_start_line s) (sy_end_line s))"
    unfolding in_file_def
    by (subst blank_slice) (auto intro!: exI [of _ "sy_start_line s - 1"])
  with s(1) assms(2) show ?thesis
    by (auto simp: chunk_of_def symbol_chunk_def in_file_def usable_def Let_def)
qed

text \<open>
  C37: chunking is faithful and complete. Every chunk of a file is a range of the file's lines of at
  most \<open>MAX_CHUNK_LINES + 1\<close> lines, with exactly the text of these lines, and not blank. A file has no
  chunk exactly when all its lines are blank; and when none of its symbols is usable, every line that is not
  blank is in one of the overlapping windows.
\<close>

theorem chunking_faithful:
  "(\<forall>c \<in> set (chunk_file file). chunk_of file c \<and> ck_end_line c - ck_start_line c \<le> MAX_CHUNK_LINES)
   \<and> (chunk_file file = [] \<longleftrightarrow> (\<forall>l \<in> set (str_splitlines (sf_content file)). blank l))
   \<and> (list_all (\<lambda>s. \<not> usable s) (parse_symbols (sf_relative_path file) (sf_content file)) \<longrightarrow>
       (\<forall>i < length (str_splitlines (sf_content file)). blank (str_splitlines (sf_content file) ! i)
          \<or> (\<exists>c \<in> set (chunk_file file). ck_start_line c \<le> Suc i \<and> Suc i \<le> ck_end_line c)))"
proof -
  let ?lines = "str_splitlines (sf_content file)"
  let ?sy = "filter usable (parse_symbols (sf_relative_path file) (sf_content file))"
  have symbol: "chunk_of file (symbol_chunk file ?lines s)"
    "ck_end_line (symbol_chunk file ?lines s) - ck_start_line (symbol_chunk file ?lines s) \<le> MAX_CHUNK_LINES"
    "\<not> blank (ck_content (symbol_chunk file ?lines s))" if "s \<in> set ?sy" for s
    using symbol_chunk_sound [of s "file" ?lines] that by (auto simp: chunk_of_def Let_def)
  show ?thesis
  proof (cases "?sy = []")
    case True
    then have cf: "chunk_file file = window_chunks_from file ?lines 1"
      by (cases "?lines = []") (simp_all add: chunk_file_def window_chunks_def window_chunks_from.simps [of "file" "[]"])
    have sound: "chunk_of file c \<and> ck_end_line c - ck_start_line c < WINDOW_LINES" if "c \<in> set (chunk_file file)" for c
      using window_sound [of c "file" ?lines 1] that cf by simp
    have cover: "\<exists>c \<in> set (chunk_file file). ck_start_line c \<le> Suc i \<and> Suc i \<le> ck_end_line c"
      if "i < length ?lines" "\<not> blank (?lines ! i)" for i
      using window_cover [OF that, of 1 "file"] cf by simp
    have "chunk_file file = []" if "\<forall>l \<in> set ?lines. blank l"
    proof (rule ccontr)
      assume "chunk_file file \<noteq> []"
      then obtain c where "c \<in> set (chunk_file file)" by (cases "chunk_file file") auto
      from sound [OF this] that show False by (auto simp: chunk_of_def Let_def blank_slice)
    qed
    moreover have "\<forall>l \<in> set ?lines. blank l" if "chunk_file file = []"
      using cover that unfolding in_set_conv_nth Ball_def by (metis empty_iff list.set(1))
    ultimately show ?thesis using sound cover by (fastforce simp: WINDOW_LINES_def MAX_CHUNK_LINES_def)
  next
    case False
    then obtain s where s: "s \<in> set ?sy" by (cases ?sy) auto
    then have lines: "\<not> blank (?lines ! (sy_start_line s - 1))" "sy_start_line s - 1 < length ?lines"
      using symbols_in_file [of s "sf_relative_path file" "sf_content file"] by (auto simp: in_file_def)
    then have "?lines \<noteq> []" by auto
    with False have cf: "chunk_file file = map (symbol_chunk file ?lines) ?sy"
      by (auto simp: chunk_file_def Let_def str_strip_Nil_iff symbol(3) intro!: filter_True)
    have "\<exists>l \<in> set ?lines. \<not> blank l" using lines by (metis nth_mem)
    moreover have "\<not> list_all (\<lambda>s. \<not> usable s) (parse_symbols (sf_relative_path file) (sf_content file))"
      using s by (auto simp: list_all_iff)
    ultimately show ?thesis using cf False symbol by auto
  qed
qed

definition note_file :: scanned_file where
  "note_file = \<lparr>sf_path = [''notes.txt''], sf_relative_path = ''notes.txt'', sf_language = ''text'',
     sf_content = ''one'' @ [CHR 0x0A, CHR 0x0A] @ ''three''\<rparr>"

theorem chunking_faithful_witness:
  "chunk_file note_file \<noteq> [] \<and> (\<exists>c \<in> set (chunk_file note_file). ck_start_line c \<le> 3 \<and> 3 \<le> ck_end_line c)"
proof -
  have lines: "str_splitlines (sf_content note_file) = [''one'', [], ''three'']" by code_simp
  have none: "parse_symbols (sf_relative_path note_file) (sf_content note_file) = []" by code_simp
  have ink: "\<not> blank ''three''" "\<not> blank ''one''" by (simp_all add: blank_def is_space_def in_ranges_def)
  from chunking_faithful [of note_file] have
    "chunk_file note_file = [] \<longleftrightarrow> (\<forall>l \<in> set [''one'', [], ''three'']. blank l)"
    and "\<forall>i < 3. blank ([''one'', [], ''three''] ! i)
      \<or> (\<exists>c \<in> set (chunk_file note_file). ck_start_line c \<le> Suc i \<and> Suc i \<le> ck_end_line c)"
    unfolding lines none by simp_all
  with ink show ?thesis by (auto dest!: spec [of _ 2])
qed

text \<open>
  The bound of a symbol chunk is off by one: a symbol of \<open>MAX_CHUNK_LINES + 1\<close> lines is usable.
\<close>

lemma usable_symbol_may_exceed_limit:
  "usable \<lparr>sy_name = ''f'', sy_kind = ''function'', sy_file_path = ''f.py'', sy_start_line = 1, sy_end_line = 161, sy_language = ''python''\<rparr>"
  by (simp add: usable_def MAX_CHUNK_LINES_def)

end
