(* ===== verification/Git_Tools.thy ===== *)
theory Git_Tools
  imports Tools_Fs
begin

text \<open>
  Git as the platform drives it: the diff of a worktree (\<open>tools/git/diff.py\<close>), committing
  (\<open>tools/git/commit.py\<close>) and the worktree of a task (\<open>WorkspaceManager\<close> of \<open>tools/workspace.py\<close>).
  Every command goes through the command runner; what git does and prints is an answer of the
  environment.
\<close>

section \<open>Diffs\<close>

record diff_summary =
  ds_diff :: pystr
  ds_files :: "pystr list"
  ds_insertions :: int
  ds_deletions :: int

text \<open>\<open>int(s)\<close> for a decimal numeral with an optional sign; anything else raises \<open>ValueError\<close>.\<close>

fun digits_value :: "int \<Rightarrow> pystr \<Rightarrow> int option" where
  "digits_value n [] = Some n"
| "digits_value n (c # cs) =
     (if is_digit c then digits_value (10 * n + (int (of_char c) - 48)) cs else None)"

definition py_int :: "pystr \<Rightarrow> int option" where
  "py_int s = (case str_strip s of
       [] \<Rightarrow> None
     | c # cs \<Rightarrow>
         if c = CHR ''-'' then (if cs = [] then None else map_option uminus (digits_value 0 cs))
         else if c = CHR ''+'' then (if cs = [] then None else digits_value 0 cs)
         else digits_value 0 (c # cs))"

definition changed_files_of :: "pystr \<Rightarrow> pystr list" where
  "changed_files_of out =
     concat (map (\<lambda>line. let parts = split_char (CHR 0x09) line in
       if length parts \<ge> 2 then [str_strip (last parts)] else []) (str_splitlines out))"

text \<open>A line whose first count is a number but whose second is not still counts its insertions.\<close>

definition count_numstat :: "pystr \<Rightarrow> int \<times> int \<Rightarrow> int \<times> int" where
  "count_numstat line counts =
     (let parts = split_char (CHR 0x09) line in
      if length parts < 2 then counts
      else case py_int (parts ! 0) of
        None \<Rightarrow> counts
      | Some i \<Rightarrow> (fst counts + i,
          case py_int (parts ! 1) of None \<Rightarrow> snd counts | Some d \<Rightarrow> snd counts + d))"

definition collect_diff :: "path \<Rightarrow> diff_summary io" where
  "collect_diff p =
     mbind (run_command [''git'', ''add'', ''--intent-to-add'', ''--all''] p) (\<lambda>_.
     mbind (run_command [''git'', ''diff'', ''HEAD''] p) (\<lambda>diff_result.
     mbind (run_command [''git'', ''diff'', ''--name-status'', ''HEAD''] p) (\<lambda>name_status.
     mbind (run_command [''git'', ''diff'', ''--numstat'', ''HEAD''] p) (\<lambda>numstat.
     let counts = fold count_numstat (str_splitlines (cm_stdout numstat)) (0, 0) in
     ret \<lparr>ds_diff = cm_stdout diff_result, ds_files = changed_files_of (cm_stdout name_status),
          ds_insertions = fst counts, ds_deletions = snd counts\<rparr>))))"

definition git_diff_tool :: "tool_context \<Rightarrow> dict \<Rightarrow> tool_result io" where
  "git_diff_tool tx args =
     (case tx_workspace tx of
        None \<Rightarrow> ret (tool_failure ''no workspace for this task'')
      | Some ws \<Rightarrow> mbind (collect_diff (ws_path ws)) (\<lambda>s.
          if ds_files s = [] then ret (tool_success ''no changes'' [])
          else ret (tool_success
                 (if ds_diff s = [] then ''(no textual diff)'' else ds_diff s)
                 [(''files'', jstrs (ds_files s)), (''insertions'', JInt (ds_insertions s)),
                  (''deletions'', JInt (ds_deletions s))])))"

definition git_status_tool :: "tool_context \<Rightarrow> dict \<Rightarrow> tool_result io" where
  "git_status_tool tx args =
     (case tx_workspace tx of
        None \<Rightarrow> ret (tool_failure ''no workspace for this task'')
      | Some ws \<Rightarrow> mbind (run_command [''git'', ''status'', ''--porcelain''] (ws_path ws)) (\<lambda>r.
          ret (tool_success (if cm_stdout r = [] then ''clean'' else cm_stdout r)
            [(''exit_code'', JInt (cm_exit_code r))])))"

section \<open>Commits\<close>

definition AGENT_NAME :: pystr where
  "AGENT_NAME = ''AI Engineering Agent''"

definition AGENT_EMAIL :: pystr where
  "AGENT_EMAIL = ''agent@localhost''"

definition commit_command :: "pystr \<Rightarrow> pystr list" where
  "commit_command message = [''git'', ''-c'', ''user.name='' @ AGENT_NAME, ''-c'',
     ''user.email='' @ AGENT_EMAIL, ''commit'', ''-m'', message]"

definition commit_all :: "path \<Rightarrow> pystr \<Rightarrow> pystr io" where
  "commit_all p message =
     mbind (run_command [''git'', ''add'', ''--all''] p) (\<lambda>add.
     if cm_exit_code add \<noteq> 0
     then raise (AgentPlatformError (''git add failed: '' @ str_strip (cm_stderr add)))
     else mbind (run_command [''git'', ''diff'', ''--cached'', ''--name-only''] p) (\<lambda>staged.
     if str_strip (cm_stdout staged) = [] then raise (AgentPlatformError ''nothing to commit'')
     else mbind (run_command (commit_command message) p) (\<lambda>commit.
     if cm_exit_code commit \<noteq> 0
     then raise (AgentPlatformError (''git commit failed: '' @ str_strip (combined_output commit)))
     else mbind (run_command [''git'', ''rev-parse'', ''HEAD''] p) (\<lambda>sha.
     ret (str_strip (cm_stdout sha))))))"

definition current_branch :: "path \<Rightarrow> pystr io" where
  "current_branch p =
     mbind (run_command [''git'', ''rev-parse'', ''--abbrev-ref'', ''HEAD''] p) (\<lambda>r.
     ret (str_strip (cm_stdout r)))"

definition changed_files :: "path \<Rightarrow> pystr list io" where
  "changed_files p =
     mbind (run_command [''git'', ''diff'', ''--name-only'', ''HEAD''] p) (\<lambda>r.
     ret (filter (\<lambda>l. l \<noteq> []) (map str_strip (str_splitlines (cm_stdout r)))))"

section \<open>Worktrees\<close>

definition BRANCH_PREFIX :: pystr where
  "BRANCH_PREFIX = ''agent/''"

definition ws_get :: "pystr \<Rightarrow> workspace io" where
  "ws_get tid = mbind (gets (\<lambda>w. w_workspaces w tid)) (\<lambda>r. case r of
       None \<Rightarrow> raise (WorkspaceViolationError (''no workspace for task '' @ tid))
     | Some ws \<Rightarrow> ret ws)"

definition ws_try_get :: "pystr \<Rightarrow> workspace option io" where
  "ws_try_get tid = gets (\<lambda>w. w_workspaces w tid)"

definition ws_register :: "workspace \<Rightarrow> unit io" where
  "ws_register ws = modify (\<lambda>w. w\<lparr>w_workspaces := (w_workspaces w)(ws_task_id ws \<mapsto> ws)\<rparr>)"

text \<open>\<open>shutil.rmtree\<close>: the directory and everything below it is gone.\<close>

definition fs_rmtree :: "path \<Rightarrow> fs \<Rightarrow> fs" where
  "fs_rmtree p f = filter (\<lambda>(q, _). \<not> prefix p q) f"

definition remove_worktree :: "path \<Rightarrow> path \<Rightarrow> pystr option \<Rightarrow> command_result io" where
  "remove_worktree repo target branch =
     mbind (run_command [''git'', ''worktree'', ''remove'', ''--force'', path_str target] repo) (\<lambda>r.
     mbind (gets (\<lambda>w. fs_exists (w_fs w) target)) (\<lambda>present.
     mbind (unless (\<not> present) (modify (\<lambda>w. w\<lparr>w_fs := fs_rmtree target (w_fs w)\<rparr>))) (\<lambda>_.
     mbind (run_command [''git'', ''worktree'', ''prune''] repo) (\<lambda>_.
     mbind (unless (\<not> truthy_str branch)
       (mbind (run_command [''git'', ''branch'', ''-D'', get_default [] branch] repo) (\<lambda>_. ret ())))
       (\<lambda>_. ret r)))))"

definition ws_create :: "path \<Rightarrow> pystr \<Rightarrow> path \<Rightarrow> workspace io" where
  "ws_create root_dir tid repository_path =
     mbind (gets (\<lambda>w. resolve_path (w_fs w) repository_path)) (\<lambda>rr. mbind (lift_result rr) (\<lambda>repo.
     mbind (gets (\<lambda>w. fs_exists (w_fs w) (repo @ [''.git'']))) (\<lambda>is_repo.
     if \<not> is_repo
     then raise (WorkspaceViolationError (''not a git repository: '' @ path_str repo))
     else
       let target = root_dir @ [tid]; branch = BRANCH_PREFIX @ tid in
       mbind (gets (\<lambda>w. fs_exists (w_fs w) target)) (\<lambda>present.
       mbind (unless (\<not> present) (mbind (remove_worktree repo target (Some branch)) (\<lambda>_. ret ()))) (\<lambda>_.
       mbind (run_command [''git'', ''worktree'', ''add'', path_str target, ''-b'', branch] repo) (\<lambda>r.
       if cm_exit_code r \<noteq> 0
       then raise (WorkspaceViolationError (''git worktree add failed ('' @
              show_int (cm_exit_code r) @ ''): '' @ str_strip (cm_stderr r)))
       else
         let ws = \<lparr>ws_task_id = tid, ws_path = target, ws_branch = branch, ws_repository_path = repo\<rparr>
         in mbind (ws_register ws) (\<lambda>_. ret ws)))))))"

definition ws_adopt :: "pystr \<Rightarrow> path \<Rightarrow> pystr \<Rightarrow> path \<Rightarrow> workspace io" where
  "ws_adopt tid p branch repository_path =
     mbind (gets (\<lambda>w. resolve_path (w_fs w) p)) (\<lambda>r. mbind (lift_result r) (\<lambda>q.
     mbind (gets (\<lambda>w. resolve_path (w_fs w) repository_path)) (\<lambda>rr. mbind (lift_result rr) (\<lambda>repo.
     let ws = \<lparr>ws_task_id = tid, ws_path = q, ws_branch = branch, ws_repository_path = repo\<rparr>
     in mbind (ws_register ws) (\<lambda>_. ret ws)))))"

definition ws_destroy :: "pystr \<Rightarrow> bool \<Rightarrow> unit io" where
  "ws_destroy tid keep_branch =
     mbind (ws_try_get tid) (\<lambda>r. case r of
       None \<Rightarrow> ret ()
     | Some ws \<Rightarrow>
         mbind (modify (\<lambda>w. w\<lparr>w_workspaces := (w_workspaces w)(tid := None)\<rparr>)) (\<lambda>_.
         mbind (remove_worktree (ws_repository_path ws) (ws_path ws)
           (if keep_branch then None else Some (ws_branch ws))) (\<lambda>_. ret ())))"

section \<open>Audit discipline of the tools\<close>

lemma evo_fs [evo_intros]: "stays (evolves tid) (modify (\<lambda>w. w\<lparr>w_fs := g w\<rparr>))"
  by (intro evo.stays_modify) (simp add: evolves_def)

lemma evo_workspaces [evo_intros]: "stays (evolves tid) (modify (\<lambda>w. w\<lparr>w_workspaces := g w\<rparr>))"
  by (intro evo.stays_modify) (simp add: evolves_def)

lemma evo_resolve_or_fail [evo_intros]:
  "(\<And>t. stays (evolves tid) (k t)) \<Longrightarrow> stays (evolves tid) (resolve_or_fail tx p k)"
  unfolding resolve_or_fail_def
  by (auto intro!: evo_intros split: sum.splits py_error.splits)

lemma evo_text [evo_intros]:
  "stays (evolves tid) (read_text p)" "stays (evolves tid) (write_text p t)"
  "stays (evolves tid) (mkdir_parents p)"
  unfolding read_text_def write_text_def mkdir_parents_def by (intro evo_intros)+

lemma evo_file_tools [evo_intros]:
  "stays (evolves tid) (read_file tx args)" "stays (evolves tid) (list_directory tx args)"
  "stays (evolves tid) (apply_patch tx args)" "stays (evolves tid) (create_file tx args)"
  unfolding read_file_def list_directory_def apply_patch_def create_file_def Let_def
  by (auto intro!: evo_intros split: sum.splits prod.splits)

lemma evo_git [evo_intros]:
  "stays (evolves tid) (collect_diff p)" "stays (evolves tid) (commit_all p m)"
  "stays (evolves tid) (current_branch p)" "stays (evolves tid) (changed_files p)"
  unfolding collect_diff_def commit_all_def current_branch_def changed_files_def Let_def
  by (intro evo_intros)+

lemma evo_git_tools [evo_intros]:
  "stays (evolves tid) (git_diff_tool tx args)" "stays (evolves tid) (git_status_tool tx args)"
  unfolding git_diff_tool_def git_status_tool_def
  by (auto intro!: evo_intros split: option.splits)

lemma evo_worktree [evo_intros]:
  "stays (evolves tid) (ws_get t)" "stays (evolves tid) (ws_try_get t)"
  "stays (evolves tid) (ws_register ws)" "stays (evolves tid) (remove_worktree r q b)"
  unfolding ws_get_def ws_try_get_def ws_register_def remove_worktree_def
  by (auto intro!: evo_intros split: option.splits)

lemma evo_workspace_manager [evo_intros]:
  "stays (evolves tid) (ws_create d t r)" "stays (evolves tid) (ws_adopt t p b r)"
  "stays (evolves tid) (ws_destroy t k)"
  unfolding ws_create_def ws_adopt_def ws_destroy_def Let_def
  by (auto intro!: evo_intros split: option.splits)

end
