(* ===== verification/Search_Tools.thy ===== *)
theory Search_Tools
  imports Ingestion Policy Git_Tools
begin

text \<open>
  The tools that search a repository: \<open>tools/repository/search_code.py\<close>, \<open>symbol_search.py\<close> and
  \<open>dependency_search.py\<close>. A directory is listed in the order the file system has its entries. What
  \<open>re.compile\<close> makes of a pattern the model writes is an answer of the environment, either the error
  or the test whether a line has a match; the patterns of the sources themselves are those of Regex.
  The process \<open>rg\<close> is an answer of the environment too.
\<close>

section \<open>\<open>search_code\<close>\<close>

definition SEARCH_SKIP_DIRECTORIES :: "pystr list" where
  "SEARCH_SKIP_DIRECTORIES = [''.git'', ''bin'', ''obj'', ''node_modules'', ''.vs'', ''__pycache__'', ''.next'', ''packages'']"

definition TEXT_SUFFIXES :: "pystr list" where
  "TEXT_SUFFIXES = [''.cs'', ''.csproj'', ''.sln'', ''.json'', ''.xml'', ''.config'', ''.md'', ''.yml'', ''.yaml'', ''.py'',
     ''.ts'', ''.tsx'', ''.js'', ''.jsx'', ''.sql'', ''.sh'', ''.props'', ''.targets'', ''.txt'']"

definition MAX_MATCHES :: nat where
  "MAX_MATCHES = 60"

definition SEARCH_MAX_FILE_BYTES :: nat where
  "SEARCH_MAX_FILE_BYTES = 2000000"

record code_match =
  mt_path :: pystr
  mt_line_number :: int
  mt_line :: pystr

definition render_match :: "code_match \<Rightarrow> pystr" where
  "render_match m = mt_path m @ '':'' @ show_int (mt_line_number m) @ '': '' @ str_strip (mt_line m)"

text \<open>\<open>root.rglob("*")\<close>: what lies below the directory a root leads to, under the name of the root.\<close>

definition rglob_all :: "fs \<Rightarrow> path \<Rightarrow> path list" where
  "rglob_all f base =
     (case resolve_path f base of
        Inl _ \<Rightarrow> []
      | Inr r \<Rightarrow> map (\<lambda>p. base @ drop (length r) p) (fs_descendants f r))"

definition is_source_file :: "fs \<Rightarrow> path \<Rightarrow> bool" where
  "is_source_file f p =
     (case fs_lookup f p of
        Some (File t) \<Rightarrow>
          \<not> (\<exists>part \<in> set p. part \<in> set SEARCH_SKIP_DIRECTORIES)
          \<and> str_lower (path_suffix p) \<in> set TEXT_SUFFIXES
          \<and> \<not> file_size t > SEARCH_MAX_FILE_BYTES
      | _ \<Rightarrow> False)"

definition iter_source_files :: "fs \<Rightarrow> path \<Rightarrow> path list" where
  "iter_source_files f base = filter (is_source_file f) (rglob_all f base)"

text \<open>
  \<open>Path(relative).match(glob)\<close>: the components of the pattern match the last components of the path;
  an absolute pattern matches no relative path, and one without components raises.
\<close>

definition path_match :: "pystr list \<Rightarrow> pystr \<Rightarrow> bool result" where
  "path_match parts pattern =
     (let ps = path_parts pattern in
      if is_absolute pattern then Inr False
      else if ps = [] then Inl (OtherError ''ValueError'' ''empty pattern'')
      else Inr (length ps \<le> length parts \<and>
        list_all2 (\<lambda>part p. fnmatch part p) (drop (length parts - length ps) parts) ps))"

text \<open>\<open>if glob and not Path(relative).match(glob)\<close>: whether the file is searched.\<close>

definition glob_selects :: "pystr option \<Rightarrow> pystr list \<Rightarrow> bool result" where
  "glob_selects pattern parts =
     (case pattern of
        None \<Rightarrow> Inr True
      | Some g \<Rightarrow> if g = [] then Inr True else path_match parts g)"

definition read_content :: "fs \<Rightarrow> path \<Rightarrow> pystr result" where
  "read_content f p = map_sum id universal_newlines (fs_read f p)"

text \<open>The loop over the lines of a file; \<open>True\<close> when the search returns.\<close>

fun search_lines :: "(pystr \<Rightarrow> bool) \<Rightarrow> nat \<Rightarrow> pystr \<Rightarrow> nat \<Rightarrow> pystr list \<Rightarrow> code_match list \<Rightarrow> bool \<times> code_match list" where
  "search_lines found limit relative number [] matches = (False, matches)"
| "search_lines found limit relative number (line # ls) matches =
     (if found line
      then let matches' = matches @ [\<lparr>mt_path = relative, mt_line_number = int number, mt_line = line\<rparr>] in
           if length matches' \<ge> limit then (True, matches')
           else search_lines found limit relative (Suc number) ls matches'
      else search_lines found limit relative (Suc number) ls matches)"

fun search_files :: "fs \<Rightarrow> path \<Rightarrow> (pystr \<Rightarrow> bool) \<Rightarrow> pystr option \<Rightarrow> nat \<Rightarrow> path list \<Rightarrow> code_match list
    \<Rightarrow> code_match list result" where
  "search_files f base found pattern limit [] matches = Inr matches"
| "search_files f base found pattern limit (p # ps) matches =
     (let parts = drop (length base) p in
      case glob_selects pattern parts of
        Inl e \<Rightarrow> Inl e
      | Inr False \<Rightarrow> search_files f base found pattern limit ps matches
      | Inr True \<Rightarrow>
          (case read_content f p of
             Inl _ \<Rightarrow> search_files f base found pattern limit ps matches
           | Inr content \<Rightarrow>
               (case search_lines found limit (rel_str parts) 1 (str_splitlines content) matches of
                  (True, matches') \<Rightarrow> Inr matches'
                | (False, matches') \<Rightarrow> search_files f base found pattern limit ps matches')))"

definition search_python ::
  "fs \<Rightarrow> path \<Rightarrow> pystr + (pystr \<Rightarrow> bool) \<Rightarrow> pystr option \<Rightarrow> nat \<Rightarrow> code_match list result" where
  "search_python f base compiled pattern limit =
     (case compiled of
        Inl exc \<Rightarrow> Inl (OtherError ''ValueError'' (''invalid regular expression: '' @ exc))
      | Inr found \<Rightarrow> search_files f base found pattern limit (iter_source_files f base) [])"

section \<open>Ripgrep\<close>

definition rg_command :: "pystr \<Rightarrow> pystr option \<Rightarrow> pystr list" where
  "rg_command pattern glob_filter =
     [''rg'', ''--line-number'', ''--no-heading'', ''--ignore-case'', ''--max-count'', ''10'']
     @ concat (map (\<lambda>d. [''--glob'', ''!'' @ d @ ''/**'']) SEARCH_SKIP_DIRECTORIES)
     @ (case glob_filter of Some g \<Rightarrow> if g \<noteq> [] then [''--glob'', g] else [] | None \<Rightarrow> [])
     @ [''--regexp'', pattern, ''.'']"

text \<open>\<open>raw.split(":", 2)\<close> with its three parts, when there are three.\<close>

definition split_match :: "pystr \<Rightarrow> (pystr \<times> pystr \<times> pystr) option" where
  "split_match raw =
     (case split_char (CHR '':'') raw of
        p # n # rest \<Rightarrow> if rest = [] then None else Some (p, n, str_join '':'' rest)
      | _ \<Rightarrow> None)"

definition rg_path :: "pystr \<Rightarrow> pystr" where
  "rg_path p = dropWhile (\<lambda>c. c \<in> {CHR ''.'', CHR ''/''}) (map (\<lambda>c. if c = CHR 0x5C then CHR ''/'' else c) p)"

definition rg_match :: "pystr \<Rightarrow> code_match option" where
  "rg_match raw =
     (case split_match raw of
        None \<Rightarrow> None
      | Some (p, number, line) \<Rightarrow>
          map_option (\<lambda>n. \<lparr>mt_path = rg_path p, mt_line_number = n, mt_line = line\<rparr>) (py_int number))"

fun rg_matches :: "nat \<Rightarrow> pystr list \<Rightarrow> code_match list \<Rightarrow> code_match list" where
  "rg_matches limit [] matches = matches"
| "rg_matches limit (raw # raws) matches =
     (case rg_match raw of
        None \<Rightarrow> rg_matches limit raws matches
      | Some m \<Rightarrow>
          if length matches + 1 \<ge> limit then matches @ [m] else rg_matches limit raws (matches @ [m]))"

section \<open>Symbols and references\<close>

definition MAX_RESULTS :: nat where
  "MAX_RESULTS = 40"

definition file_symbols :: "fs \<Rightarrow> path \<Rightarrow> path \<Rightarrow> symbol list" where
  "file_symbols f base p =
     (case read_content f p of
        Inl _ \<Rightarrow> []
      | Inr content \<Rightarrow> parse_symbols (rel_str (drop (length base) p)) content)"

definition index_symbols :: "fs \<Rightarrow> path \<Rightarrow> symbol list" where
  "index_symbols f base = concat (map (file_symbols f base) (iter_source_files f base))"

definition quoted :: "pystr \<Rightarrow> pystr" where
  "quoted s = [CHR 0x27] @ s @ [CHR 0x27]"

definition sorted_files :: "pystr list \<Rightarrow> json" where
  "sorted_files ps = jstrs (sorted_list_of_set (set ps))"

definition find_symbol_in :: "fs \<Rightarrow> path \<Rightarrow> pystr \<Rightarrow> tool_result" where
  "find_symbol_in f base wanted =
     (let needle = str_strip wanted;
          hits = filter (\<lambda>s. str_lower (sy_name s) = str_lower needle) (index_symbols f base) in
      if hits = [] then
        let partial = take MAX_RESULTS
              (filter (\<lambda>s. contains_sub (str_lower needle) (str_lower (sy_name s))) (index_symbols f base)) in
        if partial = [] then tool_success (''no definition found for '' @ quoted wanted) []
        else tool_success (str_join [CHR 0x0A] (map (\<lambda>s. sy_file_path s @ '':'' @ show_nat (sy_start_line s)
               @ '': '' @ sy_kind s @ '' '' @ sy_name s @ '' (partial match)'') partial))
             [(''files'', sorted_files (map sy_file_path partial))]
      else tool_success (str_join [CHR 0x0A] (map (\<lambda>s. sy_file_path s @ '':'' @ show_nat (sy_start_line s)
             @ ''-'' @ show_nat (sy_end_line s) @ '': '' @ sy_kind s @ '' '' @ sy_name s) (take MAX_RESULTS hits)))
           [(''files'', sorted_files (map sy_file_path hits))])"

text \<open>\<open>str.isidentifier\<close>.\<close>

definition identifier_start :: "char \<Rightarrow> bool" where
  "identifier_start = in_ranges [(65, 90), (95, 95), (97, 122), (170, 170), (181, 181), (186, 186),
     (192, 214), (216, 246), (248, 255)]"

definition identifier_part :: "char \<Rightarrow> bool" where
  "identifier_part c \<longleftrightarrow> identifier_start c \<or> in_ranges [(48, 57), (183, 183)] c"

definition isidentifier :: "pystr \<Rightarrow> bool" where
  "isidentifier s = (case s of [] \<Rightarrow> False | c # cs \<Rightarrow> identifier_start c \<and> list_all identifier_part cs)"

definition reference_rx :: "pystr \<Rightarrow> rx" where
  "reference_rx needle = RSeqs [RBound, RLitI needle, RBound]"

definition find_references_in :: "fs \<Rightarrow> path \<Rightarrow> pystr \<Rightarrow> tool_result result" where
  "find_references_in f base wanted =
     (let needle = str_strip wanted in
      if \<not> isidentifier needle then Inr (tool_failure ''symbol must be a plain identifier'')
      else case search_python f base (Inr (re_matches (reference_rx needle))) None MAX_RESULTS of
        Inl e \<Rightarrow> Inl e
      | Inr matches \<Rightarrow>
          let definitions = map sy_file_path
                (filter (\<lambda>s. str_lower (sy_name s) = str_lower needle) (index_symbols f base));
              elsewhere = filter (\<lambda>m. mt_path m \<notin> set definitions) matches;
              references = (if elsewhere \<noteq> [] then elsewhere else matches) in
          Inr (if references = [] then tool_success (''no references to '' @ quoted wanted) []
               else tool_success (str_join [CHR 0x0A] (map render_match references))
                 [(''files'', sorted_files (map mt_path references)), (''count'', JInt (int (length references)))]))"

section \<open>Dependencies\<close>

definition CSHARP_USING :: rx where
  "CSHARP_USING = RSeqs [RStar True RSpace, RLit ''using'', RPlus RSpace, ROpt (RSeq (RLit ''static'') (RPlus RSpace)),
     RGroup 1 (RSeq (RRanges [(65, 90), (97, 122), (95, 95)]) (RStar True (RSet (\<lambda>c. is_word c \<or> c = CHR ''.'')))),
     RStar True RSpace, RLit '';'']"

definition CSHARP_TYPE_REF :: rx where
  "CSHARP_TYPE_REF = RSeqs [RBound, RGroup 1 (RSeqs [RRanges [(65, 90)],
     RRanges [(65, 90), (97, 122), (48, 57), (95, 95)],
     RPlus (RRanges [(65, 90), (97, 122), (48, 57), (95, 95)])]), RBound]"

definition PYTHON_IMPORT :: rx where
  "PYTHON_IMPORT = RSeqs [RStar True RSpace,
     RAlt (RSeqs [RLit ''from'', RPlus RSpace, RGroup 1 (RPlus (RSet (\<lambda>c. is_word c \<or> c = CHR ''.''))),
             RPlus RSpace, RLit ''import''])
          (RSeqs [RLit ''import'', RPlus RSpace, RGroup 2 (RPlus (RSet (\<lambda>c. is_word c \<or> c = CHR ''.'')))])]"

definition is_quote :: "char \<Rightarrow> bool" where
  "is_quote c \<longleftrightarrow> c = CHR 0x27 \<or> c = CHR 0x22"

definition TS_IMPORT :: rx where
  "TS_IMPORT = RSeqs [RStar True RSpace, RLit ''import'', RPlus RSpace, RStar False RDot, RLit ''from'', RPlus RSpace,
     RSet is_quote, RGroup 1 (RPlus (RSet (\<lambda>c. \<not> is_quote c))), RSet is_quote]"

definition outgoing_of_line :: "pystr \<Rightarrow> pystr \<Rightarrow> pystr list" where
  "outgoing_of_line language line =
     (if language = ''csharp'' then
        (case match_line CSHARP_USING line of None \<Rightarrow> [] | Some m \<Rightarrow> [named 1 m])
      else if language = ''python'' then
        (case match_line PYTHON_IMPORT line of None \<Rightarrow> []
         | Some m \<Rightarrow> [if named 1 m \<noteq> [] then named 1 m else named 2 m])
      else if language \<in> {''typescript'', ''javascript''} then
        (case match_line TS_IMPORT line of None \<Rightarrow> [] | Some m \<Rightarrow> [named 1 m])
      else [])"

definition outgoing :: "pystr \<Rightarrow> pystr \<Rightarrow> pystr list" where
  "outgoing content language =
     sorted_list_of_set (set (concat (map (outgoing_of_line language) (str_splitlines content))))"

definition referenced_types :: "pystr \<Rightarrow> pystr list" where
  "referenced_types content = map (\<lambda>(a, b). named 1 b) (re_finditer CSHARP_TYPE_REF content)"

definition declared_types :: "pystr \<Rightarrow> pystr \<Rightarrow> pystr list" where
  "declared_types p content =
     sorted_list_of_set (set (map sy_name (filter
       (\<lambda>s. sy_kind s \<in> {''class'', ''interface'', ''record'', ''struct'', ''enum''}) (parse_symbols p content))))"

definition depends_on :: "fs \<Rightarrow> pystr list \<Rightarrow> path \<Rightarrow> bool" where
  "depends_on f declared p =
     (case read_content f p of
        Inl _ \<Rightarrow> False
      | Inr other \<Rightarrow> \<exists>t \<in> set (referenced_types other). t \<in> set declared)"

definition dependents_of :: "fs \<Rightarrow> path \<Rightarrow> pystr list \<Rightarrow> pystr \<Rightarrow> pystr list" where
  "dependents_of f base declared self =
     (if declared = [] then []
      else map (\<lambda>p. rel_str (drop (length base) p))
        (filter (\<lambda>p. rel_str (drop (length base) p) \<noteq> self \<and> depends_on f declared p) (iter_source_files f base)))"

definition or_else :: "pystr list \<Rightarrow> pystr \<Rightarrow> pystr" where
  "or_else names otherwise = (case str_join '', '' names of [] \<Rightarrow> otherwise | s \<Rightarrow> s)"

section \<open>The tools\<close>

definition search_ripgrep :: "path \<Rightarrow> pystr \<Rightarrow> pystr option \<Rightarrow> nat \<Rightarrow> code_match list option io" where
  "search_ripgrep base pattern glob_filter limit =
     mbind (ask_result (\<lambda>a n. o_rg a n (rg_command pattern glob_filter) base)) (\<lambda>outcome.
     ret (case outcome of
            None \<Rightarrow> None
          | Some (returncode, stdout) \<Rightarrow>
              if returncode \<notin> {0, 1} then None else Some (rg_matches limit (str_splitlines stdout) [])))"

definition search_matches :: "path \<Rightarrow> pystr \<Rightarrow> pystr option \<Rightarrow> code_match list io" where
  "search_matches base pattern glob_filter =
     mbind (search_ripgrep base pattern glob_filter MAX_MATCHES) (\<lambda>found.
     case found of
       Some matches \<Rightarrow> ret matches
     | None \<Rightarrow>
         mbind (gets (\<lambda>w. search_python (w_fs w) base (o_compile (w_answers w) pattern) glob_filter MAX_MATCHES))
           lift_result)"

definition render_matches :: "pystr \<Rightarrow> code_match list \<Rightarrow> tool_result" where
  "render_matches pattern matches =
     (if matches = [] then tool_success (''no matches for /'' @ pattern @ ''/'') []
      else let files = sorted_list_of_set (set (map mt_path matches)) in
        tool_success (show_nat (length matches) @ '' match(es) in '' @ show_nat (length files) @ '' file(s):'' @ [CHR 0x0A]
            @ str_join [CHR 0x0A] (map render_match matches))
          [(''files'', jstrs files), (''match_count'', JInt (int (length matches)))])"

definition search_code :: "tool_context \<Rightarrow> dict \<Rightarrow> tool_result io" where
  "search_code tx args =
     mbind (lift_result (need_str args ''pattern'')) (\<lambda>pattern.
     mbind (lift_result (opt_str args ''glob'')) (\<lambda>glob_filter.
     catch (mbind (search_matches (tx_root tx) pattern glob_filter) (\<lambda>matches. ret (render_matches pattern matches)))
       (\<lambda>e. if error_class e = ''ValueError'' then ret (tool_failure (error_message e)) else raise e)))"

definition find_symbol :: "tool_context \<Rightarrow> dict \<Rightarrow> tool_result io" where
  "find_symbol tx args =
     mbind (lift_result (need_str args ''symbol'')) (\<lambda>wanted.
     gets (\<lambda>w. find_symbol_in (w_fs w) (tx_root tx) wanted))"

definition find_references :: "tool_context \<Rightarrow> dict \<Rightarrow> tool_result io" where
  "find_references tx args =
     mbind (lift_result (need_str args ''symbol'')) (\<lambda>wanted.
     mbind (gets (\<lambda>w. find_references_in (w_fs w) (tx_root tx) wanted)) lift_result)"

definition dependency_report :: "fs \<Rightarrow> path \<Rightarrow> pystr \<Rightarrow> pystr \<Rightarrow> pystr \<Rightarrow> tool_result" where
  "dependency_report f base p relative content =
     (let imports_found = outgoing content (language_of p);
          declared = declared_types p content;
          dependents = sort (dependents_of f base declared relative) in
      tool_success (str_join [CHR 0x0A] [''file: '' @ relative,
          ''declares: '' @ or_else declared ''(no types)'',
          ''imports: '' @ or_else imports_found ''(none)'',
          ''referenced by: '' @ or_else (take 25 dependents) ''(no other file)''])
        [(''files'', jstrs dependents), (''imports'', jstrs imports_found)])"

definition get_dependencies :: "tool_context \<Rightarrow> dict \<Rightarrow> tool_result io" where
  "get_dependencies tx args =
     mbind (lift_result (need_str args ''path'')) (\<lambda>p.
     resolve_or_fail tx p (\<lambda>target.
       mbind (gets (\<lambda>w. fs_is_file (w_fs w) target)) (\<lambda>is_file.
       if \<not> is_file then ret (tool_failure (''file not found: '' @ p))
       else mbind (read_text target) (\<lambda>content.
         mbind (gets (\<lambda>w. tx_relative (w_fs w) tx target)) (\<lambda>r. mbind (lift_result r) (\<lambda>relative.
         gets (\<lambda>w. dependency_report (w_fs w) (tx_root tx) p relative content)))))))"

section \<open>What a search finds\<close>

text \<open>The matching lines of a file, and of all files a search looks at, in order.\<close>

definition line_matches :: "(pystr \<Rightarrow> bool) \<Rightarrow> pystr \<Rightarrow> nat \<Rightarrow> pystr list \<Rightarrow> code_match list" where
  "line_matches found relative number ls =
     map (\<lambda>(n, line). \<lparr>mt_path = relative, mt_line_number = int n, mt_line = line\<rparr>)
       (filter (\<lambda>(n, line). found line) (enumerate number ls))"

definition file_matches :: "fs \<Rightarrow> path \<Rightarrow> (pystr \<Rightarrow> bool) \<Rightarrow> path \<Rightarrow> code_match list" where
  "file_matches f base found p =
     (case read_content f p of
        Inl _ \<Rightarrow> []
      | Inr content \<Rightarrow> line_matches found (rel_str (drop (length base) p)) 1 (str_splitlines content))"

definition all_matches :: "fs \<Rightarrow> path \<Rightarrow> (pystr \<Rightarrow> bool) \<Rightarrow> pystr option \<Rightarrow> code_match list" where
  "all_matches f base found pattern =
     concat (map (file_matches f base found)
       (filter (\<lambda>p. glob_selects pattern (drop (length base) p) = Inr True) (iter_source_files f base)))"

definition empty_glob :: "pystr option \<Rightarrow> bool" where
  "empty_glob pattern \<longleftrightarrow> (case pattern of None \<Rightarrow> False
     | Some g \<Rightarrow> g \<noteq> [] \<and> \<not> is_absolute g \<and> path_parts g = [])"

lemma glob_selects_cases:
  "glob_selects pattern parts = (if empty_glob pattern then Inl (OtherError ''ValueError'' ''empty pattern'')
     else Inr (glob_selects pattern parts = Inr True))"
  by (auto simp: glob_selects_def path_match_def empty_glob_def Let_def split: option.splits)

lemma search_lines_take:
  "length ms < max 1 limit \<Longrightarrow> search_lines found limit relative number ls ms =
     (max 1 limit \<le> length (ms @ line_matches found relative number ls),
      take (max 1 limit) (ms @ line_matches found relative number ls))"
proof (induction ls arbitrary: number ms)
  case (Cons l ls)
  show ?case
  proof (cases "found l \<and> length ms + 1 < limit")
    case True
    then show ?thesis
      using Cons.IH [of "ms @ [\<lparr>mt_path = relative, mt_line_number = int number, mt_line = l\<rparr>]" "Suc number"]
      by (simp add: line_matches_def Let_def max_def)
  next
    case False
    with Cons.prems Cons.IH [of ms "Suc number"] show ?thesis
      by (auto simp: line_matches_def Let_def max_def take_Cons' split: if_splits)
  qed
qed (auto simp: line_matches_def)

lemma search_files_take:
  assumes "\<not> empty_glob pattern"
  shows "length ms < max 1 limit \<Longrightarrow> search_files f base found pattern limit ps ms =
     Inr (take (max 1 limit) (ms @ concat (map (file_matches f base found)
       (filter (\<lambda>p. glob_selects pattern (drop (length base) p) = Inr True) ps))))"
proof (induction ps arbitrary: ms)
  case (Cons p ps)
  let ?parts = "drop (length base) p"
  show ?case
  proof (cases "glob_selects pattern ?parts = Inr True")
    case True
    show ?thesis
    proof (cases "read_content f p")
      case (Inl e)
      with True Cons show ?thesis by (simp add: file_matches_def)
    next
      case (Inr content)
      let ?all = "ms @ line_matches found (rel_str ?parts) 1 (str_splitlines content)"
      have s: "search_lines found limit (rel_str ?parts) 1 (str_splitlines content) ms
          = (max 1 limit \<le> length ?all, take (max 1 limit) ?all)"
        by (rule search_lines_take [OF Cons.prems])
      show ?thesis
      proof (cases "max 1 limit \<le> length ?all")
        case ge: True
        then have "take (max 1 limit) (?all @ rest) = take (max 1 limit) ?all" for rest by simp
        with True Inr ge s show ?thesis by (simp add: file_matches_def)
      next
        case less: False
        then have short: "length ?all < max 1 limit" by (simp only: not_le)
        then have "take (max 1 limit) ?all = ?all" by (rule take_all [OF less_imp_le])
        with s less have s': "search_lines found limit (rel_str ?parts) 1 (str_splitlines content) ms = (False, ?all)"
          by (simp only:)
        have "file_matches f base found p = line_matches found (rel_str ?parts) 1 (str_splitlines content)"
          using Inr by (simp add: file_matches_def)
        with True Inr s' Cons.IH [OF short] show ?thesis by (simp add: Let_def)
      qed
    qed
  next
    case False
    with assms have "glob_selects pattern ?parts = Inr False"
      using glob_selects_cases [of pattern ?parts] by simp
    with Cons show ?thesis by simp
  qed
qed simp

lemma search_files_empty_glob:
  "empty_glob pattern \<Longrightarrow> search_files f base found pattern limit ps ms =
     (if ps = [] then Inr ms else Inl (OtherError ''ValueError'' ''empty pattern''))"
proof (cases ps)
  case (Cons p qs)
  assume "empty_glob pattern"
  then have "glob_selects pattern (drop (length base) p) = Inl (OtherError ''ValueError'' ''empty pattern'')"
    using glob_selects_cases [of pattern] by simp
  with Cons show ?thesis by simp
qed simp

text \<open>
  C22: a search in Python returns exactly the first matching lines. With a pattern that compiles, it
  gives the first \<open>limit\<close> (at least one) of all matching lines of all source files the path filter
  selects, in the order of the files and of their lines, each with its number; it fails only with a
  \<open>ValueError\<close>, for a pattern that does not compile or for a path filter without components.
\<close>

theorem code_search_exact:
  "search_python f base compiled pattern limit =
     (case compiled of
        Inl exc \<Rightarrow> Inl (OtherError ''ValueError'' (''invalid regular expression: '' @ exc))
      | Inr found \<Rightarrow>
          if empty_glob pattern \<and> iter_source_files f base \<noteq> []
          then Inl (OtherError ''ValueError'' ''empty pattern'')
          else Inr (take (max 1 limit) (all_matches f base found pattern)))"
proof (cases "empty_glob pattern")
  case True
  then show ?thesis
    by (auto simp: search_python_def search_files_empty_glob all_matches_def split: sum.split)
next
  case False
  then show ?thesis
    by (auto simp: search_python_def search_files_take all_matches_def split: sum.split)
qed

text \<open>
  A finding: the directories to skip are looked for in the whole path, not below the root, so that a
  repository checked out below a directory with such a name has no source file for any search.
\<close>

lemma checkout_below_skipped_name:
  assumes "part \<in> set base" and "part \<in> set SEARCH_SKIP_DIRECTORIES"
  shows "iter_source_files f base = []"
  using assms
  by (auto simp: iter_source_files_def rglob_all_def is_source_file_def filter_empty_conv
      split: sum.splits option.splits fs_entry.splits)

text \<open>A reference is an occurrence of the name as a word of its own, in upper or lower case.\<close>

definition word_edge :: "pystr \<Rightarrow> pystr \<Rightarrow> bool" where
  "word_edge before_it after_it \<longleftrightarrow>
     (before_it \<noteq> [] \<and> is_word (last before_it)) \<noteq> (after_it \<noteq> [] \<and> is_word (hd after_it))"

lemma rmatch_RBound:
  "rmatch RBound \<lparr>behind = rev pre, ahead = post, groups = g\<rparr> =
     (if word_edge pre post then [\<lparr>behind = rev pre, ahead = post, groups = g\<rparr>] else [])"
  by (cases pre rule: rev_cases; cases post) (auto simp: word_edge_def word_before_def word_after_def)

lemma references_are_words:
  "re_matches (reference_rx needle) line \<longleftrightarrow>
     (\<exists>pre mid post. line = pre @ mid @ post \<and> str_lower mid = str_lower needle
        \<and> word_edge pre (mid @ post) \<and> word_edge (pre @ mid) post)" (is "?l \<longleftrightarrow> ?r")
proof -
  have m: "rmatch (reference_rx needle) \<lparr>behind = rev pre, ahead = rest, groups = []\<rparr> \<noteq> [] \<longleftrightarrow>
      (\<exists>mid post. rest = mid @ post \<and> str_lower mid = str_lower needle
        \<and> word_edge pre (mid @ post) \<and> word_edge (pre @ mid) post)" (is "?a \<longleftrightarrow> ?b") for pre rest
  proof
    assume ?a
    then show ?b
      using rmatch_RBound [of "pre @ take (length needle) rest" "drop (length needle) rest" "[]"]
      by (intro exI [of _ "take (length needle) rest"] exI [of _ "drop (length needle) rest"])
         (auto simp: reference_rx_def rmatch_RBound rmatch_RLitI simp del: rmatch.simps(7) split: if_splits)
  next
    assume ?b
    then obtain mid post where b: "rest = mid @ post" "str_lower mid = str_lower needle"
        "word_edge pre (mid @ post)" "word_edge (pre @ mid) post" by blast
    then have "length needle = length mid" by (metis length_map str_lower_def)
    with b rmatch_RBound [of "pre @ mid" post "[]"] show ?a
      by (simp add: reference_rx_def rmatch_RBound rmatch_RLitI del: rmatch.simps(7))
  qed
  show ?thesis unfolding re_matches_iff m by blast
qed

section \<open>Searching only reads\<close>

definition only_asks :: "world \<Rightarrow> world \<Rightarrow> bool" where
  "only_asks w w' \<longleftrightarrow> w_tick w \<le> w_tick w' \<and> w'\<lparr>w_tick := 0\<rparr> = w\<lparr>w_tick := 0\<rparr>"

interpretation asks: effect_order only_asks
  by unfold_locales (auto simp: only_asks_def)

lemma asks_ask_result: "stays only_asks (ask_result q)"
proof -
  have "stays only_asks (ask q)" by (simp add: stays_def ask_def only_asks_def)
  then show ?thesis unfolding ask_result_def by (intro asks.stays_rules)
qed

lemma search_tools_read_only:
  "stays only_asks (search_code tx args)" "stays only_asks (find_symbol tx args)"
  "stays only_asks (find_references tx args)" "stays only_asks (get_dependencies tx args)"
  unfolding search_code_def search_matches_def search_ripgrep_def find_symbol_def find_references_def
    get_dependencies_def resolve_or_fail_def read_text_def
  by (auto intro!: asks.stays_rules asks_ask_result split: option.split sum.split py_error.split)

lemma evo_search_tools [evo_intros]:
  "stays (evolves tid) (search_code tx args)" "stays (evolves tid) (find_symbol tx args)"
  "stays (evolves tid) (find_references tx args)" "stays (evolves tid) (get_dependencies tx args)"
proof -
  have "evolves tid w w'" if "only_asks w w'" for w w'
    using that by (cases w; cases w') (auto simp: only_asks_def evolves_def)
  then show "stays (evolves tid) (search_code tx args)" "stays (evolves tid) (find_symbol tx args)"
    "stays (evolves tid) (find_references tx args)" "stays (evolves tid) (get_dependencies tx args)"
    using search_tools_read_only by (blast intro: stays_mono)+
qed

end
