(* ===== verification/Registry.thy ===== *)
theory Registry
  imports Testing Search_Tools
begin

text \<open>
  The tool registry and the allowlist of each agent (\<open>tools/registry.py\<close>). A tool is a record with
  its name, whether it changes files, its description and input schema, and its \<open>run\<close>.
\<close>

record tool =
  tl_name :: pystr
  tl_mutating :: bool
  tl_description :: pystr
  tl_schema :: json
  tl_run :: "tool_context \<Rightarrow> dict \<Rightarrow> tool_result io"

section \<open>Input schemas\<close>

definition prop_schema :: "pystr \<times> pystr \<times> pystr \<Rightarrow> pystr \<times> json" where
  "prop_schema p = (case p of (name, kind, description) \<Rightarrow>
     (name, JObj [(''type'', JStr kind), (''description'', JStr description)]))"

text \<open>An object schema: its properties with type and description, the required ones, nothing else
  allowed.\<close>

definition object_schema :: "(pystr \<times> pystr \<times> pystr) list \<Rightarrow> pystr list \<Rightarrow> json" where
  "object_schema props required =
     JObj ([(''type'', JStr ''object''), (''properties'', JObj (map prop_schema props))] @
       (if required = [] then [] else [(''required'', jstrs required)]) @
       [(''additionalProperties'', JBool False)])"

section \<open>The tools\<close>

definition ReadFileTool :: tool where
  "ReadFileTool = \<lparr>tl_name = ''read_file'', tl_mutating = False,
     tl_description = ''Read a UTF-8 text file from the task workspace. Paths are relative to the '' @
       ''repository root. Returns the file with 1-based line numbers.'',
     tl_schema = object_schema [(''path'', ''string'', ''Repository-relative file path.''),
       (''start_line'', ''integer'', ''First line to return (1-based).''),
       (''end_line'', ''integer'', ''Last line to return, inclusive.'')] [''path''],
     tl_run = read_file\<rparr>"

definition ListDirectoryTool :: tool where
  "ListDirectoryTool = \<lparr>tl_name = ''list_directory'', tl_mutating = False,
     tl_description = ''List files and folders under a repository-relative directory. Build output and '' @
       ''VCS internals are omitted.'',
     tl_schema = object_schema [(''path'', ''string'', ''Repository-relative directory, '' @ [CHR 0x27] @ ''.'' @ [CHR 0x27] @ '' for root.''),
       (''recursive'', ''boolean'', ''Walk subdirectories.'')] [''path''],
     tl_run = list_directory\<rparr>"

definition ApplyPatchTool :: tool where
  "ApplyPatchTool = \<lparr>tl_name = ''apply_patch'', tl_mutating = True,
     tl_description = ''Replace an exact block of text in a file. old_text must appear exactly once in '' @
       ''the file, including indentation. Use create_file for new files.'',
     tl_schema = object_schema [(''path'', ''string'', ''Repository-relative file path.''),
       (''old_text'', ''string'', ''Exact existing text to replace, including indentation.''),
       (''new_text'', ''string'', ''Replacement text.'')] [''path'', ''old_text'', ''new_text''],
     tl_run = apply_patch\<rparr>"

definition CreateFileTool :: tool where
  "CreateFileTool = \<lparr>tl_name = ''create_file'', tl_mutating = True,
     tl_description = ''Create a new file with the given content. Fails if the file already exists - use '' @
       ''apply_patch to modify an existing file.'',
     tl_schema = object_schema [(''path'', ''string'', ''Repository-relative file path.''),
       (''content'', ''string'', ''Full file content.'')] [''path'', ''content''],
     tl_run = create_file\<rparr>"

definition SearchCodeTool :: tool where
  "SearchCodeTool = \<lparr>tl_name = ''search_code'', tl_mutating = False,
     tl_description = ''Search the repository for a regular expression. Returns path:line matches. This '' @
       ''is the fastest way to locate relevant code - start here.'',
     tl_schema = object_schema [(''pattern'', ''string'', ''Regular expression, case-insensitive.''),
       (''glob'', ''string'', ''Optional path filter, e.g. '' @ [CHR 0x27] @ ''**/*.cs'' @ [CHR 0x27] @ ''.'')] [''pattern''],
     tl_run = search_code\<rparr>"

definition FindSymbolTool :: tool where
  "FindSymbolTool = \<lparr>tl_name = ''find_symbol'', tl_mutating = False,
     tl_description = ''Find where a class, interface, record, method or function is DEFINED. Use this '' @
       ''after search_code to jump straight to a definition.'',
     tl_schema = object_schema [(''symbol'', ''string'', ''Symbol name, e.g. '' @ [CHR 0x27] @ ''OrderService'' @ [CHR 0x27] @ ''.'')] [''symbol''],
     tl_run = find_symbol\<rparr>"

definition FindReferencesTool :: tool where
  "FindReferencesTool = \<lparr>tl_name = ''find_references'', tl_mutating = False,
     tl_description = ''Find call sites and other references to a symbol across the repository.'',
     tl_schema = object_schema [(''symbol'', ''string'', ''Symbol name to look for.'')] [''symbol''],
     tl_run = find_references\<rparr>"

definition GetDependenciesTool :: tool where
  "GetDependenciesTool = \<lparr>tl_name = ''get_dependencies'', tl_mutating = False,
     tl_description = ''Show what a file imports and which other files reference the types it declares. '' @
       ''Use it to understand the blast radius of a change before editing.'',
     tl_schema = object_schema [(''path'', ''string'', ''Repository-relative file path.'')] [''path''],
     tl_run = get_dependencies\<rparr>"

definition GitDiffTool :: tool where
  "GitDiffTool = \<lparr>tl_name = ''git_diff'', tl_mutating = False,
     tl_description = ''Show the unified diff of all changes made in this task'' @ [CHR 0x27] @ ''s workspace.'',
     tl_schema = object_schema [] [],
     tl_run = git_diff_tool\<rparr>"

definition GitStatusTool :: tool where
  "GitStatusTool = \<lparr>tl_name = ''git_status'', tl_mutating = False,
     tl_description = ''List files changed in this task'' @ [CHR 0x27] @ ''s workspace, without the diff body.'',
     tl_schema = object_schema [] [],
     tl_run = git_status_tool\<rparr>"

definition BuildTool :: tool where
  "BuildTool = \<lparr>tl_name = ''run_build'', tl_mutating = False,
     tl_description = ''Compile the project in the task workspace (dotnet build).'',
     tl_schema = object_schema [] [],
     tl_run = run_build_tool\<rparr>"

definition RunTestsTool :: tool where
  "RunTestsTool = \<lparr>tl_name = ''run_tests'', tl_mutating = False,
     tl_description = ''Run the project'' @ [CHR 0x27] @ ''s automated tests (dotnet test). Returns pass/fail counts and '' @
       ''the failing test names with their exception messages.'',
     tl_schema = object_schema [(''filter'', ''string'', ''Optional dotnet test --filter expression to narrow the run.'')] [],
     tl_run = run_tests_tool\<rparr>"

definition TOOLS :: "tool list" where
  "TOOLS = [ReadFileTool, ListDirectoryTool, ApplyPatchTool, CreateFileTool, SearchCodeTool, FindSymbolTool,
     FindReferencesTool, GetDependenciesTool, GitDiffTool, GitStatusTool, BuildTool, RunTestsTool]"

definition tool_spec_of :: "tool \<Rightarrow> tool_spec" where
  "tool_spec_of t = \<lparr>sp_name = tl_name t, sp_description = tl_description t, sp_input_schema = tl_schema t\<rparr>"

section \<open>Who may call what\<close>

definition AGENT_TOOL_ALLOWLIST :: "(pystr \<times> pystr list) list" where
  "AGENT_TOOL_ALLOWLIST = [
     (''planner'', []),
     (''repository'', [''search_code'', ''read_file'', ''list_directory'', ''find_symbol'',
        ''find_references'', ''get_dependencies'']),
     (''implementation'', [''read_file'', ''search_code'', ''find_symbol'', ''list_directory'',
        ''apply_patch'', ''create_file'', ''git_diff'']),
     (''testing'', [''read_file'', ''search_code'', ''find_symbol'', ''list_directory'',
        ''apply_patch'', ''create_file'', ''run_build'']),
     (''debugging'', [''read_file'', ''search_code'', ''find_symbol'', ''find_references'',
        ''apply_patch'', ''create_file'', ''git_diff'']),
     (''ci'', [''read_file'', ''search_code'', ''apply_patch'', ''git_diff'']),
     (''risk'', [''read_file'', ''git_diff'', ''list_directory''])]"

definition tool_find :: "pystr \<Rightarrow> tool option" where
  "tool_find name = find (\<lambda>t. tl_name t = name) TOOLS"

definition tool_get :: "pystr \<Rightarrow> tool result" where
  "tool_get name = (case tool_find name of
       None \<Rightarrow> Inl (ToolValidationError (''unknown tool: '' @ name))
     | Some t \<Rightarrow> Inr t)"

definition tool_names :: "pystr list" where
  "tool_names = sort (map tl_name TOOLS)"

definition tools_for_agent :: "pystr \<Rightarrow> tool list result" where
  "tools_for_agent agent = (case map_of AGENT_TOOL_ALLOWLIST agent of
       None \<Rightarrow> Inl (ToolValidationError (''no tool allowlist defined for agent: '' @ agent))
     | Some allowed \<Rightarrow> Inr (List.map_filter tool_find allowed))"

definition specs_for_agent :: "pystr \<Rightarrow> tool_spec list result" where
  "specs_for_agent agent = (case tools_for_agent agent of
       Inl e \<Rightarrow> Inl e
     | Inr ts \<Rightarrow> Inr (map tool_spec_of ts))"

definition is_allowed :: "pystr \<Rightarrow> pystr \<Rightarrow> bool" where
  "is_allowed agent name \<longleftrightarrow> name \<in> set (get_default [] (map_of AGENT_TOOL_ALLOWLIST agent))"

section \<open>Facts about the registry\<close>

lemma tool_find_name: "tool_find name = Some t \<Longrightarrow> tl_name t = name \<and> t \<in> set TOOLS"
  unfolding tool_find_def by (simp add: find_Some_iff) (metis nth_mem)

lemma tool_attributes [simp]:
  "tl_name ReadFileTool = ''read_file''" "tl_mutating ReadFileTool = False" "tl_run ReadFileTool = read_file"
  "tl_name ListDirectoryTool = ''list_directory''" "tl_mutating ListDirectoryTool = False" "tl_run ListDirectoryTool = list_directory"
  "tl_name ApplyPatchTool = ''apply_patch''" "tl_mutating ApplyPatchTool = True" "tl_run ApplyPatchTool = apply_patch"
  "tl_name CreateFileTool = ''create_file''" "tl_mutating CreateFileTool = True" "tl_run CreateFileTool = create_file"
  "tl_name SearchCodeTool = ''search_code''" "tl_mutating SearchCodeTool = False" "tl_run SearchCodeTool = search_code"
  "tl_name FindSymbolTool = ''find_symbol''" "tl_mutating FindSymbolTool = False" "tl_run FindSymbolTool = find_symbol"
  "tl_name FindReferencesTool = ''find_references''" "tl_mutating FindReferencesTool = False" "tl_run FindReferencesTool = find_references"
  "tl_name GetDependenciesTool = ''get_dependencies''" "tl_mutating GetDependenciesTool = False" "tl_run GetDependenciesTool = get_dependencies"
  "tl_name GitDiffTool = ''git_diff''" "tl_mutating GitDiffTool = False" "tl_run GitDiffTool = git_diff_tool"
  "tl_name GitStatusTool = ''git_status''" "tl_mutating GitStatusTool = False" "tl_run GitStatusTool = git_status_tool"
  "tl_name BuildTool = ''run_build''" "tl_mutating BuildTool = False" "tl_run BuildTool = run_build_tool"
  "tl_name RunTestsTool = ''run_tests''" "tl_mutating RunTestsTool = False" "tl_run RunTestsTool = run_tests_tool"
  by (simp_all only: ReadFileTool_def ListDirectoryTool_def ApplyPatchTool_def CreateFileTool_def SearchCodeTool_def FindSymbolTool_def FindReferencesTool_def GetDependenciesTool_def GitDiffTool_def GitStatusTool_def BuildTool_def RunTestsTool_def tool.simps)

text \<open>Only two tools change files.\<close>

lemma mutating_tools: "t \<in> set TOOLS \<Longrightarrow> tl_mutating t \<longleftrightarrow> tl_name t \<in> {''apply_patch'', ''create_file''}"
  by (auto simp: TOOLS_def)

lemma evo_test_tools [evo_intros]:
  "stays (evolves tid) (run_dotnet_test r fl)" "stays (evolves tid) (run_dotnet_build r)"
  "stays (evolves tid) (run_build_tool tx args)" "stays (evolves tid) (run_tests_tool tx args)"
  unfolding run_dotnet_test_def run_dotnet_build_def run_build_tool_def run_tests_tool_def Let_def
  by (intro evo_intros)+

lemma evo_tools: "t \<in> set TOOLS \<Longrightarrow> stays (evolves tid) (tl_run t tx args)"
  by (auto simp: TOOLS_def intro: evo_intros)

lemma allowlist_tools_exist:
  "list_all (\<lambda>(agent, names). map tl_name (List.map_filter tool_find names) = names) AGENT_TOOL_ALLOWLIST"
  by (simp add: AGENT_TOOL_ALLOWLIST_def tool_find_def TOOLS_def List.map_filter_def)

lemma specs_names:
  assumes "map_of AGENT_TOOL_ALLOWLIST agent = Some names"
  shows "\<exists>specs. specs_for_agent agent = Inr specs \<and> map sp_name specs = names"
proof -
  have "map tl_name (List.map_filter tool_find names) = names"
    using allowlist_tools_exist map_of_SomeD [OF assms] by (auto simp: list_all_iff)
  then show ?thesis
    using assms by (auto simp: specs_for_agent_def tools_for_agent_def tool_spec_of_def o_def)
qed

text \<open>
  least privilege. An agent is offered exactly the tools it may call, and an agent without an
  allowlist may call nothing. The planner has no tool at all; the agents that can change files are
  the implementation, testing, debugging and CI agents, all others are read-only; no agent can run
  the test suite itself.
\<close>

theorem allowlists_least_privilege:
  "(case specs_for_agent agent of
      Inr specs \<Rightarrow> is_allowed agent name \<longleftrightarrow> name \<in> set (map sp_name specs)
    | Inl e \<Rightarrow> \<not> is_allowed agent name)
   \<and> \<not> is_allowed ''planner'' name
   \<and> map fst (filter (\<lambda>(a, names). \<exists>t \<in> set TOOLS. tl_mutating t \<and> tl_name t \<in> set names)
       AGENT_TOOL_ALLOWLIST) = [''implementation'', ''testing'', ''debugging'', ''ci'']
   \<and> \<not> is_allowed agent ''run_tests''"
proof (intro conjI)
  show "case specs_for_agent agent of
      Inr specs \<Rightarrow> is_allowed agent name \<longleftrightarrow> name \<in> set (map sp_name specs)
    | Inl e \<Rightarrow> \<not> is_allowed agent name"
  proof (cases "map_of AGENT_TOOL_ALLOWLIST agent")
    case None
    then show ?thesis by (simp add: specs_for_agent_def tools_for_agent_def is_allowed_def)
  next
    case (Some names)
    with specs_names [OF Some] show ?thesis by (auto simp: is_allowed_def)
  qed
  show "\<not> is_allowed ''planner'' name"
    by (simp add: is_allowed_def AGENT_TOOL_ALLOWLIST_def)
  show "map fst (filter (\<lambda>(a, names). \<exists>t \<in> set TOOLS. tl_mutating t \<and> tl_name t \<in> set names)
       AGENT_TOOL_ALLOWLIST) = [''implementation'', ''testing'', ''debugging'', ''ci'']"
    by (simp add: AGENT_TOOL_ALLOWLIST_def TOOLS_def)
  have "list_all (\<lambda>(a, names). ''run_tests'' \<notin> set names) AGENT_TOOL_ALLOWLIST"
    by (simp add: AGENT_TOOL_ALLOWLIST_def)
  then show "\<not> is_allowed agent ''run_tests''"
    by (cases "map_of AGENT_TOOL_ALLOWLIST agent")
       (auto simp: is_allowed_def list_all_iff dest!: map_of_SomeD)
qed

end
