(* ===== verification/Agent_Base.thy ===== *)
theory Agent_Base
  imports Context Registry
begin

text \<open>
  The base agent (\<open>agents/base.py\<close>): the bounded tool-calling loop, the three gates every tool call
  passes (allowlist, policy, workspace boundary), the audit row written for it, and the extraction
  of the JSON answer. The model is a tape of responses; a request is logged before it is answered.
\<close>

record agent =
  ag_name :: pystr
  ag_output_schema :: "json option"
  ag_max_tool_turns :: nat

definition MAX_TOOL_TURNS :: nat where
  "MAX_TOOL_TURNS = 12"

record agent_outcome =
  ao_text :: pystr
  ao_parsed :: "dict option"
  ao_usage :: usage
  ao_tool_calls :: "pystr list"
  ao_files_touched :: "dict list"
  ao_turns :: nat
  ao_stopped_reason :: pystr

definition new_outcome :: agent_outcome where
  "new_outcome = \<lparr>ao_text = [], ao_parsed = None, ao_usage = no_usage, ao_tool_calls = [],
     ao_files_touched = [], ao_turns = 0, ao_stopped_reason = ''end_turn''\<rparr>"

section \<open>Prompts\<close>

text \<open>The agents give no variables, so that every replacement field of a template is an error.\<close>

definition prompt_error :: "agent \<Rightarrow> py_error \<Rightarrow> py_error" where
  "prompt_error ag e =
     (if error_class e = ''KeyError''
      then ToolValidationError (''prompt '' @ [CHR 0x27] @ ag_name ag @ [CHR 0x27] @ '' references unknown variable '' @ error_message e)
      else e)"

definition system_prompt :: "ctx \<Rightarrow> agent \<Rightarrow> pystr io" where
  "system_prompt cx ag =
     mbind (load_prompt cx (ag_name ag)) (\<lambda>template.
     case format_plain template of
       Inl e \<Rightarrow> raise (prompt_error ag e)
     | Inr body \<Rightarrow> ret (''[agent:'' @ ag_name ag @ '']'' @ [CHR 0x0A] @ body))"

definition generate :: "llm_request \<Rightarrow> llm_response io" where
  "generate rq =
     mbind (modify (\<lambda>w. w\<lparr>w_requests := w_requests w @ [rq]\<rparr>)) (\<lambda>_. ask_result o_llm)"

section \<open>One tool call\<close>

definition preview_value :: "json \<Rightarrow> json" where
  "preview_value v = (case v of
       JStr s \<Rightarrow> if length s > 500
         then JStr (take 500 s @ ''...['' @ show_nat (length s - 500) @ '' more chars]'') else v
     | _ \<Rightarrow> v)"

definition preview_arguments :: "dict \<Rightarrow> dict" where
  "preview_arguments args = map (\<lambda>(k, v). (k, preview_value v)) args"

definition audit :: "ctx \<Rightarrow> pystr \<Rightarrow> dict \<Rightarrow> tool_result \<Rightarrow> int \<Rightarrow> unit io" where
  "audit cx name args result started =
     mbind (ask o_time) (\<lambda>ended.
     let duration = to_ms (ended - started); shown = take 2000 (tr_content result) in
     mbind (record_tool_call cx name (preview_arguments args) (tr_ok result) (Some shown)
       (if tr_ok result then None else Some shown) (tr_exit_code result) (Some duration)) (\<lambda>_.
     emit cx (if tr_ok result then Ev_TOOL_COMPLETED else Ev_TOOL_FAILED)
       [(''tool'', JStr name), (''ok'', JBool (tr_ok result)), (''duration_ms'', JInt duration)]))"

definition tool_error_result :: "pystr \<Rightarrow> py_error \<Rightarrow> tool_result" where
  "tool_error_result name e = (case e of
       WorkspaceViolationError m \<Rightarrow> tool_failure (''workspace violation: '' @ m)
     | _ \<Rightarrow> if error_class e = ''TypeError''
         then tool_failure (''invalid arguments for '' @ name @ '': '' @ error_message e)
         else tool_failure (error_class e @ '': '' @ error_message e))"

definition data_path :: "tool_result \<Rightarrow> json" where
  "data_path r = get_default JNull (dict_get (tr_data r) ''path'')"

definition data_int :: "tool_result \<Rightarrow> pystr \<Rightarrow> int" where
  "data_int r k = (case dict_get (tr_data r) k of Some (JInt i) \<Rightarrow> i | _ \<Rightarrow> 0)"

definition policy_gate :: "ctx \<Rightarrow> tool \<Rightarrow> pystr \<Rightarrow> dict \<Rightarrow> int \<Rightarrow> unit io" where
  "policy_gate cx tool name args started =
     (let p = py_str (get_default (JStr []) (dict_get args ''path''));
          decision = check_path_writable (cx_policy cx) p;
          message = ''policy blocked write to '' @ p @ '': '' @ decision_summary decision
      in unless (\<not> (tl_mutating tool \<and> blocked decision))
         (mbind (emit cx Ev_POLICY_BLOCKED [(''tool'', JStr name), (''path'', JStr p),
            (''reasons'', jstrs (reasons decision))]) (\<lambda>_.
          mbind (audit cx name args (tool_failure message) started) (\<lambda>_.
          raise (PolicyViolationError message)))))"

definition record_change :: "ctx \<Rightarrow> tool_context \<Rightarrow> tool \<Rightarrow> tool_result \<Rightarrow> unit io" where
  "record_change cx tx tool result =
     unless (\<not> (tr_ok result \<and> tl_mutating tool \<and> py_bool (data_path result)))
       (mbind (record_file_change cx (py_str (data_path result))
          (str_field (tr_data result) ''change_type'' ''MODIFIED'') (tx_iteration tx)
          (data_int result ''lines_added'') (data_int result ''lines_removed'')) (\<lambda>_.
        emit cx Ev_FILE_CHANGED [(''path'', data_path result)]))"

definition refuse :: "ctx \<Rightarrow> pystr \<Rightarrow> dict \<Rightarrow> pystr \<Rightarrow> int \<Rightarrow> tool_result io" where
  "refuse cx name args message started =
     mbind (audit cx name args (tool_failure message) started) (\<lambda>_. ret (tool_failure message))"

definition execute_tool ::
  "ctx \<Rightarrow> agent \<Rightarrow> tool_context \<Rightarrow> pystr \<Rightarrow> dict \<Rightarrow> tool_result io" where
  "execute_tool cx ag tx name args =
     mbind (ask o_time) (\<lambda>started.
     if \<not> is_allowed (ag_name ag) name
     then refuse cx name args
            (''tool '' @ [CHR 0x27] @ name @ [CHR 0x27] @ '' is not available to the '' @ ag_name ag
              @ '' agent'') started
     else case tool_get name of
       Inl e \<Rightarrow> refuse cx name args (error_message e) started
     | Inr tool \<Rightarrow>
         mbind (policy_gate cx tool name args started) (\<lambda>_.
         mbind (emit cx Ev_TOOL_CALLED [(''tool'', JStr name),
           (''arguments'', JObj (preview_arguments args))]) (\<lambda>_.
         mbind (catch (tl_run tool tx args) (\<lambda>e. ret (tool_error_result name e))) (\<lambda>result.
         mbind (audit cx name args result started) (\<lambda>_.
         mbind (record_change cx tx tool result) (\<lambda>_. ret result))))))"

section \<open>The loop\<close>

text \<open>All the tool calls of one response, in order; the blocks for the answer are accumulated.\<close>

fun run_invocations :: "ctx \<Rightarrow> agent \<Rightarrow> tool_context \<Rightarrow> tool_invocation list \<Rightarrow> agent_outcome
    \<Rightarrow> json list \<Rightarrow> (agent_outcome \<times> json list) io" where
  "run_invocations cx ag tx [] oc blocks = ret (oc, blocks)"
| "run_invocations cx ag tx (iv # ivs) oc blocks =
     mbind (execute_tool cx ag tx (iv_name iv) (iv_arguments iv)) (\<lambda>result.
     run_invocations cx ag tx ivs
       (oc\<lparr>ao_tool_calls := ao_tool_calls oc @ [iv_name iv],
           ao_files_touched := ao_files_touched oc @
             (if py_bool (data_path result) then [tr_data result] else [])\<rparr>)
       (blocks @ [tool_result_block (iv_id iv) (tr_content result) (\<not> tr_ok result)]))"

definition absorb_response :: "llm_response \<Rightarrow> nat \<Rightarrow> agent_outcome \<Rightarrow> agent_outcome" where
  "absorb_response r turn oc = oc\<lparr>
     ao_turns := turn,
     ao_usage := usage_merge (ao_usage oc) (rs_usage r),
     ao_text := (if rs_text r \<noteq> [] then rs_text r else ao_text oc),
     ao_parsed := (case rs_parsed r of None \<Rightarrow> ao_parsed oc | Some d \<Rightarrow> Some d)\<rparr>"

fun agent_loop :: "ctx \<Rightarrow> agent \<Rightarrow> tool_context \<Rightarrow> pystr \<Rightarrow> tool_spec list \<Rightarrow> nat \<Rightarrow> nat \<Rightarrow> json list
    \<Rightarrow> agent_outcome \<Rightarrow> agent_outcome io" where
  "agent_loop cx ag tx system specs 0 turn messages oc =
     ret (oc\<lparr>ao_stopped_reason := ''max_tool_turns''\<rparr>)"
| "agent_loop cx ag tx system specs (Suc n) turn messages oc =
     mbind (generate \<lparr>rq_system = system, rq_messages = messages, rq_tools = specs,
       rq_json_schema = ag_output_schema ag\<rparr>) (\<lambda>r.
     let oc1 = absorb_response r turn oc in
     if \<not> wants_tools r then ret (oc1\<lparr>ao_stopped_reason := rs_stop_reason r\<rparr>)
     else mbind (run_invocations cx ag tx (rs_tool_calls r) oc1 []) (\<lambda>(oc2, blocks).
       agent_loop cx ag tx system specs n (Suc turn)
         (messages @ [JObj [(''role'', JStr ''assistant''), (''content'', rs_assistant_content r)],
                      tool_result_message blocks]) oc2))"

definition agent_run_loop ::
  "ctx \<Rightarrow> agent \<Rightarrow> tool_context \<Rightarrow> pystr \<Rightarrow> pystr \<Rightarrow> bool \<Rightarrow> agent_outcome io" where
  "agent_run_loop cx ag tx system user_message use_tools =
     mbind (if use_tools then lift_result (specs_for_agent (ag_name ag)) else ret []) (\<lambda>specs.
     agent_loop cx ag tx system specs (ag_max_tool_turns ag) 1
       [text_message ''user'' user_message] new_outcome)"

section \<open>Structured answers\<close>

function str_split :: "pystr \<Rightarrow> pystr \<Rightarrow> pystr list" where
  "str_split sep s =
     (if sep = [] then [s] else case find_sub sep s of
        None \<Rightarrow> [s]
      | Some i \<Rightarrow> take i s # str_split sep (drop (i + length sep) s))"
  by pat_completeness auto
termination
proof (relation "measure (\<lambda>(sep, s). length s)")
  fix sep s :: pystr and i
  assume sep: "sep \<noteq> []" and i: "find_sub sep s = Some i"
  from find_sub_split [OF i] sep have "s \<noteq> []" by (metis append_is_Nil_conv)
  with sep show "((sep, drop (i + length sep) s), sep, s) \<in> measure (\<lambda>(sep, s). length s)"
    by simp
qed simp

declare str_split.simps [simp del]

definition json_candidate :: "pystr \<Rightarrow> pystr option" where
  "json_candidate text =
     (let stripped = str_strip text;
          cleaned = str_strip (if starts_with ''json'' stripped then drop 4 stripped else stripped)
      in case find_sub [CHR 0x7B] cleaned of
        None \<Rightarrow> None
      | Some start \<Rightarrow> (case find_sub [CHR 0x7D] (rev cleaned) of
          None \<Rightarrow> None
        | Some k \<Rightarrow> let stop = length cleaned - 1 - k in
            if stop \<le> start then None else Some (take (stop + 1 - start) (drop start cleaned))))"

fun first_object :: "(pystr \<Rightarrow> pystr) \<Rightarrow> pystr list \<Rightarrow> dict" where
  "first_object fr [] = []"
| "first_object fr (c # cs) =
     (case json_candidate c of
        None \<Rightarrow> first_object fr cs
      | Some text \<Rightarrow> (case loads fr text of
          Some (JObj d) \<Rightarrow> d
        | _ \<Rightarrow> first_object fr cs))"

definition parse_json_payload :: "(pystr \<Rightarrow> pystr) \<Rightarrow> agent_outcome \<Rightarrow> dict" where
  "parse_json_payload fr oc =
     (case ao_parsed oc of
        Some d \<Rightarrow> d
      | None \<Rightarrow> let text = str_strip (ao_text oc) in
          if text = [] then [] else first_object fr (text # str_split [CHR 0x60, CHR 0x60, CHR 0x60] text))"

section \<open>Answers read back\<close>

lemma find_sub_char: "c \<notin> set b \<Longrightarrow> find_sub [c] (b @ c # r) = Some (length b)"
  by (induction b) (auto simp: starts_with_def)

lemma strip_around:
  assumes "\<not> is_space x" and "\<not> is_space y"
  obtains b' a' where "set b' \<subseteq> set b" "set a' \<subseteq> set a" "str_strip (b @ x # m @ y # a) = b' @ x # m @ y # a'"
proof
  have l: "str_lstrip (b @ x # m @ y # a) = dropWhile is_space b @ x # m @ y # a"
    using assms(1) by (simp add: str_lstrip_def dropWhile_append3)
  have "rev (dropWhile is_space b @ x # m @ y # a) = rev a @ y # rev (dropWhile is_space b @ x # m)" by simp
  then show "str_strip (b @ x # m @ y # a) = dropWhile is_space b @ x # m @ y # rev (dropWhile is_space (rev a))"
    unfolding str_strip_def l str_rstrip_def using assms(2) by (simp add: dropWhile_append3)
  show "set (dropWhile is_space b) \<subseteq> set b" "set (rev (dropWhile is_space (rev a))) \<subseteq> set a"
    by (auto dest: set_dropWhileD)
qed

lemma braces_not_space: "\<not> is_space (CHR 0x7B)" "\<not> is_space (CHR 0x7D)"
  by (simp_all add: is_space_def in_ranges_def)

lemma json_candidate_braces:
  assumes "CHR 0x7B \<notin> set b" and "CHR 0x7D \<notin> set a"
  shows "json_candidate (b @ CHR 0x7B # m @ CHR 0x7D # a) = Some (CHR 0x7B # m @ [CHR 0x7D])"
proof -
  obtain b1 a1 where 1: "set b1 \<subseteq> set b" "set a1 \<subseteq> set a"
    "str_strip (b @ CHR 0x7B # m @ CHR 0x7D # a) = b1 @ CHR 0x7B # m @ CHR 0x7D # a1"
    by (rule strip_around [OF braces_not_space])
  let ?t = "b1 @ CHR 0x7B # m @ CHR 0x7D # a1"
  have "\<exists>b2. set b2 \<subseteq> set b1 \<and> (if starts_with ''json'' ?t then drop 4 ?t else ?t) = b2 @ CHR 0x7B # m @ CHR 0x7D # a1"
  proof (cases "starts_with ''json'' ?t")
    case True
    then have t: "take 4 ?t = ''json''" by (simp add: starts_with_def numeral_eq_Suc)
    have "4 \<le> length b1"
    proof (rule ccontr)
      assume "\<not> 4 \<le> length b1"
      then have "\<exists>k. 4 - length b1 = Suc k" by presburger
      then have "CHR 0x7B \<in> set (take 4 ?t)" by auto
      then show False unfolding t by simp
    qed
    then have "drop 4 ?t = drop 4 b1 @ CHR 0x7B # m @ CHR 0x7D # a1" by simp
    with True set_drop_subset [of 4 b1] show ?thesis by auto
  qed auto
  then obtain b2 where b2: "set b2 \<subseteq> set b1"
    "(if starts_with ''json'' ?t then drop 4 ?t else ?t) = b2 @ CHR 0x7B # m @ CHR 0x7D # a1" by blast
  obtain b' a' where c: "set b' \<subseteq> set b2" "set a' \<subseteq> set a1"
    "str_strip (b2 @ CHR 0x7B # m @ CHR 0x7D # a1) = b' @ CHR 0x7B # m @ CHR 0x7D # a'"
    by (rule strip_around [OF braces_not_space])
  have free: "CHR 0x7B \<notin> set b'" "CHR 0x7D \<notin> set (rev a')" using assms 1 b2 c by auto
  have "find_sub [CHR 0x7B] (b' @ CHR 0x7B # m @ CHR 0x7D # a') = Some (length b')"
    by (rule find_sub_char [OF free(1)])
  moreover have "find_sub [CHR 0x7D] (rev (b' @ CHR 0x7B # m @ CHR 0x7D # a')) = Some (length a')"
    using find_sub_char [OF free(2), of "rev (b' @ CHR 0x7B # m)"] by simp
  ultimately show ?thesis
    unfolding json_candidate_def Let_def 1(3) b2(2) c(3) by simp
qed

text \<open>
  An answer in the text is found: when the model writes a JSON object, in a fence or with words around
  it, and puts no opening brace before it and no closing brace after it, the payload is that object.
\<close>

theorem answer_reads_back:
  assumes "ao_parsed oc = None" and "ao_text oc = b @ dumps (JObj d) @ a"
    and "storable fr (JObj d)" and "CHR 0x7B \<notin> set b" and "CHR 0x7D \<notin> set a"
  shows "parse_json_payload fr oc = d"
proof -
  obtain m where m: "dumps (JObj d) = CHR 0x7B # m @ [CHR 0x7D]"
    by (cases "d = []") (simp_all add: dumps_def enclosed_def)
  obtain b1 a1 where s: "set b1 \<subseteq> set b" "set a1 \<subseteq> set a" "str_strip (ao_text oc) = b1 @ CHR 0x7B # m @ CHR 0x7D # a1"
    using strip_around [OF braces_not_space, of b a m] unfolding assms(2) m by auto
  have "json_candidate (b1 @ CHR 0x7B # m @ CHR 0x7D # a1) = Some (dumps (JObj d))"
    unfolding m using assms(4,5) s(1,2) by (intro json_candidate_braces) auto
  then show ?thesis
    using assms(1) loads_dumps [OF assms(3)] by (simp add: parse_json_payload_def Let_def s(3))
qed

section \<open>What the parts of a call can touch\<close>

text \<open>A tool works on the file system and by spawning processes, and on nothing else.\<close>

definition tool_io :: "world \<Rightarrow> world \<Rightarrow> bool" where
  "tool_io w w' \<longleftrightarrow> w_db w' = w_db w \<and> w_bus w' = w_bus w \<and> w_locks w' = w_locks w
     \<and> w_queue w' = w_queue w \<and> w_requests w' = w_requests w \<and> w_usage w' = w_usage w
     \<and> w_current_agent_run_id w' = w_current_agent_run_id w \<and> w_workspaces w' = w_workspaces w"

text \<open>The context works on the store and the bus, and on nothing else.\<close>

definition ctx_io :: "world \<Rightarrow> world \<Rightarrow> bool" where
  "ctx_io w w' \<longleftrightarrow> w_fs w' = w_fs w \<and> w_spawned w' = w_spawned w \<and> w_workspaces w' = w_workspaces w
     \<and> w_locks w' = w_locks w \<and> w_queue w' = w_queue w \<and> w_requests w' = w_requests w
     \<and> w_usage w' = w_usage w \<and> w_current_agent_run_id w' = w_current_agent_run_id w"

lemma evo_system_prompt [evo_intros]: "stays (evolves tid) (system_prompt cx ag)"
  unfolding system_prompt_def load_prompt_def Let_def by (auto intro!: evo_intros split: sum.split)

interpretation tio: effect_order tool_io
  by unfold_locales (auto simp: tool_io_def)

interpretation cio: effect_order ctx_io
  by unfold_locales (auto simp: ctx_io_def)

named_theorems tio_intros "computations that work on files and processes only"
named_theorems cio_intros "computations that work on the store and the bus only"

lemmas [tio_intros] = tio.stays_rules
lemmas [cio_intros] = cio.stays_rules

lemma tio_leaves [tio_intros]:
  "stays tool_io (ask f)" "stays tool_io (modify (\<lambda>w. w\<lparr>w_fs := g w\<rparr>))"
  "stays tool_io (modify (\<lambda>w. w\<lparr>w_spawned := h w, w_fs := g w\<rparr>))"
  by (simp_all add: stays_def ask_def tool_io_def)

lemma tio_run_command [tio_intros]:
  "stays tool_io (ask_result q)" "stays tool_io (spawn c d)" "stays tool_io (run_command c d)"
  unfolding ask_result_def spawn_def run_command_def
  by (auto intro!: tio_intros split: proc_outcome.split list.split)

lemma tio_file_tools [tio_intros]:
  "stays tool_io (read_file tx args)" "stays tool_io (list_directory tx args)"
  "stays tool_io (apply_patch tx args)" "stays tool_io (create_file tx args)"
  unfolding read_file_def list_directory_def apply_patch_def create_file_def Let_def
    resolve_or_fail_def read_text_def write_text_def mkdir_parents_def
  by (auto intro!: tio_intros split: sum.splits prod.splits py_error.splits)

lemma tio_command_tools [tio_intros]:
  "stays tool_io (collect_diff p)"
  "stays tool_io (git_diff_tool tx args)" "stays tool_io (git_status_tool tx args)"
  "stays tool_io (run_build_tool tx args)" "stays tool_io (run_tests_tool tx args)"
  unfolding collect_diff_def git_diff_tool_def git_status_tool_def run_build_tool_def
    run_tests_tool_def run_dotnet_build_def run_dotnet_test_def Let_def
  by (auto intro!: tio_intros split: option.splits prod.splits)

lemma tio_search_tools [tio_intros]:
  "stays tool_io (search_code tx args)" "stays tool_io (find_symbol tx args)"
  "stays tool_io (find_references tx args)" "stays tool_io (get_dependencies tx args)"
proof -
  have "tool_io w w'" if "only_asks w w'" for w w'
    using that by (cases w; cases w') (auto simp: only_asks_def tool_io_def)
  then show "stays tool_io (search_code tx args)" "stays tool_io (find_symbol tx args)"
    "stays tool_io (find_references tx args)" "stays tool_io (get_dependencies tx args)"
    using search_tools_read_only by (blast intro: stays_mono)+
qed

lemma tio_tools: "t \<in> set TOOLS \<Longrightarrow> stays tool_io (tl_run t tx args)"
  by (auto simp: TOOLS_def intro: tio_intros)

lemma cio_leaves [cio_intros]:
  "stays ctx_io (ask f)" "stays ctx_io (on_db g)" "stays ctx_io (modify (\<lambda>w. w\<lparr>w_bus := h w\<rparr>))"
  by (simp_all add: stays_def ask_def on_db_def ctx_io_def)

lemma cio_ids [cio_intros]:
  "stays ctx_io utcnow" "stays ctx_io (new_id p)" "stays ctx_io run_id" "stays ctx_io event_id"
  "stays ctx_io tool_call_id"
  unfolding utcnow_def new_id_def run_id_def event_id_def tool_call_id_def by (intro cio_intros)+

lemma cio_context [cio_intros]:
  "stays ctx_io (emit cx typ p)" "stays ctx_io (record_tool_call cx tool args ok res err ec dur)"
  "stays ctx_io (record_file_change cx path ct it la lr)"
  "stays ctx_io (record_ci_run cx prov ext br st con url logs it)"
  "stays ctx_io (request_approval cx reason)" "stays ctx_io (start_agent_run cx node agent it)"
  "stays ctx_io (finish_agent_run rid st err us)" "stays ctx_io (save_checkpoint cx s node stt)"
  unfolding emit_def append_event_def publish_event_def record_tool_call_def record_file_change_def
    record_ci_run_def request_approval_def start_agent_run_def finish_agent_run_def
    do_save_state_def do_set_status_def save_checkpoint_def Let_def
  by (auto intro!: cio_intros)

lemma cio_gates [cio_intros]:
  "stays ctx_io (audit cx name args r st)" "stays ctx_io (policy_gate cx tool name args st)"
  "stays ctx_io (record_change cx tx tool r)" "stays ctx_io (refuse cx name args m st)"
  unfolding audit_def policy_gate_def record_change_def refuse_def Let_def
  by (auto intro!: cio_intros)

section \<open>Every call is audited, exactly once\<close>

text \<open>The audited calls: tool and success flag of every row.\<close>

definition calls :: "world \<Rightarrow> (pystr \<times> bool) list" where
  "calls w = map (\<lambda>c. (tc_tool c, tc_ok c)) (db_tool_calls (w_db w))"

definition same_calls :: "world \<Rightarrow> world \<Rightarrow> bool" where
  "same_calls w w' \<longleftrightarrow> calls w' = calls w"

lemma calls_emit [simp]: "emit cx typ p w = (r, w') \<Longrightarrow> calls w' = calls w"
  by (auto simp: emit_def append_event_def publish_event_def event_id_def new_id_def utcnow_def
      ask_def on_db_def mbind_def calls_def event_append_def event_insert_def Let_def)

lemma emit_safe: "\<exists>w'. emit cx typ p w = (Inr (), w')"
  by (auto simp: emit_def append_event_def publish_event_def event_id_def new_id_def utcnow_def
      ask_def on_db_def mbind_def)

lemma audit_run:
  "\<exists>w'. audit cx name args r st w = (Inr (), w') \<and> calls w' = calls w @ [(name, tr_ok r)]"
proof -
  obtain w1 where 1: "w1 = w\<lparr>w_tick := Suc (w_tick w)\<rparr>" by blast
  obtain w2 where "audit cx name args r st w = (Inr (), w2)"
    by (auto simp: audit_def record_tool_call_def tool_call_id_def new_id_def utcnow_def emit_def
        append_event_def publish_event_def event_id_def ask_def on_db_def mbind_def Let_def)
  moreover from this have "calls w2 = calls w @ [(name, tr_ok r)]"
    by (auto simp: audit_def record_tool_call_def tool_call_id_def new_id_def utcnow_def emit_def
        append_event_def publish_event_def event_id_def ask_def on_db_def mbind_def Let_def calls_def
        tool_call_record_def event_append_def event_insert_def)
  ultimately show ?thesis by blast
qed

lemma record_change_run: "\<exists>w'. record_change cx tx tool r w = (Inr (), w') \<and> calls w' = calls w"
  by (auto simp: record_change_def unless_def record_file_change_def new_id_def utcnow_def emit_def
      append_event_def publish_event_def event_id_def ask_def on_db_def mbind_def calls_def
      event_append_def event_insert_def file_change_record_def Let_def)

lemma tool_run_calls: "t \<in> set TOOLS \<Longrightarrow> tl_run t tx args w = (r, w') \<Longrightarrow> calls w' = calls w"
  using stays_D [OF tio_tools] by (fastforce simp: tool_io_def calls_def)

lemma tool_get_in: "tool_get name = Inr t \<Longrightarrow> t \<in> set TOOLS \<and> tl_name t = name"
  by (auto simp: tool_get_def split: option.splits dest: tool_find_name)

text \<open>The policy gate: open, or closed with a violation and an audit row.\<close>

definition gate_closed :: "ctx \<Rightarrow> tool \<Rightarrow> dict \<Rightarrow> bool" where
  "gate_closed cx tool args \<longleftrightarrow> tl_mutating tool \<and> blocked (check_path_writable (cx_policy cx)
     (py_str (get_default (JStr []) (dict_get args ''path''))))"

lemma policy_gate_open:
  "\<not> gate_closed cx tool args \<Longrightarrow> policy_gate cx tool name args st w = (Inr (), w)"
  by (auto simp: policy_gate_def Let_def unless_def gate_closed_def)

lemma policy_gate_closed:
  assumes "gate_closed cx tool args"
  shows "\<exists>w' m. policy_gate cx tool name args st w = (Inl (PolicyViolationError m), w')
    \<and> calls w' = calls w @ [(name, False)]"
proof -
  let ?p = "py_str (get_default (JStr []) (dict_get args ''path''))"
  let ?d = "check_path_writable (cx_policy cx) ?p"
  let ?m = "''policy blocked write to '' @ ?p @ '': '' @ decision_summary ?d"
  obtain w1 where e: "emit cx Ev_POLICY_BLOCKED [(''tool'', JStr name), (''path'', JStr ?p),
      (''reasons'', jstrs (reasons ?d))] w = (Inr (), w1)" using emit_safe by blast
  obtain w2 where "audit cx name args (tool_failure ?m) st w1 = (Inr (), w2)"
    "calls w2 = calls w1 @ [(name, tr_ok (tool_failure ?m))]"
    using audit_run by blast
  with assms e calls_emit [OF e] show ?thesis
    by (simp add: policy_gate_def Let_def unless_def mbind_def tool_failure_def gate_closed_def)
qed

lemma execute_tool_audited_aux:
  "case execute_tool cx ag tx name args w of
     (Inr r, w') \<Rightarrow> calls w' = calls w @ [(name, tr_ok r)]
   | (Inl e, w') \<Rightarrow> (\<exists>m. e = PolicyViolationError m) \<and> calls w' = calls w @ [(name, False)]"
proof -
  let ?st = "o_time (w_answers w) (w_tick w)"
  let ?w0 = "w\<lparr>w_tick := Suc (w_tick w)\<rparr>"
  have 0: "calls ?w0 = calls w" by (simp add: calls_def)
  have refuse: "\<exists>w'. refuse cx name args m ?st ?w0 = (Inr (tool_failure m), w')
      \<and> calls w' = calls w @ [(name, False)]" for m
    using audit_run [of cx name args "tool_failure m" ?st ?w0] 0
    by (auto simp: refuse_def mbind_def tool_failure_def)
  show ?thesis
  proof (cases "is_allowed (ag_name ag) name")
    case False
    then have "\<exists>m. execute_tool cx ag tx name args w = refuse cx name args m ?st ?w0"
      by (auto simp: execute_tool_def mbind_def ask_def)
    then obtain m where "execute_tool cx ag tx name args w = refuse cx name args m ?st ?w0" ..
    then show ?thesis using refuse [of m] by (auto simp: tool_failure_def)
  next
    case allowed: True
    show ?thesis
    proof (cases "tool_get name")
      case (Inl e)
      with allowed have "execute_tool cx ag tx name args w =
          refuse cx name args (error_message e) ?st ?w0"
        by (simp add: execute_tool_def mbind_def ask_def)
      then show ?thesis using refuse [of "error_message e"] by (auto simp: tool_failure_def)
    next
      case (Inr t)
      consider "policy_gate cx t name args ?st ?w0 = (Inr (), ?w0)"
        | w' m where "policy_gate cx t name args ?st ?w0 = (Inl (PolicyViolationError m), w')"
            "calls w' = calls w @ [(name, False)]"
        using policy_gate_open [of cx t args] policy_gate_closed [of cx t args name ?st ?w0] 0
        by (cases "gate_closed cx t args") auto
      then show ?thesis
      proof cases
        case 1
        obtain w1 where e: "emit cx Ev_TOOL_CALLED [(''tool'', JStr name),
            (''arguments'', JObj (preview_arguments args))] ?w0 = (Inr (), w1)"
          using emit_safe by blast
        obtain x w2 where r: "tl_run t tx args w1 = (x, w2)" by fastforce
        define res where "res = (case x of Inl e \<Rightarrow> tool_error_result name e | Inr v \<Rightarrow> v)"
        have c: "catch (tl_run t tx args) (\<lambda>e. ret (tool_error_result name e)) w1 = (Inr res, w2)"
          using r by (cases x) (simp_all add: catch_def res_def)
        obtain w3 where a: "audit cx name args res ?st w2 = (Inr (), w3)"
          "calls w3 = calls w2 @ [(name, tr_ok res)]" using audit_run by blast
        obtain w4 where h: "record_change cx tx t res w3 = (Inr (), w4)" "calls w4 = calls w3"
          using record_change_run by blast
        have "calls w2 = calls w1"
          using tool_get_in [OF Inr] by (intro tool_run_calls [OF _ r]) simp
        then show ?thesis
          using allowed Inr 1 e c a h 0 calls_emit [OF e]
          by (simp add: execute_tool_def mbind_def ask_def)
      next
        case 2
        then show ?thesis using allowed Inr by (simp add: execute_tool_def mbind_def ask_def)
      qed
    qed
  qed
qed

text \<open>
  C10: every tool call is audited exactly once. Whatever the tool, the arguments and the outcome
  (allowed or not, known or not, blocked by policy, failing, raising), the call adds one row to
  \<open>tool_calls\<close>, with the tool's name and whether it succeeded; and the only exception that leaves
  the call is a policy violation.
\<close>

theorem tool_calls_audited:
  "case execute_tool cx ag tx name args w of
     (Inr r, w') \<Rightarrow> calls w' = calls w @ [(name, tr_ok r)]
   | (Inl e, w') \<Rightarrow> (\<exists>m. e = PolicyViolationError m) \<and> calls w' = calls w @ [(name, False)]"
  by (rule execute_tool_audited_aux)

section \<open>The gates\<close>

text \<open>
  C11: a refused call has no effect. When the agent may not use the tool, or the tool would change
  a path the policy blocks, no file changes, no process is spawned, and the call ends with a
  failure result or a policy violation.
\<close>

theorem refused_calls_do_nothing:
  assumes "\<not> is_allowed (ag_name ag) name \<or> (\<exists>t. tool_get name = Inr t \<and> gate_closed cx t args)"
  shows "case execute_tool cx ag tx name args w of (r, w') \<Rightarrow>
    w_fs w' = w_fs w \<and> w_spawned w' = w_spawned w
    \<and> (case r of Inr res \<Rightarrow> \<not> tr_ok res | Inl e \<Rightarrow> \<exists>m. e = PolicyViolationError m)"
proof -
  let ?st = "o_time (w_answers w) (w_tick w)"
  let ?w0 = "w\<lparr>w_tick := Suc (w_tick w)\<rparr>"
  obtain r w' where run: "execute_tool cx ag tx name args w = (r, w')" by fastforce
  have "stays ctx_io (refuse cx name args m ?st)" "stays ctx_io (policy_gate cx t name args ?st)" for m t
    by (intro cio_intros)+
  note io = this [THEN stays_D]
  have refuse: "refuse cx name args m ?st ?w0 = (Inr (tool_failure m), snd (refuse cx name args m ?st ?w0))"
    for m using audit_run [of cx name args "tool_failure m" ?st ?w0] by (auto simp: refuse_def mbind_def)
  show ?thesis
  proof (cases "is_allowed (ag_name ag) name")
    case False
    then have "\<exists>m. execute_tool cx ag tx name args w = refuse cx name args m ?st ?w0"
      by (auto simp: execute_tool_def mbind_def ask_def)
    then obtain m where "refuse cx name args m ?st ?w0 = (r, w')" using run by auto
    with io(1) [OF this] refuse [of m] run show ?thesis by (auto simp: ctx_io_def tool_failure_def)
  next
    case True
    with assms obtain t where t: "tool_get name = Inr t" "gate_closed cx t args" by blast
    obtain m v where g: "policy_gate cx t name args ?st ?w0 = (Inl (PolicyViolationError m), v)"
      using policy_gate_closed [OF t(2), of name ?st ?w0] by blast
    with True t run have "r = Inl (PolicyViolationError m)" "w' = v"
      by (auto simp: execute_tool_def mbind_def ask_def)
    with io(2) [OF g] run show ?thesis by (simp add: ctx_io_def)
  qed
qed

definition sample_tool_context :: tool_context where
  "sample_tool_context = \<lparr>tx_task_id = ''TASK-1'', tx_repository_path = [''repo''], tx_workspace = None,
     tx_iteration = 0, tx_agent_run_id = None, tx_write_allowed = True\<rparr>"

theorem refused_calls_do_nothing_witness:
  "case execute_tool sample_ctx
      \<lparr>ag_name = ''planner'', ag_output_schema = None, ag_max_tool_turns = 12\<rparr> sample_tool_context
      ''create_file'' [(''path'', JStr ''a.py''), (''content'', JStr ''x'')]
      (new_world quiet_answers [([''repo''], Dir)]) of (r, w') \<Rightarrow>
    w_fs w' = w_fs (new_world quiet_answers [([''repo''], Dir)])
    \<and> w_spawned w' = w_spawned (new_world quiet_answers [([''repo''], Dir)])
    \<and> (case r of Inr res \<Rightarrow> \<not> tr_ok res | Inl e \<Rightarrow> \<exists>m. e = PolicyViolationError m)"
  by (rule refused_calls_do_nothing) (simp add: is_allowed_def AGENT_TOOL_ALLOWLIST_def)

section \<open>The loop is bounded and audited\<close>

definition call_io :: "world \<Rightarrow> world \<Rightarrow> bool" where
  "call_io w w' \<longleftrightarrow> w_requests w' = w_requests w \<and> w_locks w' = w_locks w \<and> w_queue w' = w_queue w
     \<and> w_workspaces w' = w_workspaces w \<and> w_usage w' = w_usage w
     \<and> w_current_agent_run_id w' = w_current_agent_run_id w"

interpretation kio: effect_order call_io
  by unfold_locales (auto simp: call_io_def)

lemma kio_execute_tool: "stays call_io (execute_tool cx ag tx name args)"
proof -
  have ctx: "stays ctx_io m \<Longrightarrow> stays call_io m" for m :: "'a io"
    by (erule stays_mono) (simp add: ctx_io_def call_io_def)
  have tool: "stays tool_io m \<Longrightarrow> stays call_io m" for m :: "'a io"
    by (erule stays_mono) (simp add: tool_io_def call_io_def)
  have run: "stays call_io (catch (tl_run t tx args) (\<lambda>e. ret (tool_error_result name e)))"
    if "tool_get name = Inr t" for t
    using tool_get_in [OF that] by (intro kio.stays_catch kio.stays_ret tool tio_tools) simp
  have gates: "stays call_io (ask q)" "stays call_io (emit cx ty p)" "stays call_io (audit cx name args r st)"
    "stays call_io (policy_gate cx t name args st)" "stays call_io (record_change cx tx t r)"
    "stays call_io (refuse cx name args m st)" for q :: "answers \<Rightarrow> nat \<Rightarrow> int" and ty p r st t m
    by (rule ctx, rule cio_intros)+
  show ?thesis
    unfolding execute_tool_def
    by (intro kio.stays_mbind kio.stays_if gates, split sum.split, intro conjI allI impI)
       (intro kio.stays_mbind kio.stays_ret gates run | assumption)+
qed

lemma kio_run_invocations: "stays call_io (run_invocations cx ag tx ivs oc bl)"
  by (induction ivs arbitrary: oc bl) (auto intro: kio.stays_rules kio_execute_tool)

lemma evo_audit [evo_intros]: "stays (evolves (cx_task_id cx)) (audit cx name args r st)"
  unfolding audit_def Let_def by (intro evo_intros)

lemma evo_gates [evo_intros]:
  "stays (evolves (cx_task_id cx)) (policy_gate cx t name args st)"
  "stays (evolves (cx_task_id cx)) (record_change cx tx t r)"
  "stays (evolves (cx_task_id cx)) (refuse cx name args m st)"
  unfolding policy_gate_def record_change_def refuse_def Let_def by (auto intro!: evo_intros)

lemma evo_execute_tool [evo_intros]:
  "stays (evolves (cx_task_id cx)) (execute_tool cx ag tx name args)"
proof -
  have run: "stays (evolves (cx_task_id cx))
      (catch (tl_run t tx args) (\<lambda>e. ret (tool_error_result name e)))"
    if "tool_get name = Inr t" for t
    using tool_get_in [OF that] by (intro evo_intros evo_tools) simp
  show ?thesis
    unfolding execute_tool_def
    by (intro evo_intros, split sum.split, intro conjI allI impI) (intro evo_intros run | assumption)+
qed

lemma evo_generate [evo_intros]: "stays (evolves tid) (generate rq)"
  unfolding generate_def by (intro evo_intros) (simp add: evolves_def)

lemma evo_run_invocations [evo_intros]:
  "stays (evolves (cx_task_id cx)) (run_invocations cx ag tx ivs oc bl)"
  by (induction ivs arbitrary: oc bl) (auto intro!: evo_intros)

lemma evo_agent_loop [evo_intros]:
  "stays (evolves (cx_task_id cx)) (agent_loop cx ag tx sys specs n turn msgs oc)"
  by (induction n arbitrary: turn msgs oc) (auto intro!: evo_intros simp: Let_def split: prod.splits)

lemma evo_agent_run_loop [evo_intros]:
  "stays (evolves (cx_task_id cx)) (agent_run_loop cx ag tx sys user use_tools)"
  unfolding agent_run_loop_def by (auto intro!: evo_intros)

lemma run_invocations_calls:
  "run_invocations cx ag tx ivs oc bl w = (Inr (oc', bl'), w') \<Longrightarrow>
     \<exists>rows. calls w' = calls w @ rows \<and> ao_tool_calls oc' = ao_tool_calls oc @ map fst rows
       \<and> ao_turns oc' = ao_turns oc"
proof (induction ivs arbitrary: oc bl w)
  case (Cons iv ivs)
  obtain r w1 where e: "execute_tool cx ag tx (iv_name iv) (iv_arguments iv) w = (Inr r, w1)"
    using Cons.prems by (auto simp: mbind_def split: prod.splits sum.splits)
  have c: "calls w1 = calls w @ [(iv_name iv, tr_ok r)]"
    using execute_tool_audited_aux [where cx = cx and ag = ag and tx = tx and name = "iv_name iv"
        and args = "iv_arguments iv" and w = w] e by simp
  from Cons.prems e obtain oc1 bl1 where
    "run_invocations cx ag tx ivs oc1 bl1 w1 = (Inr (oc', bl'), w')"
    and oc1: "ao_tool_calls oc1 = ao_tool_calls oc @ [iv_name iv]" "ao_turns oc1 = ao_turns oc"
    by (simp add: mbind_def)
  from Cons.IH [OF this(1)] c oc1 show ?case by fastforce
qed simp

lemma agent_loop_spec:
  "agent_loop cx ag tx sys specs n turn msgs oc w = (Inr oc', w') \<Longrightarrow>
     (\<exists>rows. calls w' = calls w @ rows \<and> ao_tool_calls oc' = ao_tool_calls oc @ map fst rows)
     \<and> length (w_requests w') \<le> length (w_requests w) + n
     \<and> (ao_turns oc' = ao_turns oc \<or> ao_turns oc' < turn + n)"
proof (induction n arbitrary: turn msgs oc w)
  case (Suc n)
  let ?rq = "\<lparr>rq_system = sys, rq_messages = msgs, rq_tools = specs, rq_json_schema = ag_output_schema ag\<rparr>"
  obtain r w1 where g: "generate ?rq w = (Inr r, w1)"
    using Suc.prems by (auto simp: mbind_def split: prod.splits sum.splits)
  have w1: "calls w1 = calls w" "length (w_requests w1) = Suc (length (w_requests w))"
    using g by (auto simp: generate_def ask_result_def ask_def mbind_def calls_def)
  let ?oc1 = "absorb_response r turn oc"
  have oc1: "ao_tool_calls ?oc1 = ao_tool_calls oc" "ao_turns ?oc1 = turn"
    by (simp_all add: absorb_response_def)
  show ?case
  proof (cases "wants_tools r")
    case False
    with Suc.prems g w1 oc1 show ?thesis by (auto simp: mbind_def Let_def)
  next
    case True
    obtain oc2 bl w2 where i: "run_invocations cx ag tx (rs_tool_calls r) ?oc1 [] w1 = (Inr (oc2, bl), w2)"
      using Suc.prems g True by (auto simp: mbind_def Let_def split: prod.splits sum.splits)
    obtain rows where rows: "calls w2 = calls w1 @ rows"
      "ao_tool_calls oc2 = ao_tool_calls ?oc1 @ map fst rows" "ao_turns oc2 = ao_turns ?oc1"
      using run_invocations_calls [OF i] by blast
    have req: "w_requests w2 = w_requests w1"
      using stays_D [OF kio_run_invocations i] by (simp add: call_io_def)
    from Suc.prems g True i obtain msgs' where
      "agent_loop cx ag tx sys specs n (Suc turn) msgs' oc2 w2 = (Inr oc', w')"
      by (simp add: mbind_def Let_def)
    from Suc.IH [OF this] obtain rows' where rest: "calls w' = calls w2 @ rows'"
      "ao_tool_calls oc' = ao_tool_calls oc2 @ map fst rows'"
      "length (w_requests w') \<le> length (w_requests w2) + n"
      "ao_turns oc' = ao_turns oc2 \<or> ao_turns oc' < Suc turn + n"
      by blast
    show ?thesis
    proof (intro conjI exI [of _ "rows @ rows'"])
      show "ao_turns oc' = ao_turns oc \<or> ao_turns oc' < turn + Suc n"
        using rest(4) rows(3) oc1(2) by linarith
    qed (simp_all add: rest rows req w1 oc1 order_trans [OF rest(3)])
  qed
qed auto

text \<open>
  C35: an agent's run is bounded and leaves a complete trail. A run that returns asked the model at
  most \<open>max_tool_turns\<close> times, and the rows it added to \<open>tool_calls\<close> are, in order, exactly the tool
  calls the model made.
\<close>

theorem agent_run_bounded_and_audited:
  assumes "agent_run_loop cx ag tx sys user use_tools w = (Inr oc, w')"
  shows "length (w_requests w') \<le> length (w_requests w) + ag_max_tool_turns ag
    \<and> ao_turns oc \<le> ag_max_tool_turns ag
    \<and> (\<exists>rows. calls w' = calls w @ rows \<and> ao_tool_calls oc = map fst rows)"
proof -
  obtain specs where "agent_loop cx ag tx sys specs (ag_max_tool_turns ag) 1
      [text_message ''user'' user] new_outcome w = (Inr oc, w')"
    using assms by (auto simp: agent_run_loop_def mbind_def split: prod.splits sum.splits if_splits)
  from agent_loop_spec [OF this] show ?thesis by (auto simp: new_outcome_def)
qed

theorem agent_run_bounded_and_audited_witness:
  "\<exists>oc w'. agent_run_loop sample_ctx \<lparr>ag_name = ''planner'', ag_output_schema = None,
      ag_max_tool_turns = 12\<rparr> sample_tool_context ''s'' ''u'' False
      (new_world quiet_answers []) = (Inr oc, w')
    \<and> length (w_requests w') \<le> 12 \<and> ao_turns oc \<le> 12"
proof -
  let ?ag = "\<lparr>ag_name = ''planner'', ag_output_schema = None, ag_max_tool_turns = 12\<rparr>"
  obtain oc w' where run: "agent_run_loop sample_ctx ?ag sample_tool_context ''s'' ''u'' False
      (new_world quiet_answers []) = (Inr oc, w')"
    by (simp add: agent_run_loop_def eval_nat_numeral generate_def ask_result_def ask_def mbind_def
        new_world_def quiet_answers_def wants_tools_def)
  from agent_run_bounded_and_audited [OF run] run show ?thesis by (auto simp: new_world_def)
qed

section \<open>The write gate sees the path as written\<close>

text \<open>
  The gate before a write matches the rules against the argument, the tool writes to the resolved
  path: with a trailing slash the name that is matched is empty, so the gate lets a write to
  \<open>.env\<close> through, although it refuses \<open>.env\<close> itself.
\<close>

lemma write_gate_reads_raw_path:
  "blocked (check_path_writable DEFAULT_ENGINE ''.env'')
   \<and> \<not> blocked (check_path_writable DEFAULT_ENGINE ''.env/'')
   \<and> path_parts ''.env/'' = path_parts ''.env''"
  by code_simp

end
