(* ===== verification/Agents.thy ===== *)
theory Agents
  imports Agent_Base Agent_State
begin

text \<open>
  The reasoning agents: planner, repository, risk, implementation, testing, debugging and CI
  (\<open>agents/*.py\<close>). Each builds its prompt from the workflow state, runs the base loop, and turns the
  JSON answer, which nobody validated, into a partial state update. An update is the state keys an
  agent returns, the token usage it reports (the key \<open>_usage\<close>), and what else the caller reads.
\<close>

section \<open>Schemas\<close>

definition string_array :: json where
  "string_array = JObj [(''type'', JStr ''array''), (''items'', JObj [(''type'', JStr ''string'')])]"

text \<open>An object schema whose properties are all required; descriptions are left out.\<close>

definition output_schema :: "(pystr \<times> json) list \<Rightarrow> json" where
  "output_schema props = JObj [(''type'', JStr ''object''), (''properties'', JObj props),
     (''required'', jstrs (map fst props)), (''additionalProperties'', JBool False)]"

definition ty_schema :: "pystr \<Rightarrow> json" where
  "ty_schema t = JObj [(''type'', JStr t)]"

definition enum_schema :: "pystr list \<Rightarrow> json" where
  "enum_schema vs = JObj [(''type'', JStr ''string''), (''enum'', jstrs vs)]"

definition PLAN_SCHEMA :: json where
  "PLAN_SCHEMA = output_schema [(''summary'', ty_schema ''string''), (''steps'', string_array),
     (''acceptance_criteria'', string_array)]"

definition CONTEXT_SCHEMA :: json where
  "CONTEXT_SCHEMA = output_schema [(''relevant_files'', string_array), (''findings'', string_array),
     (''entry_point'', ty_schema ''string'')]"

definition RISK_SCHEMA :: json where
  "RISK_SCHEMA = output_schema [(''risk_level'', enum_schema [''LOW'', ''MEDIUM'', ''HIGH'']),
     (''reasons'', string_array), (''blast_radius'', ty_schema ''string'')]"

definition IMPLEMENTATION_SCHEMA :: json where
  "IMPLEMENTATION_SCHEMA = output_schema [(''summary'', ty_schema ''string''),
     (''changed_files'', string_array), (''notes_for_tests'', string_array)]"

definition TEST_PLAN_SCHEMA :: json where
  "TEST_PLAN_SCHEMA = output_schema [(''summary'', ty_schema ''string''), (''test_cases'', string_array),
     (''test_files'', string_array)]"

definition DEBUG_SCHEMA :: json where
  "DEBUG_SCHEMA = output_schema [(''analysis'', ty_schema ''string''), (''fix_applied'', ty_schema ''boolean''),
     (''changed_files'', string_array), (''confidence'', enum_schema [''LOW'', ''MEDIUM'', ''HIGH''])]"

definition CI_SCHEMA :: json where
  "CI_SCHEMA = output_schema [(''analysis'', ty_schema ''string''), (''fix_applied'', ty_schema ''boolean''),
     (''changed_files'', string_array), (''requires_human'', ty_schema ''boolean'')]"

definition planner_agent :: agent where
  "planner_agent = \<lparr>ag_name = ''planner'', ag_output_schema = Some PLAN_SCHEMA,
     ag_max_tool_turns = MAX_TOOL_TURNS\<rparr>"

definition repository_agent :: agent where
  "repository_agent = \<lparr>ag_name = ''repository'', ag_output_schema = Some CONTEXT_SCHEMA,
     ag_max_tool_turns = 14\<rparr>"

definition risk_agent :: agent where
  "risk_agent = \<lparr>ag_name = ''risk'', ag_output_schema = Some RISK_SCHEMA, ag_max_tool_turns = 6\<rparr>"

definition implementation_agent :: agent where
  "implementation_agent = \<lparr>ag_name = ''implementation'', ag_output_schema = Some IMPLEMENTATION_SCHEMA,
     ag_max_tool_turns = 16\<rparr>"

definition testing_agent :: agent where
  "testing_agent = \<lparr>ag_name = ''testing'', ag_output_schema = Some TEST_PLAN_SCHEMA,
     ag_max_tool_turns = 14\<rparr>"

definition debugging_agent :: agent where
  "debugging_agent = \<lparr>ag_name = ''debugging'', ag_output_schema = Some DEBUG_SCHEMA,
     ag_max_tool_turns = 14\<rparr>"

definition ci_agent :: agent where
  "ci_agent = \<lparr>ag_name = ''ci'', ag_output_schema = Some CI_SCHEMA, ag_max_tool_turns = 10\<rparr>"

section \<open>Prompt fragments\<close>

definition NL :: pystr where
  "NL = [CHR 0x0A]"

definition bullets :: "pystr list \<Rightarrow> pystr" where
  "bullets xs = str_join NL (map (\<lambda>x. ''- '' @ x) xs)"

definition or_text :: "pystr \<Rightarrow> pystr \<Rightarrow> pystr" where
  "or_text s d = (if s = [] then d else s)"

definition section_text :: "pystr \<Rightarrow> pystr \<Rightarrow> pystr" where
  "section_text title body = title @ NL @ body @ NL @ NL"

definition bullet_section :: "pystr \<Rightarrow> pystr list \<Rightarrow> pystr \<Rightarrow> pystr" where
  "bullet_section title xs d = section_text title (or_text (bullets xs) d)"

text \<open>\<open>state["issue"]\<close>.\<close>

definition need_issue :: "agent_state \<Rightarrow> pystr result" where
  "need_issue s = (case st_issue s of
       None \<Rightarrow> Inl (OtherError ''KeyError'' ([CHR 0x27] @ ''issue'' @ [CHR 0x27]))
     | Some i \<Rightarrow> Inr i)"

definition none_item :: pystr where
  "none_item = ''- (none)''"

section \<open>From answers to updates\<close>

record agent_update =
  au_state :: agent_state
  au_usage :: usage
  au_blocked :: bool
  au_requires_human :: bool

definition plain_update :: "agent_state \<Rightarrow> agent_outcome \<Rightarrow> agent_update" where
  "plain_update s oc =
     \<lparr>au_state = s, au_usage = ao_usage oc, au_blocked = False, au_requires_human = False\<rparr>"

text \<open>The paths of the tool results an agent collected, as text.\<close>

definition touched_paths :: "agent_outcome \<Rightarrow> pystr list" where
  "touched_paths oc =
     map (\<lambda>d. py_str (get_default JNull (dict_get d ''path'')))
       (filter (\<lambda>d. py_bool (get_default JNull (dict_get d ''path''))) (ao_files_touched oc))"

definition sorted_set :: "pystr list \<Rightarrow> pystr list" where
  "sorted_set xs = sort (remdups xs)"

text \<open>Load the prompt, build the user message, run the loop, and parse the answer.\<close>

definition ask_agent :: "ctx \<Rightarrow> agent \<Rightarrow> tool_context \<Rightarrow> agent_state \<Rightarrow> (pystr \<Rightarrow> pystr) \<Rightarrow> bool
    \<Rightarrow> (agent_outcome \<times> dict) io" where
  "ask_agent cx ag tx s user use_tools =
     mbind (system_prompt cx ag) (\<lambda>system.
     mbind (lift_result (need_issue s)) (\<lambda>issue.
     mbind (agent_run_loop cx ag tx system (user issue) use_tools) (\<lambda>oc.
     ret (oc, parse_json_payload (cx_float cx) oc))))"

section \<open>The roles\<close>

definition planner_plan :: "ctx \<Rightarrow> agent_state \<Rightarrow> tool_context \<Rightarrow> agent_update io" where
  "planner_plan cx s tx =
     mbind (ask_agent cx planner_agent tx s (\<lambda>issue.
       ''Repository: '' @ get_default [] (st_repository_url s) @ NL @ NL @
       section_text ''Engineering issue:'' issue @ ''Produce the plan.'') False) (\<lambda>(oc, payload).
     mbind (lift_result (str_items payload ''steps'')) (\<lambda>steps.
     mbind (lift_result (str_items payload ''acceptance_criteria'')) (\<lambda>criteria.
     ret (plain_update (empty_state\<lparr>st_plan := Some steps,
       st_plan_summary := Some (str_strip (str_field payload ''summary'' [])),
       st_acceptance_criteria := Some criteria\<rparr>) oc))))"

definition repository_analyze :: "ctx \<Rightarrow> agent_state \<Rightarrow> tool_context \<Rightarrow> agent_update io" where
  "repository_analyze cx s tx =
     mbind (ask_agent cx repository_agent tx s (\<lambda>issue.
       section_text ''Engineering issue:'' issue @
       bullet_section ''Plan:'' (get_default [] (st_plan s)) ''- (no plan)'' @
       bullet_section ''Acceptance criteria:'' (get_default [] (st_acceptance_criteria s)) none_item @
       ''Locate the relevant code with the search tools, read what you need, then '' @
       ''return the context package.'') True) (\<lambda>(oc, payload).
     mbind (lift_result (str_items payload ''relevant_files'')) (\<lambda>raw_files.
     mbind (lift_result (str_items payload ''findings'')) (\<lambda>findings.
     let files = map str_strip raw_files;
         entry_point = str_strip (str_field payload ''entry_point'' []) in
     ret (plain_update (empty_state\<lparr>
       st_relevant_files := Some (if entry_point \<noteq> [] \<and> entry_point \<notin> set files
                                  then entry_point # files else files),
       st_repository_context := Some findings\<rparr>) oc))))"

definition risk_assess :: "ctx \<Rightarrow> agent_state \<Rightarrow> tool_context \<Rightarrow> agent_update io" where
  "risk_assess cx s tx =
     (let files = get_default [] (st_relevant_files s) in
     mbind (ask_agent cx risk_agent tx s (\<lambda>issue.
       section_text ''Engineering issue:'' issue @
       bullet_section ''Candidate files:'' files none_item @
       bullet_section ''Repository findings:'' (get_default [] (st_repository_context s)) none_item @
       ''Assess the risk of making this change.'') True) (\<lambda>(oc, payload).
     mbind (lift_result (str_items payload ''reasons'')) (\<lambda>model_reasons.
     let model_risk = get_default LOW (risk_of_value (str_upper (str_field payload ''risk_level'' ''LOW'')));
         blast_radius = str_strip (str_field payload ''blast_radius'' []);
         decision = evaluate (cx_policy cx) files [] None False;
         combined = max_risk [Some model_risk, Some (decision_risk decision)];
         all_reasons = model_reasons @
           (if blast_radius \<noteq> [] then [''blast radius: '' @ blast_radius] else []) @ reasons decision in
     ret \<lparr>au_state = empty_state\<lparr>
            st_risk_level := Some (risk_value combined),
            st_risk_reasons := Some all_reasons,
            st_approval_required := Some (decision_action decision \<noteq> ALLOW \<or> combined = HIGH),
            st_policy_action := Some (action_value (decision_action decision))\<rparr>,
          au_usage = ao_usage oc, au_blocked = blocked decision, au_requires_human = False\<rparr>)))"

definition implementation_implement :: "ctx \<Rightarrow> agent_state \<Rightarrow> tool_context \<Rightarrow> agent_update io" where
  "implementation_implement cx s tx =
     mbind (ask_agent cx implementation_agent tx s (\<lambda>issue.
       section_text ''Engineering issue:'' issue @
       bullet_section ''Plan:'' (get_default [] (st_plan s)) none_item @
       bullet_section ''Acceptance criteria:'' (get_default [] (st_acceptance_criteria s)) none_item @
       bullet_section ''Relevant files:'' (get_default [] (st_relevant_files s)) none_item @
       bullet_section ''Repository findings:'' (get_default [] (st_repository_context s)) none_item @
       ''Implement the smallest correct change. Read before you patch.'') True) (\<lambda>(oc, payload).
     mbind (lift_result (str_items payload ''changed_files'')) (\<lambda>declared.
     mbind (lift_result (all_str_items payload ''notes_for_tests'')) (\<lambda>notes.
     let touched = touched_paths oc; changed = (if touched \<noteq> [] then touched else declared) in
     ret (plain_update (empty_state\<lparr>
       st_implementation_summary := Some (str_strip (str_field payload ''summary'' [])),
       st_modified_files := Some (sorted_set changed),
       st_test_notes := Some notes\<rparr>) oc))))"

definition testing_generate :: "ctx \<Rightarrow> agent_state \<Rightarrow> tool_context \<Rightarrow> agent_update io" where
  "testing_generate cx s tx =
     mbind (ask_agent cx testing_agent tx s (\<lambda>issue.
       section_text ''Engineering issue:'' issue @
       bullet_section ''Acceptance criteria:'' (get_default [] (st_acceptance_criteria s)) none_item @
       bullet_section ''Files already changed:'' (get_default [] (st_modified_files s)) none_item @
       bullet_section ''Notes from the implementation:'' (get_default [] (st_test_notes s)) none_item @
       ''Find the existing test project, match its conventions, and add regression '' @
       ''tests. Do not modify production code.'') True) (\<lambda>(oc, payload).
     mbind (lift_result (all_str_items payload ''test_cases'')) (\<lambda>cases.
     let touched = touched_paths oc in
     mbind (if touched \<noteq> [] then ret touched
            else lift_result (all_str_items payload ''test_files'')) (\<lambda>files.
     ret (plain_update (empty_state\<lparr>
       st_test_plan_summary := Some (str_strip (str_field payload ''summary'' [])),
       st_test_commands := Some cases,
       st_test_files := Some (sorted_set files)\<rparr>) oc))))"

definition debugging_debug :: "ctx \<Rightarrow> agent_state \<Rightarrow> tool_context \<Rightarrow> agent_update io" where
  "debugging_debug cx s tx =
     mbind (ask_agent cx debugging_agent tx s (\<lambda>issue.
       section_text ''Engineering issue:'' issue @
       ''Debugging iteration '' @ show_int (get_default 0 (st_iteration s)) @ '' of '' @
       show_int (get_default 3 (st_max_iterations s)) @ ''.'' @ NL @ NL @
       section_text ''Current test failures:''
         (or_text (str_join (NL @ NL) (get_default [] (st_test_failures s))) ''(no parsed failures)'') @
       section_text ''Test run output:'' (take 4000 (get_default [] (st_test_results s))) @
       bullet_section ''Previous attempts:'' (get_default [] (st_previous_failures s))
         ''- (this is the first attempt)'' @
       ''Diagnose the root cause and apply the smallest fix. If the failure is in a '' @
       ''test you wrote and the production behaviour is correct, fix the test instead.'') True)
     (\<lambda>(oc, payload).
     ret (plain_update (empty_state\<lparr>
       st_debugging_analysis := Some (str_strip (str_field payload ''analysis'' [])),
       st_fix_applied := Some (py_bool (get_default (JBool (touched_paths oc \<noteq> []))
          (dict_get payload ''fix_applied''))),
       st_confidence := Some (str_upper (str_field payload ''confidence'' ''LOW''))\<rparr>) oc))"

definition ci_diagnose :: "ctx \<Rightarrow> agent_state \<Rightarrow> tool_context \<Rightarrow> agent_update io" where
  "ci_diagnose cx s tx =
     mbind (ask_agent cx ci_agent tx s (\<lambda>issue.
       section_text ''Engineering issue:'' issue @
       ''Branch: '' @ get_default [] (st_git_branch s) @ NL @
       ''CI status: '' @ get_default [] (st_ci_status s) @ NL @
       ''CI iteration '' @ show_int (get_default 0 (st_ci_iteration s)) @ '' of '' @
       show_int (get_default 2 (st_max_ci_iterations s)) @ NL @ NL @
       section_text ''CI logs:'' (take 6000 (get_default [] (st_ci_logs s))) @
       ''Files changed by this task:'' @ NL @
       or_text (bullets (get_default [] (st_modified_files s))) none_item @ NL @ NL @
       ''Diagnose the pipeline failure and fix it if it is a code defect.'') True) (\<lambda>(oc, payload).
     ret \<lparr>au_state = empty_state\<lparr>
            st_ci_analysis := Some (str_strip (str_field payload ''analysis'' [])),
            st_fix_applied := Some (py_bool (get_default (JBool (touched_paths oc \<noteq> []))
               (dict_get payload ''fix_applied'')))\<rparr>,
          au_usage = ao_usage oc, au_blocked = False,
          au_requires_human = py_bool (get_default (JBool False) (dict_get payload ''requires_human''))\<rparr>)"

section \<open>Facts about the roles\<close>

lemma evo_ask_agent [evo_intros]:
  "stays (evolves (cx_task_id cx)) (ask_agent cx ag tx s user use_tools)"
  unfolding ask_agent_def by (intro evo_intros)

lemma evo_roles [evo_intros]:
  "stays (evolves (cx_task_id cx)) (planner_plan cx s tx)"
  "stays (evolves (cx_task_id cx)) (repository_analyze cx s tx)"
  "stays (evolves (cx_task_id cx)) (risk_assess cx s tx)"
  "stays (evolves (cx_task_id cx)) (implementation_implement cx s tx)"
  "stays (evolves (cx_task_id cx)) (testing_generate cx s tx)"
  "stays (evolves (cx_task_id cx)) (debugging_debug cx s tx)"
  "stays (evolves (cx_task_id cx)) (ci_diagnose cx s tx)"
  unfolding planner_plan_def repository_analyze_def risk_assess_def implementation_implement_def
    testing_generate_def debugging_debug_def ci_diagnose_def Let_def
  by (auto intro!: evo_intros split: prod.split)

text \<open>
  C34: the model cannot talk the risk down. Whatever the model answers, the risk assessment returns
  the policy engine's action for the candidate files, is blocked exactly when the engine blocks, and
  rates the task at least as high as the engine does; approval is required whenever the engine
  asks for it.
\<close>

theorem risk_assessment_respects_policy:
  assumes "risk_assess cx s tx w = (Inr u, w')"
    and "d = evaluate (cx_policy cx) (get_default [] (st_relevant_files s)) [] None False"
  shows "st_policy_action (au_state u) = Some (action_value (decision_action d))
    \<and> au_blocked u = blocked d
    \<and> (\<exists>r. st_risk_level (au_state u) = Some (risk_value r) \<and> decision_risk d \<le> r
         \<and> st_approval_required (au_state u) = Some (decision_action d \<noteq> ALLOW \<or> r = HIGH))"
proof -
  obtain x where u: "st_policy_action (au_state u) = Some (action_value (decision_action d))"
    "au_blocked u = blocked d" "st_risk_level (au_state u) = Some (risk_value (max x (decision_risk d)))"
    "st_approval_required (au_state u) =
       Some (decision_action d \<noteq> ALLOW \<or> max x (decision_risk d) = HIGH)"
    using assms unfolding risk_assess_def Let_def
    by (auto elim!: mbind_InrD split: prod.splits)
  then show ?thesis by (intro conjI exI [of _ "max x (decision_risk d)"]) simp_all
qed

definition prompt_world :: world where
  "prompt_world = new_world quiet_answers [([''prompts''], Dir), ([''prompts'', ''risk.md''], File ''Assess the risk.'')]"

lemma sample_prompt:
  "system_prompt sample_ctx risk_agent prompt_world
     = (Inr (''[agent:risk]'' @ [CHR 0x0A] @ ''Assess the risk.''), prompt_world)"
proof -
  have "cx_prompts_path sample_ctx @ [ag_name risk_agent @ ''.md''] = [''prompts'', ''risk.md'']"
    by (simp add: sample_ctx_def PROMPTS_PATH_def risk_agent_def)
  moreover have "fs_lookup (w_fs prompt_world) [''prompts'', ''risk.md''] = Some (File ''Assess the risk.'')"
    by (simp add: prompt_world_def new_world_def fs_lookup_def resolve_path_def)
  moreover have "universal_newlines ''Assess the risk.'' = ''Assess the risk.''" by code_simp
  moreover have "format_plain ''Assess the risk.'' = Inr ''Assess the risk.''" by code_simp
  ultimately show ?thesis
    by (simp add: system_prompt_def load_prompt_def mbind_def Let_def fs_exists_def read_text_def fs_read_def risk_agent_def
        del: format_plain.simps)
qed

theorem risk_assessment_respects_policy_witness:
  "\<exists>u w'. risk_assess sample_ctx (empty_state\<lparr>st_issue := Some ''rotate the key'',
        st_relevant_files := Some [''.env'']\<rparr>) sample_tool_context prompt_world
      = (Inr u, w') \<and> au_blocked u"
proof -
  let ?s = "empty_state\<lparr>st_issue := Some ''rotate the key'', st_relevant_files := Some [''.env'']\<rparr>"
  have llm: "o_llm (w_answers prompt_world) n = Inr \<lparr>rs_text = '''', rs_tool_calls = [], rs_assistant_content = JNull,
      rs_stop_reason = ''end_turn'', rs_usage = no_usage, rs_parsed = None\<rparr>" for n
    by (simp add: prompt_world_def new_world_def quiet_answers_def)
  obtain u w' where run: "risk_assess sample_ctx ?s sample_tool_context prompt_world = (Inr u, w')"
    by (simp add: risk_assess_def ask_agent_def Let_def mbind_assoc mbind_def [of "system_prompt _ _"] sample_prompt)
       (simp add: need_issue_def llm
        agent_run_loop_def risk_agent_def specs_for_agent_def tools_for_agent_def
        AGENT_TOOL_ALLOWLIST_def eval_nat_numeral generate_def ask_result_def ask_def mbind_def
        wants_tools_def absorb_response_def new_outcome_def
        parse_json_payload_def str_items_def dict_get_def py_iter_def Let_def str_strip_def
        str_lstrip_def str_rstrip_def)
  have "blocked (evaluate (cx_policy sample_ctx) [''.env''] [] None False)"
    by code_simp
  with risk_assessment_respects_policy [OF run refl] run show ?thesis by auto
qed

text \<open>
  \<open>run_invocations\<close> counts a tool result as a touched file whenever it carries a path, and every
  successful \<open>read_file\<close> carries one: a file that was only read is reported as touched.
\<close>

lemma rel_str_not_empty: "list_all real_name p \<Longrightarrow> rel_str p \<noteq> []"
  by (cases p rule: remdups_adj.cases) (auto simp: rel_str_def real_name_def)

lemma tx_relative_not_empty: "tx_relative f tx p \<noteq> Inr []"
  by (auto simp: tx_relative_def resolved_def list_all_iff
      split: sum.splits if_splits dest!: resolve_path_resolved in_set_dropD
      intro!: rel_str_not_empty)

theorem read_file_counts_as_touched:
  assumes "read_file tx args w = (Inr r, w')" and "tr_ok r"
  shows "py_bool (data_path r) \<and> w_fs w' = w_fs w"
  using assms unfolding read_file_def resolve_or_fail_def Let_def
  by (auto elim!: mbind_InrD split: sum.splits py_error.splits if_splits
      simp: tool_failure_def tool_success_def data_path_def dict_get_def py_bool_def
      tx_relative_not_empty)

end
