(* ===== verification/Llm_Adapters.thy ===== *)
theory Llm_Adapters
  imports Providers Json_Text
begin

text \<open>
  The two adapters of the model interface: \<open>llm/scripted_provider.py\<close>, which replays a script per
  agent, and \<open>llm/anthropic_provider.py\<close>, which builds the request for the Messages API, classifies
  its failures and converts its answer. The SDK is represented by the message or the failure it
  gives; \<open>fr\<close> stands for what reading a float literal and printing it again gives. The document of a
  script file is the value that \<open>yaml.safe_load\<close> makes of it, with strings for the keys of mappings.
\<close>

section \<open>The scripted provider\<close>

record scripted_turn =
  tn_text :: pystr
  tn_tool_calls :: "(pystr \<times> dict) list"

definition turn_json :: "json \<Rightarrow> scripted_turn" where
  "turn_json payload = \<lparr>tn_text = dumps payload, tn_tool_calls = []\<rparr>"

definition turn_call :: "pystr \<Rightarrow> dict \<Rightarrow> scripted_turn" where
  "turn_call tool arguments = \<lparr>tn_text = [], tn_tool_calls = [(tool, arguments)]\<rparr>"

record scripted =
  sc_script :: "pystr \<rightharpoonup> scripted_turn list"
  sc_cursor :: "pystr \<Rightarrow> nat"
  sc_calls :: "(pystr \<times> nat) list"

definition scripted_init :: "(pystr \<rightharpoonup> scripted_turn list) \<Rightarrow> scripted" where
  "scripted_init script = \<lparr>sc_script = script, sc_cursor = (\<lambda>_. 0), sc_calls = []\<rparr>"

definition register :: "pystr \<Rightarrow> scripted_turn list \<Rightarrow> scripted \<Rightarrow> scripted" where
  "register agent turns p =
     p\<lparr>sc_script := (sc_script p)(agent \<mapsto> turns), sc_cursor := (sc_cursor p)(agent := 0)\<rparr>"

text \<open>\<open>k in v\<close>, \<open>v[k]\<close> for a string \<open>k\<close>, and \<open>dict(v)\<close>.\<close>

definition type_error_of :: "pystr \<Rightarrow> py_error" where
  "type_error_of m = OtherError ''TypeError'' m"

definition py_in :: "pystr \<Rightarrow> json \<Rightarrow> bool result" where
  "py_in k v = (case v of
       JObj d \<Rightarrow> Inr (dict_get d k \<noteq> None)
     | JArr xs \<Rightarrow> Inr (JStr k \<in> set xs)
     | JStr s \<Rightarrow> Inr (contains_sub k s)
     | _ \<Rightarrow> Inl (type_error_of ''argument is not iterable''))"

definition py_item :: "json \<Rightarrow> pystr \<Rightarrow> json result" where
  "py_item v k = (case v of
       JObj d \<Rightarrow> (case dict_get d k of Some x \<Rightarrow> Inr x | None \<Rightarrow> Inl (OtherError ''KeyError'' (repr_str k)))
     | _ \<Rightarrow> Inl (type_error_of ''indices must be integers''))"

fun dict_pairs :: "json list \<Rightarrow> dict \<Rightarrow> dict result" where
  "dict_pairs [] d = Inr d"
| "dict_pairs (x # xs) d =
     (case py_iter x of
        Inr [k, v] \<Rightarrow> dict_pairs xs (dict_set d (py_str k) v)
      | Inr _ \<Rightarrow> Inl (OtherError ''ValueError'' ''dictionary update sequence element has the wrong length'')
      | Inl e \<Rightarrow> Inl e)"

definition py_dict :: "json \<Rightarrow> dict result" where
  "py_dict v = (case v of
       JObj d \<Rightarrow> Inr d
     | _ \<Rightarrow> (case py_iter v of Inl e \<Rightarrow> Inl e | Inr xs \<Rightarrow> dict_pairs xs []))"

text \<open>
  One entry of a script file: a tool call, a structured answer, a text, or nothing. Only a mapping
  gets past \<open>turn["tool"]\<close>, so that \<open>turn.get\<close> is a mapping's.
\<close>

definition parse_turn :: "json \<Rightarrow> scripted_turn list result" where
  "parse_turn turn =
     (case py_in ''tool'' turn of
        Inl e \<Rightarrow> Inl e
      | Inr True \<Rightarrow>
          (case (py_item turn ''tool'', turn) of
             (Inl e, _) \<Rightarrow> Inl e
           | (Inr tool, JObj d) \<Rightarrow>
               (case py_dict (get_default (JObj []) (dict_get d ''arguments'')) of
                  Inl e \<Rightarrow> Inl e
                | Inr arguments \<Rightarrow> Inr [turn_call (py_str tool) arguments])
           | (Inr _, _) \<Rightarrow> Inl (type_error_of ''no attribute get''))
      | Inr False \<Rightarrow>
          (case py_in ''json'' turn of
             Inl e \<Rightarrow> Inl e
           | Inr True \<Rightarrow> map_sum id (\<lambda>p. [turn_json p]) (py_item turn ''json'')
           | Inr False \<Rightarrow>
               (case py_in ''text'' turn of
                  Inl e \<Rightarrow> Inl e
                | Inr True \<Rightarrow>
                    map_sum id (\<lambda>t. [\<lparr>tn_text = py_str t, tn_tool_calls = []\<rparr>]) (py_item turn ''text'')
                | Inr False \<Rightarrow> Inr [])))"

fun parse_turns :: "json list \<Rightarrow> scripted_turn list result" where
  "parse_turns [] = Inr []"
| "parse_turns (t # ts) =
     (case parse_turn t of
        Inl e \<Rightarrow> Inl e
      | Inr now \<Rightarrow> map_sum id (\<lambda>later. now @ later) (parse_turns ts))"

fun parse_agents :: "dict \<Rightarrow> (pystr \<rightharpoonup> scripted_turn list) \<Rightarrow> (pystr \<rightharpoonup> scripted_turn list) result" where
  "parse_agents [] script = Inr script"
| "parse_agents ((agent, turns) # rest) script =
     (case (if py_bool turns then py_iter turns else Inr []) of
        Inl e \<Rightarrow> Inl e
      | Inr ts \<Rightarrow>
          (case parse_turns ts of
             Inl e \<Rightarrow> Inl e
           | Inr parsed \<Rightarrow> parse_agents rest (script(agent \<mapsto> parsed))))"

definition from_document :: "json \<Rightarrow> scripted result" where
  "from_document document =
     (case (if py_bool document then document else JObj []) of
        JObj agents \<Rightarrow> map_sum id scripted_init (parse_agents agents (\<lambda>_. None))
      | _ \<Rightarrow> Inl (OtherError ''AttributeError'' ''no attribute items''))"

definition agent_of :: "pystr \<Rightarrow> pystr" where
  "agent_of system =
     (case find_sub ''[agent:'' system of
        None \<Rightarrow> ''default''
      | Some start \<Rightarrow>
          (case find_sub '']'' (drop start system) of
             None \<Rightarrow> ''default''
           | Some e \<Rightarrow> str_strip (drop (length ''[agent:'') (take e (drop start system)))))"

text \<open>\<open>json.loads(text)\<close> kept when it is a dict, as both adapters read a structured answer.\<close>

definition parsed_of :: "(pystr \<Rightarrow> pystr) \<Rightarrow> pystr \<Rightarrow> dict option" where
  "parsed_of fr text =
     (if text = [] then None
      else (case loads fr text of Some (JObj d) \<Rightarrow> Some d | _ \<Rightarrow> None))"

definition text_block :: "pystr \<Rightarrow> json" where
  "text_block text = JObj [(''type'', JStr ''text''), (''text'', JStr text)]"

definition tool_use_block :: "tool_invocation \<Rightarrow> json" where
  "tool_use_block call = JObj [(''type'', JStr ''tool_use''), (''id'', JStr (iv_id call)),
     (''name'', JStr (iv_name call)), (''input'', JObj (iv_arguments call))]"

definition tool_use_id :: "pystr \<Rightarrow> nat \<Rightarrow> nat \<Rightarrow> pystr" where
  "tool_use_id agent index position =
     ''toolu_'' @ agent @ ''_'' @ show_nat index @ ''_'' @ show_nat position"

definition turn_invocations :: "pystr \<Rightarrow> nat \<Rightarrow> scripted_turn \<Rightarrow> tool_invocation list" where
  "turn_invocations agent index turn =
     map (\<lambda>(position, name, args). \<lparr>iv_id = tool_use_id agent index position, iv_name = name, iv_arguments = args\<rparr>)
       (enumerate 0 (tn_tool_calls turn))"

definition finished_response :: llm_response where
  "finished_response = \<lparr>rs_text = [], rs_tool_calls = [], rs_assistant_content = JNull,
     rs_stop_reason = ''end_turn'', rs_usage = no_usage, rs_parsed = None\<rparr>"

definition turn_response :: "(pystr \<Rightarrow> pystr) \<Rightarrow> pystr \<Rightarrow> nat \<Rightarrow> scripted_turn \<Rightarrow> llm_response" where
  "turn_response fr agent index turn =
     (let calls = turn_invocations agent index turn in
      \<lparr>rs_text = tn_text turn, rs_tool_calls = calls,
       rs_assistant_content = JArr ((if tn_text turn \<noteq> [] then [text_block (tn_text turn)] else [])
          @ map tool_use_block calls),
       rs_stop_reason = (if calls \<noteq> [] then ''tool_use'' else ''end_turn''),
       rs_usage = no_usage, rs_parsed = parsed_of fr (tn_text turn)\<rparr>)"

definition scripted_generate :: "(pystr \<Rightarrow> pystr) \<Rightarrow> llm_request \<Rightarrow> scripted \<Rightarrow> llm_response \<times> scripted" where
  "scripted_generate fr rq p =
     (let agent = agent_of (rq_system rq);
          p' = p\<lparr>sc_calls := sc_calls p @ [(agent, length (rq_messages rq))]\<rparr>;
          turns = get_default [] (sc_script p agent);
          index = sc_cursor p agent in
      if length turns \<le> index then (finished_response, p')
      else (turn_response fr agent index (turns ! index),
            p'\<lparr>sc_cursor := (sc_cursor p)(agent := Suc index)\<rparr>))"

section \<open>The Claude adapter\<close>

definition PRICING :: "(pystr \<times> rat \<times> rat) list" where
  "PRICING = [(''claude-opus-5'', 5, 25), (''claude-sonnet-5'', 2, 10), (''claude-haiku-4-5'', 1, 5)]"

definition estimate_cost :: "pystr \<Rightarrow> int \<Rightarrow> int \<Rightarrow> rat" where
  "estimate_cost model input_tokens output_tokens =
     (case get_default (0, 0) (map_of PRICING model) of (rate_in, rate_out) \<Rightarrow>
        (of_int input_tokens * rate_in + of_int output_tokens * rate_out) / 1000000)"

record anthropic =
  an_model :: pystr
  an_max_tokens :: int
  an_effort :: pystr

definition anthropic_init :: "(pystr option \<Rightarrow> unit result) \<Rightarrow> pystr option \<Rightarrow> pystr \<Rightarrow> int \<Rightarrow> pystr \<Rightarrow> anthropic result" where
  "anthropic_init sdk_client api_key model max_tokens effort =
     (case sdk_client (if api_key = Some [] then None else api_key) of
        Inl e \<Rightarrow> Inl (ConfigurationError (''cannot construct Anthropic client: '' @ error_message e))
      | Inr _ \<Rightarrow> Inr \<lparr>an_model = model, an_max_tokens = max_tokens, an_effort = effort\<rparr>)"

definition int_or_default :: "int option \<Rightarrow> int \<Rightarrow> int" where
  "int_or_default x d = (case x of Some n \<Rightarrow> if n \<noteq> 0 then n else d | None \<Rightarrow> d)"

text \<open>The request: \<open>max_tokens or self.max_tokens\<close>, \<open>effort or self.effort\<close>, tools only when there are some.\<close>

definition output_config :: "anthropic \<Rightarrow> pystr option \<Rightarrow> json option \<Rightarrow> json" where
  "output_config a effort schema =
     JObj ([(''effort'', JStr (case effort of Some e \<Rightarrow> if e \<noteq> [] then e else an_effort a | None \<Rightarrow> an_effort a))]
       @ (case schema of None \<Rightarrow> []
          | Some sch \<Rightarrow> [(''format'', JObj [(''type'', JStr ''json_schema''), (''schema'', sch)])]))"

definition anthropic_request :: "anthropic \<Rightarrow> int option \<Rightarrow> pystr option \<Rightarrow> llm_request \<Rightarrow> dict" where
  "anthropic_request a max_tokens effort rq =
     [(''model'', JStr (an_model a)), (''max_tokens'', JInt (int_or_default max_tokens (an_max_tokens a))),
      (''system'', JArr [JObj [(''type'', JStr ''text''), (''text'', JStr (rq_system rq)),
         (''cache_control'', JObj [(''type'', JStr ''ephemeral'')])]]),
      (''messages'', JArr (rq_messages rq)), (''thinking'', JObj [(''type'', JStr ''adaptive'')]),
      (''output_config'', output_config a effort (rq_json_schema rq))]
     @ (if rq_tools rq \<noteq> [] then [(''tools'', JArr (map tool_spec_dict (rq_tools rq)))] else [])"

datatype content_block =
    Text_Block pystr
  | Tool_Use_Block pystr pystr dict
  | Other_Block json

record api_message =
  am_content :: "content_block list"
  am_stop_reason :: "pystr option"
  am_input_tokens :: "int option"
  am_output_tokens :: "int option"
  am_cache_read_input_tokens :: "int option"

text \<open>What the SDK raises: \<open>RateLimitError\<close> is the status error 429, with a class of its own.\<close>

datatype sdk_error =
    Rate_Limit_Error pystr
  | API_Connection_Error pystr
  | API_Status_Error int pystr
  | Other_Sdk_Error pystr pystr

definition classify :: "sdk_error \<Rightarrow> py_error" where
  "classify e = (case e of
       Rate_Limit_Error m \<Rightarrow> TransientInfrastructureError (''rate limited: '' @ m)
     | API_Connection_Error m \<Rightarrow> TransientInfrastructureError (''connection error: '' @ m)
     | API_Status_Error c m \<Rightarrow>
         if 500 \<le> c then TransientInfrastructureError (''upstream '' @ show_int c)
         else OtherError ''APIStatusError'' m
     | Other_Sdk_Error c m \<Rightarrow> OtherError c m)"

fun block_texts :: "content_block list \<Rightarrow> pystr list" where
  "block_texts [] = []"
| "block_texts (Text_Block t # bs) = t # block_texts bs"
| "block_texts (_ # bs) = block_texts bs"

fun block_calls :: "content_block list \<Rightarrow> tool_invocation list" where
  "block_calls [] = []"
| "block_calls (Tool_Use_Block i n args # bs) = \<lparr>iv_id = i, iv_name = n, iv_arguments = args\<rparr> # block_calls bs"
| "block_calls (_ # bs) = block_calls bs"

text \<open>A content block as it is sent back with the next request.\<close>

fun native_block :: "content_block \<Rightarrow> json" where
  "native_block (Text_Block t) = text_block t"
| "native_block (Tool_Use_Block i n args) = tool_use_block \<lparr>iv_id = i, iv_name = n, iv_arguments = args\<rparr>"
| "native_block (Other_Block j) = j"

definition message_usage :: "pystr \<Rightarrow> api_message \<Rightarrow> usage" where
  "message_usage model m =
     (let i = int_or_default (am_input_tokens m) 0; k = int_or_default (am_output_tokens m) 0 in
      \<lparr>us_input_tokens = i, us_output_tokens = k,
       us_cache_read_tokens = int_or_default (am_cache_read_input_tokens m) 0,
       us_cost_usd = estimate_cost model i k\<rparr>)"

definition to_response :: "(pystr \<Rightarrow> pystr) \<Rightarrow> anthropic \<Rightarrow> api_message \<Rightarrow> llm_response" where
  "to_response fr a m =
     (let text = str_strip (str_join [CHR 0x0A] (block_texts (am_content m))) in
      \<lparr>rs_text = text, rs_tool_calls = block_calls (am_content m),
       rs_assistant_content = JArr (map native_block (am_content m)),
       rs_stop_reason = (case am_stop_reason m of Some r \<Rightarrow> if r \<noteq> [] then r else ''end_turn'' | None \<Rightarrow> ''end_turn''),
       rs_usage = message_usage (an_model a) m, rs_parsed = parsed_of fr text\<rparr>)"

text \<open>\<open>sdk\<close> is the service: the final message of the stream, or what the SDK raises.\<close>

definition anthropic_generate :: "(pystr \<Rightarrow> pystr) \<Rightarrow> (dict \<Rightarrow> sdk_error + api_message) \<Rightarrow> anthropic
    \<Rightarrow> int option \<Rightarrow> pystr option \<Rightarrow> llm_request \<Rightarrow> llm_response result" where
  "anthropic_generate fr sdk a max_tokens effort rq =
     (case sdk (anthropic_request a max_tokens effort rq) of
        Inl e \<Rightarrow> Inl (classify e)
      | Inr message \<Rightarrow> Inr (to_response fr a message))"

section \<open>Replaying a script\<close>

fun generate_all :: "(pystr \<Rightarrow> pystr) \<Rightarrow> llm_request list \<Rightarrow> scripted \<Rightarrow> llm_response list \<times> scripted" where
  "generate_all fr [] p = ([], p)"
| "generate_all fr (rq # rqs) p =
     (case scripted_generate fr rq p of (r, p') \<Rightarrow>
        (case generate_all fr rqs p' of (rs, q) \<Rightarrow> (r # rs, q)))"

definition answers_to :: "pystr \<Rightarrow> llm_request list \<Rightarrow> llm_response list \<Rightarrow> llm_response list" where
  "answers_to agent rqs rs = map snd (filter (\<lambda>(rq, r). agent_of (rq_system rq) = agent) (zip rqs rs))"

text \<open>The answer number \<open>i\<close> an agent gets: its turn \<open>i\<close>, and the end of the turn when there is none.\<close>

definition scripted_answer :: "(pystr \<Rightarrow> pystr) \<Rightarrow> pystr \<Rightarrow> scripted_turn list \<Rightarrow> nat \<Rightarrow> llm_response" where
  "scripted_answer fr agent turns i =
     (if i < length turns then turn_response fr agent i (turns ! i) else finished_response)"

definition all_tool_ids :: "llm_response list \<Rightarrow> pystr list" where
  "all_tool_ids rs = concat (map (\<lambda>r. map iv_id (rs_tool_calls r)) rs)"

lemma scripted_answer_after_end:
  "length turns \<le> c \<Longrightarrow> map (scripted_answer fr a turns) [c..<c + n] = map (scripted_answer fr a turns) [Suc c..<Suc c + n]"
  by (induction n) (simp_all add: scripted_answer_def)

lemma scripted_generate_eq:
  "scripted_generate fr rq p = (case agent_of (rq_system rq) of a \<Rightarrow>
     (scripted_answer fr a (get_default [] (sc_script p a)) (sc_cursor p a),
      p\<lparr>sc_calls := sc_calls p @ [(a, length (rq_messages rq))],
        sc_cursor := (sc_cursor p)(a := (if sc_cursor p a < length (get_default [] (sc_script p a))
            then Suc (sc_cursor p a) else sc_cursor p a))\<rparr>))"
  by (simp add: scripted_generate_def scripted_answer_def Let_def)

lemma generate_all_answers:
  "generate_all fr rqs p = (rs, q) \<Longrightarrow>
     length rs = length rqs
     \<and> sc_calls q = sc_calls p @ map (\<lambda>rq. (agent_of (rq_system rq), length (rq_messages rq))) rqs
     \<and> answers_to a rqs rs = map (scripted_answer fr a (get_default [] (sc_script p a)))
         [sc_cursor p a..<sc_cursor p a + length (answers_to a rqs rs)]"
proof (induction rqs arbitrary: p rs)
  case (Cons rq rqs)
  obtain r p' where g: "scripted_generate fr rq p = (r, p')" by fastforce
  with Cons.prems obtain rs' where rs: "rs = r # rs'" "generate_all fr rqs p' = (rs', q)"
    by (auto split: prod.splits)
  note ih = Cons.IH [OF rs(2)]
  let ?n = "length (answers_to a rqs rs')"
  have "map (scripted_answer fr a (get_default [] (sc_script p a))) [Suc (sc_cursor p a)..<Suc (sc_cursor p a + ?n)]
      = answers_to a rqs rs'" if "agent_of (rq_system rq) = a"
    using ih g that scripted_answer_after_end [of "get_default [] (sc_script p a)" "sc_cursor p a" fr a ?n]
    by (auto simp: scripted_generate_eq split: if_splits)
  then show ?case
    using ih g rs(1)
    by (auto simp: answers_to_def scripted_generate_eq upt_conv_Cons simp del: upt_Suc split: if_splits)
qed (simp add: answers_to_def)

text \<open>The identifiers of tool calls are made of the agent and two numbers, and so tell them apart.\<close>

lemma show_nat_inject: "show_nat m = show_nat n \<longleftrightarrow> m = n"
  by (metis show_nat_value)

lemma no_underscore: "CHR ''_'' \<notin> set (show_nat n)"
proof
  assume "CHR ''_'' \<in> set (show_nat n)"
  moreover have "list_all is_digit (show_nat n)" by (simp add: show_nat_digits)
  ultimately have "is_digit (CHR ''_'')" by (auto simp: list_all_iff)
  then show False by (simp add: is_digit_def in_ranges_def)
qed

lemma append_sep_inject:
  assumes "xs @ c # ys = xs' @ c # ys'" and "c \<notin> set ys" and "c \<notin> set ys'"
  shows "xs = xs' \<and> ys = ys'"
proof -
  have "rev ys @ c # rev xs = rev ys' @ c # rev xs'"
    using arg_cong [OF assms(1), of rev] by simp
  then have "takeWhile (\<lambda>x. x \<noteq> c) (rev ys @ c # rev xs) = takeWhile (\<lambda>x. x \<noteq> c) (rev ys' @ c # rev xs')"
    by simp
  moreover have "takeWhile (\<lambda>x. x \<noteq> c) (rev zs @ c # ws) = rev zs" if "c \<notin> set zs" for zs ws
    using that by (subst takeWhile_append2) auto
  ultimately have "ys = ys'" using assms(2,3) by simp
  with assms(1) show ?thesis by simp
qed

lemma tool_use_id_inject: "tool_use_id a i j = tool_use_id b k l \<longleftrightarrow> a = b \<and> i = k \<and> j = l"
proof
  assume "tool_use_id a i j = tool_use_id b k l"
  then have eq: "(a @ CHR ''_'' # show_nat i) @ CHR ''_'' # show_nat j = (b @ CHR ''_'' # show_nat k) @ CHR ''_'' # show_nat l"
    by (simp add: tool_use_id_def)
  from append_sep_inject [OF this no_underscore no_underscore]
  have "a @ CHR ''_'' # show_nat i = b @ CHR ''_'' # show_nat k" "show_nat j = show_nat l" by simp_all
  with append_sep_inject [OF this(1) no_underscore no_underscore] show "a = b \<and> i = k \<and> j = l"
    by (simp add: show_nat_inject)
qed simp

lemma scripted_answer_ids: "map iv_id (rs_tool_calls (scripted_answer fr a turns i)) =
    (if i < length turns then map (tool_use_id a i) [0..<length (tn_tool_calls (turns ! i))] else [])"
proof -
  have "map iv_id (turn_invocations a i t) = map (tool_use_id a i) [0..<length (tn_tool_calls t)]" for t
    by (rule nth_equalityI) (simp_all add: turn_invocations_def nth_enumerate_eq split_beta)
  then show ?thesis by (simp add: scripted_answer_def turn_response_def finished_response_def Let_def)
qed

lemma generate_all_ids:
  "generate_all fr rqs p = (rs, q) \<Longrightarrow>
     distinct (all_tool_ids rs) \<and>
     (\<forall>x\<in>set (all_tool_ids rs). \<exists>a i k. x = tool_use_id a i k \<and> sc_cursor p a \<le> i)"
proof (induction rqs arbitrary: p rs)
  case (Cons rq rqs)
  let ?a = "agent_of (rq_system rq)"
  let ?turns = "get_default [] (sc_script p ?a)"
  obtain r p' where g: "scripted_generate fr rq p = (r, p')" by fastforce
  with Cons.prems obtain rs' where rs: "rs = r # rs'" "generate_all fr rqs p' = (rs', q)"
    by (auto split: prod.splits)
  note ih = Cons.IH [OF rs(2)]
  have r: "map iv_id (rs_tool_calls r) = (if sc_cursor p ?a < length ?turns
      then map (tool_use_id ?a (sc_cursor p ?a)) [0..<length (tn_tool_calls (?turns ! sc_cursor p ?a))] else [])"
  proof -
    from g have "r = scripted_answer fr ?a ?turns (sc_cursor p ?a)" by (simp add: scripted_generate_eq)
    then show ?thesis by (simp only: scripted_answer_ids)
  qed
  have cur: "sc_cursor p b \<le> sc_cursor p' b" "sc_cursor p ?a < length ?turns \<Longrightarrow> sc_cursor p' ?a = Suc (sc_cursor p ?a)" for b
    using g by (auto simp: scripted_generate_eq)
  have ids: "all_tool_ids rs = map iv_id (rs_tool_calls r) @ all_tool_ids rs'"
    by (simp add: rs(1) all_tool_ids_def)
  have "distinct (map iv_id (rs_tool_calls r))"
    by (simp add: r distinct_map inj_on_def tool_use_id_inject)
  moreover have "set (map iv_id (rs_tool_calls r)) \<inter> set (all_tool_ids rs') = {}"
  proof (cases "sc_cursor p ?a < length ?turns")
    case True
    have "x \<notin> set (all_tool_ids rs')" if "x = tool_use_id ?a (sc_cursor p ?a) k" for x k
      using ih cur(2) [OF True] that by (fastforce simp: tool_use_id_inject)
    then show ?thesis unfolding r using True by auto
  qed (simp add: r)
  moreover have "\<forall>x\<in>set (all_tool_ids rs). \<exists>a i k. x = tool_use_id a i k \<and> sc_cursor p a \<le> i"
    using ih cur(1) unfolding ids set_append r by (fastforce intro: le_trans split: if_splits)
  ultimately show ?case using ih unfolding ids by simp
qed (simp add: all_tool_ids_def)

text \<open>
  C25: the scripted provider replays. Whatever requests the agents make and however they interleave,
  each agent gets the turns of its own script in order, once each, and after the last one an answer
  that ends the turn; every request is recorded in order; and no two tool calls of a run have the
  same identifier.
\<close>

theorem scripted_provider_replays:
  "case generate_all fr rqs (scripted_init script) of (rs, q) \<Rightarrow>
     answers_to a rqs rs = map (scripted_answer fr a (get_default [] (script a))) [0..<length (answers_to a rqs rs)]
     \<and> length rs = length rqs
     \<and> sc_calls q = map (\<lambda>rq. (agent_of (rq_system rq), length (rq_messages rq))) rqs
     \<and> distinct (all_tool_ids rs)"
  using generate_all_answers [of fr rqs "scripted_init script" _ _ a] generate_all_ids [of fr rqs "scripted_init script"]
  by (auto simp: scripted_init_def split: prod.splits)

text \<open>A structured answer of a script is read back as the dictionary it was written from.\<close>

lemma scripted_json_parsed:
  assumes "storable fr (JObj d)"
  shows "rs_parsed (turn_response fr a i (turn_json (JObj d))) = Some d"
proof -
  have "loads fr (dumps (JObj d)) = Some (JObj d)" using assms by (rule loads_dumps)
  moreover have "dumps (JObj d) \<noteq> []" by (simp add: dumps_def enclosed_def)
  ultimately show ?thesis
    by (simp add: turn_response_def turn_json_def parsed_of_def Let_def)
qed

section \<open>The Claude adapter keeps its books\<close>

lemma estimate_cost_add:
  "estimate_cost m (a + b) (c + d) = estimate_cost m a c + estimate_cost m b d"
  by (simp add: estimate_cost_def split_beta add_divide_distrib [symmetric] algebra_simps)

definition priced :: "pystr \<Rightarrow> usage \<Rightarrow> bool" where
  "priced model u \<longleftrightarrow> us_cost_usd u = estimate_cost model (us_input_tokens u) (us_output_tokens u)"

lemma priced_merge: "priced m u \<Longrightarrow> priced m v \<Longrightarrow> priced m (usage_merge u v)"
  by (simp add: priced_def usage_merge_def estimate_cost_add)

lemma priced_no_usage: "priced m no_usage"
  by (simp add: priced_def no_usage_def estimate_cost_def split_beta)

text \<open>
  what a turn of the Claude adapter gives. Failures worth retrying (a rate limit, a lost
  connection, a status of 500 or more) and only those become a transient error; an answer keeps the
  content as it came, its tool calls are the tool-use blocks of that content in order, and the usage
  merged over any sequence of answers is priced by the tokens it counts.
\<close>

theorem anthropic_turns:
  "(case sdk (anthropic_request a mt ef rq) of
      Inl e \<Rightarrow> (\<exists>m. anthropic_generate fr sdk a mt ef rq = Inl (TransientInfrastructureError m)) \<longleftrightarrow>
        (case e of Rate_Limit_Error _ \<Rightarrow> True | API_Connection_Error _ \<Rightarrow> True
         | API_Status_Error c _ \<Rightarrow> c \<ge> 500 | Other_Sdk_Error _ _ \<Rightarrow> False)
    | Inr message \<Rightarrow> (\<exists>r. anthropic_generate fr sdk a mt ef rq = Inr r
        \<and> rs_assistant_content r = JArr (map native_block (am_content message))
        \<and> map tool_use_block (rs_tool_calls r) =
            map native_block (filter (\<lambda>b. case b of Tool_Use_Block _ _ _ \<Rightarrow> True | _ \<Rightarrow> False) (am_content message))))
   \<and> priced (an_model a) (fold (\<lambda>m u. usage_merge u (rs_usage (to_response fr a m))) ms no_usage)"
proof
  have calls: "map tool_use_block (block_calls bs) =
      map native_block (filter (\<lambda>b. case b of Tool_Use_Block _ _ _ \<Rightarrow> True | _ \<Rightarrow> False) bs)" for bs
    by (induction bs rule: block_calls.induct) simp_all
  show "case sdk (anthropic_request a mt ef rq) of
      Inl e \<Rightarrow> (\<exists>m. anthropic_generate fr sdk a mt ef rq = Inl (TransientInfrastructureError m)) \<longleftrightarrow>
        (case e of Rate_Limit_Error _ \<Rightarrow> True | API_Connection_Error _ \<Rightarrow> True
         | API_Status_Error c _ \<Rightarrow> c \<ge> 500 | Other_Sdk_Error _ _ \<Rightarrow> False)
    | Inr message \<Rightarrow> (\<exists>r. anthropic_generate fr sdk a mt ef rq = Inr r
        \<and> rs_assistant_content r = JArr (map native_block (am_content message))
        \<and> map tool_use_block (rs_tool_calls r) =
            map native_block (filter (\<lambda>b. case b of Tool_Use_Block _ _ _ \<Rightarrow> True | _ \<Rightarrow> False) (am_content message)))"
    by (auto simp: anthropic_generate_def classify_def to_response_def Let_def calls
        split: sum.split sdk_error.split)
next
  have "priced (an_model a) (rs_usage (to_response fr a m))" for m
    by (simp add: to_response_def message_usage_def priced_def Let_def)
  then have "priced (an_model a) u \<Longrightarrow>
      priced (an_model a) (fold (\<lambda>m u. usage_merge u (rs_usage (to_response fr a m))) ms u)" for u
    by (induction ms arbitrary: u) (simp_all add: priced_merge)
  then show "priced (an_model a) (fold (\<lambda>m u. usage_merge u (rs_usage (to_response fr a m))) ms no_usage)"
    using priced_no_usage by blast
qed

end
