(* ===== verification/Clock.thy ===== *)
theory Clock
  imports Prelude
begin

text \<open>
  The text of a time (\<open>core/time.py\<close>, and \<open>datetime.isoformat\<close> as the event bus, the event stream and
  the local review records use it). An instant is a number of microseconds since 1970 in UTC. The
  calendar is the proleptic Gregorian one of the standard library, computed the way \<open>datetime\<close> computes
  it: cycles of 400, 100, 4 and 1 years, then the months of the year.
\<close>

section \<open>The calendar\<close>

text \<open>The last day of a cycle of 4 or 400 years is the one where the quotient would be 4.\<close>

definition days_before_year :: "int \<Rightarrow> int" where
  "days_before_year y = (let n = y - 1 in n * 365 + n div 4 - n div 100 + n div 400)"

definition is_leap :: "int \<Rightarrow> bool" where
  "is_leap y \<longleftrightarrow> y mod 4 = 0 \<and> (y mod 100 \<noteq> 0 \<or> y mod 400 = 0)"

definition month_lengths :: "int \<Rightarrow> int list" where
  "month_lengths y = [31, if is_leap y then 29 else 28, 31, 30, 31, 30, 31, 31, 30, 31, 30, 31]"

definition year_of :: "int \<Rightarrow> int \<times> int" where
  "year_of n =
     (let n400 = n div 146097; a = n mod 146097;
          n100 = min 3 (a div 36524); b = a - n100 * 36524;
          n4 = b div 1461; c = b mod 1461;
          n1 = min 3 (c div 365)
      in (n400 * 400 + n100 * 100 + n4 * 4 + n1 + 1, c - n1 * 365))"

fun month_of :: "int list \<Rightarrow> int \<Rightarrow> int \<Rightarrow> int \<times> int" where
  "month_of [] m d = (m, d + 1)"
| "month_of (l # ls) m d = (if d < l then (m, d + 1) else month_of ls (m + 1) (d - l))"

text \<open>Year, month and day of a day number, where day 0 is the first of January of year 1.\<close>

definition ymd_of :: "int \<Rightarrow> int \<times> int \<times> int" where
  "ymd_of n = (case year_of n of (y, d) \<Rightarrow> (y, month_of (month_lengths y) 1 d))"

definition day_number :: "int \<times> int \<times> int \<Rightarrow> int" where
  "day_number = (\<lambda>(y, m, d). days_before_year y + sum_list (take (nat (m - 1)) (month_lengths y)) + d - 1)"

section \<open>The text\<close>

definition pad :: "nat \<Rightarrow> int \<Rightarrow> pystr" where
  "pad k n = (let t = show_nat (nat n) in replicate (k - length t) (CHR ''0'') @ t)"

text \<open>The microseconds are printed only when there are any; the offset of UTC is \<open>+00:00\<close>.\<close>

definition isoformat :: "int \<Rightarrow> pystr" where
  "isoformat t =
     (let second = t div 1000000; micro = t mod 1000000; clock = second mod 86400 in
      case ymd_of (second div 86400 + 719162) of (y, m, d) \<Rightarrow>
        pad 4 y @ ''-'' @ pad 2 m @ ''-'' @ pad 2 d @ ''T'' @ pad 2 (clock div 3600) @ '':'' @ pad 2 (clock div 60 mod 60)
        @ '':'' @ pad 2 (clock mod 60) @ (if micro = 0 then [] else ''.'' @ pad 6 micro) @ ''+00:00'')"

section \<open>The calendar is exact\<close>

lemma capped_division:
  fixes a k :: int
  assumes "0 \<le> a" and "a \<le> 4 * k" and "0 < k" and h: "h = min 3 (a div k)"
  shows "0 \<le> h" "h \<le> 3" "0 \<le> a - h * k" "h < 3 \<longrightarrow> a - h * k < k" "a - h * k \<le> k"
proof -
  have a: "a = a div k * k + a mod k" "0 \<le> a mod k" "a mod k < k" using assms(3) by simp_all
  show "0 \<le> h" "h \<le> 3" using assms by (simp_all add: pos_imp_zdiv_nonneg_iff)
  have three: "3 \<le> a div k \<Longrightarrow> 3 * k \<le> a" using a mult_right_mono [of 3 "a div k" k] assms(3) by linarith
  show "0 \<le> a - h * k" "h < 3 \<longrightarrow> a - h * k < k" "a - h * k \<le> k"
    using three a assms(2) by (cases "3 \<le> a div k"; simp add: h; linarith)+
qed

lemma year_of_split:
  assumes "year_of n = (y, d)"
  shows "n = days_before_year y + d" and "0 \<le> d" and "d < 365 + (if is_leap y then 1 else 0)"
proof -
  define q a where "q = n div 146097" and "a = n mod 146097"
  define h b where "h = min 3 (a div 36524)" and "b = a - h * 36524"
  define f c where "f = b div 1461" and "c = b mod 1461"
  define o1 where "o1 = min 3 (c div 365)"
  have yd: "y = q * 400 + h * 100 + f * 4 + o1 + 1" "d = c - o1 * 365"
    using assms unfolding year_of_def Let_def q_def a_def h_def b_def f_def c_def o1_def by blast+
  have n: "n = q * 146097 + a" "0 \<le> a" "a < 146097" by (simp_all add: q_def a_def)
  have h: "0 \<le> h" "h \<le> 3" "0 \<le> b" "h < 3 \<longrightarrow> b < 36524" "b \<le> 36524"
    using capped_division [OF n(2) _ _ h_def] n(3) unfolding b_def by simp_all
  have b: "b = f * 1461 + c" "0 \<le> c" "c < 1461" by (simp_all add: f_def c_def)
  have f: "0 \<le> f" "f \<le> 24" using b h(3,5) by linarith+
  have o1: "0 \<le> o1" "o1 \<le> 3" "0 \<le> d" "o1 < 3 \<longrightarrow> d < 365" "d \<le> 365"
    using capped_division [OF b(2) _ _ o1_def] b(3) unfolding yd(2) by simp_all
  have m: "y - 1 = q * 400 + (h * 100 + (f * 4 + o1))" using yd by simp
  have r: "f * 4 + o1 < 100" "h * 100 + (f * 4 + o1) < 400" using f h(1,2) o1(1,2) by linarith+
  have d400: "(y - 1) div 400 = q"
    using m r h(1,2) f o1(1,2) by (intro int_div_pos_eq [where r = "h * 100 + (f * 4 + o1)"]) simp_all
  have d100: "(y - 1) div 100 = q * 4 + h"
    using m r h(1,2) f o1(1,2) by (intro int_div_pos_eq [where r = "f * 4 + o1"]) simp_all
  have d4: "(y - 1) div 4 = q * 100 + h * 25 + f"
    using m r h(1,2) f o1(1,2) by (intro int_div_pos_eq [where r = "o1"]) simp_all
  show "n = days_before_year y + d"
    unfolding days_before_year_def Let_def d400 d100 d4 using n(1) b(1) yd b_def by (simp add: algebra_simps)
  show "0 \<le> d" by (fact o1)
  show "d < 365 + (if is_leap y then 1 else 0)"
  proof (cases "d = 365")
    case True
    with o1 have o3: "o1 = 3" by auto
    with True yd have c: "c = 1460" by simp
    then have "f = 24 \<longrightarrow> h = 3" using b(1) h by auto
    then consider "f < 24" | "f = 24" "h = 3" using f by linarith
    then have "is_leap y"
    proof cases
      case 1
      have y: "y = 4 * (q * 100 + h * 25 + f + 1)" "y = (q * 4 + h) * 100 + (4 * f + 4)" using yd o3 by auto
      have "y mod 100 = 4 * f + 4" using 1 f(1) by (intro int_mod_pos_eq [where q = "q * 4 + h"]) (simp_all add: y(2))
      moreover have "y mod 4 = 0" unfolding y(1) by simp
      ultimately show ?thesis using f(1) by (simp add: is_leap_def)
    next
      case 2
      then have y: "y = 400 * (q + 1)" using yd o3 by simp
      have "y mod 400 = 0" "y mod 4 = 0" unfolding y by simp_all
      then show ?thesis by (simp add: is_leap_def)
    qed
    with True show ?thesis by simp
  qed (use o1 in auto)
qed

lemma month_of_split:
  assumes "month_of ls m d = (m', d')" and "0 \<le> d" and "d < sum_list ls"
  shows "m \<le> m' \<and> m' < m + int (length ls) \<and> d' \<le> ls ! nat (m' - m) \<and> 1 \<le> d'
    \<and> d = sum_list (take (nat (m' - m)) ls) + d' - 1"
  using assms
proof (induction ls m d rule: month_of.induct)
  case (2 l ls m d)
  show ?case
  proof (cases "d < l")
    case False
    with 2 have IH: "m + 1 \<le> m' \<and> m' < m + 1 + int (length ls) \<and> d' \<le> ls ! nat (m' - (m + 1)) \<and> 1 \<le> d'
      \<and> d - l = sum_list (take (nat (m' - (m + 1))) ls) + d' - 1" by simp
    then have "nat (m' - m) = Suc (nat (m' - (m + 1)))" by linarith
    with IH show ?thesis by simp
  qed (use 2 in auto)
qed simp

lemma month_lengths_sum: "sum_list (month_lengths y) = 365 + (if is_leap y then 1 else 0)"
  by (simp add: month_lengths_def)

text \<open>
  The date of a day is a date of the calendar and determines the day.
\<close>

theorem ymd_round_trip:
  "case ymd_of n of (y, m, d) \<Rightarrow>
     day_number (y, m, d) = n \<and> 1 \<le> m \<and> m \<le> 12 \<and> 1 \<le> d \<and> d \<le> month_lengths y ! nat (m - 1)"
proof -
  obtain y d where yd: "year_of n = (y, d)" by fastforce
  obtain m d' where md: "month_of (month_lengths y) 1 d = (m, d')" by fastforce
  note s = year_of_split [OF yd]
  have "d < sum_list (month_lengths y)" using s(3) by (simp only: month_lengths_sum)
  moreover have "length (month_lengths y) = 12" by (simp add: month_lengths_def)
  ultimately have "day_number (y, m, d') = n \<and> 1 \<le> m \<and> m \<le> 12 \<and> 1 \<le> d' \<and> d' \<le> month_lengths y ! nat (m - 1)"
    using month_of_split [OF md s(2)] s(1) by (auto simp: day_number_def)
  then show ?thesis by (simp only: ymd_of_def yd prod.case md)
qed

end
