(* ===== verification/Service_Adapters.thy ===== *)
theory Service_Adapters
  imports Git_Tools Factories Sha256 Llm_Adapters Clock
begin

text \<open>
  The adapters of the CI and source-control interfaces: \<open>providers/ci/github_actions.py\<close>, \<open>noop.py\<close>,
  \<open>providers/scm/local.py\<close>, \<open>github.py\<close> and \<open>azure_devops.py\<close>, and the calls of the interfaces on
  the provider that was chosen. The HTTP client of an adapter is the computation \<open>send\<close>, which gives the
  response to a request or raises; in the worker it reads the answers of the environment. Pushing runs
  \<open>git\<close> through the command runner. Fields of an answer that the services document as text are read
  with \<open>str\<close>.
\<close>

section \<open>HTTP\<close>

definition http_get :: "pystr \<Rightarrow> dict \<Rightarrow> http_request" where
  "http_get url params = \<lparr>hq_method = ''GET'', hq_url = url, hq_params = params, hq_json = None\<rparr>"

definition http_post :: "pystr \<Rightarrow> dict \<Rightarrow> dict \<Rightarrow> http_request" where
  "http_post url params body =
     \<lparr>hq_method = ''POST'', hq_url = url, hq_params = params, hq_json = Some (JObj body)\<rparr>"

definition raise_for_status :: "http_response \<Rightarrow> ('s, unit) eff" where
  "raise_for_status r =
     (if 200 \<le> hs_status r \<and> hs_status r \<le> 299 then ret ()
      else raise (OtherError ''HTTPStatusError'' (show_int (hs_status r))))"

definition response_json :: "http_response \<Rightarrow> ('s, json) eff" where
  "response_json r = (case hs_body r of
       Some j \<Rightarrow> ret j
     | None \<Rightarrow> raise (OtherError ''JSONDecodeError'' ''Expecting value''))"

text \<open>\<open>v.get(k, d)\<close> and \<open>v.upper()\<close>.\<close>

definition py_get :: "json \<Rightarrow> pystr \<Rightarrow> json \<Rightarrow> json result" where
  "py_get v k d = (case v of
       JObj m \<Rightarrow> Inr (get_default d (dict_get m k))
     | _ \<Rightarrow> Inl (OtherError ''AttributeError'' ''no attribute get''))"

definition py_upper :: "json \<Rightarrow> pystr result" where
  "py_upper v = (case v of JStr s \<Rightarrow> Inr (str_upper s) | _ \<Rightarrow> Inl (OtherError ''AttributeError'' ''no attribute upper''))"

section \<open>GitHub Actions\<close>

definition CONCLUSION_MAP :: "(pystr \<times> ci_status) list" where
  "CONCLUSION_MAP = [(''success'', CI_PASS), (''failure'', CI_FAIL), (''timed_out'', CI_TIMEOUT),
     (''cancelled'', CI_FAIL), (''startup_failure'', CI_FAIL), (''skipped'', CI_SKIP), (''neutral'', CI_PASS)]"

text \<open>\<open>_CONCLUSION_MAP.get(conclusion or "", FAILED)\<close>: a list or a dict is not hashable.\<close>

definition conclusion_status :: "json \<Rightarrow> ci_status result" where
  "conclusion_status conclusion =
     (case (if py_bool conclusion then conclusion else JStr []) of
        JStr s \<Rightarrow> Inr (get_default CI_FAIL (map_of CONCLUSION_MAP s))
      | JArr _ \<Rightarrow> Inl (type_error_of ''unhashable type'')
      | JObj _ \<Rightarrow> Inl (type_error_of ''unhashable type'')
      | _ \<Rightarrow> Inr CI_FAIL)"

definition run_status :: "json \<Rightarrow> ci_status result" where
  "run_status run =
     (case py_get run ''status'' JNull of
        Inl e \<Rightarrow> Inl e
      | Inr status \<Rightarrow>
          if status \<in> JStr ` {''queued'', ''waiting'', ''requested'', ''pending''} then Inr CI_PENDING
          else if status = JStr ''in_progress'' then Inr CI_RUN
          else (case py_get run ''conclusion'' JNull of Inl e \<Rightarrow> Inl e | Inr c \<Rightarrow> conclusion_status c))"

definition to_result :: "json \<Rightarrow> ci_result result" where
  "to_result run =
     (case run_status run of
        Inl e \<Rightarrow> Inl e
      | Inr verdict \<Rightarrow>
          (case py_item run ''id'' of
             Inl e \<Rightarrow> Inl e
           | Inr i \<Rightarrow>
               (case py_get run ''html_url'' (JStr []) of
                  Inl e \<Rightarrow> Inl e
                | Inr url \<Rightarrow> Inr \<lparr>ci_id = py_str i, ci_state = verdict, ci_url = py_str url, ci_logs = []\<rparr>)))"

definition runs_url :: "pystr \<Rightarrow> pystr" where
  "runs_url repository = ''/repos/'' @ repository @ ''/actions/runs''"

definition list_runs :: "(http_request \<Rightarrow> ('s, http_response) eff) \<Rightarrow> pystr \<Rightarrow> pystr \<Rightarrow> ('s, json list) eff" where
  "list_runs send repository branch =
     mbind (send (http_get (runs_url repository) [(''branch'', JStr branch), (''per_page'', JInt 10)])) (\<lambda>response.
     if hs_status response \<ge> 500
     then raise (TransientInfrastructureError (''github actions '' @ show_int (hs_status response)))
     else mbind (raise_for_status response) (\<lambda>_. mbind (response_json response) (\<lambda>body.
       mbind (lift_result (py_get body ''workflow_runs'' (JArr []))) (\<lambda>runs. lift_result (py_iter runs)))))"

text \<open>The inner loop of \<open>trigger\<close>: the first run of the commit, or of the branch when none is given.\<close>

fun find_run :: "pystr option \<Rightarrow> json list \<Rightarrow> ci_result option result" where
  "find_run commit_sha [] = Inr None"
| "find_run commit_sha (run # runs) =
     (case commit_sha of
        None \<Rightarrow> map_sum id Some (to_result run)
      | Some sha \<Rightarrow>
          (case py_get run ''head_sha'' JNull of
             Inl e \<Rightarrow> Inl e
           | Inr head \<Rightarrow> if head = JStr sha then map_sum id Some (to_result run) else find_run commit_sha runs))"

definition no_run :: "pystr \<Rightarrow> ci_result" where
  "no_run branch = \<lparr>ci_id = [], ci_state = CI_SKIP, ci_url = [], ci_logs = ''no workflow run found for '' @ branch\<rparr>"

fun trigger_attempts :: "nat \<Rightarrow> (http_request \<Rightarrow> ('s, http_response) eff) \<Rightarrow> pystr \<Rightarrow> pystr \<Rightarrow> pystr option
    \<Rightarrow> ('s, ci_result) eff" where
  "trigger_attempts 0 send repository branch commit_sha = ret (no_run branch)"
| "trigger_attempts (Suc n) send repository branch commit_sha =
     mbind (list_runs send repository branch) (\<lambda>runs.
     mbind (lift_result (find_run commit_sha runs)) (\<lambda>found.
     case found of
       Some r \<Rightarrow> ret r
     | None \<Rightarrow> trigger_attempts n send repository branch commit_sha))"

definition github_trigger ::
  "(http_request \<Rightarrow> ('s, http_response) eff) \<Rightarrow> pystr \<Rightarrow> pystr \<Rightarrow> pystr option \<Rightarrow> ('s, ci_result) eff" where
  "github_trigger send repository branch commit_sha = trigger_attempts 6 send repository branch commit_sha"

definition skipped_run :: "pystr \<Rightarrow> ci_result" where
  "skipped_run i = \<lparr>ci_id = i, ci_state = CI_SKIP, ci_url = [], ci_logs = []\<rparr>"

definition github_get_status :: "(http_request \<Rightarrow> ('s, http_response) eff) \<Rightarrow> pystr \<Rightarrow> pystr \<Rightarrow> ('s, ci_result) eff" where
  "github_get_status send repository run_name =
     (if run_name = [] then ret (skipped_run [])
      else mbind (send (http_get (runs_url repository @ ''/'' @ run_name) [])) (\<lambda>response.
        if hs_status response = 404 then ret (skipped_run run_name)
        else mbind (raise_for_status response) (\<lambda>_.
          mbind (response_json response) (\<lambda>body. lift_result (to_result body)))))"

text \<open>The lines of one job and its failed steps; \<open>f"{x}"\<close> is \<open>str(x)\<close>.\<close>

fun step_lines :: "json list \<Rightarrow> pystr list result" where
  "step_lines [] = Inr []"
| "step_lines (step # rest) =
     (case py_get step ''conclusion'' JNull of
        Inl e \<Rightarrow> Inl e
      | Inr c \<Rightarrow>
          if c \<in> {JStr ''failure'', JStr ''cancelled''}
          then (case py_item step ''name'' of
                  Inl e \<Rightarrow> Inl e
                | Inr name \<Rightarrow> map_sum id (\<lambda>ls. (''  FAILED step: '' @ py_str name) # ls) (step_lines rest))
          else step_lines rest)"

fun job_lines :: "json list \<Rightarrow> pystr list result" where
  "job_lines [] = Inr []"
| "job_lines (job # rest) =
     (case py_item job ''name'' of
        Inl e \<Rightarrow> Inl e
      | Inr name \<Rightarrow>
          (case py_get job ''conclusion'' JNull of
             Inl e \<Rightarrow> Inl e
           | Inr c \<Rightarrow>
               (case py_get job ''steps'' (JArr []) of
                  Inl e \<Rightarrow> Inl e
                | Inr steps_value \<Rightarrow>
                    (case py_iter steps_value of
                       Inl e \<Rightarrow> Inl e
                     | Inr job_steps \<Rightarrow>
                         (case step_lines job_steps of
                            Inl e \<Rightarrow> Inl e
                          | Inr ls \<Rightarrow>
                              map_sum id (\<lambda>more. (''job '' @ py_str name @ '': '' @ py_str c) # ls @ more)
                                (job_lines rest))))))"

definition github_get_logs :: "(http_request \<Rightarrow> ('s, http_response) eff) \<Rightarrow> pystr \<Rightarrow> pystr \<Rightarrow> ('s, pystr) eff" where
  "github_get_logs send repository run_name =
     (if run_name = [] then ret []
      else mbind (send (http_get (runs_url repository @ ''/'' @ run_name @ ''/jobs'') [])) (\<lambda>response.
        if hs_status response \<noteq> 200 then ret []
        else mbind (response_json response) (\<lambda>body.
          mbind (lift_result (py_get body ''jobs'' (JArr []))) (\<lambda>jobs.
          mbind (lift_result (py_iter jobs)) (\<lambda>js.
          mbind (lift_result (job_lines js)) (\<lambda>ls. ret (str_join [CHR 0x0A] ls)))))))"

section \<open>No CI\<close>

type_synonym noop_runs = "pystr \<rightharpoonup> ci_result"

text \<open>\<open>identifier\<close> is the fresh \<open>new_id("cirun")\<close>.\<close>

definition noop_trigger :: "pystr \<Rightarrow> pystr \<Rightarrow> noop_runs \<Rightarrow> ci_result \<times> noop_runs" where
  "noop_trigger identifier branch runs =
     (let r = \<lparr>ci_id = identifier, ci_state = CI_SKIP, ci_url = [],
              ci_logs = ''CI_PROVIDER=none - no pipeline configured for branch '' @ branch\<rparr>
      in (r, runs(identifier \<mapsto> r)))"

definition noop_get_status :: "pystr \<Rightarrow> noop_runs \<Rightarrow> ci_result" where
  "noop_get_status run_name runs = get_default (skipped_run run_name) (runs run_name)"

definition noop_get_logs :: "pystr \<Rightarrow> noop_runs \<Rightarrow> pystr" where
  "noop_get_logs run_name runs = ci_logs (get_default (skipped_run run_name) (runs run_name))"

section \<open>The local provider\<close>

text \<open>\<open>Path.as_uri\<close>: the path with every byte outside the unreserved ones escaped.\<close>

definition percent :: "nat \<Rightarrow> pystr" where
  "percent n = (let d = (\<lambda>k. char_of (if k < 10 then 48 + k else 55 + k)) in [CHR ''%'', d (n div 16), d (n mod 16)])"

definition quote_byte :: "nat \<Rightarrow> pystr" where
  "quote_byte n = (if in_ranges [(48, 57), (65, 90), (97, 122), (45, 47), (95, 95), (126, 126)] (char_of n) \<and> n < 128
     then [char_of n] else percent n)"

definition as_uri :: "path \<Rightarrow> pystr" where
  "as_uri p = ''file://'' @ concat (map quote_byte (str_encode (path_str p)))"

definition artifact_name :: "pystr \<Rightarrow> pystr" where
  "artifact_name identifier = identifier @ ''.json''"

definition artifact_path :: "path \<Rightarrow> pystr \<Rightarrow> path" where
  "artifact_path artifacts identifier =
     (let s = artifact_name identifier in if is_absolute s then path_parts s else artifacts @ path_parts s)"

definition local_push_branch :: "path \<Rightarrow> pystr \<Rightarrow> pystr io" where
  "local_push_branch workspace_path branch =
     mbind (run_command [''git'', ''rev-parse'', ''--abbrev-ref'', ''HEAD''] workspace_path) (\<lambda>_.
     ret (''local:'' @ branch))"

definition local_record :: "pystr \<Rightarrow> pystr \<Rightarrow> pystr \<Rightarrow> pystr \<Rightarrow> pystr \<Rightarrow> pystr \<Rightarrow> dict" where
  "local_record identifier title body branch base created_at =
     [(''id'', JStr identifier), (''title'', JStr title), (''body'', JStr body), (''branch'', JStr branch),
      (''base'', JStr base), (''state'', JStr ''OPEN''), (''created_at'', JStr created_at)]"

definition local_create_pull_request ::
  "path \<Rightarrow> pystr \<Rightarrow> pystr \<Rightarrow> pystr \<Rightarrow> pystr \<Rightarrow> pull_request io" where
  "local_create_pull_request artifacts branch title body base =
     mbind (new_id ''pr'') (\<lambda>identifier. mbind utcnow (\<lambda>now.
     mbind (gets (\<lambda>w. resolve_str (w_fs w) artifacts (artifact_name identifier))) (\<lambda>r.
     mbind (lift_result r) (\<lambda>p.
     mbind (write_text p (dumps_indent 2 (JObj (local_record identifier title body branch base (isoformat now))))) (\<lambda>_.
     ret \<lparr>pr_id = identifier, pr_url = as_uri (artifact_path artifacts identifier), pr_title = title,
          pr_branch = branch, pr_state = ''OPEN''\<rparr>)))))"

text \<open>\<open>record["id"]\<close> and the other fields of a stored review record.\<close>

definition pull_request_of :: "pystr \<Rightarrow> json \<Rightarrow> pull_request result" where
  "pull_request_of url r =
     (case py_item r ''id'' of Inl e \<Rightarrow> Inl e | Inr i \<Rightarrow>
      (case py_item r ''title'' of Inl e \<Rightarrow> Inl e | Inr t \<Rightarrow>
       (case py_item r ''branch'' of Inl e \<Rightarrow> Inl e | Inr b \<Rightarrow>
        (case py_get r ''state'' (JStr ''OPEN'') of Inl e \<Rightarrow> Inl e | Inr s \<Rightarrow>
           Inr \<lparr>pr_id = py_str i, pr_url = url, pr_title = py_str t, pr_branch = py_str b, pr_state = py_str s\<rparr>))))"

definition local_get_pull_request :: "(pystr \<Rightarrow> pystr) \<Rightarrow> path \<Rightarrow> pystr \<Rightarrow> pull_request option io" where
  "local_get_pull_request fr artifacts identifier =
     mbind (gets (\<lambda>w. resolve_str (w_fs w) artifacts (artifact_name identifier))) (\<lambda>r.
     case r of
       Inl _ \<Rightarrow> ret None
     | Inr p \<Rightarrow>
         mbind (gets (\<lambda>w. fs_exists (w_fs w) p)) (\<lambda>there.
         if \<not> there then ret None
         else mbind (read_text p) (\<lambda>text.
           case loads fr text of
             None \<Rightarrow> raise (OtherError ''JSONDecodeError'' ''Expecting value'')
           | Some j \<Rightarrow>
               mbind (lift_result (pull_request_of (as_uri (artifact_path artifacts identifier)) j))
                 (\<lambda>pr. ret (Some pr)))))"

section \<open>GitHub and Azure DevOps\<close>

text \<open>Both push with a remote that carries the token and report the exit code only.\<close>

definition push_refspec :: "pystr \<Rightarrow> pystr \<Rightarrow> path \<Rightarrow> command_result io" where
  "push_refspec remote branch workspace_path =
     run_command [''git'', ''push'', remote, ''HEAD:refs/heads/'' @ branch] workspace_path"

definition github_push_branch :: "pystr \<Rightarrow> pystr \<Rightarrow> path \<Rightarrow> pystr \<Rightarrow> pystr io" where
  "github_push_branch token repository workspace_path branch =
     mbind (push_refspec (''https://x-access-token:'' @ token @ ''@github.com/'' @ repository @ ''.git'') branch workspace_path)
     (\<lambda>r. if cm_exit_code r \<noteq> 0
          then raise (TransientInfrastructureError (''git push failed with exit code '' @ show_int (cm_exit_code r)))
          else ret (''https://github.com/'' @ repository @ ''/tree/'' @ branch))"

definition github_pull_request :: "pystr result \<Rightarrow> json \<Rightarrow> pull_request result" where
  "github_pull_request branch payload =
     (case py_item payload ''number'' of Inl e \<Rightarrow> Inl e | Inr n \<Rightarrow>
      (case py_item payload ''html_url'' of Inl e \<Rightarrow> Inl e | Inr url \<Rightarrow>
       (case py_item payload ''title'' of Inl e \<Rightarrow> Inl e | Inr t \<Rightarrow>
        (case branch of Inl e \<Rightarrow> Inl e | Inr b \<Rightarrow>
         (case py_get payload ''state'' (JStr ''open'') of Inl e \<Rightarrow> Inl e | Inr st \<Rightarrow>
          (case py_upper st of Inl e \<Rightarrow> Inl e | Inr up \<Rightarrow>
             Inr \<lparr>pr_id = py_str n, pr_url = py_str url, pr_title = py_str t, pr_branch = b, pr_state = up\<rparr>))))))"

definition pulls_url :: "pystr \<Rightarrow> pystr" where
  "pulls_url repository = ''/repos/'' @ repository @ ''/pulls''"

definition github_create_pull_request ::
  "(http_request \<Rightarrow> ('s, http_response) eff) \<Rightarrow> pystr \<Rightarrow> pystr \<Rightarrow> pystr \<Rightarrow> pystr \<Rightarrow> pystr \<Rightarrow> ('s, pull_request) eff" where
  "github_create_pull_request send repository branch title body base =
     mbind (send (http_post (pulls_url repository) [] [(''title'', JStr title), (''body'', JStr body),
       (''head'', JStr branch), (''base'', JStr base)])) (\<lambda>response.
     if hs_status response \<ge> 500
     then raise (TransientInfrastructureError (''github '' @ show_int (hs_status response)))
     else mbind (raise_for_status response) (\<lambda>_. mbind (response_json response) (\<lambda>payload.
       lift_result (github_pull_request (Inr branch) payload))))"

text \<open>\<open>payload["head"]["ref"]\<close>.\<close>

definition head_ref :: "json \<Rightarrow> pystr result" where
  "head_ref payload =
     (case py_item payload ''head'' of Inl e \<Rightarrow> Inl e | Inr h \<Rightarrow> map_sum id py_str (py_item h ''ref''))"

definition github_get_pull_request ::
  "(http_request \<Rightarrow> ('s, http_response) eff) \<Rightarrow> pystr \<Rightarrow> pystr \<Rightarrow> ('s, pull_request option) eff" where
  "github_get_pull_request send repository identifier =
     mbind (send (http_get (pulls_url repository @ ''/'' @ identifier) [])) (\<lambda>response.
     if hs_status response = 404 then ret None
     else mbind (raise_for_status response) (\<lambda>_. mbind (response_json response) (\<lambda>payload.
       mbind (lift_result (github_pull_request (head_ref payload) payload)) (\<lambda>pr. ret (Some pr)))))"

record azure =
  az_organization :: pystr
  az_project :: pystr
  az_repository :: pystr
  az_token :: pystr

definition API_VERSION :: pystr where
  "API_VERSION = ''7.1''"

definition azure_push_branch :: "azure \<Rightarrow> path \<Rightarrow> pystr \<Rightarrow> pystr io" where
  "azure_push_branch az workspace_path branch =
     mbind (push_refspec (''https://'' @ az_token az @ ''@dev.azure.com/'' @ az_organization az @ ''/'' @ az_project az
         @ ''/_git/'' @ az_repository az) branch workspace_path)
     (\<lambda>r. if cm_exit_code r \<noteq> 0
          then raise (TransientInfrastructureError (''git push failed ('' @ show_int (cm_exit_code r) @ '')''))
          else ret (''azure:'' @ az_repository az @ ''/'' @ branch))"

definition azure_state :: "json \<Rightarrow> pystr result" where
  "azure_state payload = (case py_get payload ''status'' (JStr ''active'') of Inl e \<Rightarrow> Inl e | Inr st \<Rightarrow> py_upper st)"

definition azure_created :: "azure \<Rightarrow> pystr \<Rightarrow> pystr \<Rightarrow> json \<Rightarrow> pull_request result" where
  "azure_created az branch title payload =
     (case py_item payload ''pullRequestId'' of Inl e \<Rightarrow> Inl e | Inr i \<Rightarrow>
      (case azure_state payload of Inl e \<Rightarrow> Inl e | Inr st \<Rightarrow>
         Inr \<lparr>pr_id = py_str i,
              pr_url = ''https://dev.azure.com/'' @ az_organization az @ ''/'' @ az_project az @ ''/_git/''
                @ az_repository az @ ''/pullrequest/'' @ py_str i,
              pr_title = title, pr_branch = branch, pr_state = st\<rparr>))"

definition azure_pulls_url :: "azure \<Rightarrow> pystr" where
  "azure_pulls_url az = ''/git/repositories/'' @ az_repository az @ ''/pullrequests''"

definition azure_create_pull_request ::
  "(http_request \<Rightarrow> ('s, http_response) eff) \<Rightarrow> azure \<Rightarrow> pystr \<Rightarrow> pystr \<Rightarrow> pystr \<Rightarrow> pystr \<Rightarrow> ('s, pull_request) eff" where
  "azure_create_pull_request send az branch title body base =
     mbind (send (http_post (azure_pulls_url az) [(''api-version'', JStr API_VERSION)]
       [(''sourceRefName'', JStr (''refs/heads/'' @ branch)), (''targetRefName'', JStr (''refs/heads/'' @ base)),
        (''title'', JStr title), (''description'', JStr body)])) (\<lambda>response.
     if hs_status response \<ge> 500
     then raise (TransientInfrastructureError (''azure devops '' @ show_int (hs_status response)))
     else mbind (raise_for_status response) (\<lambda>_. mbind (response_json response) (\<lambda>payload.
       lift_result (azure_created az branch title payload))))"

text \<open>\<open>s.replace(old, "")\<close> for a text that is not empty.\<close>

function remove_all :: "pystr \<Rightarrow> pystr \<Rightarrow> pystr" where
  "remove_all old s =
     (if old = [] then s
      else case s of
        [] \<Rightarrow> []
      | c # cs \<Rightarrow> if starts_with old s then remove_all old (drop (length old) s) else c # remove_all old cs)"
  by pat_completeness auto
termination
  by (relation "measure (\<lambda>(old, s). length s)") (auto simp: starts_with_def)

declare remove_all.simps [simp del]

definition azure_branch :: "json \<Rightarrow> pystr result" where
  "azure_branch payload =
     (case py_get payload ''sourceRefName'' (JStr []) of
        Inl e \<Rightarrow> Inl e
      | Inr (JStr s) \<Rightarrow> Inr (remove_all ''refs/heads/'' s)
      | Inr _ \<Rightarrow> Inl (OtherError ''AttributeError'' ''no attribute replace''))"

definition azure_read :: "pystr \<Rightarrow> json \<Rightarrow> pull_request result" where
  "azure_read identifier payload =
     (case py_get payload ''url'' (JStr []) of Inl e \<Rightarrow> Inl e | Inr url \<Rightarrow>
      (case py_get payload ''title'' (JStr []) of Inl e \<Rightarrow> Inl e | Inr t \<Rightarrow>
       (case azure_branch payload of Inl e \<Rightarrow> Inl e | Inr b \<Rightarrow>
        (case azure_state payload of Inl e \<Rightarrow> Inl e | Inr st \<Rightarrow>
           Inr \<lparr>pr_id = identifier, pr_url = py_str url, pr_title = py_str t, pr_branch = b, pr_state = st\<rparr>))))"

definition azure_get_pull_request ::
  "(http_request \<Rightarrow> ('s, http_response) eff) \<Rightarrow> azure \<Rightarrow> pystr \<Rightarrow> ('s, pull_request option) eff" where
  "azure_get_pull_request send az identifier =
     mbind (send (http_get (azure_pulls_url az @ ''/'' @ identifier) [(''api-version'', JStr API_VERSION)])) (\<lambda>response.
     if hs_status response = 404 then ret None
     else mbind (raise_for_status response) (\<lambda>_. mbind (response_json response) (\<lambda>payload.
       mbind (lift_result (azure_read identifier payload)) (\<lambda>pr. ret (Some pr)))))"

section \<open>Calls on the chosen provider\<close>

definition API_ROOT :: pystr where
  "API_ROOT = ''https://api.github.com''"

definition azure_root :: "azure \<Rightarrow> pystr" where
  "azure_root az = ''https://dev.azure.com/'' @ az_organization az @ ''/'' @ az_project az @ ''/_apis''"

definition azure_of :: "pystr \<Rightarrow> pystr \<Rightarrow> pystr \<Rightarrow> pystr \<Rightarrow> azure" where
  "azure_of organization project repository token =
     \<lparr>az_organization = organization, az_project = project, az_repository = repository, az_token = token\<rparr>"

fun push_branch :: "scm_choice \<Rightarrow> path \<Rightarrow> pystr \<Rightarrow> pystr io" where
  "push_branch (Local_Git artifacts) p branch = local_push_branch p branch"
| "push_branch (GitHub_Scm token repository) p branch = github_push_branch token repository p branch"
| "push_branch (Azure_DevOps organization project repository token) p branch =
     azure_push_branch (azure_of organization project repository token) p branch"

text \<open>The base branch is the default, \<open>main\<close>.\<close>

fun create_pull_request :: "scm_choice \<Rightarrow> pystr \<Rightarrow> pystr \<Rightarrow> pystr \<Rightarrow> pull_request io" where
  "create_pull_request (Local_Git artifacts) branch title body =
     local_create_pull_request artifacts branch title body ''main''"
| "create_pull_request (GitHub_Scm token repository) branch title body =
     github_create_pull_request (send_http API_ROOT) repository branch title body ''main''"
| "create_pull_request (Azure_DevOps organization project repository token) branch title body =
     (let az = azure_of organization project repository token
      in azure_create_pull_request (send_http (azure_root az)) az branch title body ''main'')"

fun get_pull_request :: "(pystr \<Rightarrow> pystr) \<Rightarrow> scm_choice \<Rightarrow> pystr \<Rightarrow> pull_request option io" where
  "get_pull_request fr (Local_Git artifacts) i = local_get_pull_request fr artifacts i"
| "get_pull_request fr (GitHub_Scm token repository) i = github_get_pull_request (send_http API_ROOT) repository i"
| "get_pull_request fr (Azure_DevOps organization project repository token) i =
     (let az = azure_of organization project repository token in azure_get_pull_request (send_http (azure_root az)) az i)"

fun trigger_run :: "ci_choice \<Rightarrow> pystr \<Rightarrow> pystr option \<Rightarrow> ci_result io" where
  "trigger_run Noop_CI branch commit_sha =
     mbind (new_id ''cirun'') (\<lambda>i. mbind (gets (\<lambda>w. noop_trigger i branch (w_ci_runs w))) (\<lambda>(r, runs).
     mbind (modify (\<lambda>w. w\<lparr>w_ci_runs := runs\<rparr>)) (\<lambda>_. ret r)))"
| "trigger_run (GitHub_Actions repository) branch commit_sha =
     github_trigger (send_http API_ROOT) repository branch commit_sha"

fun get_run_status :: "ci_choice \<Rightarrow> pystr \<Rightarrow> ci_result io" where
  "get_run_status Noop_CI i = gets (\<lambda>w. noop_get_status i (w_ci_runs w))"
| "get_run_status (GitHub_Actions repository) i = github_get_status (send_http API_ROOT) repository i"

fun get_run_logs :: "ci_choice \<Rightarrow> pystr \<Rightarrow> pystr io" where
  "get_run_logs Noop_CI i = gets (\<lambda>w. noop_get_logs i (w_ci_runs w))"
| "get_run_logs (GitHub_Actions repository) i = github_get_logs (send_http API_ROOT) repository i"

definition wait_for_run :: "ci_choice \<Rightarrow> pystr \<Rightarrow> ci_result io" where
  "wait_for_run ci i = ci_wait (get_run_status ci i) time_spent i 900"

section \<open>The adapters respect the audit discipline\<close>

lemma evo_http [evo_intros]:
  "stays (evolves tid) (raise_for_status r)" "stays (evolves tid) (response_json r)"
  unfolding raise_for_status_def response_json_def by (auto intro!: evo_intros split: option.split)

lemma evo_build_scm [evo_intros]: "stays (evolves tid) (build_scm_provider st)"
  unfolding build_scm_provider_def local_git_def Let_def by (auto intro!: evo_intros split: prod.split)

lemma evo_trigger_attempts [evo_intros]:
  "(\<And>q. stays (evolves tid) (send q)) \<Longrightarrow> stays (evolves tid) (trigger_attempts n send repository branch sha)"
  by (induction n) (auto intro!: evo_intros simp: list_runs_def split: option.split)

lemma evo_providers [evo_intros]:
  "stays (evolves tid) (push_branch scm p branch)" "stays (evolves tid) (create_pull_request scm branch title body)"
  "stays (evolves tid) (trigger_run ci branch sha)" "stays (evolves tid) (get_run_status ci i)"
  "stays (evolves tid) (get_run_logs ci i)" "stays (evolves tid) (wait_for_run ci i)"
proof -
  show "stays (evolves tid) (push_branch scm p branch)"
    by (cases scm) (auto intro!: evo_intros simp: local_push_branch_def github_push_branch_def azure_push_branch_def push_refspec_def)
  show "stays (evolves tid) (create_pull_request scm branch title body)"
    by (cases scm) (auto intro!: evo_intros simp: local_create_pull_request_def github_create_pull_request_def
        azure_create_pull_request_def Let_def)
  show "stays (evolves tid) (trigger_run ci branch sha)"
    by (cases ci) (auto intro!: evo_intros simp: github_trigger_def evolves_def)
  show status: "stays (evolves tid) (get_run_status ci i)"
    by (cases ci) (auto intro!: evo_intros simp: github_get_status_def)
  show "stays (evolves tid) (get_run_logs ci i)"
    by (cases ci) (auto intro!: evo_intros simp: github_get_logs_def)
  show "stays (evolves tid) (wait_for_run ci i)"
    unfolding wait_for_run_def ci_wait_def by (intro evo.stays_ci_poll status evo_intros)
qed

section \<open>A verdict belongs to the commit\<close>

definition of_commit :: "pystr \<Rightarrow> json \<Rightarrow> bool" where
  "of_commit sha run \<longleftrightarrow> py_get run ''head_sha'' JNull = Inr (JStr sha)"

text \<open>A run the service reports as ended and successful.\<close>

definition succeeded :: "json \<Rightarrow> bool" where
  "succeeded run \<longleftrightarrow>
     (case run of
        JObj m \<Rightarrow> get_default JNull (dict_get m ''status'')
            \<notin> JStr ` {''queued'', ''waiting'', ''requested'', ''pending'', ''in_progress''}
          \<and> dict_get m ''conclusion'' \<in> {Some (JStr ''success''), Some (JStr ''neutral'')}
      | _ \<Rightarrow> False)"

lemma conclusion_pass:
  "conclusion_status c = Inr CI_PASS \<longleftrightarrow> c \<in> {JStr ''success'', JStr ''neutral''}"
  by (cases c) (auto simp: conclusion_status_def py_bool_def CONCLUSION_MAP_def split: if_splits)

lemma to_result_pass:
  assumes "to_result run = Inr r"
  shows "ci_state r = CI_PASS \<longleftrightarrow> succeeded run"
proof -
  have "run_status run = Inr (ci_state r)"
    using assms by (auto simp: to_result_def split: sum.splits)
  then have "ci_state r = CI_PASS \<longleftrightarrow> run_status run = Inr CI_PASS" by auto
  also have "\<dots> \<longleftrightarrow> succeeded run"
  proof (cases run)
    case (JObj m)
    then show ?thesis
      by (cases "dict_get m ''conclusion''")
         (auto simp: run_status_def succeeded_def py_get_def conclusion_pass split: if_splits)
  qed (simp_all add: run_status_def succeeded_def py_get_def)
  finally show ?thesis .
qed

lemma map_sum_Inr_iff: "map_sum f g x = Inr y \<longleftrightarrow> (\<exists>z. x = Inr z \<and> y = g z)"
  by (cases x) auto

lemma find_run_cases:
  "find_run (Some sha) runs = Inr found \<Longrightarrow>
     (case found of
        None \<Rightarrow> list_all (\<lambda>run. \<not> of_commit sha run) runs
      | Some r \<Rightarrow> \<exists>run \<in> set runs. of_commit sha run \<and> to_result run = Inr r)"
  by (induction runs) (auto simp: of_commit_def map_sum_Inr_iff split: sum.splits if_splits option.splits)

text \<open>The state of the service after a number of listings.\<close>

definition listed :: "(http_request \<Rightarrow> ('s, http_response) eff) \<Rightarrow> pystr \<Rightarrow> pystr \<Rightarrow> nat \<Rightarrow> 's \<Rightarrow> 's" where
  "listed send repository branch k = (\<lambda>s. snd (list_runs send repository branch s)) ^^ k"

definition no_run_of :: "(http_request \<Rightarrow> ('s, http_response) eff) \<Rightarrow> pystr \<Rightarrow> pystr \<Rightarrow> pystr \<Rightarrow> 's \<Rightarrow> bool" where
  "no_run_of send repository branch sha s =
     (case fst (list_runs send repository branch s) of
        Inr runs \<Rightarrow> list_all (\<lambda>run. \<not> of_commit sha run) runs
      | Inl e \<Rightarrow> False)"

definition run_listed :: "(http_request \<Rightarrow> ('s, http_response) eff) \<Rightarrow> pystr \<Rightarrow> pystr \<Rightarrow> 's \<Rightarrow> json \<Rightarrow> bool" where
  "run_listed send repository branch s run =
     (case fst (list_runs send repository branch s) of Inr runs \<Rightarrow> run \<in> set runs | Inl e \<Rightarrow> False)"

lemma listed_Suc: "listed send repo branch k (snd (list_runs send repo branch s)) = listed send repo branch (Suc k) s"
  unfolding listed_def funpow_Suc_right by simp

lemma all_upt_Suc: "list_all P [0..<Suc n] \<longleftrightarrow> P 0 \<and> list_all (\<lambda>k. P (Suc k)) [0..<n]"
proof -
  have "list_all P [0..<Suc n] \<longleftrightarrow> (\<forall>k < Suc n. P k)" by (simp only: list_all_iff set_upt) auto
  also have "\<dots> \<longleftrightarrow> P 0 \<and> (\<forall>k < n. P (Suc k))" by (rule All_less_Suc2)
  also have "\<dots> \<longleftrightarrow> P 0 \<and> list_all (\<lambda>k. P (Suc k)) [0..<n]" by (simp only: list_all_iff set_upt) auto
  finally show ?thesis .
qed

lemma trigger_attempts_cases:
  "case trigger_attempts n send repo branch (Some sha) s of
     (Inr r, t) \<Rightarrow>
       (\<exists>k run. k < n \<and> t = listed send repo branch (Suc k) s \<and> run_listed send repo branch (listed send repo branch k s) run
          \<and> of_commit sha run \<and> to_result run = Inr r)
       \<or> (r = no_run branch \<and> t = listed send repo branch n s
          \<and> list_all (\<lambda>k. no_run_of send repo branch sha (listed send repo branch k s)) [0..<n])
   | (Inl e, t) \<Rightarrow> \<exists>k. k < n \<and> t = listed send repo branch (Suc k) s"
proof (induction n arbitrary: s)
  case 0
  then show ?case by (simp add: ret_def listed_def)
next
  case (Suc n)
  let ?u = "snd (list_runs send repo branch s)"
  have zero: "listed send repo branch (Suc 0) s = ?u" "listed send repo branch 0 s = s"
    by (simp_all add: listed_def)
  show ?case
  proof (cases "fst (list_runs send repo branch s)")
    case (Inl e)
    then have "trigger_attempts (Suc n) send repo branch (Some sha) s = (Inl e, ?u)"
      by (simp add: mbind_def split_beta)
    with zero show ?thesis by auto
  next
    case runs: (Inr runs)
    show ?thesis
    proof (cases "find_run (Some sha) runs")
      case (Inl e)
      with runs have "trigger_attempts (Suc n) send repo branch (Some sha) s = (Inl e, ?u)"
        by (simp add: mbind_def split_beta)
      with zero show ?thesis by auto
    next
      case found: (Inr found)
      note cs = find_run_cases [OF found]
      show ?thesis
      proof (cases found)
        case (Some r)
        with runs found have "trigger_attempts (Suc n) send repo branch (Some sha) s = (Inr r, ?u)"
          by (simp add: mbind_def ret_def split_beta)
        moreover obtain run where "run \<in> set runs" "of_commit sha run" "to_result run = Inr r"
          using cs Some by auto
        ultimately show ?thesis using zero runs by (auto simp: run_listed_def intro!: exI [of _ 0])
      next
        case None
        with runs found have step: "trigger_attempts (Suc n) send repo branch (Some sha) s
            = trigger_attempts n send repo branch (Some sha) ?u"
          by (simp add: mbind_def split_beta)
        have no: "no_run_of send repo branch sha s" using cs None runs by (simp add: no_run_of_def)
        show ?thesis
          using Suc.IH [of ?u] no unfolding step listed_Suc all_upt_Suc zero
          by (auto split: sum.splits)
      qed
    qed
  qed
qed

text \<open>
  the verdict of CI belongs to the commit. Whatever the service answers, \<open>trigger\<close> for a commit
  asks for the runs at most six times and either returns one of the listed runs whose head is that
  commit, as passed exactly when the service reports it ended with success, or reports that nothing
  ran after six listings none of which had a run of the commit, or fails with what a listing raised.
\<close>

theorem ci_verdict_of_commit:
  "case github_trigger send repo branch (Some sha) s of
     (Inr r, t) \<Rightarrow>
       (\<exists>k run. k < 6 \<and> t = listed send repo branch (Suc k) s \<and> run_listed send repo branch (listed send repo branch k s) run
          \<and> of_commit sha run \<and> to_result run = Inr r \<and> (ci_state r = CI_PASS \<longleftrightarrow> succeeded run))
       \<or> (r = no_run branch \<and> t = listed send repo branch 6 s
          \<and> list_all (\<lambda>k. no_run_of send repo branch sha (listed send repo branch k s)) [0..<6])
   | (Inl e, t) \<Rightarrow> \<exists>k. k < 6 \<and> t = listed send repo branch (Suc k) s"
  using trigger_attempts_cases [where n = 6 and send = send and repo = repo and branch = branch and sha = sha and s = s] to_result_pass
  unfolding github_trigger_def by (auto split: prod.splits sum.splits)

section \<open>Local pull requests read back\<close>

lemma record_no_return:
  assumes "list_all (\<lambda>kv. \<exists>s. snd kv = JStr s) kvs"
  shows "CHR 0x0D \<notin> set (dumps_indent n (JObj kvs))"
proof -
  have "CHR 0x0D \<notin> set (json_string s)" for s
    using json_string_printable by (fastforce simp: in_ranges_def)
  with assms have items: "CHR 0x0D \<notin> set x"
    if "x \<in> set (map (\<lambda>kv. json_string (fst kv) @ '': '' @ dump (Some n) (Suc 0) (snd kv)) kvs)" for x
    using that by (auto simp: list_all_iff)
  have margins: "CHR 0x0D \<notin> set (margin (Some n) l)" for l by (auto simp: margin_def)
  show ?thesis
    using items margins set_str_join [of "'','' @ item_gap (Some n) (Suc 0)"]
    by (auto simp: dumps_indent_def enclosed_def item_gap_def simp del: set_map) blast+
qed

lemma write_read_back:
  assumes "resolved f p" and "fs_write p text f = Inr g"
  shows "same_links f g" and "fs_lookup g p = Some (File text)"
proof -
  have g: "g = AList.update p (File text) f" "p \<noteq> []"
    using fs_write_cases [OF assms(2)] assms(2) by (auto simp: fs_write_def split: if_splits)
  moreover have "map_of f p \<noteq> Some (Link t)" for t
    using assms(1) g(2) by (auto simp: resolved_def link_free_def)
  ultimately show links: "same_links f g" by (simp add: same_links_update)
  have "resolve_path g p = Inr p"
    using resolve_same_links [OF links] resolve_path_id [OF assms(1)] by simp
  then show "fs_lookup g p = Some (File text)" using g by (simp add: fs_lookup_def update_conv')
qed

text \<open>
  a local pull request reads back. Whatever its texts are, a review record that was written is
  found under its identifier and read as the pull request that was returned, with the given title
  and branch; when writing fails, no file has changed.
\<close>

theorem local_pull_request_reads_back:
  "case local_create_pull_request artifacts branch title body base w of
     (Inr pr, w') \<Rightarrow> local_get_pull_request fr artifacts (pr_id pr) w' = (Inr (Some pr), w')
       \<and> pr_title pr = title \<and> pr_branch pr = branch
   | (Inl e, w') \<Rightarrow> w_fs w' = w_fs w"
proof -
  define i where "i = ''pr-'' @ take 12 (o_uuid (w_answers w) (w_tick w))"
  define w1 where "w1 = w\<lparr>w_tick := Suc (Suc (w_tick w))\<rparr>"
  let ?rec = "local_record i title body branch base (isoformat (o_time (w_answers w) (Suc (w_tick w))))"
  let ?text = "dumps_indent 2 (JObj ?rec)"
  let ?pr = "\<lparr>pr_id = i, pr_url = as_uri (artifact_path artifacts i), pr_title = title, pr_branch = branch, pr_state = ''OPEN''\<rparr>"
  have fs: "w_fs w1 = w_fs w" by (simp add: w1_def)
  have run: "local_create_pull_request artifacts branch title body base w =
      (case resolve_str (w_fs w1) artifacts (artifact_name i) of
         Inl e \<Rightarrow> (Inl e, w1)
       | Inr p \<Rightarrow> (case fs_write p ?text (w_fs w1) of
           Inl e \<Rightarrow> (Inl e, w1)
         | Inr g \<Rightarrow> (Inr ?pr, w1\<lparr>w_fs := g\<rparr>)))"
    by (simp add: local_create_pull_request_def new_id_def utcnow_def ask_def mbind_def ret_def write_text_def
        i_def w1_def split: sum.split)
  show ?thesis
  proof (cases "resolve_str (w_fs w1) artifacts (artifact_name i)")
    case p: (Inr p)
    show ?thesis
    proof (cases "fs_write p ?text (w_fs w1)")
      case g: (Inr g)
      have "resolved (w_fs w1) p" using p by (rule resolve_str_resolved)
      note stored = write_read_back [OF this g]
      have "resolve_str g artifacts (artifact_name i) = Inr p"
        using p resolve_same_links [OF stored(1)] by (auto simp: resolve_str_def split: if_splits)
      moreover have "loads fr ?text = Some (JObj ?rec)"
        using json_round_trip [of fr "JObj ?rec" "[]" "[]" 2] by (simp add: local_record_def blank_chars_def)
      moreover have "universal_newlines ?text = ?text"
        by (intro universal_newlines_id record_no_return) (simp add: local_record_def)
      ultimately have "local_get_pull_request fr artifacts i (w1\<lparr>w_fs := g\<rparr>) = (Inr (Some ?pr), w1\<lparr>w_fs := g\<rparr>)"
        using stored(2)
        by (simp add: local_get_pull_request_def mbind_def ret_def fs_exists_def read_text_def fs_read_def
            pull_request_of_def py_item_def py_get_def dict_get_def local_record_def)
      with run p g show ?thesis by simp
    qed (use run p fs in \<open>simp\<close>)
  qed (use run fs in \<open>simp\<close>)
qed

end
