(* ===== verification/Git_Agent.thy ===== *)
theory Git_Agent
  imports Agents Service_Adapters
begin

text \<open>
  The deterministic git agent (\<open>agents/git_agent.py\<close>): commit message, pull-request body, and the
  two operations that commit and open a pull request.
\<close>

definition MAX_SUBJECT :: nat where
  "MAX_SUBJECT = 72"

text \<open>\<open>s.strip().splitlines()[0]\<close>, which raises for a blank text.\<close>

definition first_line :: "pystr \<Rightarrow> pystr result" where
  "first_line s = (case str_splitlines (str_strip s) of
       [] \<Rightarrow> Inl (OtherError ''IndexError'' ''list index out of range'')
     | l # _ \<Rightarrow> Inr l)"

text \<open>\<open>a or b or c\<close> on optional strings.\<close>

definition first_text :: "pystr option \<Rightarrow> pystr option \<Rightarrow> pystr \<Rightarrow> pystr" where
  "first_text a b c =
     (if truthy_str a then get_default [] a else if truthy_str b then get_default [] b else c)"

definition subject_of :: "pystr \<Rightarrow> pystr" where
  "subject_of summary =
     (if length summary \<le> MAX_SUBJECT then summary else take (MAX_SUBJECT - 3) summary @ ''...'')"

definition commit_message :: "agent_state \<Rightarrow> pystr result" where
  "commit_message s =
     (case first_line (first_text (st_implementation_summary s) (st_plan_summary s)
             (get_default ''agent change'' (st_issue s))) of
        Inl e \<Rightarrow> Inl e
      | Inr summary \<Rightarrow> Inr (subject_of summary @ NL @ str_join NL [
          [],
          ''Task: '' @ get_default [] (st_task_id s),
          ''Issue: '' @ str_strip (get_default [] (st_issue s)),
          [],
          ''Acceptance criteria:'',
          or_text (bullets (get_default [] (st_acceptance_criteria s))) ''- (none recorded)'',
          [],
          ''Files changed:'',
          or_text (bullets (get_default [] (st_modified_files s))) ''- (none recorded)'',
          [],
          ''Tests: passed='' @ show_int (get_default 0 (st_tests_passed s)) @ '' failed='' @
            show_int (get_default 0 (st_tests_failed s)),
          ''Debug iterations: '' @ show_int (get_default 0 (st_iteration s)),
          [],
          ''Generated by the AI Software Engineering Agent. Requires human review before merge.'']))"

definition pull_request_body :: "agent_state \<Rightarrow> pystr" where
  "pull_request_body s = str_join NL [
     ''**Task:** '' @ [CHR 0x60] @ get_default [] (st_task_id s) @ [CHR 0x60],
     [],
     ''## Issue'',
     get_default [] (st_issue s),
     [],
     ''## What changed'',
     first_text (st_implementation_summary s) None (get_default [] (st_plan_summary s)),
     [],
     ''## Acceptance criteria'',
     or_text (str_join NL (map (\<lambda>x. ''- [ ] '' @ x) (get_default [] (st_acceptance_criteria s)))) none_item,
     [],
     ''## Files changed'',
     or_text (str_join NL (map (\<lambda>p. ''- '' @ [CHR 0x60] @ p @ [CHR 0x60])
       (get_default [] (st_modified_files s)))) none_item,
     [],
     ''## Verification'',
     ''- Tests: passed='' @ show_int (get_default 0 (st_tests_passed s)) @ '', failed='' @
       show_int (get_default 0 (st_tests_failed s)),
     ''- CI: '' @ first_text (st_ci_status s) None ''not run'',
     ''- Risk: '' @ get_default ''LOW'' (st_risk_level s),
     ''- Debug iterations: '' @ show_int (get_default 0 (st_iteration s)),
     [],
     ''## Policy'',
     or_text (bullets (get_default [] (st_policy_findings s))) ''- no findings'',
     [],
     ''---'',
     ''Opened by the AI Software Engineering Agent. A human must review and merge.'']"

definition commit_changes :: "agent_state \<Rightarrow> path \<Rightarrow> pystr io" where
  "commit_changes s p = mbind (lift_result (commit_message s)) (\<lambda>m. commit_all p m)"

definition pull_request_title :: "agent_state \<Rightarrow> pystr result" where
  "pull_request_title s =
     map_sum id (take MAX_SUBJECT) (first_line (first_text (st_implementation_summary s) (st_plan_summary s)
       (''Agent change for '' @ get_default [] (st_task_id s))))"

definition open_pull_request :: "scm_choice \<Rightarrow> agent_state \<Rightarrow> path \<Rightarrow> pull_request io" where
  "open_pull_request provider s p =
     (let branch = get_default [] (st_git_branch s) in
      mbind (push_branch provider p branch) (\<lambda>_.
      mbind (lift_result (pull_request_title s)) (\<lambda>title.
      create_pull_request provider branch title (pull_request_body s))))"

lemma subject_of_length: "length (subject_of s) \<le> MAX_SUBJECT"
  by (simp add: subject_of_def MAX_SUBJECT_def)

lemma evo_git_agent [evo_intros]:
  "stays (evolves tid) (commit_changes s p)" "stays (evolves tid) (open_pull_request provider s p)"
  unfolding commit_changes_def open_pull_request_def Let_def
  by (intro evo_intros)+

text \<open>
  A commit message needs a summary or an issue with a visible character: with only blanks in the
  issue and no summary, building the message raises \<open>IndexError\<close>.
\<close>

theorem commit_message_blank_issue:
  "commit_message (empty_state\<lparr>st_issue := Some (replicate n (CHR '' ''))\<rparr>) =
     Inl (OtherError ''IndexError'' ''list index out of range'')"
proof -
  have "str_strip (replicate n (CHR '' '')) = []"
    by (simp add: str_strip_def str_lstrip_def str_rstrip_def is_space_def in_ranges_def)
  then show ?thesis
    by (simp add: commit_message_def first_text_def first_line_def str_splitlines_def)
qed

end
