(* ===== verification/Fingerprint.thy ===== *)
theory Fingerprint
  imports Regex Sha256
begin

text \<open>
  Failure fingerprinting (\<open>graph/fingerprint.py\<close>): normalisation of a failure message by the
  noise patterns, the signature of one failure, the sorted signatures of a test run, and the
  test for two identical runs in a row.
\<close>

section \<open>Noise patterns\<close>

definition hexI :: rx where
  "hexI = RSet (\<lambda>c. in_ranges [(48, 57), (97, 102)] (lower_char c))"

definition guid_rx :: rx where
  "guid_rx = RSeqs [RBound, RRep 8 hexI, RChar (CHR ''-''), RRep 4 hexI, RChar (CHR ''-''),
     RRep 4 hexI, RChar (CHR ''-''), RRep 4 hexI, RChar (CHR ''-''), RRep 12 hexI, RBound]"

definition timestamp_rx :: rx where
  "timestamp_rx = RSeqs [RBound, RRep 4 RDigit, RChar (CHR ''-''), RRep 2 RDigit, RChar (CHR ''-''),
     RRep 2 RDigit, RSet (\<lambda>c. c \<in> set ''T ''), RRep 2 RDigit, RChar (CHR '':''), RRep 2 RDigit,
     RChar (CHR '':''), RRep 2 RDigit, RStar True (RSet (\<lambda>c. \<not> is_space c))]"

definition duration_rx :: rx where
  "duration_rx = RSeqs [RBound, RPlus RDigit, ROpt (RSeqs [RChar (CHR ''.''), RPlus RDigit]),
     ROpt RSpace, RAlts (RLitI ''ms'') [RLitI ''s'', RLitI ''seconds''], RBound]"

definition addr_rx :: rx where
  "addr_rx = RSeqs [RBound, RLitI ''0x'', RPlus hexI, RBound]"

definition path_rx :: rx where
  "path_rx =
     (let seg = RPlus (RSet (\<lambda>c. is_word c \<or> c \<in> set ''.-''))
      in RAlt
        (RSeqs [RRanges [(65, 90), (97, 122)], RChar (CHR '':''),
           RSet (\<lambda>c. c = CHR 0x5C \<or> c = CHR ''/''), RStar True (RSet (\<lambda>c. \<not> is_space c \<and> c \<noteq> CHR '':''))])
        (RSeqs [RChar (CHR ''/''), RPlus (RSeqs [seg, RChar (CHR ''/'')]), seg]))"

definition line_rx :: rx where
  "line_rx = RSeqs [RAlt (RChar (CHR '':'')) (RSeqs [RBound, RLitI ''line'', RPlus RSpace]),
     RPlus RDigit, RBound]"

definition spaces_rx :: rx where
  "spaces_rx = RPlus RSpace"

definition NOISE :: "(rx \<times> pystr) list" where
  "NOISE = [(guid_rx, ''<guid>''), (timestamp_rx, ''<timestamp>''), (duration_rx, ''<duration>''),
     (addr_rx, ''<addr>''), (path_rx, ''<path>''), (line_rx, '':<line>''), (spaces_rx, '' '')]"

section \<open>Signatures\<close>

definition normalize :: "pystr \<Rightarrow> pystr" where
  "normalize message =
     str_lower (str_strip (fold (\<lambda>(pattern, replacement) text. re_sub pattern replacement text) NOISE
       (str_strip message)))"

definition failure_signature :: "pystr \<Rightarrow> pystr \<Rightarrow> pystr \<Rightarrow> pystr" where
  "failure_signature test_name exception_type message =
     (let payload = str_lower (str_strip test_name) @ ''|'' @ str_strip exception_type @ ''|''
            @ normalize message
      in take 16 (sha256_hex (str_encode payload)))"

text \<open>The signature of one rendered failure: head line, then the body.\<close>

definition signature_of :: "pystr \<Rightarrow> pystr" where
  "signature_of failure =
     (let (head, _, body) = str_partition [CHR 0x0A] failure;
          (name, _, exception) = str_partition '': '' head
      in failure_signature name exception body)"

definition signatures_for :: "pystr list \<Rightarrow> pystr list" where
  "signatures_for failures = sort (map signature_of failures)"

definition is_stuck :: "pystr list list \<Rightarrow> bool" where
  "is_stuck history =
     (if length history < 2 then False
      else history ! (length history - 1) = history ! (length history - 2)
           \<and> history ! (length history - 1) \<noteq> [])"

section \<open>Facts\<close>

lemma length_signature_of [simp]: "length (signature_of f) = 16"
  by (simp add: signature_of_def failure_signature_def split_beta Let_def)

lemma signature_of_hex: "c \<in> set (signature_of f) \<Longrightarrow> is_hex c"
  by (auto simp: signature_of_def failure_signature_def split_beta Let_def
      dest!: in_set_takeD intro: sha256_hex_chars)

lemma mset_signatures_for [simp]: "mset (signatures_for fs) = image_mset signature_of (mset fs)"
  by (simp add: signatures_for_def)

lemma length_signatures_for [simp]: "length (signatures_for fs) = length fs"
  by (simp add: signatures_for_def)

lemma signatures_for_eq_iff:
  "signatures_for fs = signatures_for gs \<longleftrightarrow>
     image_mset signature_of (mset fs) = image_mset signature_of (mset gs)"
proof
  assume "signatures_for fs = signatures_for gs"
  then show "image_mset signature_of (mset fs) = image_mset signature_of (mset gs)"
    by (metis mset_signatures_for)
next
  assume "image_mset signature_of (mset fs) = image_mset signature_of (mset gs)"
  then show "signatures_for fs = signatures_for gs"
    unfolding signatures_for_def by (intro properties_for_sort) simp_all
qed

lemma is_stuck_append2 [simp]: "is_stuck (h @ [a, b]) \<longleftrightarrow> a = b \<and> b \<noteq> []"
  by (auto simp: is_stuck_def nth_append)

lemma is_stuck_short [simp]: "\<not> is_stuck []" "\<not> is_stuck [x]"
  by (simp_all add: is_stuck_def)

text \<open>
  C40: the no-progress test is about the failures, not their order. After two test runs with
  failures \<open>f\<close> and \<open>g\<close> the loop is stuck exactly when there are failures and both runs have the same
  multiset of signatures, each a 16-digit lower-case hexadecimal string.
\<close>

theorem stuck_iff_same_signatures:
  "(is_stuck (history @ [signatures_for f, signatures_for g]) \<longleftrightarrow>
      f \<noteq> [] \<and> image_mset signature_of (mset f) = image_mset signature_of (mset g))
   \<and> list_all (\<lambda>s. length s = 16 \<and> list_all is_hex s) (signatures_for f)"
proof
  have "signatures_for f = signatures_for g \<Longrightarrow> signatures_for g = [] \<longleftrightarrow> f = []"
    by (metis length_0_conv length_signatures_for)
  then show "is_stuck (history @ [signatures_for f, signatures_for g]) \<longleftrightarrow>
      f \<noteq> [] \<and> image_mset signature_of (mset f) = image_mset signature_of (mset g)"
    by (auto simp: signatures_for_eq_iff)
  show "list_all (\<lambda>s. length s = 16 \<and> list_all is_hex s) (signatures_for f)"
    by (auto simp: list_all_iff signatures_for_def intro: signature_of_hex)
qed

end
