(* ===== verification/Routing.thy ===== *)
theory Routing
  imports Agent_State Fingerprint
begin

text \<open>
  Deterministic routing (\<open>graph/routing.py\<close>): the five branch functions and the explanation
  attached to a halted task. \<open>HALT\<close> is the node \<^const>\<open>N_halt\<close>.
\<close>

definition policy_blocked :: "agent_state \<Rightarrow> bool" where
  "policy_blocked s \<longleftrightarrow> st_policy_action s = Some (action_value BLOCK)"

definition after_risk :: "agent_state \<Rightarrow> node" where
  "after_risk s = (if st_policy_action s = Some (action_value BLOCK) then N_halt else N_implementation)"

definition tests_green :: "agent_state \<Rightarrow> bool" where
  "tests_green s \<longleftrightarrow>
     get_default 0 (st_tests_failed s) = 0 \<and> get_default 0 (st_tests_passed s) \<ge> 0
     \<and> get_default False (st_test_run_ok s)"

definition after_tests :: "agent_state \<Rightarrow> node" where
  "after_tests s =
     (if tests_green s then N_security_policy
      else if get_default 0 (st_iteration s) \<ge> get_default 3 (st_max_iterations s) then N_halt
      else if is_stuck (get_default [] (st_failure_signature_history s)) then N_halt
      else if int (length (get_default [] (st_modified_files s))) > get_default 12 (st_max_files s)
        then N_halt
      else N_debugging)"

definition after_policy :: "agent_state \<Rightarrow> node" where
  "after_policy s = (if st_policy_action s = Some (action_value BLOCK) then N_halt else N_git_commit)"

definition after_commit :: "agent_state \<Rightarrow> node" where
  "after_commit s = (if \<not> truthy_str (st_commit_sha s) then N_halt else N_ci_validation)"

definition after_ci :: "agent_state \<Rightarrow> node" where
  "after_ci s =
     (let status = str_upper (get_default [] (st_ci_status s)) in
      if status \<in> {''PASSED'', ''SKIPPED'', ''''} then N_create_pr
      else if get_default False (st_ci_requires_human s) then N_halt
      else if get_default 0 (st_ci_iteration s) \<ge> get_default 2 (st_max_ci_iterations s) then N_halt
      else N_ci_debugging)"

definition halt_reason :: "agent_state \<Rightarrow> pystr" where
  "halt_reason s =
     (if truthy_str (st_halt_reason s) then get_default [] (st_halt_reason s)
      else if st_policy_action s = Some (action_value BLOCK) then
        ''policy blocked the change: '' @ str_join ''; '' (get_default [] (st_policy_findings s))
      else if get_default 0 (st_tests_failed s) \<noteq> 0 then
        ''tests still failing after '' @ show_int (get_default 0 (st_iteration s)) @
        '' debugging iteration(s) - handing over to a human''
      else if str_upper (get_default [] (st_ci_status s)) = ''FAILED'' then
        ''CI still failing after '' @ show_int (get_default 0 (st_ci_iteration s)) @ '' attempt(s)''
      else ''workflow halted'')"

lemmas routing_defs [route_simps] =
  after_risk_def after_tests_def after_policy_def after_commit_def after_ci_def

lemma after_risk_cases: "after_risk s \<in> {N_implementation, N_halt}"
  by (simp add: route_simps)

lemma after_tests_cases: "after_tests s \<in> {N_security_policy, N_debugging, N_halt}"
  by (simp add: route_simps)

lemma after_policy_cases: "after_policy s \<in> {N_git_commit, N_halt}"
  by (simp add: route_simps)

lemma after_commit_cases: "after_commit s \<in> {N_ci_validation, N_halt}"
  by (simp add: route_simps)

lemma after_ci_cases: "after_ci s \<in> {N_create_pr, N_ci_debugging, N_halt}"
  by (simp add: route_simps Let_def)

lemma after_tests_debugging_iff:
  "after_tests s = N_debugging \<longleftrightarrow>
     \<not> tests_green s \<and> get_default 0 (st_iteration s) < get_default 3 (st_max_iterations s)
     \<and> \<not> is_stuck (get_default [] (st_failure_signature_history s))
     \<and> int (length (get_default [] (st_modified_files s))) \<le> get_default 12 (st_max_files s)"
  by (auto simp: route_simps)

lemma after_tests_policy_iff: "after_tests s = N_security_policy \<longleftrightarrow> tests_green s"
  by (auto simp: route_simps)

lemma after_ci_debugging_bound:
  "after_ci s = N_ci_debugging \<Longrightarrow>
     get_default 0 (st_ci_iteration s) < get_default 2 (st_max_ci_iterations s)
     \<and> \<not> get_default False (st_ci_requires_human s)"
  by (auto simp: route_simps Let_def split: if_splits)

lemma halt_reason_not_empty: "halt_reason s \<noteq> []"
  by (cases "st_halt_reason s") (auto simp: halt_reason_def)

end
