(* ===== verification/Nodes.thy ===== *)
theory Nodes
  imports Git_Agent Routing Testing
begin

text \<open>
  The workflow nodes (\<open>graph/nodes.py\<close>). A node reads the workflow state, acts on the world, and
  returns a partial state update; \<open>nr_usage\<close> is the entry \<open>_usage\<close> of the returned dictionary, which
  the supervisor removes.
\<close>

record node_result =
  nr_state :: agent_state
  nr_usage :: "usage option"

definition just :: "agent_state \<Rightarrow> node_result" where
  "just s = \<lparr>nr_state = s, nr_usage = None\<rparr>"

definition of_agent :: "agent_update \<Rightarrow> node_result" where
  "of_agent u = \<lparr>nr_state = au_state u, nr_usage = Some (au_usage u)\<rparr>"

section \<open>Helpers\<close>

text \<open>\<open>state[key]\<close>.\<close>

definition need_key :: "pystr \<Rightarrow> pystr option \<Rightarrow> pystr io" where
  "need_key key v = (case v of
       None \<Rightarrow> raise (OtherError ''KeyError'' ([CHR 0x27] @ key @ [CHR 0x27]))
     | Some x \<Rightarrow> ret x)"

definition make_tool_context :: "agent_state \<Rightarrow> bool \<Rightarrow> tool_context io" where
  "make_tool_context s in_workspace =
     mbind (if in_workspace then mbind (need_key ''task_id'' (st_task_id s)) ws_try_get else ret None) (\<lambda>ws.
     mbind (need_key ''task_id'' (st_task_id s)) (\<lambda>tid.
     mbind (need_key ''repository_path'' (st_repository_path s)) (\<lambda>repo.
     mbind (gets w_current_agent_run_id) (\<lambda>rid.
     ret \<lparr>tx_task_id = tid, tx_repository_path = path_parts repo, tx_workspace = ws,
          tx_iteration = get_default 0 (st_iteration s), tx_agent_run_id = rid,
          tx_write_allowed = (st_policy_action s \<noteq> Some (action_value BLOCK))\<rparr>))))"

text \<open>The workspace of the state's task; raises when there is none.\<close>

definition workspace_of :: "agent_state \<Rightarrow> workspace io" where
  "workspace_of s = mbind (need_key ''task_id'' (st_task_id s)) ws_get"

definition diff_update :: "diff_summary \<Rightarrow> agent_state" where
  "diff_update d = empty_state\<lparr>st_git_diff := Some (ds_diff d), st_modified_files := Some (ds_files d),
     st_lines_added := Some (ds_insertions d), st_lines_removed := Some (ds_deletions d)\<rparr>"

definition refresh_diff :: "agent_state \<Rightarrow> agent_state io" where
  "refresh_diff s =
     mbind (need_key ''task_id'' (st_task_id s)) (\<lambda>tid.
     mbind (ws_try_get tid) (\<lambda>ws.
     case ws of
       None \<Rightarrow> ret empty_state
     | Some v \<Rightarrow> mbind (collect_diff (ws_path v)) (\<lambda>d. ret (diff_update d))))"

section \<open>Planning, analysis, risk\<close>

definition node_plan :: "ctx \<Rightarrow> agent_state \<Rightarrow> node_result io" where
  "node_plan cx s =
     mbind (make_tool_context s False) (\<lambda>tx.
     mbind (planner_plan cx s tx) (\<lambda>u.
     mbind (emit cx Ev_PLAN_CREATED [
       (''summary'', JStr (get_default [] (st_plan_summary (au_state u)))),
       (''steps'', JInt (int (length (get_default [] (st_plan (au_state u))))))]) (\<lambda>_.
     ret (of_agent u))))"

definition node_repository_analysis :: "ctx \<Rightarrow> agent_state \<Rightarrow> node_result io" where
  "node_repository_analysis cx s =
     mbind (make_tool_context s False) (\<lambda>tx.
     mbind (repository_analyze cx s tx) (\<lambda>u.
     mbind (emit cx Ev_FILES_DISCOVERED
       [(''files'', jstrs (get_default [] (st_relevant_files (au_state u))))]) (\<lambda>_.
     ret (of_agent u))))"

definition node_risk_assessment :: "ctx \<Rightarrow> agent_state \<Rightarrow> node_result io" where
  "node_risk_assessment cx s =
     mbind (make_tool_context s False) (\<lambda>tx.
     mbind (risk_assess cx s tx) (\<lambda>u.
     let r = au_state u in
     mbind (emit cx Ev_RISK_ASSESSED [
       (''risk'', jopt (st_risk_level r)),
       (''approval_required'', JBool (get_default False (st_approval_required r))),
       (''reasons'', jstrs (take 5 (get_default [] (st_risk_reasons r))))]) (\<lambda>_.
     ret (of_agent (if au_blocked u
       then u\<lparr>au_state := r\<lparr>
              st_halt_reason := Some ''policy blocked the change before any file was modified'',
              st_policy_findings := Some (get_default [] (st_risk_reasons r))\<rparr>\<rparr>
       else u)))))"

section \<open>Implementation and tests\<close>

definition node_implementation :: "ctx \<Rightarrow> agent_state \<Rightarrow> node_result io" where
  "node_implementation cx s =
     mbind (need_key ''task_id'' (st_task_id s)) (\<lambda>tid.
     mbind (ws_try_get tid) (\<lambda>existing.
     mbind (case existing of
         Some ws \<Rightarrow> ret ws
       | None \<Rightarrow>
           mbind (need_key ''repository_path'' (st_repository_path s)) (\<lambda>repo.
           mbind (ws_create (workspace_root (cx_settings cx)) tid (path_parts repo)) (\<lambda>ws.
           mbind (emit cx Ev_WORKSPACE_CREATED [(''path'', JStr (path_str (ws_path ws))),
             (''branch'', JStr (ws_branch ws))]) (\<lambda>_. ret ws)))) (\<lambda>ws.
     mbind (make_tool_context s True) (\<lambda>tx.
     mbind (implementation_implement cx s tx) (\<lambda>u.
     mbind (refresh_diff s) (\<lambda>d.
     ret \<lparr>nr_state = (merge_state (au_state u) d)\<lparr>
            st_workspace_path := Some (path_str (ws_path ws)),
            st_git_branch := Some (ws_branch ws)\<rparr>,
          nr_usage = Some (au_usage u)\<rparr>))))))"

definition node_test_generation :: "ctx \<Rightarrow> agent_state \<Rightarrow> node_result io" where
  "node_test_generation cx s =
     mbind (make_tool_context s True) (\<lambda>tx.
     mbind (testing_generate cx s tx) (\<lambda>u.
     mbind (refresh_diff s) (\<lambda>d.
     ret \<lparr>nr_state = merge_state (au_state u) d, nr_usage = Some (au_usage u)\<rparr>)))"

definition test_update :: "agent_state \<Rightarrow> test_outcome \<Rightarrow> agent_state" where
  "test_update s o1 =
     (let rendered = map render_failure (to_failures o1); signatures = signatures_for rendered in
      empty_state\<lparr>
        st_test_results := Some (last_n 12000 (to_output o1)),
        st_test_failures := Some rendered,
        st_tests_passed := Some (int (to_passed o1)),
        st_tests_failed := Some (int (to_failed o1)),
        st_test_run_ok := Some (outcome_ok o1),
        st_failure_signatures := Some signatures,
        st_failure_signature_history :=
          Some (get_default [] (st_failure_signature_history s) @ [signatures])\<rparr>)"

definition node_run_tests :: "ctx \<Rightarrow> agent_state \<Rightarrow> node_result io" where
  "node_run_tests cx s =
     mbind (workspace_of s) (\<lambda>ws.
     mbind (emit cx Ev_TESTS_STARTED [(''iteration'', JInt (get_default 0 (st_iteration s)))]) (\<lambda>_.
     mbind (gets (\<lambda>w. detect_project_kind (w_fs w) (ws_path ws))) (\<lambda>kind.
     if kind \<noteq> ''dotnet''
     then mbind (emit cx Ev_TESTS_PASSED [(''skipped'', JBool True),
            (''reason'', JStr (''no test project ('' @ kind @ '')''))]) (\<lambda>_.
          ret (just (empty_state\<lparr>
            st_test_results := Some (''no runnable test project detected ('' @ kind @ '')''),
            st_test_failures := Some [], st_tests_passed := Some 0, st_tests_failed := Some 0,
            st_test_run_ok := Some True\<rparr>)))
     else
       mbind (run_dotnet_test (ws_path ws) None) (\<lambda>command.
       let o1 = parse_dotnet_output command; update = test_update s o1 in
       mbind (refresh_diff s) (\<lambda>d.
       mbind (if outcome_ok o1
              then emit cx Ev_TESTS_PASSED [(''passed'', JInt (int (to_passed o1))),
                (''skipped'', JInt (int (to_skipped o1)))]
              else emit cx Ev_TEST_FAILED [(''failed'', JInt (int (to_failed o1))),
                (''iteration'', JInt (get_default 0 (st_iteration s))),
                (''failures'', jstrs (take 5 (map render_failure (to_failures o1))))]) (\<lambda>_.
       ret (just (merge_state update d))))))))"

section \<open>Debugging\<close>

definition head_line :: "pystr \<Rightarrow> pystr result" where
  "head_line s = (case str_splitlines s of
       [] \<Rightarrow> Inl (OtherError ''IndexError'' ''list index out of range'')
     | l # _ \<Rightarrow> Inr l)"

fun note_failures :: "int \<Rightarrow> pystr list \<Rightarrow> pystr list \<Rightarrow> pystr list result" where
  "note_failures iteration [] previous = Inr previous"
| "note_failures iteration (f # fs) previous =
     (case head_line f of
        Inl e \<Rightarrow> Inl e
      | Inr l \<Rightarrow>
          let entry = ''iteration '' @ show_int (iteration - 1) @ '': '' @ l
          in note_failures iteration fs
               (if entry \<in> set previous then previous else previous @ [entry]))"

definition note_analysis :: "int \<Rightarrow> pystr \<Rightarrow> pystr list \<Rightarrow> pystr list result" where
  "note_analysis iteration analysis previous =
     (if analysis = [] then Inr previous
      else case head_line analysis of
        Inl e \<Rightarrow> Inl e
      | Inr l \<Rightarrow> Inr (previous @ [''iteration '' @ show_int iteration @ '' analysis: '' @ take 200 l]))"

definition node_debugging :: "ctx \<Rightarrow> agent_state \<Rightarrow> node_result io" where
  "node_debugging cx s =
     (let iteration = get_default 0 (st_iteration s) + 1 in
     mbind (emit cx Ev_DEBUG_ITERATION [(''iteration'', JInt iteration),
       (''failures'', jstrs (take 3 (get_default [] (st_test_failures s))))]) (\<lambda>_.
     mbind (lift_result (note_failures iteration (get_default [] (st_test_failures s))
       (get_default [] (st_previous_failures s)))) (\<lambda>previous.
     mbind (make_tool_context s True) (\<lambda>tx.
     mbind (debugging_debug cx (s\<lparr>st_iteration := Some iteration\<rparr>) tx) (\<lambda>u.
     let analysis = get_default [] (st_debugging_analysis (au_state u)) in
     mbind (lift_result (note_analysis iteration analysis previous)) (\<lambda>previous'.
     mbind (refresh_diff s) (\<lambda>d.
     ret (just (merge_state (empty_state\<lparr>
       st_iteration := Some iteration,
       st_debugging_analysis := Some analysis,
       st_previous_failures := Some previous',
       st_fix_applied := Some (get_default False (st_fix_applied (au_state u))),
       st_confidence := Some (get_default ''LOW'' (st_confidence (au_state u)))\<rparr>) d)))))))))"

section \<open>The policy gate and the commit\<close>

definition node_security_policy :: "ctx \<Rightarrow> agent_state \<Rightarrow> node_result io" where
  "node_security_policy cx s =
     mbind (refresh_diff s) (\<lambda>d.
     let files = (case st_modified_files d of Some fs \<Rightarrow> fs
                  | None \<Rightarrow> get_default [] (st_modified_files s));
         changed = get_default 0 (st_lines_added d) + get_default 0 (st_lines_removed d);
         decision = evaluate (cx_policy cx) files (get_default [] (st_git_diff d)) (Some changed) True in
     case risk_of_value (get_default ''LOW'' (st_risk_level s)) of
       None \<Rightarrow> raise (OtherError ''ValueError''
         (repr_str (get_default ''LOW'' (st_risk_level s)) @ '' is not a valid RiskLevel''))
     | Some state_risk \<Rightarrow>
         let risk = max_risk [Some state_risk, Some (decision_risk decision)] in
         mbind (emit cx Ev_POLICY_EVALUATED [
           (''action'', JStr (action_value (decision_action decision))),
           (''risk'', JStr (risk_value risk)),
           (''findings'', jstrs (take 8 (reasons decision)))]) (\<lambda>_.
         let update = d\<lparr>
           st_policy_action := Some (action_value (decision_action decision)),
           st_policy_findings := Some (reasons decision),
           st_risk_level := Some (risk_value risk),
           st_approval_required := Some (decision_action decision \<noteq> ALLOW \<or> risk = HIGH \<or> files \<noteq> [])\<rparr> in
         if blocked decision
         then mbind (emit cx Ev_POLICY_BLOCKED [(''findings'', jstrs (reasons decision))]) (\<lambda>_.
              ret (just (update\<lparr>st_halt_reason :=
                Some (''policy blocked the change: '' @ decision_summary decision)\<rparr>)))
         else ret (just update)))"

definition node_git_commit :: "ctx \<Rightarrow> agent_state \<Rightarrow> node_result io" where
  "node_git_commit cx s =
     mbind (workspace_of s) (\<lambda>ws.
     if get_default [] (st_modified_files s) = []
     then ret (just (empty_state\<lparr>st_halt_reason := Some ''the agent produced no file changes'',
                                  st_policy_action := Some (action_value BLOCK)\<rparr>))
     else mbind (catch (mbind (commit_changes s (ws_path ws)) (\<lambda>sha. ret (Inr sha)))
                  (\<lambda>e. if is_platform_error e then ret (Inl (error_message e)) else raise e)) (\<lambda>r.
       case r of
         Inl message \<Rightarrow> ret (just (empty_state\<lparr>st_halt_reason := Some (''commit failed: '' @ message)\<rparr>))
       | Inr sha \<Rightarrow>
           mbind (emit cx Ev_COMMIT_CREATED [(''sha'', JStr sha), (''branch'', JStr (ws_branch ws)),
             (''files'', jstrs (get_default [] (st_modified_files s)))]) (\<lambda>_.
           ret (just (empty_state\<lparr>st_commit_sha := Some sha, st_git_branch := Some (ws_branch ws)\<rparr>)))))"

section \<open>CI\<close>

definition node_ci_validation :: "ctx \<Rightarrow> agent_state \<Rightarrow> node_result io" where
  "node_ci_validation cx s =
     mbind (workspace_of s) (\<lambda>ws.
     let branch = get_default (ws_branch ws) (st_git_branch s); provider = ci_choice_name (cx_ci cx) in
     mbind (unless (provider = ''none'') (mbind (push_branch (cx_scm cx) (ws_path ws) branch) (\<lambda>_. ret ()))) (\<lambda>_.
     mbind (emit cx Ev_CI_STARTED [(''branch'', JStr branch), (''provider'', JStr provider)]) (\<lambda>_.
     mbind (trigger_run (cx_ci cx) branch (st_commit_sha s)) (\<lambda>run0.
     mbind (if \<not> ci_finished run0 \<and> ci_id run0 \<noteq> [] then wait_for_run (cx_ci cx) (ci_id run0) else ret run0) (\<lambda>run.
     mbind (if ci_id run \<noteq> [] then get_run_logs (cx_ci cx) (ci_id run) else ret (ci_logs run)) (\<lambda>logs.
     let status = ci_status_value (ci_state run) in
     mbind (record_ci_run cx provider (if ci_id run = [] then None else Some (ci_id run)) (Some branch)
       status (Some status) (Some (ci_url run)) (Some logs) (get_default 0 (st_ci_iteration s))) (\<lambda>_.
     mbind (emit cx Ev_CI_COMPLETED [(''status'', JStr status), (''url'', JStr (ci_url run)),
       (''provider'', JStr provider)]) (\<lambda>_.
     ret (just (empty_state\<lparr>st_ci_status := Some status,
       st_ci_logs := Some (if logs \<noteq> [] then logs else ci_logs run),
       st_ci_run_id := Some (ci_id run)\<rparr>))))))))))"

definition node_ci_debugging :: "ctx \<Rightarrow> agent_state \<Rightarrow> node_result io" where
  "node_ci_debugging cx s =
     (let iteration = get_default 0 (st_ci_iteration s) + 1 in
     mbind (make_tool_context s True) (\<lambda>tx.
     mbind (ci_diagnose cx (s\<lparr>st_ci_iteration := Some iteration\<rparr>) tx) (\<lambda>u.
     mbind (refresh_diff s) (\<lambda>d.
     ret (just (merge_state (empty_state\<lparr>
       st_ci_iteration := Some iteration,
       st_ci_analysis := Some (get_default [] (st_ci_analysis (au_state u))),
       st_ci_requires_human := Some (au_requires_human u)\<rparr>) d))))))"

section \<open>Hand-over\<close>

definition node_create_pr :: "ctx \<Rightarrow> agent_state \<Rightarrow> node_result io" where
  "node_create_pr cx s =
     mbind (workspace_of s) (\<lambda>ws.
     mbind (open_pull_request (cx_scm cx) s (ws_path ws)) (\<lambda>pr.
     mbind (emit cx Ev_PR_CREATED [(''url'', JStr (pr_url pr)), (''id'', JStr (pr_id pr))]) (\<lambda>_.
     ret (just (empty_state\<lparr>st_pull_request_url := Some (pr_url pr)\<rparr>)))))"

definition final_summary :: "agent_state \<Rightarrow> pystr" where
  "final_summary s = str_join '' '' [
     first_text (st_implementation_summary s) (st_plan_summary s) ''Change prepared.'',
     ''Files changed: '' @ show_nat (length (get_default [] (st_modified_files s))) @ ''.'',
     ''Tests: '' @ show_int (get_default 0 (st_tests_passed s)) @ '' passed, '' @
       show_int (get_default 0 (st_tests_failed s)) @ '' failed.'',
     ''CI: '' @ first_text (st_ci_status s) None ''not run'' @ ''.'',
     ''Risk: '' @ get_default ''LOW'' (st_risk_level s) @ ''.'',
     ''Debug iterations: '' @ show_int (get_default 0 (st_iteration s)) @ ''.'']"

definition node_human_review :: "ctx \<Rightarrow> agent_state \<Rightarrow> node_result io" where
  "node_human_review cx s =
     (let summary = final_summary s;
          reason = or_text (str_join ''; '' (get_default [] (st_policy_findings s))) ''routine agent change'' in
     mbind (request_approval cx reason) (\<lambda>_.
     mbind (emit cx Ev_APPROVAL_REQUESTED [
       (''risk'', jopt (st_risk_level s)),
       (''files'', jstrs (get_default [] (st_modified_files s))),
       (''tests_passed'', JInt (get_default 0 (st_tests_passed s))),
       (''ci'', JStr (get_default [] (st_ci_status s)))]) (\<lambda>_.
     ret (just (empty_state\<lparr>st_final_summary := Some summary, st_approval_required := Some True,
       st_outcome := Some ''READY_FOR_REVIEW''\<rparr>)))))"

definition node_halt :: "ctx \<Rightarrow> agent_state \<Rightarrow> node_result io" where
  "node_halt cx s =
     (let reason = halt_reason s in
     mbind (emit cx (if policy_blocked s then Ev_POLICY_BLOCKED else Ev_NO_PROGRESS_DETECTED) [
       (''reason'', JStr reason), (''iteration'', JInt (get_default 0 (st_iteration s)))]) (\<lambda>_.
     ret (just (empty_state\<lparr>st_outcome := Some ''HUMAN_REVIEW_REQUIRED'', st_halt_reason := Some reason,
       st_final_summary := Some (''Stopped and escalated to a human. '' @ reason),
       st_approval_required := Some True\<rparr>))))"

fun node_function :: "ctx \<Rightarrow> node \<Rightarrow> agent_state \<Rightarrow> node_result io" where
  "node_function cx N_plan = node_plan cx"
| "node_function cx N_repository_analysis = node_repository_analysis cx"
| "node_function cx N_risk_assessment = node_risk_assessment cx"
| "node_function cx N_implementation = node_implementation cx"
| "node_function cx N_test_generation = node_test_generation cx"
| "node_function cx N_run_tests = node_run_tests cx"
| "node_function cx N_debugging = node_debugging cx"
| "node_function cx N_security_policy = node_security_policy cx"
| "node_function cx N_git_commit = node_git_commit cx"
| "node_function cx N_ci_validation = node_ci_validation cx"
| "node_function cx N_ci_debugging = node_ci_debugging cx"
| "node_function cx N_create_pr = node_create_pr cx"
| "node_function cx N_human_review = node_human_review cx"
| "node_function cx N_halt = node_halt cx"

section \<open>Audit discipline of the nodes\<close>

lemma evo_helpers [evo_intros]:
  "stays (evolves tid) (need_key k v)" "stays (evolves tid) (make_tool_context s b)"
  "stays (evolves tid) (workspace_of s)" "stays (evolves tid) (refresh_diff s)"
proof -
  show k: "stays (evolves tid) (need_key k v)" for k v
    unfolding need_key_def by (auto intro: evo_intros split: option.split)
  show "stays (evolves tid) (make_tool_context s b)"
    unfolding make_tool_context_def by (auto intro!: evo_intros k)
  show "stays (evolves tid) (workspace_of s)"
    unfolding workspace_of_def by (intro evo_intros k)
  show "stays (evolves tid) (refresh_diff s)"
    unfolding refresh_diff_def by (auto intro!: evo_intros k split: option.split)
qed

lemma evo_nodes:
  "stays (evolves (cx_task_id cx)) (node_function cx n s)"
  by (cases n)
     (auto simp: node_plan_def node_repository_analysis_def node_risk_assessment_def
        node_implementation_def node_test_generation_def node_run_tests_def node_debugging_def
        node_security_policy_def node_git_commit_def node_ci_validation_def node_ci_debugging_def
        node_create_pr_def node_human_review_def node_halt_def Let_def
      intro!: evo_intros split: option.split sum.split)

end
