(* ===== verification/Supervisor.thy ===== *)
theory Supervisor
  imports Nodes
begin

text \<open>
  The supervisor (\<open>agents/supervisor.py\<close>): every node runs inside the same wrapper, which opens an
  agent run, checkpoints the state before and after the node, closes the run, and turns an
  exception of the node into a state update. The lemmas show that the wrapper never raises, what it
  returns on every branch, and that it leaves a checkpoint of the merged state behind.
\<close>

section \<open>The wrapper\<close>

fun NODE_AGENT :: "node \<Rightarrow> pystr" where
  "NODE_AGENT N_plan = ''planner''"
| "NODE_AGENT N_repository_analysis = ''repository''"
| "NODE_AGENT N_risk_assessment = ''risk''"
| "NODE_AGENT N_implementation = ''implementation''"
| "NODE_AGENT N_test_generation = ''testing''"
| "NODE_AGENT N_run_tests = ''supervisor''"
| "NODE_AGENT N_debugging = ''debugging''"
| "NODE_AGENT N_security_policy = ''supervisor''"
| "NODE_AGENT N_git_commit = ''supervisor''"
| "NODE_AGENT N_ci_validation = ''supervisor''"
| "NODE_AGENT N_ci_debugging = ''ci''"
| "NODE_AGENT N_create_pr = ''supervisor''"
| "NODE_AGENT N_human_review = ''supervisor''"
| "NODE_AGENT N_halt = ''supervisor''"

text \<open>\<open>sorted(merged)\<close>: the keys present, in alphabetical order.\<close>

definition state_keys :: "agent_state \<Rightarrow> pystr list" where
  "state_keys s = map fst (filter snd [
     (''acceptance_criteria'', st_acceptance_criteria s \<noteq> None),
     (''approval_required'', st_approval_required s \<noteq> None),
     (''ci_analysis'', st_ci_analysis s \<noteq> None),
     (''ci_iteration'', st_ci_iteration s \<noteq> None),
     (''ci_logs'', st_ci_logs s \<noteq> None),
     (''ci_requires_human'', st_ci_requires_human s \<noteq> None),
     (''ci_run_id'', st_ci_run_id s \<noteq> None),
     (''ci_status'', st_ci_status s \<noteq> None),
     (''commit_sha'', st_commit_sha s \<noteq> None),
     (''confidence'', st_confidence s \<noteq> None),
     (''debugging_analysis'', st_debugging_analysis s \<noteq> None),
     (''error'', st_error s \<noteq> None),
     (''failure_signature_history'', st_failure_signature_history s \<noteq> None),
     (''failure_signatures'', st_failure_signatures s \<noteq> None),
     (''final_summary'', st_final_summary s \<noteq> None),
     (''fix_applied'', st_fix_applied s \<noteq> None),
     (''git_branch'', st_git_branch s \<noteq> None),
     (''git_diff'', st_git_diff s \<noteq> None),
     (''halt_reason'', st_halt_reason s \<noteq> None),
     (''implementation_summary'', st_implementation_summary s \<noteq> None),
     (''issue'', st_issue s \<noteq> None),
     (''iteration'', st_iteration s \<noteq> None),
     (''lines_added'', st_lines_added s \<noteq> None),
     (''lines_removed'', st_lines_removed s \<noteq> None),
     (''max_ci_iterations'', st_max_ci_iterations s \<noteq> None),
     (''max_files'', st_max_files s \<noteq> None),
     (''max_iterations'', st_max_iterations s \<noteq> None),
     (''modified_files'', st_modified_files s \<noteq> None),
     (''outcome'', st_outcome s \<noteq> None),
     (''plan'', st_plan s \<noteq> None),
     (''plan_summary'', st_plan_summary s \<noteq> None),
     (''policy_action'', st_policy_action s \<noteq> None),
     (''policy_findings'', st_policy_findings s \<noteq> None),
     (''previous_failures'', st_previous_failures s \<noteq> None),
     (''pull_request_url'', st_pull_request_url s \<noteq> None),
     (''relevant_files'', st_relevant_files s \<noteq> None),
     (''repository_context'', st_repository_context s \<noteq> None),
     (''repository_path'', st_repository_path s \<noteq> None),
     (''repository_url'', st_repository_url s \<noteq> None),
     (''risk_level'', st_risk_level s \<noteq> None),
     (''risk_reasons'', st_risk_reasons s \<noteq> None),
     (''task_id'', st_task_id s \<noteq> None),
     (''test_commands'', st_test_commands s \<noteq> None),
     (''test_failures'', st_test_failures s \<noteq> None),
     (''test_files'', st_test_files s \<noteq> None),
     (''test_notes'', st_test_notes s \<noteq> None),
     (''test_plan_summary'', st_test_plan_summary s \<noteq> None),
     (''test_results'', st_test_results s \<noteq> None),
     (''test_run_ok'', st_test_run_ok s \<noteq> None),
     (''tests_failed'', st_tests_failed s \<noteq> None),
     (''tests_passed'', st_tests_passed s \<noteq> None),
     (''workflow_run_id'', st_workflow_run_id s \<noteq> None),
     (''workspace_path'', st_workspace_path s \<noteq> None)])"

text \<open>\<open>NODE_STATUS.get(node_name, TaskStatus.PLANNING)\<close>.\<close>

definition node_task_status :: "node \<Rightarrow> task_status" where
  "node_task_status n = get_default PLANNING (NODE_STATUS n)"

text \<open>What the exception handlers record, and the update they make of the exception.\<close>

fun failure_status :: "py_error \<Rightarrow> pystr" where
  "failure_status (PolicyViolationError m) = ''BLOCKED''"
| "failure_status (WorkspaceViolationError m) = ''BLOCKED''"
| "failure_status e = ''FAILED''"

fun failure_update :: "node \<Rightarrow> py_error \<Rightarrow> agent_state" where
  "failure_update n (PolicyViolationError m) =
     empty_state\<lparr>st_halt_reason := Some m, st_policy_action := Some ''BLOCK'', st_error := Some m\<rparr>"
| "failure_update n (WorkspaceViolationError m) =
     empty_state\<lparr>st_halt_reason := Some m, st_policy_action := Some ''BLOCK'', st_error := Some m\<rparr>"
| "failure_update n (TransientInfrastructureError m) =
     empty_state\<lparr>st_halt_reason := Some (''infrastructure error in '' @ node_name n @ '': '' @ m),
       st_error := Some m\<rparr>"
| "failure_update n e =
     empty_state\<lparr>st_halt_reason := Some (node_name n @ '' failed: '' @ error_class e @ '': '' @
       error_message e), st_error := Some (error_message e)\<rparr>"

definition set_current_run :: "pystr option \<Rightarrow> unit io" where
  "set_current_run rid = modify (\<lambda>w. w\<lparr>w_current_agent_run_id := rid\<rparr>)"

text \<open>The part before the \<open>try\<close>.\<close>

definition open_node :: "ctx \<Rightarrow> node \<Rightarrow> agent_state \<Rightarrow> pystr io" where
  "open_node cx n s =
     mbind (emit cx Ev_NODE_STARTED [(''node'', JStr (node_name n)), (''agent'', JStr (NODE_AGENT n))]) (\<lambda>_.
     mbind (start_agent_run cx (node_name n) (NODE_AGENT n) (get_default 0 (st_iteration s))) (\<lambda>rid.
     mbind (set_current_run (Some rid)) (\<lambda>_.
     mbind (save_checkpoint cx s (node_name n) (node_task_status n)) (\<lambda>_. ret rid))))"

text \<open>The \<open>try\<close> block, its handlers and its \<open>finally\<close>.\<close>

definition attempt_node ::
  "node \<Rightarrow> pystr \<Rightarrow> (agent_state \<Rightarrow> node_result io) \<Rightarrow> agent_state \<Rightarrow> agent_state io" where
  "attempt_node n rid function s =
     ensure (catch
       (mbind (function s) (\<lambda>r.
        mbind (finish_agent_run rid ''COMPLETED'' None (nr_usage r)) (\<lambda>_.
        mbind (case nr_usage r of
            None \<Rightarrow> ret ()
          | Some u \<Rightarrow> modify (\<lambda>w. w\<lparr>w_usage := usage_merge (w_usage w) u\<rparr>)) (\<lambda>_.
        ret (nr_state r)))))
       (\<lambda>e. mbind (finish_agent_run rid (failure_status e) (Some (error_message e)) None) (\<lambda>_.
        ret (failure_update n e))))
     (set_current_run None)"

definition instrument ::
  "ctx \<Rightarrow> node \<Rightarrow> (agent_state \<Rightarrow> node_result io) \<Rightarrow> agent_state \<Rightarrow> agent_state io" where
  "instrument cx n function s =
     mbind (open_node cx n s) (\<lambda>rid.
     mbind (attempt_node n rid function s) (\<lambda>merged.
     mbind (save_checkpoint cx (merge_state s merged) (node_name n) (node_task_status n)) (\<lambda>_.
     mbind (emit cx Ev_NODE_COMPLETED [(''node'', JStr (node_name n)),
       (''keys'', jstrs (take 12 (state_keys merged)))]) (\<lambda>_.
     ret merged))))"

section \<open>The wrapper never raises\<close>

named_theorems safe_intros "computations that never raise"

lemmas [safe_intros] = safe_simps safe_mbind

lemma safe_unless [safe_intros]: "safe m \<Longrightarrow> safe (unless b m)"
  by (simp add: unless_def)

lemma safe_ask [safe_intros]: "safe (ask f)"
  by (simp add: safe_def ask_def)

lemma safe_ids [safe_intros]: "safe utcnow" "safe (new_id p)" "safe run_id" "safe event_id"
  unfolding utcnow_def new_id_def run_id_def event_id_def by (intro safe_intros)+

lemma safe_on_db [safe_intros]: "safe (on_db f)"
  unfolding on_db_def by (intro safe_intros)

lemma safe_context [safe_intros]:
  "safe (append_event tid typ p)" "safe (publish_event tid typ p k)" "safe (emit cx typ p)"
  "safe (start_agent_run cx node agent it)" "safe (finish_agent_run rid st err us)"
  "safe (do_save_state tid s)" "safe (do_set_status tid stt nd err)"
  "safe (save_checkpoint cx s node stt)" "safe (set_current_run rid')"
  unfolding append_event_def publish_event_def emit_def start_agent_run_def finish_agent_run_def
    do_save_state_def do_set_status_def save_checkpoint_def set_current_run_def Let_def
  by (auto intro!: safe_intros)

lemma safe_open_node [safe_intros]: "safe (open_node cx n s)"
  unfolding open_node_def by (intro safe_intros)

lemma safe_catch [safe_intros]: "(\<And>e. safe (h e)) \<Longrightarrow> safe (catch m h)"
  by (auto simp: safe_def catch_def split: prod.splits sum.splits)

lemma safe_ensure [safe_intros]:
  assumes "safe m" and "safe f"
  shows "safe (ensure m f)"
  unfolding safe_def
proof
  fix s
  obtain v t where m: "m s = (Inr v, t)" using assms(1) by (metis safe_def)
  obtain u t' where "f t = (Inr u, t')" using assms(2) by (metis safe_def)
  with m show "\<exists>v s'. ensure m f s = (Inr v, s')" by (simp add: ensure_def)
qed

lemma safe_attempt_node [safe_intros]: "safe (attempt_node n rid function s)"
  unfolding attempt_node_def by (intro safe_intros)

lemma safe_instrument [safe_intros]: "safe (instrument cx n function s)"
  unfolding instrument_def by (intro safe_intros)

section \<open>What the wrapper returns and leaves behind\<close>

text \<open>The world in which the node's function starts.\<close>

definition opened :: "ctx \<Rightarrow> node \<Rightarrow> agent_state \<Rightarrow> world \<Rightarrow> world" where
  "opened cx n s w = snd (open_node cx n s w)"

text \<open>The update of a node: its own result, or what the handlers make of its exception.\<close>

definition node_update :: "node \<Rightarrow> node_result result \<Rightarrow> agent_state" where
  "node_update n r = (case r of Inl e \<Rightarrow> failure_update n e | Inr v \<Rightarrow> nr_state v)"

lemma safe_snd: "safe m \<Longrightarrow> m w = (Inr (projr (fst (m w))), snd (m w))"
  unfolding safe_def by (metis fst_conv projr_def snd_conv sum.case(2) sum.sel(2))

lemma mbind_safe: "safe m \<Longrightarrow> mbind m f w = f (projr (fst (m w))) (snd (m w))"
  by (auto simp: safe_def mbind_def split: prod.splits sum.splits) (metis prod.inject sum.distinct(1))

lemma mbind_modify [simp]: "mbind (modify g) f w = f () (g w)"
  by (simp add: mbind_def)

lemma attempt_node_value:
  "fst (attempt_node n rid function s w) = Inr (node_update n (fst (function s w)))"
proof -
  obtain r w1 where f: "function s w = (r, w1)" by fastforce
  show ?thesis
  proof (cases r)
    case (Inl e)
    then show ?thesis using f
      by (simp add: attempt_node_def ensure_def catch_def mbind_def [of "function s"] set_current_run_def
          mbind_safe [OF safe_context(5)] node_update_def)
  next
    case (Inr v)
    then show ?thesis using f
      by (simp add: attempt_node_def ensure_def catch_def mbind_def [of "function s"] set_current_run_def
          mbind_safe [OF safe_context(5)] node_update_def split: option.split)
  qed
qed

lemma instrument_value:
  "fst (instrument cx n function s w) =
     Inr (node_update n (fst (function s (opened cx n s w))))"
  using attempt_node_value [of n _ "function" s "opened cx n s w"]
  by (simp add: instrument_def mbind_safe safe_intros opened_def)

text \<open>Every table but the task table is out of reach of a checkpoint; an event is out of reach of it.\<close>

lemma save_checkpoint_row:
  assumes "task_get (w_db w) (cx_task_id cx) = Some t"
  shows "\<exists>t'. task_get (w_db (snd (save_checkpoint cx s node st w))) (cx_task_id cx) = Some t'
    \<and> t_state t' = s \<and> t_status t' = st \<and> t_current_node t' = Some node"
  using task_get_in [OF assms] assms
  by (simp add: save_checkpoint_def do_save_state_def do_set_status_def unless_def mbind_safe
      safe_intros on_db_def utcnow_def ask_def set_status_values_def save_state_values_def Let_def
      mbind_def)

lemma emit_tasks [simp]: "db_tasks (w_db (snd (emit cx typ p w))) = db_tasks (w_db w)"
  by (simp add: emit_def append_event_def publish_event_def mbind_safe safe_intros on_db_def
      event_id_def new_id_def utcnow_def ask_def mbind_def)

lemma emit_current_run [simp]:
  "w_current_agent_run_id (snd (emit cx typ p w)) = w_current_agent_run_id w"
  by (simp add: emit_def append_event_def publish_event_def mbind_safe safe_intros on_db_def
      event_id_def new_id_def utcnow_def ask_def mbind_def)

lemma save_checkpoint_current_run [simp]:
  "w_current_agent_run_id (snd (save_checkpoint cx s node st w)) = w_current_agent_run_id w"
  by (simp add: save_checkpoint_def do_save_state_def do_set_status_def unless_def mbind_safe
      safe_intros on_db_def utcnow_def ask_def mbind_def)

lemma attempt_node_current_run: "w_current_agent_run_id (snd (attempt_node n rid function s w)) = None"
  by (simp add: attempt_node_def ensure_def set_current_run_def split: prod.split)

section \<open>The wrapper respects the audit discipline\<close>

lemma evo_set_current_run [evo_intros]: "stays (evolves tid) (set_current_run rid)"
  unfolding set_current_run_def by (intro evo_intros) (simp add: evolves_def)

lemma evo_open_node [evo_intros]: "stays (evolves (cx_task_id cx)) (open_node cx n s)"
  unfolding open_node_def by (intro evo_intros)

text \<open>The node finishes the run that was opened for it, which its task owns.\<close>

lemma open_node_owns:
  assumes "open_node cx n s w = (Inr rid, w')"
  shows "owns_run (cx_task_id cx) rid w'"
proof -
  let ?ev = "emit cx Ev_NODE_STARTED [(''node'', JStr (node_name n)), (''agent'', JStr (NODE_AGENT n))]"
  let ?start = "start_agent_run cx (node_name n) (NODE_AGENT n) (get_default 0 (st_iteration s)) (snd (?ev w))"
  let ?w1 = "snd (set_current_run (Some rid) (snd ?start))"
  have r: "?start = (Inr rid, snd ?start)"
    and w': "w' = snd (save_checkpoint cx s (node_name n) (node_task_status n) ?w1)"
    using assms safe_snd [OF safe_context(4), of cx "node_name n" "NODE_AGENT n" "get_default 0 (st_iteration s)" "snd (?ev w)"]
    by (auto simp: open_node_def mbind_safe safe_intros)
  have "owns_run (cx_task_id cx) rid (snd ?start)" by (rule start_agent_run_owns [OF r])
  then have "owns_run (cx_task_id cx) rid ?w1" by (simp add: set_current_run_def owns_run_def)
  moreover have "evolves (cx_task_id cx) ?w1 w'"
    using evo_context(9) [of cx s "node_name n" "node_task_status n"] by (simp only: w' stays_def)
  ultimately show ?thesis by (rule evolves_owns [rotated])
qed

lemma owned_attempt_node:
  assumes "stays (evolves tid) (function s)"
  shows "stays (evolves_owned tid rid) (attempt_node n rid function s)"
proof -
  have usage: "stays (evolves tid) (modify (\<lambda>w. w\<lparr>w_usage := usage_merge (w_usage w) u\<rparr>))" for u
    by (intro evo_intros) (simp add: evolves_def)
  show ?thesis
    unfolding attempt_node_def
    by (intro owned.stays_rules owned_finish owned_stays [OF assms] owned_stays [OF evo_set_current_run])
       (auto intro: owned_stays usage owned.stays_rules split: option.split)
qed

lemma attempt_after_open:
  assumes "stays (evolves (cx_task_id cx)) (function s)" and "open_node cx n s w = (Inr rid, w')"
  shows "evolves (cx_task_id cx) w' (snd (attempt_node n rid function s w'))"
  using owned_attempt_node [of "cx_task_id cx" "function" s, OF assms(1), of rid n] open_node_owns [OF assms(2)]
  by (simp add: stays_def evolves_owned_def)

lemma evo_instrument [evo_intros]:
  assumes "stays (evolves (cx_task_id cx)) (function s)"
  shows "stays (evolves (cx_task_id cx)) (instrument cx n function s)"
  unfolding stays_def
proof
  fix w
  let ?rid = "projr (fst (open_node cx n s w))" and ?w1 = "snd (open_node cx n s w)"
  let ?r = "attempt_node n ?rid function s ?w1"
  let ?close = "\<lambda>merged. mbind (save_checkpoint cx (merge_state s merged) (node_name n) (node_task_status n)) (\<lambda>_.
     mbind (emit cx Ev_NODE_COMPLETED [(''node'', JStr (node_name n)),
       (''keys'', jstrs (take 12 (state_keys merged)))]) (\<lambda>_. ret merged))"
  have open_: "evolves (cx_task_id cx) w ?w1" using evo_open_node [of cx n s] by (simp only: stays_def)
  have attempt: "evolves (cx_task_id cx) ?w1 (snd ?r)"
    by (rule attempt_after_open [of cx "function" s, OF assms safe_snd [OF safe_open_node]])
  have "stays (evolves (cx_task_id cx)) (?close merged)" for merged by (intro evo_intros)
  then have "evolves (cx_task_id cx) (snd ?r) (snd (?close (projr (fst ?r)) (snd ?r)))" by (simp only: stays_def)
  moreover have "instrument cx n function s w = ?close (projr (fst ?r)) (snd ?r)"
    by (simp only: instrument_def mbind_safe safe_open_node safe_attempt_node)
  ultimately show "evolves (cx_task_id cx) w (snd (instrument cx n function s w))"
    using evolves_trans [OF evolves_trans [OF open_ attempt]] by simp
qed

lemma evolves_task_exists:
  assumes "evolves tid w w'" and "task_get (w_db w) x = Some t"
  obtains t' where "task_get (w_db w') x = Some t'"
proof -
  have "x \<in> t_id ` set (db_tasks (w_db w))"
    using task_get_in [OF assms(2)] by auto
  moreover have "t_id ` set (db_tasks (w_db w')) = t_id ` set (db_tasks (w_db w))"
    using assms(1) by (metis evolves_def db_evolves_def set_map)
  ultimately have "task_get (w_db w') x \<noteq> None" by (simp add: task_get_def find_None_key)
  then show ?thesis using that by blast
qed

lemma evo_instrumented [evo_intros]:
  "stays (evolves (cx_task_id cx)) (instrument cx n (node_function cx n) s)"
  by (intro evo_instrument evo_nodes)

text \<open>
  C29: one failing node does not kill the worker, and the task can be resumed after every node.
  Whatever a node does and whatever the services answer, the supervised node returns: its own
  update when it succeeds; an update that sets the policy action to BLOCK when it hits the
  workspace or policy boundary; an update with a halt reason otherwise. The task's row then holds
  the merged state, the node's name and its status, and no agent run is left current.
\<close>

theorem supervised_node_checkpoints:
  assumes "task_get (w_db w) (cx_task_id cx) = Some t"
  shows "\<exists>u w' t'. instrument cx n (node_function cx n) s w = (Inr u, w')
    \<and> (case fst (node_function cx n s (opened cx n s w)) of
         Inr r \<Rightarrow> u = nr_state r
       | Inl (PolicyViolationError m) \<Rightarrow> policy_blocked u
       | Inl (WorkspaceViolationError m) \<Rightarrow> policy_blocked u
       | Inl e \<Rightarrow> truthy_str (st_halt_reason u) \<and> st_policy_action u = None)
    \<and> w_current_agent_run_id w' = None
    \<and> task_get (w_db w') (cx_task_id cx) = Some t'
    \<and> t_state t' = merge_state s u \<and> t_status t' = node_task_status n
    \<and> t_current_node t' = Some (node_name n)"
proof -
  let ?r = "fst (node_function cx n s (opened cx n s w))"
  let ?u = "node_update n ?r"
  let ?o = "open_node cx n s w"
  let ?w2 = "snd (attempt_node n (projr (fst ?o)) (node_function cx n) s (snd ?o))"
  have val: "fst (attempt_node n rid (node_function cx n) s (snd ?o)) = Inr ?u" for rid
    by (simp add: attempt_node_value opened_def)
  have run: "instrument cx n (node_function cx n) s w =
    (Inr ?u, snd (emit cx Ev_NODE_COMPLETED [(''node'', JStr (node_name n)),
       (''keys'', jstrs (take 12 (state_keys ?u)))]
       (snd (save_checkpoint cx (merge_state s ?u) (node_name n) (node_task_status n) ?w2))))"
    by (simp add: instrument_def mbind_safe safe_intros val)
  have "evolves (cx_task_id cx) w (snd ?o)"
    using evo_open_node [of cx n s] by (simp only: stays_def)
  moreover have "evolves (cx_task_id cx) (snd ?o) ?w2"
    by (rule attempt_after_open [of cx "node_function cx n" s, OF evo_nodes safe_snd [OF safe_open_node]])
  ultimately have "evolves (cx_task_id cx) w ?w2" by (rule evolves_trans)
  then obtain t2 where "task_get (w_db ?w2) (cx_task_id cx) = Some t2"
    using assms by (rule evolves_task_exists)
  from save_checkpoint_row [OF this, of "merge_state s ?u" "node_name n" "node_task_status n"]
  obtain t' where row: "task_get (w_db (snd (instrument cx n (node_function cx n) s w))) (cx_task_id cx) = Some t'"
    "t_state t' = merge_state s ?u" "t_status t' = node_task_status n"
    "t_current_node t' = Some (node_name n)"
    by (auto simp: run task_get_def)
  have "case ?r of Inr r \<Rightarrow> ?u = nr_state r | Inl (PolicyViolationError m) \<Rightarrow> policy_blocked ?u
      | Inl (WorkspaceViolationError m) \<Rightarrow> policy_blocked ?u
      | Inl e \<Rightarrow> truthy_str (st_halt_reason ?u) \<and> st_policy_action ?u = None"
    by (auto simp: node_update_def policy_blocked_def split: sum.split py_error.split)
  with row show ?thesis
    by (intro exI [of _ ?u] exI conjI) (simp_all add: run attempt_node_current_run)
qed

definition sample_task :: task_row where
  "sample_task = new_task_row ''TASK-1'' 0 0 ''repo'' None ''issue'' None None"

definition sample_world :: world where
  "sample_world = (new_world quiet_answers [])\<lparr>w_db := empty_db\<lparr>db_tasks := [sample_task]\<rparr>\<rparr>"

lemma sample_world_task [simp]: "task_get (w_db sample_world) (cx_task_id sample_ctx) = Some sample_task"
  by (simp add: sample_world_def new_world_def task_get_def sample_task_def new_task_row_def
      sample_ctx_def)

theorem supervised_node_checkpoints_witness:
  "\<exists>u w' t'. instrument sample_ctx N_run_tests (node_function sample_ctx N_run_tests) empty_state sample_world
     = (Inr u, w') \<and> task_get (w_db w') ''TASK-1'' = Some t' \<and> t_state t' = u \<and> t_status t' = TESTING"
  using supervised_node_checkpoints [OF sample_world_task, of N_run_tests empty_state]
  by (auto simp: node_task_status_def sample_ctx_def)

end
