(* ===== verification/Frames.thy ===== *)
theory Frames
  imports Supervisor
begin

text \<open>
  What the nodes leave alone. \<open>yields P m\<close> says that every value the computation returns satisfies
  \<open>P\<close>; with it each node is shown to keep the task's identity and limits out of its update, to move
  an iteration counter only where the workflow means it to, and, for the nodes that end the
  workflow, to return always and with the outcome the executor reads.
\<close>

section \<open>Postconditions on values\<close>

definition yields :: "('a \<Rightarrow> bool) \<Rightarrow> ('s, 'a) eff \<Rightarrow> bool" where
  "yields P m \<longleftrightarrow> (\<forall>s v s'. m s = (Inr v, s') \<longrightarrow> P v)"

named_theorems yields_intros "postconditions of computations"

lemma yields_D: "yields P m \<Longrightarrow> m s = (Inr v, s') \<Longrightarrow> P v"
  by (auto simp: yields_def)

lemma yields_basic [yields_intros]:
  "P v \<Longrightarrow> yields P (ret v)" "yields P (raise e)"
  by (simp_all add: yields_def)

lemma yields_bind: "yields Q m \<Longrightarrow> (\<And>v. Q v \<Longrightarrow> yields P (f v)) \<Longrightarrow> yields P (mbind m f)"
  unfolding yields_def by (metis mbind_InrD)

lemma yields_bind_any [yields_intros]: "(\<And>v. yields P (f v)) \<Longrightarrow> yields P (mbind m f)"
  by (rule yields_bind [of "\<lambda>_. True"]) (simp_all add: yields_def)

lemma yields_mono: "yields P m \<Longrightarrow> (\<And>v. P v \<Longrightarrow> Q v) \<Longrightarrow> yields Q m"
  by (auto simp: yields_def)

section \<open>Updates that keep the task's identity and limits\<close>

definition keeps_task :: "agent_state \<Rightarrow> bool" where
  "keeps_task u \<longleftrightarrow> st_task_id u = None \<and> st_workflow_run_id u = None \<and> st_repository_url u = None
     \<and> st_repository_path u = None \<and> st_issue u = None \<and> st_max_files u = None
     \<and> st_max_iterations u = None \<and> st_max_ci_iterations u = None"

definition keeps_counters :: "agent_state \<Rightarrow> bool" where
  "keeps_counters u \<longleftrightarrow> st_iteration u = None \<and> st_ci_iteration u = None"

definition quiet :: "agent_state \<Rightarrow> bool" where
  "quiet u \<longleftrightarrow> keeps_task u \<and> keeps_counters u"

lemmas quiet_defs = quiet_def keeps_task_def keeps_counters_def

lemma quiet_merge: "quiet a \<Longrightarrow> quiet b \<Longrightarrow> quiet (merge_state a b)"
  by (simp add: quiet_defs)

lemma quiet_failure: "quiet (failure_update n e)"
  by (cases "(n, e)" rule: failure_update.cases) (simp_all add: quiet_defs)

lemma quiet_agents:
  "yields (\<lambda>u. quiet (au_state u)) (planner_plan cx s tx)"
  "yields (\<lambda>u. quiet (au_state u)) (repository_analyze cx s tx)"
  "yields (\<lambda>u. quiet (au_state u)) (risk_assess cx s tx)"
  "yields (\<lambda>u. quiet (au_state u)) (implementation_implement cx s tx)"
  "yields (\<lambda>u. quiet (au_state u)) (testing_generate cx s tx)"
  unfolding planner_plan_def repository_analyze_def risk_assess_def implementation_implement_def
    testing_generate_def Let_def
  by (auto intro!: yields_intros simp: plain_update_def quiet_defs split: prod.split)

lemma quiet_refresh: "yields quiet (refresh_diff s)"
  unfolding refresh_diff_def
  by (auto intro!: yields_intros simp: diff_update_def quiet_defs split: option.split)

lemma quiet_node:
  assumes "n \<noteq> N_debugging" and "n \<noteq> N_ci_debugging"
  shows "yields (\<lambda>r. quiet (nr_state r)) (node_function cx n s)"
  using assms
  by (cases n)
     (auto simp: node_plan_def node_repository_analysis_def node_risk_assessment_def
        node_implementation_def node_test_generation_def node_run_tests_def
        node_security_policy_def node_git_commit_def node_ci_validation_def node_create_pr_def
        node_human_review_def node_halt_def Let_def of_agent_def just_def test_update_def quiet_defs
      intro!: yields_intros yields_bind [OF quiet_agents(1)]
        yields_bind [OF quiet_agents(2)] yields_bind [OF quiet_agents(3)]
        yields_bind [OF quiet_agents(4)] yields_bind [OF quiet_agents(5)] yields_bind [OF quiet_refresh]
      split: option.split sum.split)

text \<open>The two repair nodes advance their own counter by one.\<close>

lemma counter_nodes:
  "yields (\<lambda>r. keeps_task (nr_state r) \<and> st_ci_iteration (nr_state r) = None
     \<and> st_iteration (nr_state r) = Some (get_default 0 (st_iteration s) + 1)) (node_debugging cx s)"
  "yields (\<lambda>r. keeps_task (nr_state r) \<and> st_iteration (nr_state r) = None
     \<and> st_ci_iteration (nr_state r) = Some (get_default 0 (st_ci_iteration s) + 1)) (node_ci_debugging cx s)"
  unfolding node_debugging_def node_ci_debugging_def Let_def just_def
  by (auto intro!: yields_intros yields_bind [OF quiet_refresh] simp: quiet_defs)

text \<open>The two last nodes always return, with the outcome the executor looks for.\<close>

lemma safe_request_approval [safe_intros]: "safe (request_approval cx reason)"
  unfolding request_approval_def by (intro safe_intros)

lemma safe_last_nodes [safe_intros]: "safe (node_human_review cx s)" "safe (node_halt cx s)"
  unfolding node_human_review_def node_halt_def Let_def by (intro safe_intros)+

lemma last_nodes_outcome:
  "yields (\<lambda>r. st_outcome (nr_state r) = Some ''READY_FOR_REVIEW''
     \<and> st_approval_required (nr_state r) = Some True) (node_human_review cx s)"
  "yields (\<lambda>r. st_outcome (nr_state r) = Some ''HUMAN_REVIEW_REQUIRED''
     \<and> st_approval_required (nr_state r) = Some True
     \<and> truthy_str (st_halt_reason (nr_state r))) (node_halt cx s)"
  unfolding node_human_review_def node_halt_def Let_def just_def
  by (auto intro!: yields_intros simp: halt_reason_not_empty)

text \<open>From the policy gate on, no node touches the test results; from CI on, none touches the commit;
  after CI, none touches the CI status.\<close>

definition keeps_tests :: "agent_state \<Rightarrow> bool" where
  "keeps_tests u \<longleftrightarrow> st_tests_failed u = None \<and> st_tests_passed u = None \<and> st_test_run_ok u = None"

lemma keeps_tests_node:
  assumes "n \<in> {N_security_policy, N_git_commit, N_ci_validation, N_create_pr, N_human_review}"
  shows "yields (\<lambda>r. keeps_tests (nr_state r)) (node_function cx n s)"
proof -
  have refresh: "yields keeps_tests (refresh_diff s)"
    unfolding refresh_diff_def
    by (auto intro!: yields_intros simp: diff_update_def keeps_tests_def split: option.split)
  show ?thesis using assms
    by (cases n)
       (auto simp: node_security_policy_def node_git_commit_def node_ci_validation_def node_create_pr_def
          node_human_review_def Let_def just_def keeps_tests_def
        intro!: yields_intros yields_bind [OF refresh] split: option.split sum.split)
qed

lemma keeps_commit_node:
  assumes "n \<in> {N_ci_validation, N_create_pr, N_human_review}"
  shows "yields (\<lambda>r. st_commit_sha (nr_state r) = None) (node_function cx n s)"
  using assms
  by (cases n)
     (auto simp: node_ci_validation_def node_create_pr_def node_human_review_def Let_def just_def
      intro!: yields_intros)

text \<open>No node but the CI node touches the CI status.\<close>

lemma keeps_ci_agents:
  "yields (\<lambda>u. st_ci_status (au_state u) = None) (planner_plan cx s tx)"
  "yields (\<lambda>u. st_ci_status (au_state u) = None) (repository_analyze cx s tx)"
  "yields (\<lambda>u. st_ci_status (au_state u) = None) (risk_assess cx s tx)"
  "yields (\<lambda>u. st_ci_status (au_state u) = None) (implementation_implement cx s tx)"
  "yields (\<lambda>u. st_ci_status (au_state u) = None) (testing_generate cx s tx)"
  unfolding planner_plan_def repository_analyze_def risk_assess_def implementation_implement_def
    testing_generate_def Let_def
  by (auto intro!: yields_intros simp: plain_update_def split: prod.split)

lemma keeps_ci_refresh: "yields (\<lambda>d. st_ci_status d = None) (refresh_diff s)"
  unfolding refresh_diff_def
  by (auto intro!: yields_intros simp: diff_update_def split: option.split)

lemma keeps_ci_node:
  assumes "n \<noteq> N_ci_validation"
  shows "yields (\<lambda>r. st_ci_status (nr_state r) = None) (node_function cx n s)"
  using assms
  by (cases n)
     (auto simp: node_plan_def node_repository_analysis_def node_risk_assessment_def
        node_implementation_def node_test_generation_def node_run_tests_def node_debugging_def
        node_security_policy_def node_git_commit_def node_ci_debugging_def node_create_pr_def
        node_human_review_def node_halt_def Let_def of_agent_def just_def test_update_def
      intro!: yields_intros yields_bind [OF keeps_ci_agents(1)]
        yields_bind [OF keeps_ci_agents(2)] yields_bind [OF keeps_ci_agents(3)]
        yields_bind [OF keeps_ci_agents(4)] yields_bind [OF keeps_ci_agents(5)] yields_bind [OF keeps_ci_refresh]
      split: option.split sum.split)

section \<open>The update of a supervised node\<close>

text \<open>The update the supervisor returns for a node, by whether the node returned.\<close>

definition supervised :: "ctx \<Rightarrow> node \<Rightarrow> agent_state \<Rightarrow> world \<Rightarrow> agent_state" where
  "supervised cx n s w = node_update n (fst (node_function cx n s (opened cx n s w)))"

definition node_raises :: "ctx \<Rightarrow> node \<Rightarrow> agent_state \<Rightarrow> world \<Rightarrow> bool" where
  "node_raises cx n s w \<longleftrightarrow> (\<exists>e. fst (node_function cx n s (opened cx n s w)) = Inl e)"

lemma instrument_supervised:
  "instrument cx n (node_function cx n) s w =
     (Inr (supervised cx n s w), snd (instrument cx n (node_function cx n) s w))"
  by (rule prod_eqI) (simp_all add: instrument_value supervised_def)

lemma yields_fst: "yields P m \<Longrightarrow> fst (m w) = Inr v \<Longrightarrow> P v"
  by (cases "m w") (auto simp: yields_def)

lemma supervised_keeps_task: "keeps_task (supervised cx n s w)"
proof -
  consider "n = N_debugging" | "n = N_ci_debugging" | "n \<noteq> N_debugging" "n \<noteq> N_ci_debugging" by blast
  then have "yields (\<lambda>r. keeps_task (nr_state r)) (node_function cx n s)"
    by cases (auto intro: yields_mono [OF counter_nodes(1)] yields_mono [OF counter_nodes(2)]
        yields_mono [OF quiet_node] simp: quiet_def)
  with quiet_failure show ?thesis
    by (auto simp: supervised_def node_update_def quiet_def split: sum.splits dest: yields_fst)
qed

lemma supervised_quiet:
  assumes "n \<noteq> N_debugging" and "n \<noteq> N_ci_debugging"
  shows "quiet (supervised cx n s w)"
  using quiet_node [OF assms, of cx s] quiet_failure
  by (auto simp: supervised_def node_update_def split: sum.splits dest: yields_fst)

lemma supervised_raising: "node_raises cx n s w \<Longrightarrow> quiet (supervised cx n s w)"
  by (auto simp: node_raises_def supervised_def node_update_def quiet_failure)

lemma supervised_debugging:
  assumes "\<not> node_raises cx N_debugging s w"
  shows "st_iteration (supervised cx N_debugging s w) = Some (get_default 0 (st_iteration s) + 1)"
    and "st_ci_iteration (supervised cx N_debugging s w) = None"
  using counter_nodes(1) [of s cx] assms
  by (auto simp: supervised_def node_update_def node_raises_def split: sum.splits dest!: yields_fst)

lemma supervised_ci_debugging:
  assumes "\<not> node_raises cx N_ci_debugging s w"
  shows "st_ci_iteration (supervised cx N_ci_debugging s w) = Some (get_default 0 (st_ci_iteration s) + 1)"
    and "st_iteration (supervised cx N_ci_debugging s w) = None"
  using counter_nodes(2) [of s cx] assms
  by (auto simp: supervised_def node_update_def node_raises_def split: sum.splits dest!: yields_fst)

lemma supervised_last:
  "st_outcome (supervised cx N_human_review s w) = Some ''READY_FOR_REVIEW''"
  "st_outcome (supervised cx N_halt s w) = Some ''HUMAN_REVIEW_REQUIRED''"
  "st_approval_required (supervised cx N_human_review s w) = Some True"
  "st_approval_required (supervised cx N_halt s w) = Some True"
  "truthy_str (st_halt_reason (supervised cx N_halt s w))"
  using yields_D [OF last_nodes_outcome(1) safe_snd [OF safe_last_nodes(1)]]
    yields_D [OF last_nodes_outcome(2) safe_snd [OF safe_last_nodes(2)]]
    safe_snd [OF safe_last_nodes(1)] safe_snd [OF safe_last_nodes(2)]
  by (metis (no_types, lifting) supervised_def node_update_def node_function.simps(13,14) fst_conv sum.case(2))+

lemma failure_update_sel [simp]:
  "st_commit_sha (failure_update n e) = None" "st_ci_status (failure_update n e) = None"
  "keeps_tests (failure_update n e)"
  by (cases "(n, e)" rule: failure_update.cases, simp_all add: keeps_tests_def)+

lemma supervised_late:
  "n \<in> {N_security_policy, N_git_commit, N_ci_validation, N_create_pr, N_human_review}
     \<Longrightarrow> keeps_tests (supervised cx n s w)"
  "n \<in> {N_ci_validation, N_create_pr, N_human_review} \<Longrightarrow> st_commit_sha (supervised cx n s w) = None"
  "n \<noteq> N_ci_validation \<Longrightarrow> st_ci_status (supervised cx n s w) = None"
  using keeps_tests_node [of n cx s] keeps_commit_node [of n cx s] keeps_ci_node [of n cx s]
  by (auto simp: supervised_def node_update_def split: sum.split dest: yields_fst simp del: node_function.simps)

end
