(* ===== verification/Workflow.thy ===== *)
theory Workflow
  imports Frames
begin

text \<open>
  The workflow graph (\<open>graph/workflow.py\<close>). The graph engine, LangGraph, is not part of the
  repository; what the program relies on is its documented behaviour: one node at a time, the
  node's update merged into the state key by key, the edges evaluated on the merged state, and a
  \<open>GraphRecursionError\<close> when the limit on the number of nodes is used up before the end of the graph.

  Single steps are the relation \<open>graph_step\<close>, over any way of executing a node. What the graph needs
  to know of a node is the locale \<open>workflow_nodes\<close>: which keys the update leaves alone, that the
  repair nodes advance their counters, that the last nodes set the outcome. Its lemmas bound the
  number of steps and say what a task that is ready for review has behind it; the supervised nodes
  of the program interpret it.
\<close>

section \<open>The graph\<close>

fun next_node :: "node \<Rightarrow> agent_state \<Rightarrow> node option" where
  "next_node N_plan s = Some N_repository_analysis"
| "next_node N_repository_analysis s = Some N_risk_assessment"
| "next_node N_risk_assessment s = Some (after_risk s)"
| "next_node N_implementation s = Some N_test_generation"
| "next_node N_test_generation s = Some N_run_tests"
| "next_node N_run_tests s = Some (after_tests s)"
| "next_node N_debugging s = Some N_run_tests"
| "next_node N_security_policy s = Some (after_policy s)"
| "next_node N_git_commit s = Some (after_commit s)"
| "next_node N_ci_validation s = Some (after_ci s)"
| "next_node N_ci_debugging s = Some N_run_tests"
| "next_node N_create_pr s = Some N_human_review"
| "next_node N_human_review s = None"
| "next_node N_halt s = None"

definition RECURSION_LIMIT :: nat where
  "RECURSION_LIMIT = 60"

text \<open>\<open>workflow.ainvoke\<close>, from a node; \<open>message\<close> is the text of the engine's error.\<close>

fun run_graph :: "ctx \<Rightarrow> pystr \<Rightarrow> nat \<Rightarrow> node \<Rightarrow> agent_state \<Rightarrow> agent_state io" where
  "run_graph cx message 0 n s = raise (OtherError ''GraphRecursionError'' message)"
| "run_graph cx message (Suc k) n s =
     mbind (instrument cx n (node_function cx n) s) (\<lambda>u.
     let s' = merge_state s u in
     case next_node n s' of None \<Rightarrow> ret s' | Some m \<Rightarrow> run_graph cx message k m s')"

section \<open>Steps\<close>

type_synonym 'w config = "node option \<times> agent_state \<times> 'w"

inductive graph_step ::
  "(node \<Rightarrow> agent_state \<Rightarrow> 'w \<Rightarrow> agent_state) \<Rightarrow> (node \<Rightarrow> agent_state \<Rightarrow> 'w \<Rightarrow> 'w)
     \<Rightarrow> 'w config \<Rightarrow> 'w config \<Rightarrow> bool"
  for exec :: "node \<Rightarrow> agent_state \<Rightarrow> 'w \<Rightarrow> agent_state" and leave :: "node \<Rightarrow> agent_state \<Rightarrow> 'w \<Rightarrow> 'w"
  where
  step: "s' = merge_state s (exec n s w) \<Longrightarrow>
    graph_step exec leave (Some n, s, w) (next_node n s', s', leave n s w)"

inductive_cases graph_stepE: "graph_step exec leave c c'"
inductive_simps graph_step_iff: "graph_step exec leave (m, s, w) c'"

lemma graph_step_deterministic: "graph_step exec leave c a \<Longrightarrow> graph_step exec leave c b \<Longrightarrow> a = b"
  by (auto elim!: graph_stepE)

text \<open>
  What may still happen: the number of nodes from each node to the end without repairs, and the
  repairs the counters leave, two nodes for a debugging round and five for a CI round.
\<close>

fun nodes_left :: "node \<Rightarrow> nat" where
  "nodes_left N_plan = 11"
| "nodes_left N_repository_analysis = 10"
| "nodes_left N_risk_assessment = 9"
| "nodes_left N_implementation = 8"
| "nodes_left N_test_generation = 7"
| "nodes_left N_run_tests = 6"
| "nodes_left N_debugging = 5"
| "nodes_left N_security_policy = 5"
| "nodes_left N_git_commit = 4"
| "nodes_left N_ci_validation = 3"
| "nodes_left N_ci_debugging = 2"
| "nodes_left N_create_pr = 2"
| "nodes_left N_human_review = 1"
| "nodes_left N_halt = 1"

definition debug_budget :: "agent_state \<Rightarrow> nat" where
  "debug_budget s = nat (get_default 3 (st_max_iterations s) - get_default 0 (st_iteration s))"

definition ci_budget :: "agent_state \<Rightarrow> nat" where
  "ci_budget s = nat (get_default 2 (st_max_ci_iterations s) - get_default 0 (st_ci_iteration s))"

fun cost :: "'w config \<Rightarrow> nat" where
  "cost (None, s, w) = 0"
| "cost (Some n, s, w) = nodes_left n + 2 * debug_budget s + 5 * ci_budget s"

text \<open>A repair node is entered only within its budget.\<close>

fun budgeted :: "'w config \<Rightarrow> bool" where
  "budgeted (Some N_debugging, s, w) \<longleftrightarrow> 0 < debug_budget s"
| "budgeted (Some N_ci_debugging, s, w) \<longleftrightarrow> 0 < ci_budget s"
| "budgeted _ \<longleftrightarrow> True"

text \<open>A repair node is about to run and will raise.\<close>

fun repair_fails :: "(node \<Rightarrow> agent_state \<Rightarrow> 'w \<Rightarrow> bool) \<Rightarrow> 'w config \<Rightarrow> bool" where
  "repair_fails fails (Some n, s, w) \<longleftrightarrow> (n = N_debugging \<or> n = N_ci_debugging) \<and> fails n s w"
| "repair_fails fails (None, s, w) \<longleftrightarrow> False"

text \<open>What a task that reaches a late node has behind it.\<close>

definition ci_accepted :: "agent_state \<Rightarrow> bool" where
  "ci_accepted s \<longleftrightarrow> str_upper (get_default [] (st_ci_status s)) \<in> {''PASSED'', ''SKIPPED'', ''''}"

fun earned :: "node \<Rightarrow> agent_state \<Rightarrow> bool" where
  "earned N_security_policy s \<longleftrightarrow> tests_green s"
| "earned N_git_commit s \<longleftrightarrow> tests_green s \<and> \<not> policy_blocked s"
| "earned N_ci_validation s \<longleftrightarrow> tests_green s \<and> truthy_str (st_commit_sha s)"
| "earned N_create_pr s \<longleftrightarrow> tests_green s \<and> truthy_str (st_commit_sha s) \<and> ci_accepted s"
| "earned N_human_review s \<longleftrightarrow> tests_green s \<and> truthy_str (st_commit_sha s) \<and> ci_accepted s"
| "earned _ s \<longleftrightarrow> True"

fun sound_config :: "'w config \<Rightarrow> bool" where
  "sound_config (Some n, s, w) \<longleftrightarrow> earned n s"
| "sound_config (None, s, w) \<longleftrightarrow>
     st_outcome s = Some ''HUMAN_REVIEW_REQUIRED''
     \<or> st_outcome s = Some ''READY_FOR_REVIEW'' \<and> tests_green s \<and> truthy_str (st_commit_sha s)
       \<and> ci_accepted s"

lemma tests_green_merge: "keeps_tests u \<Longrightarrow> tests_green (merge_state s u) = tests_green s"
  by (simp add: tests_green_def keeps_tests_def)

lemma ci_accepted_merge: "st_ci_status u = None \<Longrightarrow> ci_accepted (merge_state s u) = ci_accepted s"
  by (simp add: ci_accepted_def)

lemma budget_merge:
  "quiet u \<Longrightarrow> debug_budget (merge_state s u) = debug_budget s"
  "quiet u \<Longrightarrow> ci_budget (merge_state s u) = ci_budget s"
  by (simp_all add: quiet_defs debug_budget_def ci_budget_def)

text \<open>Every edge but the two back edges goes down, and a repair node is entered within its budget.\<close>

lemma next_node_down:
  assumes "n \<noteq> N_debugging" "n \<noteq> N_ci_debugging" and "next_node n s = Some m"
  shows "nodes_left m < nodes_left n" and "budgeted (Some m, s, w)"
proof -
  consider "n = N_risk_assessment" | "n = N_run_tests" | "n = N_security_policy" | "n = N_git_commit"
    | "n = N_ci_validation"
    | "n \<notin> {N_risk_assessment, N_run_tests, N_security_policy, N_git_commit, N_ci_validation}" by blast
  then have "nodes_left m < nodes_left n \<and> budgeted (Some m, s, w)"
  proof cases
    case 2
    have "after_tests s = N_debugging \<Longrightarrow> 0 < debug_budget s"
      by (simp add: after_tests_debugging_iff debug_budget_def)
    with 2 assms after_tests_cases [of s] show ?thesis by auto
  next
    case 5
    have "after_ci s = N_ci_debugging \<Longrightarrow> 0 < ci_budget s"
      using after_ci_debugging_bound [of s] by (simp add: ci_budget_def)
    with 5 assms after_ci_cases [of s] show ?thesis by auto
  next
    case 6
    with assms show ?thesis by (cases n) auto
  qed (use assms after_risk_cases [of s] after_policy_cases [of s] after_commit_cases [of s] in auto)
  then show "nodes_left m < nodes_left n" "budgeted (Some m, s, w)" by simp_all
qed

section \<open>What the graph needs of the nodes\<close>

locale workflow_nodes =
  fixes exec :: "node \<Rightarrow> agent_state \<Rightarrow> 'w \<Rightarrow> agent_state"
    and leave :: "node \<Rightarrow> agent_state \<Rightarrow> 'w \<Rightarrow> 'w"
    and fails :: "node \<Rightarrow> agent_state \<Rightarrow> 'w \<Rightarrow> bool"
  assumes exec_task: "keeps_task (exec n s w)"
    and exec_quiet: "n \<noteq> N_debugging \<Longrightarrow> n \<noteq> N_ci_debugging \<Longrightarrow> quiet (exec n s w)"
    and exec_debugging: "\<not> fails N_debugging s w \<Longrightarrow>
      st_iteration (exec N_debugging s w) = Some (get_default 0 (st_iteration s) + 1)
      \<and> st_ci_iteration (exec N_debugging s w) = None"
    and exec_ci_debugging: "\<not> fails N_ci_debugging s w \<Longrightarrow>
      st_ci_iteration (exec N_ci_debugging s w) = Some (get_default 0 (st_ci_iteration s) + 1)
      \<and> st_iteration (exec N_ci_debugging s w) = None"
    and exec_tests: "n \<in> {N_security_policy, N_git_commit, N_ci_validation, N_create_pr, N_human_review}
      \<Longrightarrow> keeps_tests (exec n s w)"
    and exec_commit: "n \<in> {N_ci_validation, N_create_pr, N_human_review}
      \<Longrightarrow> st_commit_sha (exec n s w) = None"
    and exec_ci: "n \<noteq> N_ci_validation \<Longrightarrow> st_ci_status (exec n s w) = None"
    and exec_review: "st_outcome (exec N_human_review s w) = Some ''READY_FOR_REVIEW''"
    and exec_halt: "st_outcome (exec N_halt s w) = Some ''HUMAN_REVIEW_REQUIRED''"
begin

abbreviation steps :: "nat \<Rightarrow> 'w config \<Rightarrow> 'w config \<Rightarrow> bool" where
  "steps k \<equiv> graph_step exec leave ^^ k"

lemma step_earned:
  assumes "graph_step exec leave c c'" and "sound_config c"
  shows "sound_config c'"
  using assms
proof (cases rule: graph_step.cases)
  case (step s' s n w)
  with assms(2) have e: "earned n s" by simp
  show ?thesis
  proof (cases n)
    case N_risk_assessment
    then show ?thesis using step after_risk_cases [of s'] by auto
  next
    case N_run_tests
    then show ?thesis using step after_tests_cases [of s'] after_tests_policy_iff [of s'] by auto
  next
    case N_security_policy
    then show ?thesis using step e after_policy_cases [of s'] exec_tests [of n s w]
      by (auto simp: tests_green_merge after_policy_def policy_blocked_def)
  next
    case N_git_commit
    then show ?thesis using step e after_commit_cases [of s'] exec_tests [of n s w]
      by (auto simp: tests_green_merge after_commit_def)
  next
    case N_ci_validation
    then show ?thesis using step e after_ci_cases [of s'] exec_tests [of n s w] exec_commit [of n s w]
      by (auto simp: tests_green_merge after_ci_def Let_def ci_accepted_def)
  next
    case N_create_pr
    then show ?thesis using step e exec_tests [of n s w] exec_commit [of n s w] exec_ci [of n s w]
      by (simp add: tests_green_merge ci_accepted_merge)
  next
    case N_human_review
    then show ?thesis
      using step e exec_tests [of n s w] exec_commit [of n s w] exec_ci [of n s w] exec_review
      by (simp add: tests_green_merge ci_accepted_merge)
  next
    case N_halt
    then show ?thesis using step exec_halt by simp
  qed (use step in simp_all)
qed

lemma step_cost:
  assumes "graph_step exec leave c c'" and "budgeted c" and "\<not> repair_fails fails c"
  shows "cost c' < cost c \<and> budgeted c'"
  using assms(1)
proof (cases rule: graph_step.cases)
  case (step s' s n w)
  consider "n = N_debugging" | "n = N_ci_debugging" | "n \<noteq> N_debugging" "n \<noteq> N_ci_debugging" by blast
  then show ?thesis
  proof cases
    case 1
    with assms(2,3) step have "0 < debug_budget s" "\<not> fails N_debugging s w" by auto
    with step 1 have "debug_budget s = Suc (debug_budget s')" "ci_budget s' = ci_budget s"
      using exec_debugging [of s w] exec_task [of N_debugging s w]
      by (auto simp: debug_budget_def ci_budget_def keeps_task_def)
    with step 1 show ?thesis by simp
  next
    case 2
    with assms(2,3) step have "0 < ci_budget s" "\<not> fails N_ci_debugging s w" by auto
    with step 2 have "ci_budget s = Suc (ci_budget s')" "debug_budget s' = debug_budget s"
      using exec_ci_debugging [of s w] exec_task [of N_ci_debugging s w]
      by (auto simp: debug_budget_def ci_budget_def keeps_task_def)
    with step 2 show ?thesis by simp
  next
    case 3
    then have same: "debug_budget s' = debug_budget s" "ci_budget s' = ci_budget s"
      using step exec_quiet [of n s w] by (simp_all add: budget_merge)
    show ?thesis
    proof (cases "next_node n s'")
      case None
      with step show ?thesis by (cases n) simp_all
    next
      case (Some m)
      with 3 have "nodes_left m < nodes_left n" "budgeted (Some m, s', leave n s w)"
        by (rule next_node_down)+
      with step Some same show ?thesis by simp
    qed
  qed
qed

text \<open>A run of \<open>k\<close> steps costs \<open>k\<close>, unless a repair node failed on the way.\<close>

lemma steps_cost:
  assumes "steps k c c'" and "budgeted c"
  shows "k + cost c' \<le> cost c \<and> budgeted c' \<or> (\<exists>i < k. \<exists>d. steps i c d \<and> repair_fails fails d)"
  using assms(1)
proof (induction k arbitrary: c')
  case (Suc k)
  then obtain d where d: "steps k c d" "graph_step exec leave d c'" by (auto elim: relpowp_Suc_E)
  show ?case
  proof (cases "repair_fails fails d")
    case False
    from Suc.IH [OF d(1)] show ?thesis
    proof
      assume "k + cost d \<le> cost c \<and> budgeted d"
      with step_cost [OF d(2) _ False] show ?thesis by auto
    qed (auto dest: less_SucI)
  qed (use d lessI in blast)
qed (use assms(2) in simp)

lemma steps_sound: "steps k c c' \<Longrightarrow> sound_config c \<Longrightarrow> sound_config c'"
  by (induction k arbitrary: c') (auto elim!: relpowp_Suc_E intro: step_earned)

text \<open>A run that records a passed CI has it from its CI node, for the commit it ends with.\<close>

lemma step_passed:
  assumes "graph_step exec leave (m, s, w) (m', s', w')" and "st_ci_status s' = Some ''PASSED''"
  shows "m = Some N_ci_validation \<and> m' = Some N_create_pr \<and> st_ci_status (exec N_ci_validation s w) = Some ''PASSED''
      \<and> st_commit_sha s' = st_commit_sha s
    \<or> st_ci_status s = Some ''PASSED'' \<and> (m \<in> {Some N_create_pr, Some N_human_review} \<longrightarrow>
        m' \<in> {Some N_human_review, None} \<and> st_commit_sha s' = st_commit_sha s)"
  using assms(1)
proof (cases rule: graph_step.cases)
  case (step n)
  have up: "str_upper ''PASSED'' = ''PASSED''" by code_simp
  consider (late) "n \<in> {N_create_pr, N_human_review}"
    | (set) "n = N_ci_validation" "st_ci_status (exec n s w) \<noteq> None"
    | (other) "n \<notin> {N_create_pr, N_human_review}" "st_ci_status (exec n s w) = None"
    using exec_ci [of n s w] by (cases "st_ci_status (exec n s w) = None") auto
  then show ?thesis
  proof cases
    case late
    with step assms(2) exec_ci [of n s w] exec_commit [of n s w] show ?thesis by auto
  next
    case set
    with step assms(2) exec_commit [of n s w] up show ?thesis by (auto simp: after_ci_def)
  next
    case other
    with step assms(2) show ?thesis by auto
  qed
qed

lemma steps_passed:
  assumes "steps k (Some n, s, w) (m', s', w')" and "st_ci_status s' = Some ''PASSED''" and "st_ci_status s \<noteq> Some ''PASSED''"
  shows "m' \<in> {Some N_create_pr, Some N_human_review, None}
    \<and> (\<exists>j t u. steps j (Some n, s, w) (Some N_ci_validation, t, u)
         \<and> st_ci_status (exec N_ci_validation t u) = Some ''PASSED'' \<and> st_commit_sha s' = st_commit_sha t)"
  using assms(1,2)
proof (induction k arbitrary: m' s' w')
  case (Suc k)
  then obtain m t u where d: "steps k (Some n, s, w) (m, t, u)" "graph_step exec leave (m, t, u) (m', s', w')"
    by (auto elim: relpowp_Suc_E)
  from step_passed [OF d(2) Suc.prems(2)] show ?case
  proof
    assume "m = Some N_ci_validation \<and> m' = Some N_create_pr \<and> st_ci_status (exec N_ci_validation t u) = Some ''PASSED''
      \<and> st_commit_sha s' = st_commit_sha t"
    with d(1) show ?thesis by auto
  next
    assume late: "st_ci_status t = Some ''PASSED'' \<and> (m \<in> {Some N_create_pr, Some N_human_review} \<longrightarrow>
        m' \<in> {Some N_human_review, None} \<and> st_commit_sha s' = st_commit_sha t)"
    note IH = Suc.IH [OF d(1) conjunct1 [OF late]]
    moreover have "m \<noteq> None" using d(2) by (auto elim: graph_stepE)
    ultimately have "m \<in> {Some N_create_pr, Some N_human_review}" by blast
    with late have "m' \<in> {Some N_human_review, None}" "st_commit_sha s' = st_commit_sha t" by blast+
    with IH show ?thesis by auto
  qed
qed (use assms(3) in simp)

end

section \<open>The program's nodes\<close>

definition leaves :: "ctx \<Rightarrow> node \<Rightarrow> agent_state \<Rightarrow> world \<Rightarrow> world" where
  "leaves cx n s w = snd (instrument cx n (node_function cx n) s w)"

interpretation platform: workflow_nodes "supervised cx" "leaves cx" "node_raises cx" for cx
  by unfold_locales
    (simp_all add: supervised_keeps_task supervised_quiet supervised_debugging
      supervised_ci_debugging supervised_late supervised_last)

abbreviation flow_steps :: "ctx \<Rightarrow> nat \<Rightarrow> world config \<Rightarrow> world config \<Rightarrow> bool" where
  "flow_steps cx k \<equiv> graph_step (supervised cx) (leaves cx) ^^ k"

lemma run_graph_Suc:
  "run_graph cx msg (Suc k) n s w =
     (let s' = merge_state s (supervised cx n s w) in
      case next_node n s' of None \<Rightarrow> (Inr s', leaves cx n s w)
      | Some m \<Rightarrow> run_graph cx msg k m s' (leaves cx n s w))"
  unfolding run_graph.simps mbind_safe [OF safe_instrument] instrument_value Let_def
  by (simp add: leaves_def supervised_def split: option.split)

lemma flow_step: 
  "graph_step (supervised cx) (leaves cx) (Some n, s, w)
     (next_node n (merge_state s (supervised cx n s w)), merge_state s (supervised cx n s w), leaves cx n s w)"
  by (rule graph_step.step) simp

text \<open>The engine's run and the steps: the run ends where the steps end, or the limit is used up.\<close>

lemma run_graph_steps:
  "(\<exists>k s' w'. k < limit \<and> run_graph cx msg limit n s w = (Inr s', w')
       \<and> flow_steps cx (Suc k) (Some n, s, w) (None, s', w'))
   \<or> (\<exists>m s' w'. run_graph cx msg limit n s w = (Inl (OtherError ''GraphRecursionError'' msg), w')
       \<and> flow_steps cx limit (Some n, s, w) (Some m, s', w'))"
proof (induction limit arbitrary: n s w)
  case (Suc k)
  let ?s = "merge_state s (supervised cx n s w)" and ?w = "leaves cx n s w"
  show ?case
  proof (cases "next_node n ?s")
    case None
    then have "flow_steps cx (Suc 0) (Some n, s, w) (None, ?s, ?w)"
      using flow_step [of cx n s w] by (intro relpowp_Suc_I2 [OF _ relpowp_0_I]) simp
    with None show ?thesis
      by (intro disjI1 exI [of _ 0] exI [of _ ?s] exI [of _ ?w])
         (simp del: run_graph.simps relpowp.simps add: run_graph_Suc Let_def)
  next
    case (Some m)
    then have first: "graph_step (supervised cx) (leaves cx) (Some n, s, w) (Some m, ?s, ?w)"
      using flow_step [of cx n s w] by simp
    have run: "run_graph cx msg (Suc k) n s w = run_graph cx msg k m ?s ?w"
      using Some by (simp del: run_graph.simps add: run_graph_Suc Let_def)
    have more: "flow_steps cx (Suc i) (Some n, s, w) d" if "flow_steps cx i (Some m, ?s, ?w) d" for i d
      using first that by (rule relpowp_Suc_I2)
    show ?thesis
      using Suc.IH [of m ?s ?w] more Suc_mono unfolding run by blast
  qed
qed simp

section \<open>What a run of the workflow guarantees\<close>

lemma steps_keep_task:
  "flow_steps cx k c c' \<Longrightarrow> st_task_id (fst (snd c')) = st_task_id (fst (snd c))
     \<and> st_issue (fst (snd c')) = st_issue (fst (snd c))"
proof (induction k arbitrary: c')
  case (Suc k)
  then obtain d where d: "flow_steps cx k c d" "graph_step (supervised cx) (leaves cx) d c'"
    by (auto elim: relpowp_Suc_E)
  from d(2) have "st_task_id (fst (snd c')) = st_task_id (fst (snd d)) \<and> st_issue (fst (snd c')) = st_issue (fst (snd d))"
    by (cases rule: graph_step.cases)
       (use supervised_keeps_task in \<open>auto simp: keeps_task_def\<close>)
  with Suc.IH [OF d(1)] show ?case by simp
qed simp

lemma evo_run_graph [evo_intros]: "stays (evolves (cx_task_id cx)) (run_graph cx msg limit n s)"
  by (induction limit arbitrary: n s) (auto intro!: evo_intros simp: Let_def split: option.split)

text \<open>What a finished run promises, and how a run can fail.\<close>

lemma run_graph_outcome:
  "case run_graph cx msg limit N_plan s w of
     (Inr s', w') \<Rightarrow> st_task_id s' = st_task_id s \<and> st_issue s' = st_issue s
       \<and> (st_outcome s' = Some ''HUMAN_REVIEW_REQUIRED''
          \<or> st_outcome s' = Some ''READY_FOR_REVIEW'' \<and> tests_green s'
            \<and> truthy_str (st_commit_sha s') \<and> ci_accepted s')
   | (Inl e, w') \<Rightarrow> e = OtherError ''GraphRecursionError'' msg"
  using run_graph_steps [of limit cx msg N_plan s w]
proof
  assume "\<exists>k s' w'. k < limit \<and> run_graph cx msg limit N_plan s w = (Inr s', w')
     \<and> flow_steps cx (Suc k) (Some N_plan, s, w) (None, s', w')"
  then obtain k s' w' where run: "run_graph cx msg limit N_plan s w = (Inr s', w')"
    and steps: "flow_steps cx (Suc k) (Some N_plan, s, w) (None, s', w')" by blast
  from platform.steps_sound [OF steps] steps_keep_task [OF steps] run show ?thesis by simp
qed auto

text \<open>
  C14: the workflow ends. The loops are bounded by the counters of the state: when the recursion
  limit covers eleven nodes, two for every debugging iteration left and five for every CI iteration
  left, the run ends with one of the two outcomes the executor knows, unless a debugging or CI
  debugging node raised on the way (such a node does not advance its counter).
\<close>

theorem workflow_ends:
  assumes "11 + 2 * debug_budget s + 5 * ci_budget s \<le> limit"
  shows "case run_graph cx msg limit N_plan s w of
     (Inr s', w') \<Rightarrow> st_outcome s' \<in> {Some ''READY_FOR_REVIEW'', Some ''HUMAN_REVIEW_REQUIRED''}
   | (Inl e, w') \<Rightarrow> \<exists>k c. flow_steps cx k (Some N_plan, s, w) c \<and> repair_fails (node_raises cx) c"
  using run_graph_steps [of limit cx msg N_plan s w]
proof
  assume "\<exists>k s' w'. k < limit \<and> run_graph cx msg limit N_plan s w = (Inr s', w')
     \<and> flow_steps cx (Suc k) (Some N_plan, s, w) (None, s', w')"
  then obtain k s' w' where run: "run_graph cx msg limit N_plan s w = (Inr s', w')"
    and steps: "flow_steps cx (Suc k) (Some N_plan, s, w) (None, s', w')" by blast
  from platform.steps_sound [OF steps] have "sound_config (None, s', w')" by simp
  with run show ?thesis by auto
next
  assume "\<exists>m s' w'. run_graph cx msg limit N_plan s w = (Inl (OtherError ''GraphRecursionError'' msg), w')
     \<and> flow_steps cx limit (Some N_plan, s, w) (Some m, s', w')"
  then obtain m s' w' where run: "run_graph cx msg limit N_plan s w = (Inl (OtherError ''GraphRecursionError'' msg), w')"
    and steps: "flow_steps cx limit (Some N_plan, s, w) (Some m, s', w')" by blast
  have "0 < nodes_left m" by (cases m) simp_all
  then have "\<not> limit + cost (Some m, s', w') \<le> cost (Some N_plan, s, w)" using assms by simp
  with platform.steps_cost [OF steps] run show ?thesis by auto
qed

theorem workflow_ends_witness:
  "\<exists>s. st_max_iterations s = Some 3 \<and> st_max_ci_iterations s = Some 2 \<and>
     (case run_graph sample_ctx '''' RECURSION_LIMIT N_plan s sample_world of
        (Inr s', w') \<Rightarrow> st_outcome s' \<in> {Some ''READY_FOR_REVIEW'', Some ''HUMAN_REVIEW_REQUIRED''}
      | (Inl e, w') \<Rightarrow> \<exists>k c. flow_steps sample_ctx k (Some N_plan, s, sample_world) c
          \<and> repair_fails (node_raises sample_ctx) c)"
  using workflow_ends [of "empty_state\<lparr>st_max_iterations := Some 3, st_max_ci_iterations := Some 2\<rparr>"
      RECURSION_LIMIT, where cx = sample_ctx and msg = "''''" and w = sample_world]
  by (intro exI [of _ "empty_state\<lparr>st_max_iterations := Some 3, st_max_ci_iterations := Some 2\<rparr>"])
     (simp add: debug_budget_def ci_budget_def RECURSION_LIMIT_def)

text \<open>
  C2: ready for review is earned. However the model, the tools and the services behave, a run that
  ends is either handed to a human, or its final state records a green test run, a commit and an
  accepted CI status; and it is still about the same task. A run that does not end fails with the
  engine's recursion error and nothing else.
\<close>

theorem ready_for_review_is_earned:
  "case run_graph cx msg limit N_plan s w of
     (Inr s', w') \<Rightarrow> st_task_id s' = st_task_id s \<and> st_issue s' = st_issue s
       \<and> (st_outcome s' = Some ''HUMAN_REVIEW_REQUIRED''
          \<or> st_outcome s' = Some ''READY_FOR_REVIEW'' \<and> tests_green s'
            \<and> truthy_str (st_commit_sha s') \<and> ci_accepted s')
   | (Inl e, w') \<Rightarrow> e = OtherError ''GraphRecursionError'' msg"
  by (rule run_graph_outcome)

section \<open>The commit gate\<close>

lemma into_git_commit:
  assumes "graph_step exec leave (Some n, s, w) (Some N_git_commit, s', w')"
  shows "n = N_security_policy \<and> s' = merge_state s (exec n s w) \<and> \<not> policy_blocked s'"
  using assms
proof (cases rule: graph_step.cases)
  case step
  then show ?thesis
    using after_risk_cases [of s'] after_tests_cases [of s'] after_policy_cases [of s']
      after_commit_cases [of s'] after_ci_cases [of s']
    by (cases n) (auto simp: after_policy_def policy_blocked_def split: if_splits)
qed

text \<open>
  What \<open>git\<close> reports of the worktree of the state's task, when there is one; and the verdict of the
  engine on it. Without a worktree the gate judges the files of the state, with an empty diff.
\<close>

definition collected :: "agent_state \<Rightarrow> world \<Rightarrow> diff_summary option" where
  "collected s w =
     (case st_task_id s of None \<Rightarrow> None
      | Some tid \<Rightarrow> (case w_workspaces w tid of None \<Rightarrow> None
         | Some ws \<Rightarrow> (case fst (collect_diff (ws_path ws) w) of Inl _ \<Rightarrow> None | Inr d \<Rightarrow> Some d)))"

definition verdict :: "ctx \<Rightarrow> agent_state \<Rightarrow> diff_summary option \<Rightarrow> policy_decision" where
  "verdict cx s found =
     (case found of
        None \<Rightarrow> evaluate (cx_policy cx) (get_default [] (st_modified_files s)) [] (Some 0) True
      | Some d \<Rightarrow> evaluate (cx_policy cx) (ds_files d) (ds_diff d) (Some (ds_insertions d + ds_deletions d)) True)"

lemma refresh_diff_collected:
  assumes "refresh_diff s w = (Inr d, w')"
  shows "d = (case collected s w of None \<Rightarrow> empty_state | Some ds \<Rightarrow> diff_update ds)"
  using assms unfolding refresh_diff_def collected_def need_key_def ws_try_get_def
  by (auto elim!: mbind_InrD split: option.splits)

text \<open>The update of the gate is the diff it collected, with the verdict on it.\<close>

lemma security_policy_verdict:
  assumes "node_security_policy cx s w = (Inr r, w')"
  shows "st_policy_action (nr_state r) = Some (action_value (decision_action (verdict cx s (collected s w))))
    \<and> (case collected s w of None \<Rightarrow> True
       | Some d \<Rightarrow> st_git_diff (nr_state r) = Some (ds_diff d) \<and> st_modified_files (nr_state r) = Some (ds_files d))"
proof -
  from assms obtain d w1 where d: "refresh_diff s w = (Inr d, w1)"
    unfolding node_security_policy_def by (auto elim!: mbind_InrD)
  with assms show ?thesis
    unfolding node_security_policy_def mbind_apply [of "refresh_diff s"] d prod.case sum.case
      refresh_diff_collected [OF d] verdict_def
    by (cases "collected s w")
       (auto simp: Let_def just_def diff_update_def elim!: mbind_InrD split: option.splits if_splits)
qed

text \<open>
  C1: nothing is committed past a blocking policy. The commit node is entered from the policy gate
  only, with a policy action other than BLOCK; and, unless the gate itself raised, that action is
  the engine's verdict on the files, the diff and the line counts that \<open>git\<close> reported of the task's
  worktree when the gate ran, and this diff and these files are what the commit node finds in the
  state.
\<close>

theorem commit_follows_policy_gate:
  fixes cx s w
  defines "found \<equiv> collected s (opened cx N_security_policy s w)"
  assumes "graph_step (supervised cx) (leaves cx) (Some n, s, w) (Some N_git_commit, s', w')"
  shows "n = N_security_policy \<and> \<not> policy_blocked s' \<and>
    (node_raises cx N_security_policy s w
     \<or> st_policy_action s' = Some (action_value (decision_action (verdict cx s found)))
       \<and> decision_action (verdict cx s found) \<in> {ALLOW, HUMAN_APPROVAL}
       \<and> (case found of None \<Rightarrow> True
          | Some d \<Rightarrow> st_git_diff s' = Some (ds_diff d) \<and> st_modified_files s' = Some (ds_files d)))"
proof (cases "node_raises cx N_security_policy s w")
  case False
  let ?u = "supervised cx N_security_policy s w"
  have n: "n = N_security_policy" "s' = merge_state s ?u" "\<not> policy_blocked s'"
    using into_git_commit [OF assms(2)] by auto
  obtain r w1 where run: "node_security_policy cx s (opened cx N_security_policy s w) = (Inr r, w1)" and r: "?u = nr_state r"
  proof (cases "node_security_policy cx s (opened cx N_security_policy s w)")
    case (Pair a b)
    with False that show thesis
      by (cases a) (auto simp: supervised_def node_update_def node_raises_def)
  qed
  have u: "st_policy_action ?u = Some (action_value (decision_action (verdict cx s found)))"
    "case found of None \<Rightarrow> True | Some d \<Rightarrow> st_git_diff ?u = Some (ds_diff d) \<and> st_modified_files ?u = Some (ds_files d)"
    using security_policy_verdict [OF run] by (simp_all only: found_def r)
  moreover from u n have "decision_action (verdict cx s found) \<noteq> BLOCK"
    by (auto simp: policy_blocked_def)
  ultimately show ?thesis using n
    by (cases "decision_action (verdict cx s found)") (auto split: option.splits)
qed (use into_git_commit [OF assms(2)] in auto)

definition gate_state :: agent_state where
  "gate_state = empty_state\<lparr>st_task_id := Some ''TASK-1'', st_modified_files := Some []\<rparr>"

lemma opened_workspaces: "w_workspaces (opened cx n s w) = w_workspaces w"
  by (simp add: opened_def open_node_def emit_def append_event_def publish_event_def start_agent_run_def
      set_current_run_def save_checkpoint_def do_save_state_def do_set_status_def mbind_safe safe_intros
      on_db_def run_id_def event_id_def new_id_def utcnow_def ask_def mbind_def unless_def)

lemma gate_state_passes:
  "next_node N_security_policy (merge_state gate_state
     (supervised sample_ctx N_security_policy gate_state sample_world)) = Some N_git_commit"
proof -
  have clean: "decision_action (evaluate DEFAULT_ENGINE [] [] (Some 0) True) = ALLOW"
    by code_simp
  have refresh: "refresh_diff gate_state w = (Inr empty_state, w)" if "w_workspaces w ''TASK-1'' = None" for w
    using that by (simp add: refresh_diff_def need_key_def gate_state_def ws_try_get_def mbind_def)
  have "w_workspaces (opened sample_ctx N_security_policy gate_state sample_world) ''TASK-1'' = None"
    by (simp add: opened_workspaces sample_world_def new_world_def)
  note gate = refresh [OF this]
  have "cx_policy sample_ctx = DEFAULT_ENGINE" "st_modified_files gate_state = Some []"
    "st_risk_level gate_state = None"
    by (simp_all add: sample_ctx_def gate_state_def)
  then show ?thesis
    using clean
    by (simp add: supervised_def node_update_def node_security_policy_def mbind_apply [of "refresh_diff _"]
        gate Let_def risk_of_value_def mbind_safe safe_intros blocked_def just_def after_policy_def)
qed

theorem commit_follows_policy_gate_witness:
  "\<not> policy_blocked (merge_state gate_state (supervised sample_ctx N_security_policy gate_state sample_world))"
  using commit_follows_policy_gate
    [OF flow_step [of sample_ctx N_security_policy gate_state sample_world, unfolded gate_state_passes]]
  by blast

section \<open>Where the workflow does not do what it says\<close>

text \<open>
  The policy gate fails open: when the gate raises anything but a policy or workspace violation and
  the state is not blocked already, the next node is the commit.
\<close>

theorem failing_gate_lets_commit_through:
  assumes "fst (function s (opened cx N_security_policy s w)) = Inl (OtherError c m)"
    and "\<not> policy_blocked s"
  shows "\<exists>u. fst (instrument cx N_security_policy function s w) = Inr u
    \<and> next_node N_security_policy (merge_state s u) = Some N_git_commit"
  using assms by (simp add: instrument_value node_update_def after_policy_def policy_blocked_def)

text \<open>
  CI fails open: when the CI node raises before any CI status was recorded, the next node opens
  the pull request.
\<close>

theorem failing_ci_lets_pull_request_through:
  assumes "fst (function s (opened cx N_ci_validation s w)) = Inl (TransientInfrastructureError m)"
    and "get_default [] (st_ci_status s) = []"
  shows "\<exists>u. fst (instrument cx N_ci_validation function s w) = Inr u
    \<and> next_node N_ci_validation (merge_state s u) = Some N_create_pr"
  using assms by (simp add: instrument_value node_update_def after_ci_def Let_def str_upper_def)

text \<open>
  A hard boundary does not stop the task: a policy violation during the implementation is recorded
  as BLOCK, and the workflow goes on to generate tests.
\<close>

theorem hard_boundary_does_not_stop:
  assumes "fst (function s (opened cx N_implementation s w)) = Inl (PolicyViolationError m)"
  shows "\<exists>u. fst (instrument cx N_implementation function s w) = Inr u
    \<and> policy_blocked (merge_state s u) \<and> next_node N_implementation (merge_state s u) = Some N_test_generation"
  using assms by (simp add: instrument_value node_update_def policy_blocked_def)

text \<open>
  A debugging node that raises does not use up its budget: the tests run again with the same
  counters, so only the recursion limit ends such a loop.
\<close>

theorem failing_debugging_keeps_budget:
  assumes "node_raises cx N_debugging s w"
  shows "\<exists>s'. graph_step (supervised cx) (leaves cx) (Some N_debugging, s, w) (Some N_run_tests, s', leaves cx N_debugging s w)
    \<and> debug_budget s' = debug_budget s"
  using flow_step [of cx N_debugging s w] budget_merge(1) [OF supervised_raising [OF assms], of s] by auto

end
