(* ===== verification/Executor.thy ===== *)
theory Executor
  imports Workflow
begin

text \<open>
  Executing one task (\<open>apps/worker/execution.py\<close>): the fast lock, the durable lease, the workflow,
  the outcome. The executor's dependencies are the record \<open>executor\<close>; \<open>expanduser\<close>, the text of a
  float, the loading of a script, the Anthropic client and the text of the graph engine's error
  are parameters in it. Binding the logging context and closing the clients have no effect here.
\<close>

record executor =
  ex_settings :: settings
  ex_policy :: policy_engine
  ex_worker_id :: pystr
  ex_expanduser :: "pystr \<Rightarrow> pystr"
  ex_float :: "pystr \<Rightarrow> pystr"
  ex_load_script :: "pystr \<Rightarrow> unit result"
  ex_sdk_client :: "unit result"
  ex_limit_message :: pystr

text \<open>The returned dictionary: skipped with a reason, failed with an error, or a summary and a status.\<close>

datatype exec_result =
    Skipped pystr
  | Failed_With pystr
  | Finished task_summary task_status

section \<open>Lock and lease\<close>

text \<open>The clock is read a second time only when the lock is free.\<close>

definition acquire_lock :: "pystr \<Rightarrow> int \<Rightarrow> pystr \<Rightarrow> bool io" where
  "acquire_lock name ttl owner =
     mbind utcnow (\<lambda>now.
     mbind (gets (\<lambda>w. fst (live_entry now name (w_locks w)) = None)) (\<lambda>free.
     mbind (if free then utcnow else ret now) (\<lambda>now'.
     mbind (gets (\<lambda>w. fst (lock_acquire now now' name ttl owner (w_locks w)))) (\<lambda>acquired.
     mbind (modify (\<lambda>w. w\<lparr>w_locks := snd (lock_acquire now now' name ttl owner (w_locks w))\<rparr>)) (\<lambda>_.
     ret acquired)))))"

definition release_lock :: "pystr \<Rightarrow> pystr \<Rightarrow> unit io" where
  "release_lock name owner = modify (\<lambda>w. w\<lparr>w_locks := lock_release name owner (w_locks w)\<rparr>)"

definition claim_task :: "pystr \<Rightarrow> pystr \<Rightarrow> int \<Rightarrow> task_row option io" where
  "claim_task tid worker lease_seconds =
     mbind utcnow (\<lambda>now.
     mbind (gets (\<lambda>w. fst (claim now tid worker lease_seconds (w_db w)))) (\<lambda>claimed.
     mbind (on_db (\<lambda>d. snd (claim now tid worker lease_seconds d))) (\<lambda>_. ret claimed)))"

definition release_task :: "pystr \<Rightarrow> pystr \<Rightarrow> unit io" where
  "release_task tid worker = mbind utcnow (\<lambda>now. on_db (release now tid worker))"

section \<open>Outcomes\<close>

definition finalize_failure :: "pystr \<Rightarrow> pystr \<Rightarrow> unit io" where
  "finalize_failure tid error = do_set_status tid FAILED None (Some error)"

definition final_status :: "agent_state \<Rightarrow> task_status" where
  "final_status s =
     (let outcome = get_default [] (st_outcome s) in
      if outcome = ''HUMAN_REVIEW_REQUIRED'' then HUMAN_REVIEW_REQUIRED
      else if outcome = ''READY_FOR_REVIEW'' then READY_FOR_REVIEW
      else FAILED)"

definition finalize :: "pystr \<Rightarrow> agent_state \<Rightarrow> exec_result io" where
  "finalize tid s =
     mbind (do_save_state tid s) (\<lambda>_.
     mbind (do_set_status tid (final_status s) None (str_or (st_halt_reason s) None)) (\<lambda>_.
     ret (Finished (summarize s) (final_status s))))"

section \<open>The workflow of a task\<close>

definition raw_repository :: "task_row \<Rightarrow> pystr" where
  "raw_repository t = get_default [] (str_or (t_repository_path t) (Some (t_repository_url t)))"

definition missing_repository :: "pystr \<Rightarrow> pystr" where
  "missing_repository raw = ''repository_path does not exist on this worker: '' @ raw @
     ''. The POC works against a local checkout; clone it first.''"

definition repository_dir :: "executor \<Rightarrow> task_row \<Rightarrow> path" where
  "repository_dir ex t = path_parts (ex_expanduser ex (raw_repository t))"

definition resolve_repository_path :: "executor \<Rightarrow> task_row \<Rightarrow> path io" where
  "resolve_repository_path ex t =
     (let p = repository_dir ex t in
     mbind (gets (\<lambda>w. fs_is_dir (w_fs w) p)) (\<lambda>present.
     if \<not> present then raise (AgentPlatformError (missing_repository (raw_repository t)))
     else mbind (gets (\<lambda>w. resolve_path (w_fs w) p)) lift_result))"

definition new_context :: "executor \<Rightarrow> pystr \<Rightarrow> pystr \<Rightarrow> scm_choice \<Rightarrow> ci_choice \<Rightarrow> ctx" where
  "new_context ex tid workflow_run_id scm ci = \<lparr>cx_settings = ex_settings ex, cx_policy = ex_policy ex,
     cx_task_id = tid, cx_workflow_run_id = workflow_run_id, cx_scm = scm, cx_ci = ci,
     cx_prompts_path = PROMPTS_PATH, cx_float = ex_float ex\<rparr>"

text \<open>The state the graph starts from: the initial state, overridden by the checkpoint.\<close>

definition start_state :: "settings \<Rightarrow> task_row \<Rightarrow> pystr \<Rightarrow> path \<Rightarrow> agent_state" where
  "start_state st t workflow_run_id repository_path =
     (merge_state ((initial_state (t_id t) workflow_run_id (t_repository_url t) (path_str repository_path)
        (t_issue t) (max_agent_iterations st) (max_ci_iterations st))
          \<lparr>st_max_files := Some (max_files_per_task st)\<rparr>) (t_state t))
      \<lparr>st_workflow_run_id := Some workflow_run_id\<rparr>"

definition adopt_workspace :: "pystr \<Rightarrow> task_row \<Rightarrow> path \<Rightarrow> unit io" where
  "adopt_workspace tid t repository_path =
     (if truthy_str (t_workspace_path t) \<and> truthy_str (t_branch t)
      then let existing = path_parts (get_default [] (t_workspace_path t)) in
        mbind (gets (\<lambda>w. fs_is_dir (w_fs w) existing)) (\<lambda>present.
        unless (\<not> present) (mbind (ws_adopt tid existing (get_default [] (t_branch t)) repository_path)
          (\<lambda>_. ret ())))
      else ret ())"

definition run_from :: "executor \<Rightarrow> ctx \<Rightarrow> pystr \<Rightarrow> agent_state \<Rightarrow> exec_result io" where
  "run_from ex cx tid s =
     mbind (catch (mbind (run_graph cx (ex_limit_message ex) RECURSION_LIMIT N_plan s) (\<lambda>f. ret (Inr f)))
        (\<lambda>e. ret (Inl e))) (\<lambda>r.
     case r of
       Inr final_state \<Rightarrow> finalize tid final_state
     | Inl e \<Rightarrow>
         if error_class e = ''GraphRecursionError''
         then mbind (emit cx Ev_NO_PROGRESS_DETECTED [(''reason'', JStr ''graph recursion limit reached'')]) (\<lambda>_.
              finalize tid (s\<lparr>st_outcome := Some ''HUMAN_REVIEW_REQUIRED'',
                st_halt_reason := Some (''graph recursion limit ('' @ show_nat RECURSION_LIMIT @
                  '') reached: '' @ error_message e)\<rparr>))
         else mbind (finalize_failure tid (error_message e)) (\<lambda>_.
              mbind (emit cx Ev_TASK_FAILED [(''error'', JStr (error_message e))]) (\<lambda>_.
              ret (Failed_With (error_message e)))))"

definition start_workflow :: "executor \<Rightarrow> pystr \<Rightarrow> task_row \<Rightarrow> path \<Rightarrow> exec_result io" where
  "start_workflow ex tid t repository_path =
     mbind run_id (\<lambda>workflow_run_id.
     mbind (lift_result (build_llm_provider (ex_load_script ex) (ex_sdk_client ex) (ex_settings ex))) (\<lambda>_.
     mbind (build_scm_provider (ex_settings ex)) (\<lambda>scm.
     mbind (lift_result (build_ci_provider (ex_settings ex))) (\<lambda>ci.
     mbind (modify (\<lambda>w. w\<lparr>w_current_agent_run_id := None, w_usage := no_usage, w_ci_runs := (\<lambda>_. None)\<rparr>)) (\<lambda>_.
     let cx = new_context ex tid workflow_run_id scm ci in
     mbind (adopt_workspace tid t repository_path) (\<lambda>_.
     mbind (emit cx Ev_TASK_CLAIMED [(''worker'', JStr (ex_worker_id ex)),
       (''workflow_run_id'', JStr workflow_run_id)]) (\<lambda>_.
     run_from ex cx tid (start_state (ex_settings ex) t workflow_run_id repository_path))))))))"

definition run_workflow :: "executor \<Rightarrow> pystr \<Rightarrow> task_row \<Rightarrow> exec_result io" where
  "run_workflow ex tid t =
     mbind (catch (mbind (resolve_repository_path ex t) (\<lambda>p. ret (Inr p)))
        (\<lambda>e. if is_platform_error e then ret (Inl e) else raise e)) (\<lambda>r.
     case r of
       Inl e \<Rightarrow> mbind (finalize_failure tid (error_message e)) (\<lambda>_. ret (Failed_With (error_message e)))
     | Inr repository_path \<Rightarrow> start_workflow ex tid t repository_path)"

section \<open>The guarded execution\<close>

definition lock_name :: "pystr \<Rightarrow> pystr" where
  "lock_name tid = ''task:'' @ tid"

definition execute_claimed :: "executor \<Rightarrow> pystr \<Rightarrow> exec_result io" where
  "execute_claimed ex tid =
     mbind (gets (\<lambda>w. task_get (w_db w) tid)) (\<lambda>task.
     case task of
       None \<Rightarrow> ret (Skipped ''not found'')
     | Some t \<Rightarrow>
         if is_terminal (t_status t) then ret (Skipped (''already '' @ status_value (t_status t)))
         else mbind (claim_task tid (ex_worker_id ex) (task_lease_seconds (ex_settings ex))) (\<lambda>claimed.
           case claimed of
             None \<Rightarrow> ret (Skipped ''lease held elsewhere'')
           | Some _ \<Rightarrow> run_workflow ex tid t))"

definition release_guards :: "executor \<Rightarrow> pystr \<Rightarrow> unit io" where
  "release_guards ex tid =
     mbind (release_lock (lock_name tid) (ex_worker_id ex)) (\<lambda>_. release_task tid (ex_worker_id ex))"

definition execute :: "executor \<Rightarrow> pystr \<Rightarrow> exec_result io" where
  "execute ex tid =
     mbind (acquire_lock (lock_name tid) (task_lease_seconds (ex_settings ex)) (ex_worker_id ex)) (\<lambda>acquired.
     if \<not> acquired then ret (Skipped ''locked by another worker'')
     else ensure (execute_claimed ex tid) (release_guards ex tid))"

section \<open>The executor respects the audit discipline\<close>

lemma db_evolves_lease [evo_intros]:
  "db_evolves tid d (snd (claim now tid worker l d))" "db_evolves tid d (release now tid worker d)"
proof -
  have "db_tasks (snd (claim now tid worker l d)) = update_where (claimable now tid)
      (claim_values now worker (now + l * 1000000)) (db_tasks d)"
    by (simp add: claim_db)
  then have "map t_id (db_tasks (snd (claim now tid worker l d))) = map t_id (db_tasks d)"
    by (simp add: update_where_ids claim_values_def)
  then show "db_evolves tid d (snd (claim now tid worker l d))"
    by (auto simp: db_evolves_def well_sequenced_def events_of_def claimable_def
        intro!: option.map_ident_strong dest: task_get_in) (auto simp: claim_db)
  show "db_evolves tid d (release now tid worker d)"
    by (auto simp: db_evolves_def well_sequenced_def events_of_def held_by_def
        intro!: option.map_ident_strong dest: task_get_in)
       (auto simp: release_def update_where_ids)
qed

lemma evo_executor_guards [evo_intros]:
  "stays (evolves tid) (acquire_lock name ttl owner)" "stays (evolves tid) (release_lock name owner)"
  "stays (evolves tid) (claim_task tid worker l)" "stays (evolves tid) (release_task tid worker)"
  unfolding acquire_lock_def release_lock_def claim_task_def release_task_def
  by (auto intro!: evo_intros simp: evolves_def)

lemma evo_executor [evo_intros]:
  "stays (evolves tid) (finalize_failure tid e)" "stays (evolves tid) (finalize tid s)"
  "stays (evolves tid) (resolve_repository_path ex t)" "stays (evolves tid) (adopt_workspace tid t p)"
  unfolding finalize_failure_def finalize_def resolve_repository_path_def adopt_workspace_def Let_def
  by (auto intro!: evo_intros)

lemma new_context_task [simp]: "cx_task_id (new_context ex tid wid scm ci) = tid"
  by (simp add: new_context_def)

lemma evo_run_from [evo_intros]:
  "cx_task_id cx = tid \<Longrightarrow> stays (evolves tid) (run_from ex cx tid s)"
  unfolding run_from_def
  using evo_context(1) [of cx] evo_run_graph [of cx]
  by (auto intro!: evo_intros split: sum.split)

lemma evo_run_workflow [evo_intros]: "stays (evolves tid) (run_workflow ex tid t)"
proof -
  have emit: "stays (evolves tid) (emit (new_context ex tid wid scm ci) ty pl)" for wid scm ci ty pl
    using evo_context(1) [of "new_context ex tid wid scm ci"] by simp
  have fresh: "stays (evolves tid) (modify (\<lambda>w. w\<lparr>w_current_agent_run_id := None, w_usage := no_usage, w_ci_runs := (\<lambda>_. None)\<rparr>))"
    by (intro evo_intros) (simp add: evolves_def)
  show ?thesis
    unfolding run_workflow_def start_workflow_def Let_def
    by (auto intro!: evo_intros fresh emit split: sum.split)
qed

lemma evo_execute_claimed [evo_intros]: "stays (evolves tid) (execute_claimed ex tid)"
  unfolding execute_claimed_def by (auto intro!: evo_intros split: option.split)

lemma evo_execute [evo_intros]: "stays (evolves tid) (execute ex tid)"
  unfolding execute_def release_guards_def by (auto intro!: evo_intros)

section \<open>Lock and lease after an execution\<close>

lemma safe_executor [safe_intros]:
  "safe (release_lock name owner)" "safe (release_task tid worker)" "safe (release_guards ex tid)"
  "safe (acquire_lock name ttl owner)" "safe (claim_task tid worker l)"
  "safe (finalize_failure tid e)" "safe (finalize tid s)"
proof -
  show a: "safe (release_lock name owner)" "safe (release_task tid worker)" for name owner tid worker
    unfolding release_lock_def release_task_def by (intro safe_intros)+
  show "safe (release_guards ex tid)" unfolding release_guards_def by (intro safe_intros a)
  show "safe (acquire_lock name ttl owner)" "safe (claim_task tid worker l)"
    "safe (finalize_failure tid e)" "safe (finalize tid s)"
    unfolding acquire_lock_def claim_task_def finalize_failure_def finalize_def
    by (auto intro!: safe_intros)
qed

lemma ensure_safe:
  assumes "safe f"
  shows "ensure m f w = (fst (m w), snd (f (snd (m w))))"
proof -
  obtain v t where "f (snd (m w)) = (Inr v, t)" using assms by (metis safe_def)
  then show ?thesis by (cases "m w") (simp add: ensure_def)
qed

lemma release_guards_db:
  "\<exists>now. w_db (snd (release_guards ex tid w)) = release now tid (ex_worker_id ex) (w_db w)"
  by (simp add: release_guards_def release_lock_def release_task_def utcnow_def mbind_def ask_def on_db_def) blast

lemma release_guards_locks:
  "w_locks (snd (release_guards ex tid w)) = lock_release (lock_name tid) (ex_worker_id ex) (w_locks w)"
  by (simp add: release_guards_def release_lock_def release_task_def utcnow_def mbind_def ask_def on_db_def)

text \<open>
  C4: an execution gives back what it took. An execution that is refused at the lock changes neither
  the lock table nor the store. Every other execution, however it ends, normally or with an
  exception, leaves the worker holding neither the task's lock nor its lease. The guards are
  identified by the worker's id, which all executions of one worker share.
\<close>

theorem execution_releases_guards:
  "case execute ex tid w of (r, w') \<Rightarrow>
     r = Inr (Skipped ''locked by another worker'') \<and> w_locks w' = w_locks w \<and> w_db w' = w_db w
     \<or> (case w_locks w' (lock_name tid) of None \<Rightarrow> True | Some e \<Rightarrow> fst e \<noteq> ex_worker_id ex)
       \<and> (case task_get (w_db w') tid of None \<Rightarrow> True | Some t \<Rightarrow> t_locked_by t \<noteq> Some (ex_worker_id ex))"
proof -
  let ?a = "acquire_lock (lock_name tid) (task_lease_seconds (ex_settings ex)) (ex_worker_id ex)"
  show ?thesis
  proof (cases "projr (fst (?a w))")
    case False
    then have "w_locks (snd (?a w)) = w_locks w" "w_db (snd (?a w)) = w_db w"
      by (auto simp: acquire_lock_def utcnow_def ask_def mbind_def lock_acquire_def live_entry_def
          split: option.splits if_splits)
    with False show ?thesis by (simp add: execute_def mbind_safe safe_intros)
  next
    case True
    let ?w1 = "snd (execute_claimed ex tid (snd (?a w)))"
    have run: "execute ex tid w = (fst (execute_claimed ex tid (snd (?a w))), snd (release_guards ex tid ?w1))"
      using True by (simp add: execute_def mbind_safe ensure_safe safe_intros)
    obtain now where "w_db (snd (release_guards ex tid ?w1)) = release now tid (ex_worker_id ex) (w_db ?w1)"
      using release_guards_db by blast
    then show ?thesis
      by (auto simp: run release_guards_locks lock_release_def held_by_def
          split: option.split dest: task_get_in)
  qed
qed

section \<open>The status of an executed task\<close>

lemma finalize_row:
  assumes "task_get (w_db w) tid = Some t"
  shows "\<exists>w' t'. finalize tid s w = (Inr (Finished (summarize s) (final_status s)), w')
    \<and> task_get (w_db w') tid = Some t' \<and> t_status t' = final_status s \<and> t_state t' = s"
  using task_get_in [OF assms] assms
  by (simp add: finalize_def do_save_state_def do_set_status_def unless_def mbind_safe safe_intros
      on_db_def utcnow_def ask_def save_state_values_def mbind_def)

lemma finalize_failure_row:
  assumes "task_get (w_db w) tid = Some t"
  shows "\<exists>w' t'. finalize_failure tid e w = (Inr (), w')
    \<and> task_get (w_db w') tid = Some t' \<and> t_status t' = FAILED \<and> t_error t' = Some e"
  using task_get_in [OF assms] assms
  by (simp add: finalize_failure_def do_set_status_def on_db_def utcnow_def ask_def mbind_def)

lemma evolves_row: "stays (evolves tid) m \<Longrightarrow> task_get (w_db w) x = Some t \<Longrightarrow> \<exists>t'. task_get (w_db (snd (m w))) x = Some t'"
  by (meson evolves_task_exists stays_def)

text \<open>Running the graph settles the task: it ends ready for review or with a human.\<close>

lemma run_from_settles:
  assumes "task_get (w_db w) tid = Some t" and "cx_task_id cx = tid"
  shows "\<exists>sm st w' t'. run_from ex cx tid s w = (Inr (Finished sm st), w')
    \<and> st \<in> {READY_FOR_REVIEW, HUMAN_REVIEW_REQUIRED}
    \<and> task_get (w_db w') tid = Some t' \<and> t_status t' = st"
proof -
  let ?g = "run_graph cx (ex_limit_message ex) RECURSION_LIMIT N_plan s"
  obtain r w1 where run: "?g w = (r, w1)" by fastforce
  have "stays (evolves tid) ?g" using evo_run_graph [of cx] assms(2) by simp
  from evolves_row [OF this assms(1)] run obtain t1 where t1: "task_get (w_db w1) tid = Some t1" by auto
  note outcome = run_graph_outcome [where cx = cx and msg = "ex_limit_message ex" and limit = RECURSION_LIMIT
      and s = s and w = w]
  show ?thesis
  proof (cases r)
    case (Inr f)
    then have "run_from ex cx tid s w = finalize tid f w1"
      using run by (simp add: run_from_def catch_def mbind_def [of ?g] mbind_def)
    moreover have "final_status f \<in> {READY_FOR_REVIEW, HUMAN_REVIEW_REQUIRED}"
      using outcome run Inr by (auto simp: final_status_def)
    ultimately show ?thesis using finalize_row [OF t1, of f] by auto
  next
    case (Inl e)
    let ?s = "s\<lparr>st_outcome := Some ''HUMAN_REVIEW_REQUIRED'', st_halt_reason := Some (''graph recursion limit ('' @
      show_nat RECURSION_LIMIT @ '') reached: '' @ error_message e)\<rparr>"
    let ?m = "emit cx Ev_NO_PROGRESS_DETECTED [(''reason'', JStr ''graph recursion limit reached'')]"
    have e: "error_class e = ''GraphRecursionError''" using outcome run Inl by simp
    obtain t2 where "task_get (w_db (snd (?m w1))) tid = Some t2"
      using t1 by (simp add: task_get_def)
    moreover have "run_from ex cx tid s w = finalize tid ?s (snd (?m w1))"
      using run Inl e by (simp add: run_from_def catch_def mbind_def [of ?g] mbind_def [of "\<lambda>s. (case _ of _ \<Rightarrow> _)"]
          mbind_def [of "catch _ _"] mbind_safe safe_intros)
    moreover have "final_status ?s = HUMAN_REVIEW_REQUIRED" by (simp add: final_status_def)
    ultimately show ?thesis using finalize_row [of "snd (?m w1)" tid t2 ?s] by auto
  qed
qed

definition settled :: "pystr \<Rightarrow> exec_result \<Rightarrow> world \<Rightarrow> bool" where
  "settled tid r w \<longleftrightarrow> (\<exists>t. task_get (w_db w) tid = Some t \<and> (case r of
       Finished sm st \<Rightarrow> st \<in> {READY_FOR_REVIEW, HUMAN_REVIEW_REQUIRED} \<and> t_status t = st
     | Failed_With m \<Rightarrow> t_status t = FAILED \<and> t_error t = Some m
     | Skipped m \<Rightarrow> False))"

lemma resolve_repository_cases:
  "resolve_repository_path ex t w =
     (if fs_is_dir (w_fs w) (repository_dir ex t)
      then (Inr (projr (resolve_path (w_fs w) (repository_dir ex t))), w)
      else (Inl (AgentPlatformError (missing_repository (raw_repository t))), w))"
  by (auto simp: resolve_repository_path_def Let_def mbind_def fs_is_dir_def fs_lookup_def split: sum.splits)

lemma run_workflow_split:
  "run_workflow ex tid t w =
     (if fs_is_dir (w_fs w) (repository_dir ex t)
      then start_workflow ex tid t (projr (resolve_path (w_fs w) (repository_dir ex t))) w
      else (Inr (Failed_With (missing_repository (raw_repository t))),
            snd (finalize_failure tid (missing_repository (raw_repository t)) w)))"
proof -
  have "catch (mbind (resolve_repository_path ex t) (\<lambda>p. ret (Inr p)))
      (\<lambda>e. if is_platform_error e then ret (Inl e) else raise e) w =
    (Inr (if fs_is_dir (w_fs w) (repository_dir ex t)
      then Inr (projr (resolve_path (w_fs w) (repository_dir ex t)))
      else Inl (AgentPlatformError (missing_repository (raw_repository t)))), w)"
    by (simp add: catch_def mbind_def resolve_repository_cases)
  then show ?thesis
    by (simp add: run_workflow_def mbind_def [of "catch _ _"] mbind_safe safe_intros)
qed

lemma adopt_nothing:
  "\<not> truthy_str (t_workspace_path t) \<or> \<not> truthy_str (t_branch t) \<Longrightarrow> adopt_workspace tid t p = ret ()"
  by (auto simp: adopt_workspace_def)

text \<open>A computation that settles the task whenever it returns.\<close>

definition settles :: "pystr \<Rightarrow> exec_result io \<Rightarrow> bool" where
  "settles tid m \<longleftrightarrow> (\<forall>w r w'. task_get (w_db w) tid \<noteq> None \<longrightarrow> m w = (Inr r, w') \<longrightarrow> settled tid r w')"

lemma settles_bind:
  assumes "stays (evolves tid) m" and "\<And>v. settles tid (f v)"
  shows "settles tid (mbind m f)"
  unfolding settles_def
proof (intro allI impI)
  fix w r w'
  assume row: "task_get (w_db w) tid \<noteq> None" and run: "mbind m f w = (Inr r, w')"
  from run obtain v w1 where m: "m w = (Inr v, w1)" and f: "f v w1 = (Inr r, w')" by (rule mbind_InrD)
  from evolves_row [OF assms(1)] row m have "task_get (w_db w1) tid \<noteq> None" by fastforce
  with assms(2) f show "settled tid r w'" by (auto simp: settles_def)
qed

lemma settles_run_from: "cx_task_id cx = tid \<Longrightarrow> settles tid (run_from ex cx tid s)"
  unfolding settles_def
proof (intro allI impI)
  fix w r w'
  assume cx: "cx_task_id cx = tid" and "task_get (w_db w) tid \<noteq> None" and run: "run_from ex cx tid s w = (Inr r, w')"
  then obtain t where "task_get (w_db w) tid = Some t" by blast
  from run_from_settles [OF this cx, of ex s] run show "settled tid r w'" by (auto simp: settled_def)
qed

lemma settles_start_workflow: "settles tid (start_workflow ex tid t p)"
proof -
  have emit: "stays (evolves tid) (emit (new_context ex tid wid scm ci) ty pl)" for wid scm ci ty pl
    using evo_context(1) [of "new_context ex tid wid scm ci"] by simp
  have fresh: "stays (evolves tid) (modify (\<lambda>w. w\<lparr>w_current_agent_run_id := None, w_usage := no_usage, w_ci_runs := (\<lambda>_. None)\<rparr>))"
    by (intro evo_intros) (simp add: evolves_def)
  show ?thesis
    unfolding start_workflow_def Let_def
    by (intro settles_bind settles_run_from evo_intros emit fresh) simp
qed

lemma start_workflow_runs:
  assumes "build_llm_provider (ex_load_script ex) (ex_sdk_client ex) (ex_settings ex) = Inr llm"
    and "fst (build_scm_provider (ex_settings ex) w) = Inr scm" and "build_ci_provider (ex_settings ex) = Inr ci"
    and "t_workspace_path t = None" and "task_get (w_db w) tid = Some t0"
  shows "\<exists>wid w1 t1. start_workflow ex tid t p w =
      run_from ex (new_context ex tid wid scm ci) tid (start_state (ex_settings ex) t wid p) w1
    \<and> task_get (w_db w1) tid = Some t1"
proof -
  have run: "w_db (snd (run_id w)) = w_db w" "w_fs (snd (run_id w)) = w_fs w"
    by (simp_all add: run_id_def new_id_def ask_def mbind_def)
  obtain f where "build_scm_provider (ex_settings ex) v = (fst (build_scm_provider (ex_settings ex) w), v\<lparr>w_fs := f\<rparr>)"
    if "w_fs v = w_fs w" for v by (rule build_scm_provider_frame [of w "ex_settings ex"]) blast
  from this [OF run(2)] assms(2)
  have scm: "build_scm_provider (ex_settings ex) (snd (run_id w)) = (Inr scm, (snd (run_id w))\<lparr>w_fs := f\<rparr>)" by simp
  let ?wid = "projr (fst (run_id w))" and ?w1 = "(snd (run_id w))\<lparr>w_fs := f, w_current_agent_run_id := None,
    w_usage := no_usage, w_ci_runs := (\<lambda>_. None)\<rparr>"
  let ?e = "emit (new_context ex tid ?wid scm ci) Ev_TASK_CLAIMED [(''worker'', JStr (ex_worker_id ex)),
    (''workflow_run_id'', JStr ?wid)]"
  have "start_workflow ex tid t p w =
      run_from ex (new_context ex tid ?wid scm ci) tid (start_state (ex_settings ex) t ?wid p) (snd (?e ?w1))"
    using assms(1,3,4)
    by (simp add: start_workflow_def mbind_safe safe_intros mbind_def [of "lift_result _"]
        mbind_def [of "build_scm_provider _"] scm Let_def adopt_nothing)
  moreover have "task_get (w_db (snd (?e ?w1))) tid = Some t0" using assms(5) run(1) by (simp add: task_get_def)
  ultimately show ?thesis by blast
qed

lemma settles_run_workflow: "settles tid (run_workflow ex tid t)"
  unfolding settles_def
proof (intro allI impI)
  fix w r w'
  assume row: "task_get (w_db w) tid \<noteq> None" and run: "run_workflow ex tid t w = (Inr r, w')"
  then obtain t0 where t0: "task_get (w_db w) tid = Some t0" by blast
  show "settled tid r w'"
  proof (cases "fs_is_dir (w_fs w) (repository_dir ex t)")
    case True
    with row run settles_start_workflow show ?thesis by (simp add: run_workflow_split settles_def)
  next
    case False
    with run finalize_failure_row [OF t0, of "missing_repository (raw_repository t)"] show ?thesis
      by (auto simp: run_workflow_split settled_def)
  qed
qed

lemma settled_release:
  assumes "settled tid r w"
  shows "settled tid r (snd (release_guards ex tid w))"
proof -
  obtain now where "w_db (snd (release_guards ex tid w)) = release now tid (ex_worker_id ex) (w_db w)"
    using release_guards_db by blast
  moreover obtain t where "task_get (w_db w) tid = Some t" using assms by (auto simp: settled_def)
  ultimately show ?thesis using assms by (cases r) (auto simp: settled_def)
qed

lemma claim_refused:
  assumes "claim_task tid worker l w = (Inr None, w')" and "task_get (w_db w) tid = Some t"
  shows "w_db w' = w_db w"
proof -
  obtain now where c: "fst (claim now tid worker l (w_db w)) = None" "w_db w' = snd (claim now tid worker l (w_db w))"
    using assms(1) by (auto simp: claim_task_def utcnow_def ask_def mbind_def on_db_def)
  then have "\<not> (\<exists>t \<in> set (db_tasks (w_db w)). claimable now tid t)"
    using assms(2) by (auto simp: claim_result split: if_splits)
  with c(2) show ?thesis by (simp add: claim_db update_where_none)
qed

text \<open>Past the lock, an execution that returns has settled the task or left the store alone.\<close>

lemma execute_claimed_cases:
  assumes "execute_claimed ex tid w = (Inr r, w')"
  shows "settled tid r w' \<or> (\<exists>m. r = Skipped m \<and> w_db w' = w_db w)"
proof (cases "task_get (w_db w) tid")
  case None
  with assms show ?thesis by (auto simp: execute_claimed_def mbind_def)
next
  case (Some t)
  let ?c = "claim_task tid (ex_worker_id ex) (task_lease_seconds (ex_settings ex))"
  show ?thesis
  proof (cases "is_terminal (t_status t)")
    case True
    with assms Some show ?thesis by (auto simp: execute_claimed_def mbind_def)
  next
    case False
    obtain c w1 where c: "?c w = (Inr c, w1)" using safe_executor(5) by (metis safe_def)
    from evolves_row [OF evo_executor_guards(3) Some] c obtain t1 where t1: "task_get (w_db w1) tid = Some t1"
      by (metis snd_conv)
    show ?thesis
    proof (cases c)
      case None
      with c claim_refused [OF _ Some] assms Some False show ?thesis
        by (auto simp: execute_claimed_def mbind_def)
    next
      case (Some t2)
      with c assms \<open>task_get (w_db w) tid = Some t\<close> False have "run_workflow ex tid t w1 = (Inr r, w')"
        by (simp add: execute_claimed_def mbind_def)
      with settles_run_workflow [of tid ex t] t1 have "settled tid r w'" by (auto simp: settles_def)
      then show ?thesis ..
    qed
  qed
qed

text \<open>What \<open>execute\<close> does once the lock is acquired.\<close>

lemma acquire_lock_frame:
  "w_db (snd (acquire_lock name ttl owner w)) = w_db w" "w_fs (snd (acquire_lock name ttl owner w)) = w_fs w"
  by (simp_all add: acquire_lock_def utcnow_def ask_def mbind_def)

lemma execute_locked:
  assumes "w_locks w (lock_name tid) = None"
  obtains w1 where "w_db w1 = w_db w" "w_fs w1 = w_fs w"
    and "execute ex tid w = (fst (execute_claimed ex tid w1), snd (release_guards ex tid (snd (execute_claimed ex tid w1))))"
proof -
  let ?a = "acquire_lock (lock_name tid) (task_lease_seconds (ex_settings ex)) (ex_worker_id ex)"
  have "fst (?a w) = Inr True"
    using assms by (simp add: acquire_lock_def utcnow_def ask_def mbind_def lock_acquire_def live_entry_def)
  then have "execute ex tid w = (fst (execute_claimed ex tid (snd (?a w))),
      snd (release_guards ex tid (snd (execute_claimed ex tid (snd (?a w))))))"
    by (simp add: execute_def mbind_safe ensure_safe safe_intros)
  with that [of "snd (?a w)"] show ?thesis by (simp add: acquire_lock_frame)
qed

lemma claim_free:
  assumes "task_get (w_db w) tid = Some t" "\<not> is_terminal (t_status t)" "t_locked_by t = None"
  shows "\<exists>t'. claim_task tid worker l w = (Inr (Some t'), snd (claim_task tid worker l w))"
proof -
  have "\<exists>t \<in> set (db_tasks (w_db w)). claimable now tid t" for now
    using assms task_get_in [OF assms(1)] by (auto simp: claimable_def)
  then have "\<exists>t'. fst (claim now tid worker l (w_db w)) = Some t'" for now
    using assms(1) by (simp add: claim_result)
  then show ?thesis by (simp add: claim_task_def utcnow_def ask_def mbind_def on_db_def)
qed

lemma execute_settles:
  assumes "task_get (w_db w) tid = Some t" and "\<not> is_terminal (t_status t)" and "t_locked_by t = None"
    and "w_locks w (lock_name tid) = None"
    and "fs_is_dir (w_fs w) (repository_dir ex t)"
    and "build_llm_provider (ex_load_script ex) (ex_sdk_client ex) (ex_settings ex) = Inr llm"
    and "fst (build_scm_provider (ex_settings ex) w) = Inr scm" and "build_ci_provider (ex_settings ex) = Inr ci"
    and "t_workspace_path t = None"
  shows "\<exists>sm st w' t'. execute ex tid w = (Inr (Finished sm st), w')
    \<and> st \<in> {READY_FOR_REVIEW, HUMAN_REVIEW_REQUIRED}
    \<and> task_get (w_db w') tid = Some t' \<and> t_status t' = st"
proof -
  obtain w1 where w1: "w_db w1 = w_db w" "w_fs w1 = w_fs w"
    and ex: "execute ex tid w = (fst (execute_claimed ex tid w1), snd (release_guards ex tid (snd (execute_claimed ex tid w1))))"
    using assms(4) by (rule execute_locked)
  let ?c = "claim_task tid (ex_worker_id ex) (task_lease_seconds (ex_settings ex))"
  obtain t1 w2 where c: "?c w1 = (Inr (Some t1), w2)"
    using claim_free [of w1 tid t] assms(1-3) w1 by metis
  have "w_fs (snd (?c w1)) = w_fs w"
    using w1 by (simp add: claim_task_def utcnow_def ask_def mbind_def on_db_def)
  then have fs: "w_fs w2 = w_fs w" using c by simp
  have "execute_claimed ex tid w1 = run_workflow ex tid t w2"
    using assms(1,2) w1 c by (simp add: execute_claimed_def mbind_def [of "gets _"] mbind_apply [of ?c])
  also have "\<dots> = start_workflow ex tid t (projr (resolve_path (w_fs w) (repository_dir ex t))) w2"
    using assms(5) fs by (simp add: run_workflow_split)
  finally have run: "execute_claimed ex tid w1 = \<dots>" .
  obtain t2 where "task_get (w_db w2) tid = Some t2"
    using evolves_row [OF evo_executor_guards(3)] assms(1) w1 c by (metis snd_conv)
  then obtain wid w4 t3 p where "execute_claimed ex tid w1 =
      run_from ex (new_context ex tid wid scm ci) tid (start_state (ex_settings ex) t wid p) w4"
    and t3: "task_get (w_db w4) tid = Some t3"
    using start_workflow_runs [OF assms(6) _ assms(8,9)] assms(7) build_scm_provider_fs [OF fs] run by metis
  then obtain sm st w3 t4 where r: "execute_claimed ex tid w1 = (Inr (Finished sm st), w3)"
    "st \<in> {READY_FOR_REVIEW, HUMAN_REVIEW_REQUIRED}" "task_get (w_db w3) tid = Some t4" "t_status t4 = st"
    using run_from_settles [OF t3, of "new_context ex tid wid scm ci"] by (metis new_context_task)
  then have "settled tid (Finished sm st) w3" by (simp add: settled_def)
  from settled_release [OF this, of ex] r ex show ?thesis by (auto simp: settled_def)
qed

text \<open>
  C13: executing a free task settles it. When nobody holds the lock or the lease of a task that is
  not finished, its repository is a directory, the providers can be built and there is no earlier
  workspace to adopt, executing the task returns with a result, whatever the model, the tools and
  the services do; the task's row then carries the reported status, which is READY_FOR_REVIEW or
  HUMAN_REVIEW_REQUIRED.
\<close>

theorem execution_settles_task:
  assumes "task_get (w_db w) tid = Some t" and "\<not> is_terminal (t_status t)" and "t_locked_by t = None"
    and "w_locks w (lock_name tid) = None"
    and "fs_is_dir (w_fs w) (repository_dir ex t)"
    and "build_llm_provider (ex_load_script ex) (ex_sdk_client ex) (ex_settings ex) = Inr llm"
    and "fst (build_scm_provider (ex_settings ex) w) = Inr scm" and "build_ci_provider (ex_settings ex) = Inr ci"
    and "t_workspace_path t = None"
  shows "\<exists>sm st w' t'. execute ex tid w = (Inr (Finished sm st), w')
    \<and> st \<in> {READY_FOR_REVIEW, HUMAN_REVIEW_REQUIRED}
    \<and> task_get (w_db w') tid = Some t' \<and> t_status t' = st"
  using assms by (rule execute_settles)

definition sample_executor :: executor where
  "sample_executor = \<lparr>ex_settings = default_settings, ex_policy = DEFAULT_ENGINE, ex_worker_id = ''worker-1'',
     ex_expanduser = id, ex_float = id, ex_load_script = (\<lambda>_. Inr ()),
     ex_sdk_client = Inr (), ex_limit_message = ''limit''\<rparr>"

definition repo_world :: world where
  "repo_world = (new_world quiet_answers [([''repo''], Dir)])\<lparr>w_db := empty_db\<lparr>db_tasks := [sample_task]\<rparr>\<rparr>"

lemma repo_world_facts:
  "task_get (w_db repo_world) ''TASK-1'' = Some sample_task" "w_locks repo_world n = None"
  "fs_is_dir (w_fs repo_world) (repository_dir sample_executor sample_task)"
  "fst (build_scm_provider default_settings repo_world) = Inr (Local_Git [''artifacts''])"
proof -
  have "raw_repository sample_task = ''repo''"
    by (simp add: raw_repository_def sample_task_def new_task_row_def str_or_def)
  moreover have "path_parts ''repo'' = [''repo'']" by code_simp
  ultimately show "fs_is_dir (w_fs repo_world) (repository_dir sample_executor sample_task)"
    by (simp add: repository_dir_def sample_executor_def repo_world_def new_world_def fs_is_dir_def fs_lookup_def resolve_path_def)
  show "fst (build_scm_provider default_settings repo_world) = Inr (Local_Git [''artifacts''])"
    by (simp add: default_providers local_git_run repo_world_def new_world_def resolve_path_def)
qed (simp_all add: repo_world_def new_world_def task_get_def sample_task_def new_task_row_def)

theorem execution_settles_task_witness:
  "\<exists>sm st w' t'. execute sample_executor ''TASK-1'' repo_world = (Inr (Finished sm st), w')
     \<and> task_get (w_db w') ''TASK-1'' = Some t' \<and> t_status t' = st"
proof -
  have "\<not> is_terminal (t_status sample_task)" "t_locked_by sample_task = None" "t_workspace_path sample_task = None"
    by (simp_all add: sample_task_def new_task_row_def)
  moreover have "ex_settings sample_executor = default_settings" by (simp add: sample_executor_def)
  ultimately show ?thesis
    using execution_settles_task [OF repo_world_facts(1) _ _ repo_world_facts(2,3), of
        Scripted_Empty "Local_Git [''artifacts'']" Noop_CI] default_providers repo_world_facts(4) by metis
qed

lemma release_keeps:
  "db_events (release now tid worker d) = db_events d
   \<and> map_option t_status (task_get (release now tid worker d) x) = map_option t_status (task_get d x)"
proof -
  have "db_events (release now tid worker d) = db_events d" by (simp add: release_def)
  then show ?thesis by (cases "task_get d x") auto
qed

text \<open>
  C15: the reported result is the stored result. Whatever happens, when executing a task returns a
  summary the task's row carries exactly the reported status, READY_FOR_REVIEW or
  HUMAN_REVIEW_REQUIRED; when it returns a failure the row is FAILED with the reported error. When it
  reports that the task was skipped, the store is as it was, except that a lease on the task that is
  held under this worker's id is released: no status, state or audit row changes.
\<close>

theorem reported_status_is_stored:
  "case execute ex tid w of
     (Inr (Finished sm st), w') \<Rightarrow> st \<in> {READY_FOR_REVIEW, HUMAN_REVIEW_REQUIRED}
       \<and> map_option t_status (task_get (w_db w') tid) = Some st
   | (Inr (Failed_With m), w') \<Rightarrow> map_option t_status (task_get (w_db w') tid) = Some FAILED
       \<and> map_option t_error (task_get (w_db w') tid) = Some (Some m)
   | (Inr (Skipped m), w') \<Rightarrow> (w_db w' = w_db w \<or> (\<exists>now. w_db w' = release now tid (ex_worker_id ex) (w_db w)))
       \<and> db_events (w_db w') = db_events (w_db w)
       \<and> map_option t_status (task_get (w_db w') tid) = map_option t_status (task_get (w_db w) tid)
   | (Inl e, w') \<Rightarrow> True"
proof -
  let ?a = "acquire_lock (lock_name tid) (task_lease_seconds (ex_settings ex)) (ex_worker_id ex)"
  let ?w1 = "snd (?a w)"
  show ?thesis
  proof (cases "projr (fst (?a w))")
    case False
    then show ?thesis by (simp add: execute_def mbind_safe safe_intros acquire_lock_frame)
  next
    case True
    obtain r w2 where run: "execute_claimed ex tid ?w1 = (r, w2)" by fastforce
    with True have ex: "execute ex tid w = (r, snd (release_guards ex tid w2))"
      by (simp add: execute_def mbind_safe ensure_safe safe_intros)
    from release_guards_db obtain now
      where db: "w_db (snd (release_guards ex tid w2)) = release now tid (ex_worker_id ex) (w_db w2)" by blast
    show ?thesis
    proof (cases r)
      case (Inr res)
      from execute_claimed_cases [OF run [unfolded Inr]] show ?thesis
      proof
        assume "settled tid res w2"
        from settled_release [OF this, of ex] show ?thesis using Inr ex
          by (cases res) (auto simp: settled_def)
      next
        assume "\<exists>m. res = Skipped m \<and> w_db w2 = w_db ?w1"
        then show ?thesis using Inr ex db release_keeps [of now tid "ex_worker_id ex" "w_db w"]
          by (auto simp: acquire_lock_frame)
      qed
    qed (simp add: ex)
  qed
qed

text \<open>
  C16: executing a task touches that task only. In any execution, with its lock, lease, workflow and
  clean-up, events, tool calls, file changes, CI runs and approvals are appended to, for this task
  only; agent runs are appended for this task, and a stored run keeps its task, node and start and
  is changed only when its key is that of a run of this task; no other task's row changes, the queue
  is untouched, and every process spawned by the command runner is an allowed executable.
\<close>

theorem execution_respects_discipline: "evolves tid w (snd (execute ex tid w))"
  using evo_execute [of tid ex] by (simp only: stays_def)

section \<open>Where the executor does not do what it says\<close>

text \<open>
  A task that is ready for review is not protected from a second run: it is not terminal, so a
  worker that receives its identifier again claims it and starts the workflow over.
\<close>

theorem ready_task_is_claimed_again:
  assumes "task_get (w_db w) tid = Some t" "t_status t = READY_FOR_REVIEW" "t_locked_by t = None"
  shows "\<exists>t'. fst (claim_task tid worker l w) = Inr (Some t')"
  using claim_free [OF assms(1) _ assms(3), of worker l] assms(2) by (auto dest: arg_cong [of _ _ fst])

text \<open>
  When the recursion limit ends the run, the stored state is the state the run started from: the
  last checkpoint, with the diff and the test results of the run, is overwritten.
\<close>

theorem recursion_limit_overwrites_checkpoint:
  assumes "run_graph cx (ex_limit_message ex) RECURSION_LIMIT N_plan s w = (Inl e, w1)"
    and "task_get (w_db w) tid = Some t" and "cx_task_id cx = tid"
  shows "\<exists>t'. task_get (w_db (snd (run_from ex cx tid s w))) tid = Some t'
    \<and> st_git_diff (t_state t') = st_git_diff s \<and> st_iteration (t_state t') = st_iteration s"
proof -
  let ?g = "run_graph cx (ex_limit_message ex) RECURSION_LIMIT N_plan s"
  let ?s = "s\<lparr>st_outcome := Some ''HUMAN_REVIEW_REQUIRED'', st_halt_reason := Some (''graph recursion limit ('' @
    show_nat RECURSION_LIMIT @ '') reached: '' @ error_message e)\<rparr>"
  let ?m = "emit cx Ev_NO_PROGRESS_DETECTED [(''reason'', JStr ''graph recursion limit reached'')]"
  have "stays (evolves tid) ?g" using evo_run_graph [of cx] assms(3) by simp
  from evolves_row [OF this assms(2)] assms(1) obtain t1 where "task_get (w_db (snd (?m w1))) tid = Some t1"
    by (auto simp: task_get_def)
  note row = finalize_row [OF this, of ?s]
  have "error_class e = ''GraphRecursionError''"
    using run_graph_outcome [where cx = cx and msg = "ex_limit_message ex" and limit = RECURSION_LIMIT
        and s = s and w = w] assms(1) by simp
  then have "run_from ex cx tid s w = finalize tid ?s (snd (?m w1))"
    using assms(1) by (simp add: run_from_def catch_def mbind_def [of ?g] mbind_def [of "catch _ _"] mbind_safe safe_intros)
  with row show ?thesis by auto
qed

end
