(* ===== verification/Consumer.thy ===== *)
theory Consumer
  imports Executor
begin

text \<open>
  The worker's consumer (\<open>apps/worker/consumer.py\<close>): handling one message, the single-step form, the
  reconciliation sweep, and the consumer loop with its semaphore. The state of a worker is its world
  and the free permits of the semaphore. Messages are in the in-process queue of the world; with the
  Redis queue the same record stands for the stream: the entries not yet delivered and the tasks of
  the entries delivered and not acknowledged.

  The loop is the step relation \<open>loop_step\<close>. Handlers run concurrently with the loop, with each other,
  with the recovery loop and with whoever publishes: between two steps of one handler any other may
  work, and all that is known of a piece of work for a task is that it \<open>evolves\<close> the world for it,
  which is proved of everything an execution does.
\<close>

record consumer =
  cn_executor :: executor
  cn_concurrency :: nat

record worker =
  wk_world :: world
  wk_permits :: nat

type_synonym 'a wio = "(worker, 'a) eff"

definition in_world :: "'a io \<Rightarrow> 'a wio" where
  "in_world m k = (case m (wk_world k) of (r, w) \<Rightarrow> (r, k\<lparr>wk_world := w\<rparr>))"

definition on_queue :: "(memory_queue \<Rightarrow> memory_queue) \<Rightarrow> unit io" where
  "on_queue f = modify (\<lambda>w. w\<lparr>w_queue := f (w_queue w)\<rparr>)"

definition receive_message :: "queued_task option io" where
  "receive_message =
     mbind (gets (\<lambda>w. fst (queue_receive (w_queue w)))) (\<lambda>item.
     mbind (on_queue (\<lambda>q. snd (queue_receive q))) (\<lambda>_. ret item))"

definition take_permit :: "unit wio" where
  "take_permit = modify (\<lambda>k. k\<lparr>wk_permits := wk_permits k - 1\<rparr>)"

definition give_permit :: "unit wio" where
  "give_permit = modify (\<lambda>k. k\<lparr>wk_permits := Suc (wk_permits k)\<rparr>)"

section \<open>One message\<close>

text \<open>A failed message returns to the in-process queue; with Redis it is left pending.\<close>

definition nack_message :: "bool \<Rightarrow> queued_task \<Rightarrow> memory_queue \<Rightarrow> memory_queue" where
  "nack_message redis item = (if redis then id else queue_nack item)"

text \<open>\<open>_handle\<close>, around any execution: acknowledge when it returns, return the message when it raises.\<close>

definition handle_with :: "bool \<Rightarrow> exec_result io \<Rightarrow> queued_task \<Rightarrow> unit wio" where
  "handle_with redis run item =
     ensure
       (catch
         (mbind (in_world run) (\<lambda>_. in_world (on_queue (queue_ack item))))
         (\<lambda>_. in_world (on_queue (nack_message redis item))))
       give_permit"

definition handle :: "consumer \<Rightarrow> queued_task \<Rightarrow> unit wio" where
  "handle cs item = handle_with False (execute (cn_executor cs) (q_task_id item)) item"

text \<open>Without a free permit the caller waits: nobody else runs, so it waits for ever.\<close>

datatype once_result = Idle | Handled pystr | Blocked pystr

definition run_once :: "consumer \<Rightarrow> once_result wio" where
  "run_once cs =
     mbind (in_world receive_message) (\<lambda>item.
     case item of
       None \<Rightarrow> ret Idle
     | Some i \<Rightarrow>
         mbind (gets wk_permits) (\<lambda>free.
         if free = 0 then ret (Blocked (q_task_id i))
         else mbind take_permit (\<lambda>_. mbind (handle cs i) (\<lambda>_. ret (Handled (q_task_id i))))))"

section \<open>The sweep\<close>

definition SWEEP_LIMIT :: nat where
  "SWEEP_LIMIT = 20"

fun publish_all :: "nat \<Rightarrow> task_row list \<Rightarrow> nat io" where
  "publish_all published [] = ret published"
| "publish_all published (t # ts) =
     mbind (on_queue (queue_publish (t_id t))) (\<lambda>_. publish_all (Suc published) ts)"

definition sweep :: "nat io" where
  "sweep =
     mbind (gets (\<lambda>w. find_unclaimed (w_db w) SWEEP_LIMIT)) (\<lambda>unclaimed.
     mbind utcnow (\<lambda>now.
     mbind (gets (\<lambda>w. find_recoverable now (w_db w) SWEEP_LIMIT)) (\<lambda>stale.
     mbind (publish_all 0 unclaimed) (\<lambda>published. publish_all published stale))))"

text \<open>The branch of the sweep for the Redis queue, on the messages the queue hands back.\<close>

definition reclaim :: "consumer \<Rightarrow> queued_task list \<Rightarrow> unit wio" where
  "reclaim cs items =
     for_each items (\<lambda>item. handle_with True (execute (cn_executor cs) (q_task_id item)) item)"

section \<open>The consumer loop\<close>

text \<open>
  \<open>lp_waiting\<close> is a message that has been received and waits for a permit, \<open>lp_handlers\<close> are the
  running handlers (\<open>_tasks\<close>).
\<close>

record loop_state =
  lp_worker :: worker
  lp_waiting :: "queued_task option"
  lp_handlers :: "queued_task list"
  lp_running :: bool

datatype loop_event =
    Receives pystr
  | Starts pystr
  | Works pystr
  | Acks pystr
  | Nacks pystr
  | Publishes "pystr list"
  | Reclaims pystr bool
  | Stops
  | Cancelled "pystr list"

definition loop_queue :: "loop_state \<Rightarrow> memory_queue" where
  "loop_queue s = w_queue (wk_world (lp_worker s))"

definition start_loop :: "consumer \<Rightarrow> world \<Rightarrow> loop_state" where
  "start_loop cs w = \<lparr>lp_worker = \<lparr>wk_world = w, wk_permits = cn_concurrency cs\<rparr>,
     lp_waiting = None, lp_handlers = [], lp_running = True\<rparr>"

text \<open>The ids the sweep publishes.\<close>

definition swept :: "int \<Rightarrow> db \<Rightarrow> pystr list" where
  "swept now d = map t_id (find_unclaimed d SWEEP_LIMIT) @ map t_id (find_recoverable now d SWEEP_LIMIT)"

text \<open>
  \<open>redis\<close> says whether the queue is the Redis one: only then does the sweep handle reclaimed messages,
  which it does without a permit. \<open>Stops\<close> is \<open>stop()\<close>; the entry point then cancels the loop, and a
  message that waits for a permit is dropped, while the handlers are awaited.
\<close>

inductive loop_step :: "bool \<Rightarrow> loop_state \<Rightarrow> loop_event \<Rightarrow> loop_state \<Rightarrow> bool" for redis where
  receives:
    "lp_running s \<Longrightarrow> lp_waiting s = None \<Longrightarrow> in_world receive_message (lp_worker s) = (Inr (Some i), k) \<Longrightarrow>
     loop_step redis s (Receives (q_task_id i)) (s\<lparr>lp_worker := k, lp_waiting := Some i\<rparr>)"
| starts:
    "lp_waiting s = Some i \<Longrightarrow> 0 < wk_permits (lp_worker s) \<Longrightarrow> take_permit (lp_worker s) = (Inr (), k) \<Longrightarrow>
     loop_step redis s (Starts (q_task_id i))
       (s\<lparr>lp_worker := k, lp_waiting := None, lp_handlers := lp_handlers s @ [i]\<rparr>)"
| works:
    "redis \<or> tid \<in> q_task_id ` set (lp_handlers s) \<Longrightarrow> evolves tid (wk_world (lp_worker s)) w \<Longrightarrow>
     loop_step redis s (Works tid) (s\<lparr>lp_worker := (lp_worker s)\<lparr>wk_world := w\<rparr>\<rparr>)"
| acks:
    "lp_handlers s = xs @ i # ys \<Longrightarrow> stays (evolves (q_task_id i)) run \<Longrightarrow>
     handle_with redis run i (lp_worker s) = (Inr (), k) \<Longrightarrow> run (wk_world (lp_worker s)) = (Inr r, w) \<Longrightarrow>
     loop_step redis s (Acks (q_task_id i)) (s\<lparr>lp_worker := k, lp_handlers := xs @ ys\<rparr>)"
| nacks:
    "lp_handlers s = xs @ i # ys \<Longrightarrow> stays (evolves (q_task_id i)) run \<Longrightarrow>
     handle_with redis run i (lp_worker s) = (Inr (), k) \<Longrightarrow> run (wk_world (lp_worker s)) = (Inl e, w) \<Longrightarrow>
     loop_step redis s (Nacks (q_task_id i)) (s\<lparr>lp_worker := k, lp_handlers := xs @ ys\<rparr>)"
| sweeps:
    "in_world sweep (lp_worker s) = (Inr n, k) \<Longrightarrow>
     loop_step redis s (Publishes (drop (queue_depth (loop_queue s)) (q_queue (w_queue (wk_world k)))))
       (s\<lparr>lp_worker := k\<rparr>)"
| reclaims:
    "redis \<Longrightarrow> stays (evolves (q_task_id i)) run \<Longrightarrow> handle_with redis run i (lp_worker s) = (Inr (), k) \<Longrightarrow>
     loop_step redis s (Reclaims (q_task_id i) (\<not> isl (fst (run (wk_world (lp_worker s)))))) (s\<lparr>lp_worker := k\<rparr>)"
| published:
    "in_world (on_queue (queue_publish tid)) (lp_worker s) = (Inr (), k) \<Longrightarrow>
     loop_step redis s (Publishes [tid]) (s\<lparr>lp_worker := k\<rparr>)"
| stops: "loop_step redis s Stops (s\<lparr>lp_running := False\<rparr>)"
| cancelled:
    "\<not> lp_running s \<Longrightarrow>
     loop_step redis s (Cancelled (map q_task_id (case lp_waiting s of None \<Rightarrow> [] | Some i \<Rightarrow> [i])))
       (s\<lparr>lp_waiting := None\<rparr>)"

inductive loop_run :: "bool \<Rightarrow> loop_state \<Rightarrow> loop_event list \<Rightarrow> loop_state \<Rightarrow> bool" for redis where
  nothing: "loop_run redis s [] s"
| more: "loop_run redis s evs t \<Longrightarrow> loop_step redis t ev u \<Longrightarrow> loop_run redis s (evs @ [ev]) u"

inductive_cases loop_stepE: "loop_step redis s ev t"

section \<open>Handling a message\<close>

definition settle_message :: "bool \<Rightarrow> queued_task \<Rightarrow> memory_queue \<Rightarrow> memory_queue" where
  "settle_message ok i q = (if ok then queue_ack i q else queue_nack i q)"

lemma execute_keeps_queue: "w_queue (snd (execute ex tid w)) = w_queue w"
  using evo_execute [of tid ex] by (simp add: stays_def evolves_def)

text \<open>Handling never raises; it acknowledges exactly the executions that return.\<close>

lemma handle_with_result:
  "handle_with redis run i k =
     (let (r, w) = run (wk_world k)
      in (Inr (), k\<lparr>wk_world := w\<lparr>w_queue := (if isl r then nack_message redis i (w_queue w) else queue_ack i (w_queue w))\<rparr>,
           wk_permits := Suc (wk_permits k)\<rparr>))"
  by (auto simp: handle_with_def ensure_def catch_def mbind_def in_world_def on_queue_def give_permit_def
      split: prod.split sum.split)

lemma handle_result:
  "handle cs i k =
     (let (r, w) = execute (cn_executor cs) (q_task_id i) (wk_world k)
      in (Inr (), k\<lparr>wk_world := w\<lparr>w_queue := settle_message (\<not> isl r) i (w_queue w)\<rparr>, wk_permits := Suc (wk_permits k)\<rparr>))"
  by (simp add: handle_def handle_with_result settle_message_def nack_message_def split: prod.split)

lemma handle_queue:
  "w_queue (wk_world (snd (handle cs i k))) =
     settle_message (\<not> isl (fst (execute (cn_executor cs) (q_task_id i) (wk_world k)))) i (w_queue (wk_world k))"
  using execute_keeps_queue [of "cn_executor cs" "q_task_id i" "wk_world k"]
  by (simp add: handle_result split_beta)

lemma handle_permits: "wk_permits (snd (handle cs i k)) = Suc (wk_permits k)"
  by (simp add: handle_result split_beta)

lemma receive_message_apply:
  "receive_message w = (Inr (fst (queue_receive (w_queue w))), w\<lparr>w_queue := snd (queue_receive (w_queue w))\<rparr>)"
  by (simp add: receive_message_def on_queue_def mbind_def)

lemma settle_message_pending:
  "q_queue (settle_message ok i q) = q_queue q @ (if ok then [] else [q_task_id i])"
  "q_in_flight (settle_message ok i q) = q_in_flight q - {q_task_id i}"
  by (simp_all add: settle_message_def queue_ack_def queue_nack_def)

text \<open>
  C30: one turn of the worker. With a free permit a turn never raises. On an empty queue it changes
  nothing; otherwise it executes the oldest pending task on the worker's state, and afterwards the
  message is gone from the queue when the execution returned and is the last pending message when
  the execution raised; it is no longer in flight, the permit is free again, and everything else is
  as the execution left it.
\<close>

theorem run_once_handles_oldest:
  assumes "0 < wk_permits k"
  shows "case q_queue (w_queue (wk_world k)) of
      [] \<Rightarrow> run_once cs k = (Inr Idle, k)
    | tid # rest \<Rightarrow>
        (let w1 = (wk_world k)\<lparr>w_queue := snd (queue_receive (w_queue (wk_world k)))\<rparr>;
             (r, w2) = execute (cn_executor cs) tid w1
         in \<exists>q. run_once cs k = (Inr (Handled tid), k\<lparr>wk_world := w2\<lparr>w_queue := q\<rparr>\<rparr>)
              \<and> q_queue q = rest @ (if isl r then [tid] else [])
              \<and> q_in_flight q = q_in_flight (w_queue (wk_world k)) - {tid})"
proof (cases "q_queue (w_queue (wk_world k))")
  case Nil
  then show ?thesis
    by (simp add: run_once_def mbind_def in_world_def receive_message_apply queue_receive_def)
next
  case (Cons tid rest)
  let ?i = "\<lparr>q_task_id = tid, q_receipt = Some tid, q_attempt = 1\<rparr>"
  let ?q1 = "snd (queue_receive (w_queue (wk_world k)))"
  let ?w1 = "(wk_world k)\<lparr>w_queue := ?q1\<rparr>"
  obtain r w2 where x: "execute (cn_executor cs) tid ?w1 = (r, w2)" by fastforce
  have q: "w_queue w2 = ?q1" using execute_keeps_queue [of "cn_executor cs" tid ?w1] x by simp
  have recv: "fst (queue_receive (w_queue (wk_world k))) = Some ?i"
    and q1: "q_queue ?q1 = rest" "q_in_flight ?q1 = insert tid (q_in_flight (w_queue (wk_world k)))"
    using Cons by (simp_all add: queue_receive_def)
  have "run_once cs k = (Inr (Handled tid), k\<lparr>wk_world := w2\<lparr>w_queue := settle_message (\<not> isl r) ?i ?q1\<rparr>\<rparr>)"
    using assms x q recv
    by (simp add: run_once_def mbind_def in_world_def receive_message_apply take_permit_def handle_result)
  moreover have "q_queue (settle_message (\<not> isl r) ?i ?q1) = rest @ (if isl r then [tid] else [])"
    "q_in_flight (settle_message (\<not> isl r) ?i ?q1) = q_in_flight (w_queue (wk_world k)) - {tid}"
    using q1 by (simp_all add: settle_message_pending)
  ultimately show ?thesis unfolding Cons list.case Let_def x prod.case by blast
qed

theorem run_once_handles_oldest_witness:
  "\<exists>cs k k' q. run_once cs k = (Inr (Handled ''TASK-1''), k') \<and> w_queue (wk_world k') = q
     \<and> q_in_flight q = {} \<and> q_queue q \<in> {[''TASK-2''], [''TASK-2'', ''TASK-1'']}"
proof -
  let ?cs = "\<lparr>cn_executor = sample_executor, cn_concurrency = 2\<rparr>"
  let ?q = "queue_publish ''TASK-2'' (queue_publish ''TASK-1'' empty_queue)"
  let ?k = "\<lparr>wk_world = repo_world\<lparr>w_queue := ?q\<rparr>, wk_permits = 2\<rparr>"
  have "0 < wk_permits ?k" by simp
  from run_once_handles_oldest [OF this, of ?cs]
  obtain r w2 q where "run_once ?cs ?k = (Inr (Handled ''TASK-1''), ?k\<lparr>wk_world := w2\<lparr>w_queue := q\<rparr>\<rparr>)"
    "q_queue q = [''TASK-2''] @ (if isl (r :: exec_result result) then [''TASK-1''] else [])" "q_in_flight q = {}"
    by (auto simp: Let_def queue_publish_def empty_queue_def split: prod.splits)
  then show ?thesis
    by (intro exI [of _ ?cs] exI [of _ ?k] exI [of _ "?k\<lparr>wk_world := w2\<lparr>w_queue := q\<rparr>\<rparr>"]) simp
qed

section \<open>The sweep\<close>

lemma publish_all_apply:
  "publish_all n ts w = (Inr (n + length ts),
     w\<lparr>w_queue := (w_queue w)\<lparr>q_queue := q_queue (w_queue w) @ map t_id ts\<rparr>\<rparr>)"
  by (induction ts arbitrary: n w) (simp_all add: mbind_def on_queue_def queue_publish_def)

lemma sweep_apply:
  "sweep w = (let ids = swept (o_time (w_answers w) (w_tick w)) (w_db w)
     in (Inr (length ids), w\<lparr>w_tick := Suc (w_tick w),
          w_queue := (w_queue w)\<lparr>q_queue := q_queue (w_queue w) @ ids\<rparr>\<rparr>))"
  by (simp add: sweep_def swept_def mbind_def utcnow_def ask_def publish_all_apply)

lemma sweep_queue:
  "w_queue (snd (sweep w)) =
     (w_queue w)\<lparr>q_queue := q_queue (w_queue w) @ swept (o_time (w_answers w) (w_tick w)) (w_db w)\<rparr>"
  by (simp add: sweep_apply Let_def)

section \<open>Invariants of the loop\<close>

definition in_hand :: "loop_state \<Rightarrow> pystr list" where
  "in_hand s = map q_task_id (case lp_waiting s of None \<Rightarrow> [] | Some i \<Rightarrow> [i]) @ map q_task_id (lp_handlers s)"

definition loop_load :: "loop_state \<Rightarrow> pystr multiset" where
  "loop_load s = mset (q_queue (loop_queue s)) + mset (in_hand s)"

fun event_acked :: "loop_event \<Rightarrow> pystr multiset" where
  "event_acked (Acks tid) = {#tid#}"
| "event_acked (Reclaims tid ok) = (if ok then {#tid#} else {#})"
| "event_acked ev = {#}"

fun event_published :: "loop_event \<Rightarrow> pystr multiset" where
  "event_published (Publishes ids) = mset ids"
| "event_published ev = {#}"

fun event_reclaimed :: "loop_event \<Rightarrow> pystr multiset" where
  "event_reclaimed (Reclaims tid ok) = {#tid#}"
| "event_reclaimed ev = {#}"

text \<open>Messages left behind: failed ones with Redis, which stay pending in the stream, and a cancelled one.\<close>

fun event_left :: "bool \<Rightarrow> loop_event \<Rightarrow> pystr multiset" where
  "event_left redis (Nacks tid) = (if redis then {#tid#} else {#})"
| "event_left redis (Reclaims tid ok) = (if ok then {#} else {#tid#})"
| "event_left redis (Cancelled ids) = mset ids"
| "event_left redis ev = {#}"

definition over :: "(loop_event \<Rightarrow> pystr multiset) \<Rightarrow> loop_event list \<Rightarrow> pystr multiset" where
  "over f evs = sum_list (map f evs)"

lemma over_simps [simp]: "over f [] = {#}" "over f (evs @ [ev]) = over f evs + f ev"
  by (simp_all add: over_def)

definition loop_ok :: "bool \<Rightarrow> consumer \<Rightarrow> loop_event list \<Rightarrow> loop_state \<Rightarrow> bool" where
  "loop_ok redis cs evs s \<longleftrightarrow>
     wk_permits (lp_worker s) + length (lp_handlers s) = cn_concurrency cs + size (over event_reclaimed evs)
     \<and> q_in_flight (loop_queue s) \<subseteq> set (in_hand s) \<union> set_mset (over (event_left redis) evs)
     \<and> (redis \<or> over event_reclaimed evs = {#})"

lemma queue_receive_SomeD:
  "queue_receive q = (Some i, q') \<Longrightarrow>
     q_queue q = q_task_id i # q_queue q' \<and> q_in_flight q' = insert (q_task_id i) (q_in_flight q)"
  by (auto simp: queue_receive_def split: list.splits)

lemma in_world_receiveD:
  assumes "in_world receive_message k = (Inr (Some i), k')"
  shows "wk_permits k' = wk_permits k \<and> q_queue (w_queue (wk_world k)) = q_task_id i # q_queue (w_queue (wk_world k'))
    \<and> q_in_flight (w_queue (wk_world k')) = insert (q_task_id i) (q_in_flight (w_queue (wk_world k)))"
proof -
  let ?q = "w_queue (wk_world k)"
  have "queue_receive ?q = (Some i, w_queue (wk_world k'))" and "wk_permits k' = wk_permits k"
    using assms by (auto simp: in_world_def receive_message_apply intro: prod_eqI)
  with queue_receive_SomeD [OF this(1)] show ?thesis by blast
qed

lemma in_world_publishD:
  assumes "in_world (on_queue (queue_publish tid)) k = (Inr (), k')"
  shows "wk_permits k' = wk_permits k
    \<and> w_queue (wk_world k') = (w_queue (wk_world k))\<lparr>q_queue := q_queue (w_queue (wk_world k)) @ [tid]\<rparr>"
  using assms by (auto simp: in_world_def on_queue_def queue_publish_def)

lemma in_world_sweepD:
  assumes "in_world sweep k = (Inr n, k')"
  shows "\<exists>ids. wk_permits k' = wk_permits k
    \<and> w_queue (wk_world k') = (w_queue (wk_world k))\<lparr>q_queue := q_queue (w_queue (wk_world k)) @ ids\<rparr>"
  using assms by (auto simp: in_world_def sweep_apply Let_def)

lemma handleD:
  assumes "handle_with redis run i k = (Inr (), k')" and "stays (evolves (q_task_id i)) run"
    and "run (wk_world k) = (r, w)"
  shows "wk_permits k' = Suc (wk_permits k)
    \<and> q_queue (w_queue (wk_world k')) = q_queue (w_queue (wk_world k)) @ (if isl r \<and> \<not> redis then [q_task_id i] else [])
    \<and> q_in_flight (w_queue (wk_world k')) =
        (if isl r \<and> redis then q_in_flight (w_queue (wk_world k)) else q_in_flight (w_queue (wk_world k)) - {q_task_id i})"
proof -
  have "w_queue w = w_queue (wk_world k)" using stays_D [OF assms(2,3)] by (simp add: evolves_def)
  then show ?thesis
    using assms(1,3) by (auto simp: handle_with_result nack_message_def queue_ack_def queue_nack_def)
qed

text \<open>The code's handler, run to its end, is one of the steps: it is acknowledged when it returns.\<close>

lemma handle_is_step:
  assumes "lp_handlers s = xs @ i # ys" and "handle cs i (lp_worker s) = (Inr (), k)"
  shows "loop_step False s
    (if isl (fst (execute (cn_executor cs) (q_task_id i) (wk_world (lp_worker s)))) then Nacks (q_task_id i) else Acks (q_task_id i))
    (s\<lparr>lp_worker := k, lp_handlers := xs @ ys\<rparr>)"
proof -
  obtain r w where x: "execute (cn_executor cs) (q_task_id i) (wk_world (lp_worker s)) = (r, w)" by fastforce
  have h: "handle_with False (execute (cn_executor cs) (q_task_id i)) i (lp_worker s) = (Inr (), k)"
    using assms(2) by (simp add: handle_def)
  show ?thesis
    using loop_step.acks [OF assms(1) evo_execute h] loop_step.nacks [OF assms(1) evo_execute h] x
    by (cases r) auto
qed

lemmas loop_facts = in_world_receiveD in_world_publishD

lemma loop_step_load:
  "loop_step redis s ev t \<Longrightarrow>
     loop_load t + event_acked ev + event_left redis ev = loop_load s + event_published ev + event_reclaimed ev"
proof (induction rule: loop_step.induct)
  case (sweeps s n k)
  then show ?case
    using in_world_sweepD [OF sweeps] by (auto simp: loop_load_def in_hand_def loop_queue_def queue_depth_def)
next
  case (works tid s w)
  then show ?case by (simp add: loop_load_def in_hand_def loop_queue_def evolves_def)
next
  case (acks s xs i ys run k r w)
  then show ?case
    using handleD [OF acks(3,2,4)] by (simp add: loop_load_def in_hand_def loop_queue_def)
next
  case (nacks s xs i ys run k e w)
  then show ?case
    using handleD [OF nacks(3,2,4)] by (simp add: loop_load_def in_hand_def loop_queue_def)
next
  case (reclaims i run s k)
  obtain r w where "run (wk_world (lp_worker s)) = (r, w)" by fastforce
  with handleD [OF reclaims(3,2) this] reclaims(1) show ?case by (simp add: loop_load_def in_hand_def loop_queue_def)
qed (auto simp: loop_load_def in_hand_def loop_queue_def take_permit_def split: option.split dest!: loop_facts)

lemma loop_step_ok:
  "loop_step redis s ev t \<Longrightarrow> loop_ok redis cs evs s \<Longrightarrow> loop_ok redis cs (evs @ [ev]) t"
proof (induction rule: loop_step.induct)
  case (sweeps s n k)
  then show ?case
    using in_world_sweepD [OF sweeps(1)] by (auto simp: loop_ok_def in_hand_def loop_queue_def)
next
  case (works tid s w)
  then show ?case by (simp add: loop_ok_def in_hand_def loop_queue_def evolves_def)
next
  case (acks s xs i ys run k r w)
  then show ?case
    using handleD [OF acks(3,2,4)] by (auto simp: loop_ok_def in_hand_def loop_queue_def)
next
  case (nacks s xs i ys run k e w)
  then show ?case
    using handleD [OF nacks(3,2,4)] by (auto simp: loop_ok_def in_hand_def loop_queue_def split: if_splits)
next
  case (reclaims i run s k)
  obtain r w where "run (wk_world (lp_worker s)) = (r, w)" by fastforce
  with handleD [OF reclaims(3,2) this] reclaims(1,4) show ?case
    by (auto simp: loop_ok_def in_hand_def loop_queue_def split: if_splits)
next
  case (cancelled s)
  then show ?case by (auto simp: loop_ok_def in_hand_def loop_queue_def split: option.splits)
qed (auto simp: loop_ok_def in_hand_def loop_queue_def take_permit_def dest!: loop_facts)

lemma loop_run_inv:
  "loop_run redis s evs t \<Longrightarrow>
     loop_load t + over event_acked evs + over (event_left redis) evs
       = loop_load s + over event_published evs + over event_reclaimed evs
     \<and> (loop_ok redis cs [] s \<longrightarrow> loop_ok redis cs evs t)"
proof (induction rule: loop_run.induct)
  case (more s evs t ev u)
  have "loop_load u + (over event_acked evs + event_acked ev) + (over (event_left redis) evs + event_left redis ev)
      = (loop_load u + event_acked ev + event_left redis ev) + over event_acked evs + over (event_left redis) evs" by simp
  also have "\<dots> = (loop_load t + over event_acked evs + over (event_left redis) evs) + event_published ev + event_reclaimed ev"
    using loop_step_load [OF more.hyps(2)] by simp
  also have "\<dots> = (loop_load s + over event_published evs + over event_reclaimed evs) + event_published ev + event_reclaimed ev"
    using more.IH by simp
  finally show ?case
    using more.IH loop_step_ok [OF more.hyps(2), of cs evs] by (simp add: ac_simps)
qed simp



section \<open>From the durable record to a settled task\<close>

text \<open>
  C17: the sweep starts what the queue forgot. Take a worker with an empty queue and a free permit,
  and let the oldest unclaimed QUEUED task have its repository as a directory on the worker, no
  lock on it and no earlier workspace, and let the model, source control and CI providers be
  configured so that they can be built. When the worker reconciles once and takes one turn, the turn reports
  that task, and its row is then READY_FOR_REVIEW or HUMAN_REVIEW_REQUIRED. Without these conditions
  the task may fail or, when a provider cannot be built, return to the queue.
\<close>

theorem swept_task_is_settled:
  assumes "q_queue (w_queue w) = []" and "find_unclaimed (w_db w) SWEEP_LIMIT = t # ts" and "ids_unique (w_db w)"
    and "0 < p" and "w_locks w (lock_name (t_id t)) = None"
    and "fs_is_dir (w_fs w) (repository_dir ex t)"
    and "build_llm_provider (ex_load_script ex) (ex_sdk_client ex) (ex_settings ex) = Inr llm"
    and "fst (build_scm_provider (ex_settings ex) w) = Inr scm" and "build_ci_provider (ex_settings ex) = Inr ci"
    and "t_workspace_path t = None"
  shows "\<exists>k' t'. mbind (in_world sweep) (\<lambda>_. run_once \<lparr>cn_executor = ex, cn_concurrency = c\<rparr>)
      \<lparr>wk_world = w, wk_permits = p\<rparr> = (Inr (Handled (t_id t)), k')
    \<and> task_get (w_db (wk_world k')) (t_id t) = Some t' \<and> t_status t' \<in> {READY_FOR_REVIEW, HUMAN_REVIEW_REQUIRED}"
proof -
  have "t \<in> set (find_unclaimed (w_db w) SWEEP_LIMIT)" using assms(2) by simp
  then have t: "t \<in> set (db_tasks (w_db w))" "t_status t = QUEUED" "t_locked_by t = None"
    by (auto simp: find_unclaimed_def dest!: in_set_takeD)
  then have row: "task_get (w_db w) (t_id t) = Some t" using assms(3) task_get_unique by blast
  let ?w1 = "snd (sweep w)"
  obtain rest where rest: "q_queue (w_queue ?w1) = t_id t # rest"
    using assms(1,2) by (simp add: sweep_queue swept_def)
  let ?i = "\<lparr>q_task_id = t_id t, q_receipt = Some (t_id t), q_attempt = 1\<rparr>"
  let ?w2 = "?w1\<lparr>w_queue := snd (queue_receive (w_queue ?w1))\<rparr>"
  have recv: "fst (queue_receive (w_queue ?w1)) = Some ?i" using rest by (simp add: queue_receive_def)
  have frame: "w_db ?w2 = w_db w" "w_locks ?w2 = w_locks w" "w_fs ?w2 = w_fs w"
    by (simp_all add: sweep_apply Let_def)
  have nt: "\<not> is_terminal (t_status t)" using t(2) by (simp add: is_terminal_def TERMINAL_STATUSES_def)
  have "\<exists>sm st w' t'. execute ex (t_id t) ?w2 = (Inr (Finished sm st), w') \<and> st \<in> {READY_FOR_REVIEW, HUMAN_REVIEW_REQUIRED}
      \<and> task_get (w_db w') (t_id t) = Some t' \<and> t_status t' = st"
    by (rule execute_settles [where t = t]) (use row nt t(3) assms(5-10) frame build_scm_provider_fs [OF frame(3)] in simp_all)
  then obtain sm st w3 t' where x: "execute ex (t_id t) ?w2 = (Inr (Finished sm st), w3)"
    and r: "st \<in> {READY_FOR_REVIEW, HUMAN_REVIEW_REQUIRED}" "task_get (w_db w3) (t_id t) = Some t'" "t_status t' = st"
    by blast
  have "mbind (in_world sweep) (\<lambda>_. run_once \<lparr>cn_executor = ex, cn_concurrency = c\<rparr>) \<lparr>wk_world = w, wk_permits = p\<rparr> =
      run_once \<lparr>cn_executor = ex, cn_concurrency = c\<rparr> \<lparr>wk_world = ?w1, wk_permits = p\<rparr>"
    by (simp add: mbind_def in_world_def sweep_apply Let_def)
  also have "\<dots> = (Inr (Handled (t_id t)),
      \<lparr>wk_world = w3\<lparr>w_queue := settle_message True ?i (w_queue w3)\<rparr>, wk_permits = p\<rparr>)"
    using assms(4) x recv
    by (simp add: run_once_def mbind_def in_world_def receive_message_apply take_permit_def handle_result)
  finally show ?thesis using r by auto
qed

theorem swept_task_is_settled_witness:
  "\<exists>k' t'. mbind (in_world sweep) (\<lambda>_. run_once \<lparr>cn_executor = sample_executor, cn_concurrency = 2\<rparr>)
      \<lparr>wk_world = repo_world, wk_permits = 2\<rparr> = (Inr (Handled ''TASK-1''), k')
    \<and> task_get (w_db (wk_world k')) ''TASK-1'' = Some t' \<and> t_status t' \<in> {READY_FOR_REVIEW, HUMAN_REVIEW_REQUIRED}"
proof -
  have t: "t_id sample_task = ''TASK-1''" "t_status sample_task = QUEUED" "t_locked_by sample_task = None"
    "t_workspace_path sample_task = None"
    by (simp_all add: sample_task_def new_task_row_def)
  have w: "q_queue (w_queue repo_world) = []" "db_tasks (w_db repo_world) = [sample_task]"
    by (simp_all add: repo_world_def new_world_def empty_queue_def)
  have found: "find_unclaimed (w_db repo_world) SWEEP_LIMIT = [sample_task]" "ids_unique (w_db repo_world)"
    using t w(2) by (simp_all add: find_unclaimed_def SWEEP_LIMIT_def ids_unique_def)
  have s: "ex_settings sample_executor = default_settings" by (simp add: sample_executor_def)
  show ?thesis
    using swept_task_is_settled [OF w(1) found(1,2), of 2 sample_executor Scripted_Empty "Local_Git [''artifacts'']" Noop_CI 2] t
      repo_world_facts default_providers s by (metis zero_less_numeral)
qed

section \<open>Configuration errors are retried\<close>

lemma execute_misconfigured:
  assumes "task_get (w_db w) tid = Some t" and "\<not> is_terminal (t_status t)" and "t_locked_by t = None"
    and "w_locks w (lock_name tid) = None"
    and "fs_is_dir (w_fs w) (repository_dir ex t)"
    and "build_llm_provider (ex_load_script ex) (ex_sdk_client ex) (ex_settings ex) = Inl e"
  shows "fst (execute ex tid w) = Inl e"
proof -
  obtain w1 where w1: "w_db w1 = w_db w" "w_fs w1 = w_fs w"
    and ex: "execute ex tid w = (fst (execute_claimed ex tid w1), snd (release_guards ex tid (snd (execute_claimed ex tid w1))))"
    using assms(4) by (rule execute_locked)
  let ?c = "claim_task tid (ex_worker_id ex) (task_lease_seconds (ex_settings ex))"
  obtain t1 w2 where c: "?c w1 = (Inr (Some t1), w2)"
    using claim_free [of w1 tid t] assms(1-3) w1 by metis
  have "w_fs (snd (?c w1)) = w_fs w"
    using w1 by (simp add: claim_task_def utcnow_def ask_def mbind_def on_db_def)
  then have fs: "w_fs w2 = w_fs w" using c by simp
  have "execute_claimed ex tid w1 = run_workflow ex tid t w2"
    using assms(1,2) w1 c by (simp add: execute_claimed_def mbind_def [of "gets _"] mbind_apply [of ?c])
  with assms(5,6) fs ex show ?thesis
    by (simp add: run_workflow_split start_workflow_def mbind_safe safe_intros mbind_def [of "lift_result _"])
qed

text \<open>
  An execution whose model provider cannot be configured raises after the lease was taken, so the
  message goes back to the end of the queue: a configuration error, which \<open>core/errors.py\<close> says is
  never retried, is retried on every turn.
\<close>

lemma misconfigured_task_is_requeued:
  assumes "q_queue (w_queue (wk_world k)) = tid # rest" and "0 < wk_permits k"
    and "task_get (w_db (wk_world k)) tid = Some t" and "\<not> is_terminal (t_status t)" and "t_locked_by t = None"
    and "w_locks (wk_world k) (lock_name tid) = None"
    and "fs_is_dir (w_fs (wk_world k)) (repository_dir (cn_executor cs) t)"
    and "build_llm_provider (ex_load_script (cn_executor cs)) (ex_sdk_client (cn_executor cs))
      (ex_settings (cn_executor cs)) = Inl (ConfigurationError m)"
  shows "\<exists>k'. run_once cs k = (Inr (Handled tid), k') \<and> q_queue (w_queue (wk_world k')) = rest @ [tid]"
proof -
  let ?i = "\<lparr>q_task_id = tid, q_receipt = Some tid, q_attempt = 1\<rparr>"
  let ?k1 = "k\<lparr>wk_world := (wk_world k)\<lparr>w_queue := snd (queue_receive (w_queue (wk_world k)))\<rparr>, wk_permits := wk_permits k - 1\<rparr>"
  have recv: "fst (queue_receive (w_queue (wk_world k))) = Some ?i"
    and q1: "q_queue (snd (queue_receive (w_queue (wk_world k)))) = rest"
    using assms(1) by (simp_all add: queue_receive_def)
  have "run_once cs k = (Inr (Handled tid), snd (handle cs ?i ?k1))"
    using assms(2) recv
    by (simp add: run_once_def mbind_def in_world_def receive_message_apply take_permit_def handle_result split_beta)
  moreover have "fst (execute (cn_executor cs) tid (wk_world ?k1)) = Inl (ConfigurationError m)"
    by (rule execute_misconfigured) (use assms(3-8) in simp_all)
  then have "q_queue (w_queue (wk_world (snd (handle cs ?i ?k1)))) = rest @ [tid]"
    using q1 by (simp add: handle_queue settle_message_pending)
  ultimately show ?thesis by blast
qed

section \<open>Reclaimed messages inflate the semaphore\<close>

text \<open>
  The sweep handles reclaimed messages without taking a permit, and handling gives one back: every
  reclaimed message raises the number of handlers that may run at once.
\<close>

lemma reclaim_adds_permits: "wk_permits (snd (reclaim cs items k)) = wk_permits k + length items"
proof (induction items arbitrary: k)
  case (Cons i items)
  let ?h = "handle_with True (execute (cn_executor cs) (q_task_id i)) i"
  have h: "fst (?h k) = Inr ()" "wk_permits (snd (?h k)) = Suc (wk_permits k)"
    by (simp_all add: handle_with_result split_beta)
  then have "reclaim cs (i # items) k = reclaim cs items (snd (?h k))"
    by (cases "?h k") (simp add: reclaim_def mbind_def)
  with Cons h(2) show ?case by simp
qed (simp add: reclaim_def)

end
