(* ===== verification/Search.thy ===== *)
theory Search
  imports Store Regex "HOL-Library.Multiset"
begin

text \<open>
  Retrieval over indexed chunks: lexical scoring (\<open>retrieval/search/lexical.py\<close>), vector similarity
  (\<open>vector.py\<close>), reciprocal rank fusion (\<open>hybrid.py\<close>) and reranking (\<open>reranker.py\<close>). Floating-point
  numbers are real numbers: the statements are about the formulas, without rounding. The embedder
  is a parameter; a dictionary is the list of its entries in insertion order.
\<close>

section \<open>Tokens\<close>

definition TOKEN :: rx where
  "TOKEN = RSeq (RRanges [(65, 90), (97, 122), (95, 95)])
     (RPlus (RRanges [(65, 90), (97, 122), (48, 57), (95, 95)]))"

text \<open>\<open>_CAMEL.split\<close>: cut between a lower-case letter or digit and an upper-case letter.\<close>

fun camel_split :: "pystr \<Rightarrow> pystr list" where
  "camel_split [] = [[]]"
| "camel_split [c] = [[c]]"
| "camel_split (c # d # cs) =
     (case camel_split (d # cs) of
        [] \<Rightarrow> [[c]]
      | p # ps \<Rightarrow>
          if in_ranges [(97, 122), (48, 57)] c \<and> in_ranges [(65, 90)] d then [c] # p # ps
          else (c # p) # ps)"

definition token_parts :: "pystr \<Rightarrow> pystr list" where
  "token_parts raw =
     (let parts = map str_lower (filter (\<lambda>part. length part > 2) (camel_split raw)) in
      str_lower raw # (if length parts > 1 then parts else []))"

definition tokenize :: "pystr \<Rightarrow> pystr list" where
  "tokenize text = concat (map (\<lambda>(a, b). token_parts (between a b)) (re_finditer TOKEN text))"

section \<open>Lexical scoring\<close>

definition K1 :: real where
  "K1 = 3 / 2"

definition BM_B :: real where
  "BM_B = 3 / 4"

record scored_chunk =
  sc_chunk :: code_chunk
  sc_score :: real
  sc_source :: pystr

definition document_of :: "code_chunk \<Rightarrow> pystr list" where
  "document_of c = tokenize (cc_file_path c @ '' '' @ get_default [] (cc_symbol_name c) @ '' '' @ cc_content c)"

definition average_length :: "code_chunk list \<Rightarrow> real" where
  "average_length chunks =
     (if chunks = [] then 0
      else real (sum_list (map (length \<circ> document_of) chunks)) / real (length chunks))"

definition document_frequency :: "code_chunk list \<Rightarrow> pystr \<Rightarrow> nat" where
  "document_frequency chunks word = length (filter (\<lambda>c. word \<in> set (document_of c)) chunks)"

text \<open>The contribution of one query word to the score of a chunk.\<close>

definition term_score :: "code_chunk list \<Rightarrow> code_chunk \<Rightarrow> pystr \<Rightarrow> real" where
  "term_score chunks c word =
     (let occurrences = real (count_list (document_of c) word);
          appearances = real (document_frequency chunks word);
          idf = ln (1 + (real (length chunks) - appearances + 1 / 2) / (appearances + 1 / 2));
          average = average_length chunks;
          length_norm = 1 - BM_B + BM_B * (real (length (document_of c)) / (if average = 0 then 1 else average))
      in if occurrences = 0 then 0
         else idf * (occurrences * (K1 + 1)) / (occurrences + K1 * length_norm))"

definition lexical_score :: "code_chunk list \<Rightarrow> pystr list \<Rightarrow> code_chunk \<Rightarrow> real" where
  "lexical_score chunks terms c = sum_list (map (term_score chunks c) terms)"

text \<open>\<open>sort(key=score, reverse=True)\<close> keeps the order of equal scores.\<close>

definition by_score :: "scored_chunk list \<Rightarrow> scored_chunk list" where
  "by_score = sort_key (\<lambda>s. - sc_score s)"

definition lexical_search :: "code_chunk list \<Rightarrow> pystr \<Rightarrow> nat \<Rightarrow> scored_chunk list" where
  "lexical_search chunks query limit =
     (let terms = tokenize query in
      if terms = [] \<or> chunks = [] then []
      else take limit (by_score (filter (\<lambda>s. sc_score s > 0)
        (map (\<lambda>c. \<lparr>sc_chunk = c, sc_score = lexical_score chunks terms c, sc_source = ''lexical''\<rparr>) chunks))))"

section \<open>Vector similarity\<close>

definition dot :: "real list \<Rightarrow> real list \<Rightarrow> real" where
  "dot xs ys = sum_list (map2 (*) xs ys)"

definition cosine_similarity :: "real list \<Rightarrow> real list \<Rightarrow> real" where
  "cosine_similarity left right =
     (if left = [] \<or> right = [] \<or> length left \<noteq> length right then 0
      else let left_norm = sqrt (dot left left); right_norm = sqrt (dot right right) in
        if left_norm = 0 \<or> right_norm = 0 then 0 else dot left right / (left_norm * right_norm))"

type_synonym embedder = "pystr list \<Rightarrow> real list list result"

definition embed_query :: "embedder \<Rightarrow> pystr \<Rightarrow> real list result" where
  "embed_query emb text =
     (case emb [text] of
        Inl e \<Rightarrow> Inl e
      | Inr [] \<Rightarrow> Inl (OtherError ''IndexError'' ''list index out of range'')
      | Inr (v # _) \<Rightarrow> Inr v)"

definition vector_chunks :: "code_chunk list \<Rightarrow> code_chunk list" where
  "vector_chunks chunks = filter (\<lambda>c. cc_embedding c \<noteq> None \<and> cc_embedding c \<noteq> Some []) chunks"

definition vector_enabled :: "code_chunk list \<Rightarrow> bool" where
  "vector_enabled chunks \<longleftrightarrow> vector_chunks chunks \<noteq> []"

definition vector_search :: "code_chunk list \<Rightarrow> real list \<Rightarrow> nat \<Rightarrow> scored_chunk list" where
  "vector_search chunks query_embedding limit =
     take limit (by_score (filter (\<lambda>s. sc_score s > 0)
       (map (\<lambda>c. \<lparr>sc_chunk = c, sc_score = cosine_similarity query_embedding (get_default [] (cc_embedding c)),
                  sc_source = ''vector''\<rparr>) (vector_chunks chunks))))"

section \<open>Reranking\<close>

record retrieval_result =
  rr_chunk :: code_chunk
  rr_score :: real
  rr_sources :: "pystr list"

definition citation :: "retrieval_result \<Rightarrow> pystr" where
  "citation r =
     (let c = rr_chunk r in
      cc_file_path c @ '':'' @ show_nat (cc_start_line c) @ ''-'' @ show_nat (cc_end_line c) @ '' ('' @
      get_default [] (str_or (cc_symbol_name c) (Some ''block'')) @ '')'')"

definition TEST_MARKERS :: "pystr list" where
  "TEST_MARKERS = [''test'', ''spec'', ''fixture'']"

definition BEHAVIOUR_MARKERS :: "pystr list" where
  "BEHAVIOUR_MARKERS = [''service'', ''controller'', ''handler'', ''repository'', ''manager'']"

definition names_symbol :: "pystr list \<Rightarrow> code_chunk \<Rightarrow> bool" where
  "names_symbol terms c \<longleftrightarrow>
     truthy_str (cc_symbol_name c) \<and> str_lower (get_default [] (cc_symbol_name c)) \<in> set terms"

definition feature_score :: "pystr list \<Rightarrow> retrieval_result \<Rightarrow> real" where
  "feature_score terms r =
     (let c = rr_chunk r;
          p = str_lower (cc_file_path c);
          body = str_lower (cc_content c);
          overlap = length (filter (\<lambda>t. contains_sub t body) (remdups terms))
      in (if names_symbol terms c then 2 else 0)
         + (if list_ex (\<lambda>t. contains_sub t p) terms then 1 else 0)
         + (if list_ex (\<lambda>m. contains_sub m p) BEHAVIOUR_MARKERS then 1 / 2 else 0)
         - (if list_ex (\<lambda>m. contains_sub m p) TEST_MARKERS then 2 / 5 else 0)
         + (if cc_symbol_kind c \<in> {Some ''method'', Some ''function''} then 3 / 10 else 0)
         + real (min overlap 6) * (3 / 20)
         - (if int (cc_end_line c) - int (cc_start_line c) < 3 then 3 / 10 else 0))"

definition rank :: "retrieval_result list \<Rightarrow> retrieval_result list" where
  "rank = sort_key (\<lambda>r. - rr_score r)"

definition rerank :: "pystr \<Rightarrow> retrieval_result list \<Rightarrow> retrieval_result list" where
  "rerank query candidates =
     (let terms = tokenize query in
      if candidates = [] then []
      else let top = Max (set (map rr_score candidates)); highest = (if top = 0 then 1 else top) in
        rank (map (\<lambda>r. r\<lparr>rr_score := rr_score r / highest + feature_score terms r\<rparr>) candidates))"

section \<open>Fusion\<close>

definition RRF_K :: nat where
  "RRF_K = 60"

definition symbol_search :: "code_chunk list \<Rightarrow> pystr \<Rightarrow> nat \<Rightarrow> scored_chunk list" where
  "symbol_search chunks query limit =
     take limit (map (\<lambda>c. \<lparr>sc_chunk = c, sc_score = 1, sc_source = ''symbol''\<rparr>)
       (filter (names_symbol (tokenize query)) chunks))"

type_synonym fused = "(pystr \<times> code_chunk \<times> real \<times> pystr list) list"

definition contribution :: "nat \<Rightarrow> real" where
  "contribution position = 1 / real (RRF_K + position)"

definition fuse_item :: "nat \<times> scored_chunk \<Rightarrow> fused \<Rightarrow> fused" where
  "fuse_item placed fused =
     (let (position, item) = placed; key = cc_id (sc_chunk item) in
      if key \<in> fst ` set fused
      then map (\<lambda>(k, c, score, sources).
             if k = key then (k, c, score + contribution position, sources @ [sc_source item])
             else (k, c, score, sources)) fused
      else fused @ [(key, sc_chunk item, contribution position, [sc_source item])])"

definition fuse :: "scored_chunk list list \<Rightarrow> fused" where
  "fuse ranked_lists = fold (\<lambda>ranked fused. fold fuse_item (enumerate 1 ranked) fused) ranked_lists []"

definition candidates_of :: "fused \<Rightarrow> retrieval_result list" where
  "candidates_of fused = map (\<lambda>(key, c, score, sources).
     \<lparr>rr_chunk = c, rr_score = score, rr_sources = sorted_list_of_set (set sources)\<rparr>) fused"

definition ranked_lists :: "code_chunk list \<Rightarrow> embedder option \<Rightarrow> pystr \<Rightarrow> nat \<Rightarrow> scored_chunk list list result" where
  "ranked_lists chunks emb query limit =
     (let basic = [lexical_search chunks query (limit * 3), symbol_search chunks query (limit * 2)] in
      case emb of
        None \<Rightarrow> Inr basic
      | Some e \<Rightarrow>
          if \<not> vector_enabled chunks then Inr basic
          else (case embed_query e query of
                  Inl err \<Rightarrow> Inl err
                | Inr v \<Rightarrow> Inr (basic @ [vector_search chunks v (limit * 3)])))"

definition hybrid_search ::
  "code_chunk list \<Rightarrow> embedder option \<Rightarrow> pystr \<Rightarrow> nat \<Rightarrow> retrieval_result list result" where
  "hybrid_search chunks emb query limit =
     (case ranked_lists chunks emb query limit of
        Inl err \<Rightarrow> Inl err
      | Inr found \<Rightarrow>
          Inr (take limit (rerank query (take (limit * 3) (rank (candidates_of (fuse found)))))))"

section \<open>Cosine similarity\<close>

lemma dot_Cons [simp]: "dot (x # xs) (y # ys) = x * y + dot xs ys" "dot [] ys = 0"
  by (simp_all add: dot_def)

lemma dot_commute: "length xs = length ys \<Longrightarrow> dot xs ys = dot ys xs"
  by (induction xs ys rule: list_induct2) simp_all

lemma dot_self_nonneg [simp]: "0 \<le> dot xs xs"
  by (induction xs) simp_all

text \<open>The inequality of Cauchy and Schwarz, by induction on the vectors.\<close>

lemma dot_cauchy: "length xs = length ys \<Longrightarrow> (dot xs ys)\<^sup>2 \<le> dot xs xs * dot ys ys"
proof (induction xs ys rule: list_induct2)
  case (Cons x xs y ys)
  let ?a = "dot xs xs" and ?b = "dot ys ys" and ?d = "dot xs ys"
  have "(2 * ?d * (x * y))\<^sup>2 \<le> (?a * y\<^sup>2 + ?b * x\<^sup>2)\<^sup>2"
  proof -
    have "(2 * ?d * (x * y))\<^sup>2 = 4 * ?d\<^sup>2 * (x\<^sup>2 * y\<^sup>2)" by (simp add: power2_eq_square algebra_simps)
    also have "\<dots> \<le> 4 * (?a * ?b) * (x\<^sup>2 * y\<^sup>2)" using Cons.IH by (intro mult_right_mono mult_left_mono) simp_all
    also have "\<dots> \<le> (?a * y\<^sup>2 + ?b * x\<^sup>2)\<^sup>2"
      using zero_le_power2 [of "?a * y\<^sup>2 - ?b * x\<^sup>2"] by (simp add: power2_eq_square algebra_simps)
    finally show ?thesis .
  qed
  then have "2 * ?d * (x * y) \<le> ?a * y\<^sup>2 + ?b * x\<^sup>2"
    by (rule power2_le_imp_le) simp
  then show ?case using Cons.IH by (simp add: power2_eq_square algebra_simps)
qed simp

lemma cosine_bounded: "\<bar>cosine_similarity xs ys\<bar> \<le> 1"
proof (cases "length xs = length ys \<and> sqrt (dot xs xs) \<noteq> 0 \<and> sqrt (dot ys ys) \<noteq> 0")
  case True
  let ?n = "sqrt (dot xs xs) * sqrt (dot ys ys)"
  have n: "?n > 0" using True by (simp add: real_sqrt_gt_zero less_le)
  have "(dot xs ys)\<^sup>2 \<le> ?n\<^sup>2" using dot_cauchy True by (simp add: power_mult_distrib)
  then have "\<bar>dot xs ys\<bar> \<le> ?n" using n by (metis abs_le_square_iff abs_of_pos)
  then show ?thesis using n by (simp add: cosine_similarity_def Let_def abs_divide)
qed (auto simp: cosine_similarity_def Let_def)

lemma cosine_self: "dot xs xs \<noteq> 0 \<Longrightarrow> cosine_similarity xs xs = 1"
  by (cases xs) (simp_all add: cosine_similarity_def Let_def real_sqrt_mult_self)

section \<open>Lexical search\<close>

definition shares_token :: "pystr \<Rightarrow> code_chunk \<Rightarrow> bool" where
  "shares_token query c \<longleftrightarrow> set (tokenize query) \<inter> set (document_of c) \<noteq> {}"

lemma document_frequency_le: "document_frequency chunks w \<le> length chunks"
  by (simp add: document_frequency_def)

lemma average_length_nonneg: "0 \<le> average_length chunks"
  by (simp add: average_length_def sum_list_nonneg)

lemma term_score_sign:
  "0 \<le> term_score chunks c w" "0 < term_score chunks c w \<longleftrightarrow> w \<in> set (document_of c)"
proof -
  let ?o = "real (count_list (document_of c) w)" and ?a = "real (document_frequency chunks w)"
  let ?avg = "if average_length chunks = 0 then 1 else average_length chunks"
  let ?norm = "1 - BM_B + BM_B * (real (length (document_of c)) / ?avg)"
  have norm: "?norm > 0"
    using average_length_nonneg [of chunks] by (simp add: BM_B_def add_pos_nonneg)
  have "?a \<le> real (length chunks)" using document_frequency_le by simp
  then have idf: "0 < ln (1 + (real (length chunks) - ?a + 1 / 2) / (?a + 1 / 2))"
    by (intro ln_gt_zero) (simp add: field_simps)
  have pos: "0 < term_score chunks c w" if "?o \<noteq> 0"
    using that norm idf unfolding term_score_def Let_def
    by (simp add: K1_def zero_less_divide_iff add_pos_pos)
  have zero: "term_score chunks c w = 0" if "?o = 0" using that by (simp add: term_score_def Let_def)
  show "0 < term_score chunks c w \<longleftrightarrow> w \<in> set (document_of c)"
    using pos zero by (metis count_list_0_iff less_irrefl of_nat_eq_0_iff)
  show "0 \<le> term_score chunks c w"
    using pos zero by (cases "?o = 0") auto
qed

lemma lexical_score_pos_iff: "0 < lexical_score chunks (tokenize query) c \<longleftrightarrow> shares_token query c"
proof -
  have "(\<forall>w \<in> set ws. 0 \<le> term_score chunks c w) \<Longrightarrow>
      0 < sum_list (map (term_score chunks c) ws) \<longleftrightarrow> (\<exists>w \<in> set ws. 0 < term_score chunks c w)" for ws
  proof (induction ws)
    case (Cons w ws)
    have "0 \<le> sum_list (map (term_score chunks c) ws)" using Cons.prems by (intro sum_list_nonneg) auto
    with Cons show ?case by (auto simp: add_pos_nonneg less_le dest: add_nonneg_eq_0_iff)
  qed simp
  then show ?thesis
    using term_score_sign [of chunks c] by (auto simp: lexical_score_def shares_token_def)
qed

lemma by_score_props: "mset (by_score xs) = mset xs" "sorted_wrt (\<lambda>a b. sc_score b \<le> sc_score a) (by_score xs)"
proof -
  have "sorted (map (\<lambda>s. - sc_score s) (by_score xs))" by (simp add: by_score_def)
  then show "sorted_wrt (\<lambda>a b. sc_score b \<le> sc_score a) (by_score xs)"
    by (simp add: sorted_wrt_map)
qed (simp add: by_score_def)

text \<open>
  lexical search finds what shares a token with the query. Its hits are the first \<open>limit\<close> entries
  of a ranking, in order of decreasing score, of exactly the chunks whose path, symbol name or text
  has a token in common with the query: no weighting of frequencies or lengths drops such a chunk or
  lets another in.
\<close>

theorem lexical_search_exact:
  "\<exists>ranking. lexical_search chunks query limit = take limit ranking
     \<and> mset (map sc_chunk ranking) = mset (filter (shares_token query) chunks)
     \<and> sorted_wrt (\<lambda>a b. sc_score b \<le> sc_score a) ranking"
proof (cases "tokenize query = [] \<or> chunks = []")
  case True
  then have "filter (shares_token query) chunks = []" by (auto simp: shares_token_def)
  with True show ?thesis by (intro exI [of _ "[]"]) (auto simp: lexical_search_def)
next
  case False
  let ?hit = "\<lambda>c. \<lparr>sc_chunk = c, sc_score = lexical_score chunks (tokenize query) c, sc_source = ''lexical''\<rparr>"
  let ?xs = "filter (\<lambda>s. sc_score s > 0) (map ?hit chunks)"
  have "map sc_chunk ?xs = filter (shares_token query) chunks"
    by (simp add: filter_map comp_def lexical_score_pos_iff)
  then have "mset (map sc_chunk (by_score ?xs)) = mset (filter (shares_token query) chunks)"
    by (simp only: mset_map by_score_props(1)) (simp only: mset_map [symmetric])
  with False by_score_props(2) [of ?xs] show ?thesis
    by (intro exI [of _ "by_score ?xs"]) (auto simp: lexical_search_def Let_def)
qed

section \<open>Reciprocal rank fusion\<close>

text \<open>The specification: the sum of the contributions of all places at which the chunk is ranked.\<close>

definition places :: "pystr \<Rightarrow> scored_chunk list \<Rightarrow> nat list" where
  "places key ranked = map fst (filter (\<lambda>(position, item). cc_id (sc_chunk item) = key) (enumerate 1 ranked))"

definition rrf_score :: "scored_chunk list list \<Rightarrow> pystr \<Rightarrow> real" where
  "rrf_score found key = sum_list (map (sum_list \<circ> map contribution \<circ> places key) found)"

definition placed_score :: "(nat \<times> scored_chunk) list \<Rightarrow> pystr \<Rightarrow> real" where
  "placed_score ps key = sum_list (map (contribution \<circ> fst) (filter (\<lambda>(position, item). cc_id (sc_chunk item) = key) ps))"

text \<open>An entry of the fusion, with the score it should have and the items it comes from.\<close>

definition entry_ok :: "(pystr \<Rightarrow> real) \<Rightarrow> scored_chunk set \<Rightarrow> pystr \<times> code_chunk \<times> real \<times> pystr list \<Rightarrow> bool" where
  "entry_ok score items e \<longleftrightarrow> (case e of (k, c, s, src) \<Rightarrow> s = score k \<and> cc_id c = k \<and> src \<noteq> []
     \<and> c \<in> sc_chunk ` items \<and> set src = sc_source ` {i \<in> items. cc_id (sc_chunk i) = k})"

definition fused_ok :: "(pystr \<Rightarrow> real) \<Rightarrow> scored_chunk set \<Rightarrow> fused \<Rightarrow> bool" where
  "fused_ok score items fused \<longleftrightarrow> distinct (map fst fused) \<and> fst ` set fused = (cc_id \<circ> sc_chunk) ` items
     \<and> (\<forall>k. k \<notin> fst ` set fused \<longrightarrow> score k = 0) \<and> (\<forall>e \<in> set fused. entry_ok score items e)"

lemma placed_score_single:
  "placed_score [(position, item)] k = (if cc_id (sc_chunk item) = k then contribution position else 0)"
  by (simp add: placed_score_def)

lemma fuse_item_ok:
  assumes "fused_ok score items fused"
  shows "fused_ok (\<lambda>k. score k + placed_score [(position, item)] k) (insert item items) (fuse_item (position, item) fused)"
proof (cases "cc_id (sc_chunk item) \<in> fst ` set fused")
  case True
  let ?f = "\<lambda>(k, c, s, src). if k = cc_id (sc_chunk item) then (k, c, s + contribution position, src @ [sc_source item]) else (k, c, s, src)"
  have f: "fuse_item (position, item) fused = map ?f fused" using True by (simp add: fuse_item_def Let_def)
  have fst: "map fst (map ?f fused) = map fst fused"
    unfolding map_map comp_def by (rule map_cong [OF refl]) (auto split: prod.splits)
  have keys: "fst ` set (map ?f fused) = fst ` set fused" using arg_cong [OF fst, of set] by (simp only: list.set_map)
  have "entry_ok (\<lambda>k. score k + placed_score [(position, item)] k) (insert item items) (?f e)" if "e \<in> set fused" for e
  proof -
    have "entry_ok score items e" using assms that by (simp add: fused_ok_def)
    then show ?thesis by (cases e) (auto simp: entry_ok_def placed_score_single)
  qed
  moreover have "distinct (map fst (map ?f fused))" unfolding fst using assms by (simp add: fused_ok_def)
  moreover have "fst ` set (map ?f fused) = (cc_id \<circ> sc_chunk) ` insert item items"
    unfolding keys using assms True by (auto simp: fused_ok_def)
  moreover have "\<forall>k. k \<notin> fst ` set (map ?f fused) \<longrightarrow> score k + placed_score [(position, item)] k = 0"
    unfolding keys using assms True by (auto simp: placed_score_single fused_ok_def)
  ultimately show ?thesis unfolding f fused_ok_def by auto
next
  case False
  let ?e = "(cc_id (sc_chunk item), sc_chunk item, contribution position, [sc_source item])"
  have f: "fuse_item (position, item) fused = fused @ [?e]" using False by (simp add: fuse_item_def Let_def)
  have "entry_ok (\<lambda>k. score k + placed_score [(position, item)] k) (insert item items) e" if "e \<in> set fused" for e
  proof -
    have "entry_ok score items e" using assms that by (simp add: fused_ok_def)
    moreover have "fst e \<noteq> cc_id (sc_chunk item)" using that False by force
    ultimately show ?thesis by (cases e) (auto simp: entry_ok_def placed_score_single)
  qed
  moreover have "entry_ok (\<lambda>k. score k + placed_score [(position, item)] k) (insert item items) ?e"
  proof -
    have "cc_id (sc_chunk item) \<notin> (cc_id \<circ> sc_chunk) ` items" using assms False by (simp add: fused_ok_def)
    then have "i \<in> items \<Longrightarrow> cc_id (sc_chunk i) \<noteq> cc_id (sc_chunk item)" for i by (metis comp_apply imageI)
    then have "{i \<in> insert item items. cc_id (sc_chunk i) = cc_id (sc_chunk item)} = {item}" by auto
    then show ?thesis using assms False by (simp add: entry_ok_def placed_score_single fused_ok_def)
  qed
  ultimately show ?thesis
    using assms False unfolding f fused_ok_def by (auto simp: placed_score_single)
qed

lemma placed_score_Cons: "placed_score (p # ps) k = placed_score [p] k + placed_score ps k"
  by (simp add: placed_score_def split: prod.split)

lemma fuse_items_ok:
  "fused_ok score items fused \<Longrightarrow>
     fused_ok (\<lambda>k. score k + placed_score ps k) (snd ` set ps \<union> items) (fold fuse_item ps fused)"
proof (induction ps arbitrary: score items fused)
  case (Cons p ps)
  obtain position item where p: "p = (position, item)" by fastforce
  have "fused_ok (\<lambda>k. score k + placed_score [p] k) (insert item items) (fuse_item p fused)"
    using fuse_item_ok [OF Cons.prems] p by simp
  from Cons.IH [OF this] p show ?case
    by (simp add: add.assoc placed_score_Cons [of p ps] flip: placed_score_Cons)
qed (simp add: placed_score_def)

lemma rrf_score_Cons: "rrf_score (l # found) k = placed_score (enumerate 1 l) k + rrf_score found k"
  by (simp add: rrf_score_def placed_score_def places_def)

lemma fuse_lists_ok:
  "fused_ok score items fused \<Longrightarrow>
     fused_ok (\<lambda>k. score k + rrf_score found k) (\<Union> (set ` set found) \<union> items)
       (fold (\<lambda>ranked fused. fold fuse_item (enumerate 1 ranked) fused) found fused)"
proof (induction found arbitrary: score items fused)
  case (Cons l found)
  have items: "snd ` set (enumerate 1 l) = set l" by (metis list.set_map map_snd_enumerate)
  have "fused_ok (\<lambda>k. score k + placed_score (enumerate 1 l) k) (set l \<union> items) (fold fuse_item (enumerate 1 l) fused)"
    using fuse_items_ok [OF Cons.prems, of "enumerate 1 l"] items by simp
  from Cons.IH [OF this] show ?case by (simp add: rrf_score_Cons add.assoc Un_assoc Un_left_commute)
qed (simp add: rrf_score_def)

lemma fuse_ok: "fused_ok (rrf_score found) (\<Union> (set ` set found)) (fuse found)"
  using fuse_lists_ok [of "\<lambda>_. 0" "{}" "[]" found] by (simp add: fuse_def fused_ok_def)

text \<open>
  fusion is reciprocal rank fusion. For any ranked lists, the fused table has one entry per chunk
  id that occurs in them and no other, and the score of each
  entry is the sum of \<open>1 / (RRF_K + position)\<close> over all its positions in all lists.
\<close>

theorem fusion_is_rrf:
  "distinct (map fst (fuse found)) \<and> set (map fst (fuse found)) = (\<Union>l \<in> set found. (cc_id \<circ> sc_chunk) ` set l)
   \<and> map (\<lambda>(k, c, s, src). s) (fuse found) = map (rrf_score found) (map fst (fuse found))
   \<and> map (\<lambda>(k, c, s, src). cc_id c) (fuse found) = map fst (fuse found)"
proof -
  have ok: "fused_ok (rrf_score found) (\<Union> (set ` set found)) (fuse found)" by (rule fuse_ok)
  have "(case e of (k, c, s, src) \<Rightarrow> s) = rrf_score found (fst e) \<and> (case e of (k, c, s, src) \<Rightarrow> cc_id c) = fst e"
    if "e \<in> set (fuse found)" for e
    using ok that by (auto simp: fused_ok_def entry_ok_def split: prod.splits)
  then have "map (\<lambda>(k, c, s, src). s) (fuse found) = map (rrf_score found) (map fst (fuse found))"
    "map (\<lambda>(k, c, s, src). cc_id c) (fuse found) = map fst (fuse found)"
    unfolding map_map comp_def by (auto intro!: map_cong)
  moreover have "set (map fst (fuse found)) = (\<Union>l \<in> set found. (cc_id \<circ> sc_chunk) ` set l)"
    using ok by (auto simp: fused_ok_def)
  ultimately show ?thesis using ok by (simp add: fused_ok_def)
qed

section \<open>Hybrid search\<close>

lemma rank_props: "mset (rank xs) = mset xs" "sorted_wrt (\<lambda>a b. rr_score b \<le> rr_score a) (rank xs)"
proof -
  have "sorted (map (\<lambda>r. - rr_score r) (rank xs))" by (simp add: rank_def)
  then show "sorted_wrt (\<lambda>a b. rr_score b \<le> rr_score a) (rank xs)" by (simp add: sorted_wrt_map)
qed (simp add: rank_def)

lemma rank_map_mset: "mset (map f (rank xs)) = mset (map f xs)"
  by (simp only: mset_map rank_props(1))

lemma rerank_chunks: "mset (map (\<lambda>r. (rr_chunk r, rr_sources r)) (rerank query cs)) = mset (map (\<lambda>r. (rr_chunk r, rr_sources r)) cs)"
proof (cases "cs = []")
  case False
  let ?g = "\<lambda>r. (rr_chunk r, rr_sources r)"
  obtain h where "rerank query cs = rank (map (\<lambda>r. r\<lparr>rr_score := h r\<rparr>) cs)"
    using False by (simp add: rerank_def Let_def)
  then have "mset (map ?g (rerank query cs)) = mset (map ?g (map (\<lambda>r. r\<lparr>rr_score := h r\<rparr>) cs))"
    by (simp only: rank_map_mset)
  also have "map ?g (map (\<lambda>r. r\<lparr>rr_score := h r\<rparr>) cs) = map ?g cs" by simp
  finally show ?thesis .
qed (simp add: rerank_def)

lemma rerank_sorted: "sorted_wrt (\<lambda>a b. rr_score b \<le> rr_score a) (rerank query cs)"
  using rank_props(2) by (auto simp: rerank_def Let_def)

text \<open>The ids a ranked list names; which search finds an id; and what that means of a chunk with the id.\<close>

definition hit_ids :: "scored_chunk list \<Rightarrow> pystr set" where
  "hit_ids ranked = (cc_id \<circ> sc_chunk) ` set ranked"

definition found_by :: "code_chunk list \<Rightarrow> embedder option \<Rightarrow> pystr \<Rightarrow> nat \<Rightarrow> pystr \<Rightarrow> pystr \<Rightarrow> bool" where
  "found_by chunks emb query limit source i \<longleftrightarrow>
     source = ''lexical'' \<and> i \<in> hit_ids (lexical_search chunks query (limit * 3))
     \<or> source = ''symbol'' \<and> i \<in> hit_ids (symbol_search chunks query (limit * 2))
     \<or> source = ''vector'' \<and> (\<exists>e v. emb = Some e \<and> embed_query e query = Inr v
         \<and> i \<in> hit_ids (vector_search chunks v (limit * 3)))"

definition ground_of :: "embedder option \<Rightarrow> pystr \<Rightarrow> pystr \<Rightarrow> code_chunk \<Rightarrow> bool" where
  "ground_of emb query source c \<longleftrightarrow>
     source = ''lexical'' \<and> shares_token query c
     \<or> source = ''symbol'' \<and> names_symbol (tokenize query) c
     \<or> source = ''vector'' \<and> (\<exists>e v. emb = Some e \<and> embed_query e query = Inr v
         \<and> 0 < cosine_similarity v (get_default [] (cc_embedding c)))"

text \<open>
  A result explained: an indexed chunk, with exactly the sources that found its id, and for each of
  them a chunk with that id which the source matched.
\<close>

definition explained :: "code_chunk list \<Rightarrow> embedder option \<Rightarrow> pystr \<Rightarrow> nat \<Rightarrow> retrieval_result \<Rightarrow> bool" where
  "explained chunks emb query limit r \<longleftrightarrow> rr_chunk r \<in> set chunks \<and> rr_sources r \<noteq> []
     \<and> set (rr_sources r) = {source. found_by chunks emb query limit source (cc_id (rr_chunk r))}
     \<and> list_all (\<lambda>source. \<exists>c \<in> set chunks. cc_id c = cc_id (rr_chunk r) \<and> ground_of emb query source c) (rr_sources r)"

lemma by_score_set: "set (by_score xs) = set xs"
  by (simp add: by_score_def)

lemma lexical_item:
  assumes "i \<in> set (lexical_search chunks query n)"
  shows "sc_chunk i \<in> set chunks \<and> sc_source i = ''lexical'' \<and> shares_token query (sc_chunk i)"
  using assms lexical_score_pos_iff
  by (auto simp: lexical_search_def Let_def by_score_set dest!: in_set_takeD split: if_splits)

lemma symbol_item:
  assumes "i \<in> set (symbol_search chunks query n)"
  shows "sc_chunk i \<in> set chunks \<and> sc_source i = ''symbol'' \<and> names_symbol (tokenize query) (sc_chunk i)"
  using assms by (auto simp: symbol_search_def dest!: in_set_takeD)

lemma vector_item:
  assumes "i \<in> set (vector_search chunks v n)"
  shows "sc_chunk i \<in> set chunks \<and> sc_source i = ''vector''
    \<and> 0 < cosine_similarity v (get_default [] (cc_embedding (sc_chunk i)))"
  using assms by (auto simp: vector_search_def vector_chunks_def by_score_set dest!: in_set_takeD)

text \<open>The vector list of a query; without embeddings or an embedder it is empty.\<close>

definition vector_hits :: "code_chunk list \<Rightarrow> embedder option \<Rightarrow> pystr \<Rightarrow> nat \<Rightarrow> scored_chunk list" where
  "vector_hits chunks emb query limit =
     (case emb of None \<Rightarrow> []
      | Some e \<Rightarrow> (case embed_query e query of Inl _ \<Rightarrow> [] | Inr v \<Rightarrow> vector_search chunks v (limit * 3)))"

lemma ranked_lists_items:
  assumes "ranked_lists chunks emb query limit = Inr found"
  shows "\<Union> (set ` set found) = set (lexical_search chunks query (limit * 3))
    \<union> set (symbol_search chunks query (limit * 2)) \<union> set (vector_hits chunks emb query limit)"
proof -
  have "vector_search chunks v n = []" if "\<not> vector_enabled chunks" for v n
    using that by (simp add: vector_search_def vector_enabled_def by_score_def)
  then show ?thesis
    using assms by (auto simp: ranked_lists_def vector_hits_def Let_def split: option.splits if_splits sum.splits)
qed

lemma source_found_by:
  fixes chunks emb query limit
  defines "items \<equiv> set (lexical_search chunks query (limit * 3)) \<union> set (symbol_search chunks query (limit * 2))
    \<union> set (vector_hits chunks emb query limit)"
  shows "sc_source ` {i \<in> items. cc_id (sc_chunk i) = k} = {source. found_by chunks emb query limit source k}"
    and "i \<in> items \<Longrightarrow> sc_chunk i \<in> set chunks \<and> ground_of emb query (sc_source i) (sc_chunk i)"
proof -
  have vec: "i \<in> set (vector_hits chunks emb query limit) \<longleftrightarrow>
      (\<exists>e v. emb = Some e \<and> embed_query e query = Inr v \<and> i \<in> set (vector_search chunks v (limit * 3)))" for i
    by (cases emb; cases "embed_query (the emb) query") (auto simp: vector_hits_def)
  show "i \<in> items \<Longrightarrow> sc_chunk i \<in> set chunks \<and> ground_of emb query (sc_source i) (sc_chunk i)"
    using lexical_item [of i chunks query] symbol_item [of i chunks query] vector_item [of i chunks]
    unfolding items_def ground_of_def Un_iff vec by blast
  have lex: "sc_source ` {i \<in> set (lexical_search chunks query (limit * 3)). cc_id (sc_chunk i) = k}
      = {source. source = ''lexical'' \<and> k \<in> hit_ids (lexical_search chunks query (limit * 3))}"
    using lexical_item by (force simp: hit_ids_def)
  have sym: "sc_source ` {i \<in> set (symbol_search chunks query (limit * 2)). cc_id (sc_chunk i) = k}
      = {source. source = ''symbol'' \<and> k \<in> hit_ids (symbol_search chunks query (limit * 2))}"
    using symbol_item by (force simp: hit_ids_def)
  have "sc_source ` {i \<in> set (vector_hits chunks emb query limit). cc_id (sc_chunk i) = k}
      = {source. source = ''vector'' \<and> (\<exists>e v. emb = Some e \<and> embed_query e query = Inr v
          \<and> k \<in> hit_ids (vector_search chunks v (limit * 3)))}"
    using vector_item unfolding vec hit_ids_def by force
  moreover have "{i \<in> items. cc_id (sc_chunk i) = k} = {i \<in> set (lexical_search chunks query (limit * 3)). cc_id (sc_chunk i) = k}
      \<union> {i \<in> set (symbol_search chunks query (limit * 2)). cc_id (sc_chunk i) = k}
      \<union> {i \<in> set (vector_hits chunks emb query limit). cc_id (sc_chunk i) = k}"
    unfolding items_def by blast
  ultimately show "sc_source ` {i \<in> items. cc_id (sc_chunk i) = k} = {source. found_by chunks emb query limit source k}"
    using lex sym unfolding found_by_def by (simp only: image_Un) blast
qed

lemma candidates_explained:
  assumes "ranked_lists chunks emb query limit = Inr found" and "r \<in> set (candidates_of (fuse found))"
  shows "explained chunks emb query limit r"
proof -
  obtain k c s src where e: "(k, c, s, src) \<in> set (fuse found)"
    and r: "r = \<lparr>rr_chunk = c, rr_score = s, rr_sources = sorted_list_of_set (set src)\<rparr>"
    using assms(2) by (auto simp: candidates_of_def)
  let ?items = "\<Union> (set ` set found)"
  have ok: "cc_id c = k" "src \<noteq> []" "c \<in> sc_chunk ` ?items" "set src = sc_source ` {i \<in> ?items. cc_id (sc_chunk i) = k}"
    using fuse_ok [of found, unfolded fused_ok_def] e unfolding entry_ok_def by fast+
  note items = source_found_by [where chunks = chunks and query = query and limit = limit and emb = emb, folded ranked_lists_items [OF assms(1)]]
  have reasons: "\<exists>c' \<in> set chunks. cc_id c' = k \<and> ground_of emb query source c'" if "source \<in> set src" for source
    using that items(2) unfolding ok(4) by blast
  have srcs: "set (rr_sources r) = set src" "rr_sources r \<noteq> []" using ok(2) by (simp_all add: r sorted_list_of_set_eq_Nil_iff)
  have "c \<in> set chunks" using ok(3) items(2) by blast
  moreover have "set src = {source. found_by chunks emb query limit source k}" unfolding ok(4) by (rule items(1))
  ultimately show ?thesis
    unfolding explained_def list_all_iff srcs(1) using srcs(2) reasons ok(1) by (simp add: r)
qed

lemma candidates_distinct: "distinct (map (cc_id \<circ> rr_chunk) (candidates_of (fuse found)))"
proof -
  have "map (cc_id \<circ> rr_chunk) (candidates_of (fuse found)) = map (\<lambda>(k, c, s, src). cc_id c) (fuse found)"
    by (simp add: candidates_of_def comp_def split_beta)
  also have "\<dots> = map fst (fuse found)"
    using fuse_ok [of found] by (auto simp: fused_ok_def entry_ok_def intro!: map_cong)
  finally show ?thesis using fuse_ok [of found] by (simp add: fused_ok_def)
qed

lemma candidates_count: "length (candidates_of (fuse found)) = card (\<Union> (hit_ids ` set found))"
proof -
  have "fst ` set (fuse found) = \<Union> (hit_ids ` set found)" "distinct (map fst (fuse found))"
    using fuse_ok [of found] by (auto simp: fused_ok_def hit_ids_def)
  then show ?thesis using distinct_card [of "map fst (fuse found)"] by (simp add: candidates_of_def)
qed

lemma rerank_length: "length (rerank query cs) = length cs"
  using arg_cong [OF rerank_chunks, of size query cs] by simp

text \<open>
  C38: hybrid search returns what its sources found, ranked. Whatever the chunks, the embedder and
  the query, a search fails with the embedder's error, or returns as many results as there are ids
  in the lists of the sources, up to \<open>limit\<close>, in order of decreasing score and no id twice. Each is an
  indexed chunk, labelled with exactly the sources whose list names its id: \<open>lexical\<close> for a token shared
  with the query, \<open>symbol\<close> for a symbol the query names, \<open>vector\<close> for a similar embedding.
\<close>

theorem hybrid_search_sound:
  "case ranked_lists chunks emb query limit of
     Inl err \<Rightarrow> hybrid_search chunks emb query limit = Inl err
       \<and> (case emb of None \<Rightarrow> False | Some e \<Rightarrow> embed_query e query = Inl err)
   | Inr found \<Rightarrow> \<exists>results. hybrid_search chunks emb query limit = Inr results
       \<and> length results = min limit (card (\<Union> (hit_ids ` set found)))
       \<and> \<Union> (hit_ids ` set found) = {i. \<exists>source. found_by chunks emb query limit source i}
       \<and> distinct (map (cc_id \<circ> rr_chunk) results)
       \<and> sorted_wrt (\<lambda>a b. rr_score b \<le> rr_score a) results
       \<and> list_all (explained chunks emb query limit) results"
proof (cases "ranked_lists chunks emb query limit")
  case (Inl err)
  then show ?thesis
    by (auto simp: hybrid_search_def ranked_lists_def Let_def split: option.splits if_splits sum.splits)
next
  case (Inr found)
  let ?c = "take (limit * 3) (rank (candidates_of (fuse found)))"
  let ?g = "\<lambda>r. (rr_chunk r, rr_sources r)"
  have res: "hybrid_search chunks emb query limit = Inr (take limit (rerank query ?c))"
    using Inr by (simp add: hybrid_search_def)
  have "length (rank xs) = length xs" for xs by (simp add: rank_def)
  then have len: "length (take limit (rerank query ?c)) = min limit (card (\<Union> (hit_ids ` set found)))"
    by (simp add: rerank_length candidates_count)
  have ids: "\<Union> (hit_ids ` set found) = {i. \<exists>source. found_by chunks emb query limit source i}"
  proof (intro set_eqI iffI)
    note src = source_found_by(1) [where chunks = chunks and query = query and limit = limit and emb = emb, folded ranked_lists_items [OF Inr]]
    show "k \<in> {i. \<exists>source. found_by chunks emb query limit source i}" if "k \<in> \<Union> (hit_ids ` set found)" for k
    proof -
      from that obtain i where "i \<in> \<Union> (set ` set found)" "cc_id (sc_chunk i) = k" by (auto simp: hit_ids_def)
      then have "sc_source i \<in> {source. found_by chunks emb query limit source k}" unfolding src [symmetric] by blast
      then show ?thesis by blast
    qed
    show "k \<in> \<Union> (hit_ids ` set found)" if "k \<in> {i. \<exists>source. found_by chunks emb query limit source i}" for k
    proof -
      from that obtain source where "source \<in> {source. found_by chunks emb query limit source k}" by blast
      then show ?thesis unfolding src [symmetric] hit_ids_def by auto
    qed
  qed
  have pairs: "mset (map ?g (rerank query ?c)) = mset (map ?g ?c)" by (rule rerank_chunks)
  have "mset (map (cc_id \<circ> rr_chunk) (rank (candidates_of (fuse found)))) = mset (map (cc_id \<circ> rr_chunk) (candidates_of (fuse found)))"
    by (rule rank_map_mset)
  then have "distinct (map (cc_id \<circ> rr_chunk) (rank (candidates_of (fuse found))))"
    using candidates_distinct by (metis mset_eq_imp_distinct_iff)
  then have "distinct (map (cc_id \<circ> rr_chunk) ?c)" by (simp flip: take_map)
  moreover have "mset (map (cc_id \<circ> rr_chunk) (rerank query ?c)) = mset (map (cc_id \<circ> rr_chunk) ?c)"
  proof -
    have ids: "mset (map (cc_id \<circ> rr_chunk) xs) = image_mset (cc_id \<circ> fst) (mset (map ?g xs))" for xs
      by (induction xs) simp_all
    show ?thesis unfolding ids pairs ..
  qed
  ultimately have "distinct (map (cc_id \<circ> rr_chunk) (rerank query ?c))" by (metis mset_eq_imp_distinct_iff)
  then have dis: "distinct (map (cc_id \<circ> rr_chunk) (take limit (rerank query ?c)))" by (simp flip: take_map)
  have "explained chunks emb query limit r" if "r \<in> set (rerank query ?c)" for r
  proof -
    have "?g r \<in> set (map ?g (rerank query ?c))" using that by simp
    then have "?g r \<in> set (map ?g ?c)" unfolding mset_eq_setD [OF pairs] .
    then obtain r' where "r' \<in> set ?c" "?g r = ?g r'" by auto
    then have "r' \<in> set (rank (candidates_of (fuse found)))" by (blast dest: in_set_takeD)
    then have "r' \<in> set (candidates_of (fuse found))" unfolding mset_eq_setD [OF rank_props(1)] .
    with candidates_explained [OF Inr] \<open>?g r = ?g r'\<close> show ?thesis by (simp add: explained_def)
  qed
  then have "list_all (explained chunks emb query limit) (take limit (rerank query ?c))"
    by (auto simp: list_all_iff dest: in_set_takeD)
  with res len ids dis rerank_sorted show ?thesis unfolding Inr sum.case
    by (intro exI [of _ "take limit (rerank query ?c)"]) (simp add: sorted_wrt_take)
qed

end
