(* ===== verification/Task_Service.thy ===== *)
theory Task_Service
  imports Supervisor
begin

text \<open>
  The task service (\<open>apps/api/services.py\<close>): creating tasks, reading them, and the decisions of a
  person. A service object belongs to one request; its session is the request's transaction
  (\<open>get_session\<close>), which is rolled back when the request raises. The live events and the queue are
  outside the transaction.
\<close>

definition new_task_id :: "pystr io" where
  "new_task_id = new_id ''TASK''"

text \<open>\<open>commit\<close> on success, \<open>rollback\<close> on an exception.\<close>

definition in_transaction :: "'a io \<Rightarrow> 'a io" where
  "in_transaction m w =
     (case m w of (Inr v, w') \<Rightarrow> (Inr v, w') | (Inl e, w') \<Rightarrow> (Inl e, w'\<lparr>w_db := w_db w\<rparr>))"

definition json_opt :: "pystr option \<Rightarrow> json" where
  "json_opt x = (case x of None \<Rightarrow> JNull | Some s \<Rightarrow> JStr s)"

definition publish_task_event :: "pystr \<Rightarrow> event_type \<Rightarrow> dict \<Rightarrow> unit io" where
  "publish_task_event tid typ payload =
     mbind (append_event tid typ payload) (\<lambda>sequence. publish_event tid typ payload sequence)"

section \<open>Creation\<close>

text \<open>The task an idempotency key stands for, or the error of using it for another request.\<close>

definition replay_key :: "pystr \<Rightarrow> pystr \<Rightarrow> pystr option \<Rightarrow> task_row option io" where
  "replay_key url issue key =
     (if truthy_str key
      then mbind (gets (\<lambda>w. find_by_idempotency_key (w_db w) (get_default [] key))) (\<lambda>existing.
        case existing of
          None \<Rightarrow> ret None
        | Some r \<Rightarrow>
            if ik_request_fingerprint r \<noteq> fingerprint url issue
            then raise (InvalidTaskTransitionError ''Idempotency-Key was already used for a different request'')
            else gets (\<lambda>w. task_get (w_db w) (ik_task_id r)))
      else ret None)"

definition insert_task ::
  "pystr \<Rightarrow> pystr option \<Rightarrow> pystr \<Rightarrow> pystr option \<Rightarrow> pystr option \<Rightarrow> task_row io" where
  "insert_task url path issue created_by key =
     mbind new_task_id (\<lambda>tid. mbind utcnow (\<lambda>now. mbind utcnow (\<lambda>now'.
     mbind (gets (\<lambda>w. task_create tid now now' url path issue created_by key (w_db w))) (\<lambda>created.
     mbind (lift_result created) (\<lambda>(task, d). mbind (on_db (\<lambda>_. d)) (\<lambda>_. ret task))))))"

definition create_task ::
  "pystr \<Rightarrow> pystr option \<Rightarrow> pystr \<Rightarrow> pystr option \<Rightarrow> pystr option \<Rightarrow> (task_row \<times> bool) io" where
  "create_task url path issue created_by key =
     mbind (replay_key url issue key) (\<lambda>replayed.
     case replayed of
       Some task \<Rightarrow> ret (task, False)
     | None \<Rightarrow>
         mbind (insert_task url path issue created_by key) (\<lambda>task.
         mbind (publish_task_event (t_id task) Ev_TASK_CREATED [(''repository'', JStr url)]) (\<lambda>_.
         ret (task, True))))"

definition enqueue :: "pystr \<Rightarrow> unit io" where
  "enqueue tid = modify (\<lambda>w. w\<lparr>w_queue := queue_publish tid (w_queue w)\<rparr>)"

section \<open>Reads\<close>

definition service_get :: "pystr \<Rightarrow> task_row io" where
  "service_get tid =
     mbind (gets (\<lambda>w. task_get (w_db w) tid)) (\<lambda>task.
     case task of None \<Rightarrow> raise (TaskNotFoundError tid) | Some t \<Rightarrow> ret t)"

definition service_list :: "nat \<Rightarrow> pystr option \<Rightarrow> task_row list io" where
  "service_list limit status = gets (\<lambda>w. task_list (w_db w) limit status)"

record task_detail =
  td_task :: task_row
  td_events :: "task_event list"
  td_runs :: "agent_run list"
  td_tool_calls :: "tool_call list"
  td_file_changes :: "file_change list"
  td_ci_runs :: "ci_run list"
  td_approvals :: "approval list"

definition detail :: "pystr \<Rightarrow> task_detail io" where
  "detail tid =
     mbind (service_get tid) (\<lambda>task.
     gets (\<lambda>w. let d = w_db w in \<lparr>td_task = task, td_events = event_list d tid 0,
       td_runs = agent_run_list d tid, td_tool_calls = tool_call_list d tid,
       td_file_changes = file_change_list d tid, td_ci_runs = ci_run_list d tid,
       td_approvals = approval_list d tid\<rparr>))"

definition events_since :: "pystr \<Rightarrow> int \<Rightarrow> task_event list io" where
  "events_since tid after_sequence =
     mbind (service_get tid) (\<lambda>_. gets (\<lambda>w. event_list (w_db w) tid after_sequence))"

definition task_diff :: "pystr \<Rightarrow> pystr io" where
  "task_diff tid = mbind (service_get tid) (\<lambda>task. ret (get_default [] (st_git_diff (t_state task))))"

section \<open>Decisions\<close>

definition refuse_transition :: "pystr \<Rightarrow> pystr \<Rightarrow> 'a io" where
  "refuse_transition tid what = raise (InvalidTaskTransitionError (''task '' @ tid @ '' is '' @ what))"

definition decide_pending :: "pystr \<Rightarrow> pystr \<Rightarrow> pystr option \<Rightarrow> pystr option \<Rightarrow> unit io" where
  "decide_pending tid status decided_by reason =
     mbind (gets (\<lambda>w. pending_for (w_db w) tid)) (\<lambda>pending.
     case pending of
       None \<Rightarrow> ret ()
     | Some a \<Rightarrow> mbind utcnow (\<lambda>now. on_db (approval_decide now (ap_id a) status decided_by reason)))"

definition approve :: "pystr \<Rightarrow> pystr option \<Rightarrow> pystr option \<Rightarrow> task_row io" where
  "approve tid decided_by reason =
     mbind (service_get tid) (\<lambda>task.
     if t_status task \<noteq> READY_FOR_REVIEW
     then refuse_transition tid (status_value (t_status task) @ '', not READY_FOR_REVIEW'')
     else mbind (decide_pending tid ''APPROVED'' decided_by reason) (\<lambda>_.
       mbind (do_set_status tid HUMAN_APPROVED None None) (\<lambda>_.
       mbind (publish_task_event tid Ev_APPROVAL_GRANTED [(''decided_by'', json_opt decided_by)]) (\<lambda>_.
       mbind (do_set_status tid COMPLETED None None) (\<lambda>_.
       mbind (publish_task_event tid Ev_TASK_COMPLETED [(''decided_by'', json_opt decided_by)]) (\<lambda>_.
       service_get tid))))))"

definition reject :: "pystr \<Rightarrow> pystr option \<Rightarrow> pystr option \<Rightarrow> task_row io" where
  "reject tid decided_by reason =
     mbind (service_get tid) (\<lambda>task.
     if is_terminal (t_status task) \<and> t_status task \<noteq> HUMAN_REVIEW_REQUIRED
     then refuse_transition tid (''already '' @ status_value (t_status task))
     else mbind (decide_pending tid ''REJECTED'' decided_by reason) (\<lambda>_.
       mbind (do_set_status tid REJECTED None reason) (\<lambda>_.
       mbind (publish_task_event tid Ev_APPROVAL_REJECTED
         [(''decided_by'', json_opt decided_by), (''reason'', json_opt reason)]) (\<lambda>_.
       service_get tid))))"

definition cancel :: "pystr \<Rightarrow> pystr option \<Rightarrow> task_row io" where
  "cancel tid reason =
     mbind (service_get tid) (\<lambda>task.
     if is_terminal (t_status task)
     then refuse_transition tid (''already '' @ status_value (t_status task))
     else mbind (do_set_status tid CANCELLED None reason) (\<lambda>_.
       mbind (publish_task_event tid Ev_TASK_CANCELLED [(''reason'', json_opt reason)]) (\<lambda>_.
       service_get tid)))"

section \<open>Decisions follow the state machine\<close>

text \<open>The specification: which decision a status admits, the status it leads to, what it announces.\<close>

datatype decision = Approve | Reject | Cancel

fun decision_target :: "decision \<Rightarrow> task_status \<Rightarrow> task_status option" where
  "decision_target Approve READY_FOR_REVIEW = Some COMPLETED"
| "decision_target Approve _ = None"
| "decision_target Reject COMPLETED = None"
| "decision_target Reject FAILED = None"
| "decision_target Reject CANCELLED = None"
| "decision_target Reject REJECTED = None"
| "decision_target Reject _ = Some REJECTED"
| "decision_target Cancel COMPLETED = None"
| "decision_target Cancel FAILED = None"
| "decision_target Cancel CANCELLED = None"
| "decision_target Cancel REJECTED = None"
| "decision_target Cancel HUMAN_REVIEW_REQUIRED = None"
| "decision_target Cancel _ = Some CANCELLED"

fun decision_events :: "decision \<Rightarrow> event_type list" where
  "decision_events Approve = [Ev_APPROVAL_GRANTED, Ev_TASK_COMPLETED]"
| "decision_events Reject = [Ev_APPROVAL_REJECTED]"
| "decision_events Cancel = [Ev_TASK_CANCELLED]"

fun decide :: "decision \<Rightarrow> pystr \<Rightarrow> pystr option \<Rightarrow> pystr option \<Rightarrow> task_row io" where
  "decide Approve tid by reason = approve tid by reason"
| "decide Reject tid by reason = reject tid by reason"
| "decide Cancel tid by reason = cancel tid reason"

text \<open>
  What an accepted decision leaves: the row at the target status, without a lease and with its
  checkpoint, the other tasks' rows, the announced events in the log and on the live channel, and
  the queue.
\<close>

definition decided :: "decision \<Rightarrow> pystr \<Rightarrow> task_status \<Rightarrow> world \<Rightarrow> task_row \<Rightarrow> world \<Rightarrow> bool" where
  "decided dec tid target w t' w' \<longleftrightarrow>
     task_get (w_db w') tid = Some t' \<and> t_status t' = target \<and> t_locked_by t' = None
     \<and> map_option t_state (task_get (w_db w) tid) = Some (t_state t')
     \<and> (\<forall>x. x \<noteq> tid \<longrightarrow> task_get (w_db w') x = task_get (w_db w) x)
     \<and> map e_type (events_of tid (w_db w')) = map e_type (events_of tid (w_db w)) @ decision_events dec
     \<and> map be_type (w_bus w') = map be_type (w_bus w) @ decision_events dec
     \<and> w_queue w' = w_queue w"

lemma service_get_apply:
  "service_get tid w =
     (case task_get (w_db w) tid of None \<Rightarrow> (Inl (TaskNotFoundError tid), w) | Some t \<Rightarrow> (Inr t, w))"
  by (simp add: service_get_def mbind_def split: option.split)

lemma safe_service [safe_intros]:
  "safe (publish_task_event tid ty pl)" "safe (decide_pending tid st by reason)"
  unfolding publish_task_event_def decide_pending_def
  by (auto intro!: safe_intros split: option.split)

lemma publish_task_event_effect:
  fixes w tid ty pl
  defines "w' \<equiv> snd (publish_task_event tid ty pl w)"
  shows "task_get (w_db w') = task_get (w_db w)"
    and "map e_type (events_of tid (w_db w')) = map e_type (events_of tid (w_db w)) @ [ty]"
    and "map be_type (w_bus w') = map be_type (w_bus w) @ [ty]"
    and "w_queue w' = w_queue w" and "db_idempotency (w_db w') = db_idempotency (w_db w)"
    and "db_approvals (w_db w') = db_approvals (w_db w)"
  unfolding w'_def publish_task_event_def append_event_def publish_event_def event_id_def new_id_def utcnow_def
  by (simp_all add: mbind_def ask_def on_db_def task_get_def fun_eq_iff)
     (simp_all add: event_append_def event_insert_def Let_def)

lemma set_status_effect:
  fixes w tid st node err
  defines "w' \<equiv> snd (do_set_status tid st node err w)"
  shows "\<exists>now now'. task_get (w_db w') =
      (\<lambda>x. map_option (\<lambda>t. if t_id t = tid then set_status_values now now' st node err t else t) (task_get (w_db w) x))"
    and "events_of x (w_db w') = events_of x (w_db w)" and "w_bus w' = w_bus w" and "w_queue w' = w_queue w"
    and "db_approvals (w_db w') = db_approvals (w_db w)"
  unfolding w'_def do_set_status_def
  by (auto simp: mbind_def utcnow_def ask_def on_db_def fun_eq_iff events_of_def set_status_def
      task_get_set_status [unfolded set_status_def])

lemma decide_pending_effect:
  fixes w tid st by_who reason
  defines "w' \<equiv> snd (decide_pending tid st by_who reason w)"
  shows "task_get (w_db w') = task_get (w_db w)" and "events_of x (w_db w') = events_of x (w_db w)"
    and "w_bus w' = w_bus w" and "w_queue w' = w_queue w"
  unfolding w'_def decide_pending_def
  by (auto simp: mbind_def utcnow_def ask_def on_db_def task_get_def events_of_def approval_decide_def
      fun_eq_iff split: option.split)

text \<open>Setting a status and announcing it is one step of every decision.\<close>

definition announce :: "pystr \<Rightarrow> task_status \<Rightarrow> pystr option \<Rightarrow> event_type \<Rightarrow> dict \<Rightarrow> world \<Rightarrow> world" where
  "announce tid st err ty pl w = snd (publish_task_event tid ty pl (snd (do_set_status tid st None err w)))"

lemma announce_effect:
  assumes "task_get (w_db w) tid = Some t"
  shows "\<exists>t'. task_get (w_db (announce tid st err ty pl w)) tid = Some t' \<and> t_status t' = st \<and> t_state t' = t_state t
      \<and> (is_terminal st \<longrightarrow> t_locked_by t' = None)"
    and "x \<noteq> tid \<Longrightarrow> task_get (w_db (announce tid st err ty pl w)) x = task_get (w_db w) x"
    and "map e_type (events_of tid (w_db (announce tid st err ty pl w))) = map e_type (events_of tid (w_db w)) @ [ty]"
    and "map be_type (w_bus (announce tid st err ty pl w)) = map be_type (w_bus w) @ [ty]"
    and "w_queue (announce tid st err ty pl w) = w_queue w"
proof -
  obtain now now' where g: "task_get (w_db (snd (do_set_status tid st None err w))) =
      (\<lambda>x. map_option (\<lambda>t. if t_id t = tid then set_status_values now now' st None err t else t) (task_get (w_db w) x))"
    using set_status_effect(1) by blast
  show "\<exists>t'. task_get (w_db (announce tid st err ty pl w)) tid = Some t' \<and> t_status t' = st \<and> t_state t' = t_state t
      \<and> (is_terminal st \<longrightarrow> t_locked_by t' = None)"
    using task_get_in [OF assms] assms by (simp add: announce_def publish_task_event_effect(1) g)
  show "x \<noteq> tid \<Longrightarrow> task_get (w_db (announce tid st err ty pl w)) x = task_get (w_db w) x"
    using task_get_in [of "w_db w" x] by (cases "task_get (w_db w) x") (auto simp: announce_def publish_task_event_effect(1) g)
qed (simp_all add: announce_def publish_task_event_effect set_status_effect(2-))

lemma decide_known:
  assumes "task_get (w_db w) tid = Some t"
  shows "decide dec tid by_who reason w =
    (case decision_target dec (t_status t) of
       None \<Rightarrow> (Inl (InvalidTaskTransitionError (''task '' @ tid @ '' is '' @
           (if dec = Approve then status_value (t_status t) @ '', not READY_FOR_REVIEW''
            else ''already '' @ status_value (t_status t)))), w)
     | Some _ \<Rightarrow> service_get tid (case dec of
         Approve \<Rightarrow> announce tid COMPLETED None Ev_TASK_COMPLETED [(''decided_by'', json_opt by_who)]
           (announce tid HUMAN_APPROVED None Ev_APPROVAL_GRANTED [(''decided_by'', json_opt by_who)]
             (snd (decide_pending tid ''APPROVED'' by_who reason w)))
       | Reject \<Rightarrow> announce tid REJECTED reason Ev_APPROVAL_REJECTED
           [(''decided_by'', json_opt by_who), (''reason'', json_opt reason)]
           (snd (decide_pending tid ''REJECTED'' by_who reason w))
       | Cancel \<Rightarrow> announce tid CANCELLED reason Ev_TASK_CANCELLED [(''reason'', json_opt reason)] w))"
proof (cases dec)
  case Approve
  then show ?thesis using assms
    by (cases "t_status t") (simp_all add: approve_def refuse_transition_def mbind_def [of "service_get tid"]
        service_get_apply mbind_safe safe_intros announce_def)
next
  case Reject
  then show ?thesis using assms
    by (cases "t_status t") (simp_all add: reject_def refuse_transition_def mbind_def [of "service_get tid"]
        service_get_apply mbind_safe safe_intros announce_def is_terminal_def TERMINAL_STATUSES_def)
next
  case Cancel
  then show ?thesis using assms
    by (cases "t_status t") (simp_all add: cancel_def refuse_transition_def mbind_def [of "service_get tid"]
        service_get_apply mbind_safe safe_intros announce_def is_terminal_def TERMINAL_STATUSES_def)
qed

declare decide.simps [simp del]

lemma decision_target_value:
  "decision_target dec st = Some target \<Longrightarrow>
     target = (case dec of Approve \<Rightarrow> COMPLETED | Reject \<Rightarrow> REJECTED | Cancel \<Rightarrow> CANCELLED)"
  by (cases "(dec, st)" rule: decision_target.cases) auto

lemma decided_announce:
  assumes "task_get (w_db w) tid = Some t" and "is_terminal st"
    and "task_get (w_db v) = task_get (w_db w)" and "w_queue v = w_queue w"
    and "map e_type (events_of tid (w_db v)) = map e_type (events_of tid (w_db w)) @ evs"
    and "map be_type (w_bus v) = map be_type (w_bus w) @ evs" and "decision_events dec = evs @ [ty]"
  shows "\<exists>t' w'. service_get tid (announce tid st err ty pl v) = (Inr t', w') \<and> decided dec tid st w t' w'"
proof -
  have v: "task_get (w_db v) tid = Some t" using assms(1,3) by simp
  from announce_effect(1) [OF v, of st err ty pl] assms(2)
  obtain t' where "task_get (w_db (announce tid st err ty pl v)) tid = Some t'" "t_status t' = st"
    "t_state t' = t_state t" "t_locked_by t' = None" by auto
  then show ?thesis
    using assms announce_effect(2-5) [OF v, where st = st and err = err and ty = ty and pl = pl]
    by (simp add: decided_def service_get_apply)
qed

lemma decide_accepted:
  assumes t: "task_get (w_db w) tid = Some t" and target: "decision_target dec (t_status t) = Some st"
  shows "\<exists>t' w'. decide dec tid by_who reason w = (Inr t', w') \<and> decided dec tid st w t' w'"
proof (cases dec)
  case Approve
  let ?v = "snd (decide_pending tid ''APPROVED'' by_who reason w)"
  let ?u = "announce tid HUMAN_APPROVED None Ev_APPROVAL_GRANTED [(''decided_by'', json_opt by_who)] ?v"
  let ?x = "announce tid COMPLETED None Ev_TASK_COMPLETED [(''decided_by'', json_opt by_who)] ?u"
  have v: "task_get (w_db ?v) tid = Some t" using t by (simp add: decide_pending_effect)
  obtain t1 where u: "task_get (w_db ?u) tid = Some t1" and t1: "t_state t1 = t_state t"
    using announce_effect(1) [OF v] by blast
  obtain t2 where "task_get (w_db ?x) tid = Some t2" "t_status t2 = COMPLETED" "t_state t2 = t_state t" "t_locked_by t2 = None"
    using announce_effect(1) [OF u, of COMPLETED None Ev_TASK_COMPLETED "[(''decided_by'', json_opt by_who)]"] t1
    by (auto simp: is_terminal_def TERMINAL_STATUSES_def)
  moreover have "map e_type (events_of tid (w_db ?x)) = map e_type (events_of tid (w_db w)) @ decision_events dec"
    "map be_type (w_bus ?x) = map be_type (w_bus w) @ decision_events dec" "w_queue ?x = w_queue w"
    using Approve by (simp_all add: announce_effect(3-5) [OF u] announce_effect(3-5) [OF v] decide_pending_effect)
  moreover have "\<forall>y. y \<noteq> tid \<longrightarrow> task_get (w_db ?x) y = task_get (w_db w) y"
    by (simp add: announce_effect(2) [OF u] announce_effect(2) [OF v] decide_pending_effect)
  moreover have "st = COMPLETED" using decision_target_value [OF target] Approve by simp
  ultimately show ?thesis
    using Approve t target by (simp add: decide_known [OF t] service_get_apply decided_def)
next
  case Reject
  have "is_terminal REJECTED" by (simp add: is_terminal_def TERMINAL_STATUSES_def)
  with Reject decision_target_value [OF target] target show ?thesis
    by (simp add: decide_known [OF t])
       (rule decided_announce [OF t, where evs = "[]"], simp_all add: decide_pending_effect)
next
  case Cancel
  have "is_terminal CANCELLED" by (simp add: is_terminal_def TERMINAL_STATUSES_def)
  with Cancel decision_target_value [OF target] target show ?thesis
    by (simp add: decide_known [OF t]) (rule decided_announce [OF t, where evs = "[]"], simp_all)
qed

text \<open>
  C3: the decisions of a person refine the state machine. For every task and decision, approving,
  rejecting or cancelling an unknown task raises \<open>TaskNotFoundError\<close>; a decision the task's status
  does not admit raises \<open>InvalidTaskTransitionError\<close>; both leave store, queue and live channel exactly
  as they were. An admitted decision always succeeds, moves the task to the status of the
  specification, drops its lease, keeps its checkpoint and every other task, and announces exactly
  the specified events.
\<close>

theorem decisions_follow_state_machine:
  "case task_get (w_db w) tid of
     None \<Rightarrow> decide dec tid by_who reason w = (Inl (TaskNotFoundError tid), w)
   | Some t \<Rightarrow>
       (case decision_target dec (t_status t) of
          None \<Rightarrow> \<exists>m. decide dec tid by_who reason w = (Inl (InvalidTaskTransitionError m), w)
        | Some target \<Rightarrow>
            \<exists>t' w'. decide dec tid by_who reason w = (Inr t', w') \<and> decided dec tid target w t' w')"
proof (cases "task_get (w_db w) tid")
  case None
  then show ?thesis
    by (cases dec) (simp_all add: decide.simps approve_def reject_def cancel_def mbind_def [of "service_get tid"] service_get_apply)
next
  case (Some t)
  show ?thesis
  proof (cases "decision_target dec (t_status t)")
    case None
    with Some show ?thesis by (simp add: decide_known)
  next
    case (Some target)
    with \<open>task_get (w_db w) tid = Some t\<close> decide_accepted show ?thesis by simp
  qed
qed

section \<open>Creation is idempotent\<close>

lemma insert_task_Inr:
  assumes "insert_task url path issue created_by key w = (Inr t, w')"
  obtains tid now now' where "task_create tid now now' url path issue created_by key (w_db w) = Inr (t, w_db w')"
    and "w_queue w' = w_queue w" and "w_bus w' = w_bus w"
  using assms unfolding insert_task_def
  by (auto elim!: mbind_InrD simp: on_db_def new_task_id_def new_id_def utcnow_def ask_def mbind_def
      split: sum.splits prod.splits)

lemma task_create_Inr:
  assumes "task_create tid now now' url path issue created_by key d = Inr (t, d')"
  shows "t = new_task_row tid now now' url path issue created_by key \<and> task_get d tid = None
    \<and> (\<forall>x. task_get d' x = (if x = tid then Some t else task_get d x))
    \<and> db_events d' = db_events d
    \<and> (truthy_str key \<longrightarrow> find_by_idempotency_key d' (get_default [] key) =
        Some \<lparr>ik_key = get_default [] key, ik_task_id = tid, ik_request_fingerprint = fingerprint url issue\<rparr>)"
proof -
  have find_app: "find p (xs @ [y]) = (case find p xs of None \<Rightarrow> if p y then Some y else None | Some z \<Rightarrow> Some z)"
    for p :: "'z \<Rightarrow> bool" and xs y by (induction xs) auto
  show ?thesis
    using assms
    by (auto simp: task_create_def Let_def task_get_def find_by_idempotency_key_def find_app new_task_row_def
        split: if_splits option.splits dest: find_Some_key)
qed

lemma publish_keeps_key:
  "find_by_idempotency_key (w_db (snd (publish_task_event tid ty pl w))) = find_by_idempotency_key (w_db w)"
  by (simp add: find_by_idempotency_key_def publish_task_event_effect fun_eq_iff)

text \<open>What a creating call leaves behind.\<close>

lemma create_task_created:
  assumes "create_task url path issue created_by key w = (Inr (t, True), w')"
  shows "t_status t = QUEUED \<and> t_locked_by t = None \<and> t_issue t = issue \<and> t_repository_url t = url
    \<and> task_get (w_db w) (t_id t) = None \<and> task_get (w_db w') (t_id t) = Some t
    \<and> (\<forall>x. x \<noteq> t_id t \<longrightarrow> task_get (w_db w') x = task_get (w_db w) x)
    \<and> map e_type (events_of (t_id t) (w_db w')) = map e_type (events_of (t_id t) (w_db w)) @ [Ev_TASK_CREATED]
    \<and> w_queue w' = w_queue w
    \<and> (truthy_str key \<longrightarrow> find_by_idempotency_key (w_db w') (get_default [] key) =
        Some \<lparr>ik_key = get_default [] key, ik_task_id = t_id t, ik_request_fingerprint = fingerprint url issue\<rparr>)"
proof -
  let ?pl = "[(''repository'', JStr url)]"
  obtain w1 where ins: "insert_task url path issue created_by key w = (Inr t, w1)"
    and w': "w' = snd (publish_task_event (t_id t) Ev_TASK_CREATED ?pl w1)"
    using assms unfolding create_task_def replay_key_def
    by (auto elim!: mbind_InrD simp: mbind_safe safe_intros split: option.splits if_splits)
  from ins obtain tid now now' where c: "task_create tid now now' url path issue created_by key (w_db w) = Inr (t, w_db w1)"
    and q: "w_queue w1 = w_queue w" by (rule insert_task_Inr)
  have id: "t_id t = tid" using task_create_Inr [OF c] by (simp add: new_task_row_def)
  have "events_of x (w_db w1) = events_of x (w_db w)" for x
    using task_create_Inr [OF c] by (simp add: events_of_def)
  with id show ?thesis
    using task_create_Inr [OF c] q
    by (simp add: w' publish_task_event_effect publish_keeps_key new_task_row_def)
qed

lemma replay_apply:
  assumes "truthy_str key" and "find_by_idempotency_key (w_db w) (get_default [] key) = Some r"
    and "task_get (w_db w) (ik_task_id r) = Some t"
  shows "create_task url path issue created_by key w =
    (if ik_request_fingerprint r = fingerprint url issue then (Inr (t, False), w)
     else (Inl (InvalidTaskTransitionError ''Idempotency-Key was already used for a different request''), w))"
  using assms by (simp add: create_task_def replay_key_def mbind_def)

subsection \<open>What the platform does meanwhile\<close>

text \<open>
  Steps of the platform after a request: a worker works for some task, a message moves in the queue,
  a person decides, another request creates a task (and is rolled back when it fails).
\<close>

inductive platform_step :: "world \<Rightarrow> world \<Rightarrow> bool" where
  work: "evolves x w w' \<Longrightarrow> platform_step w w'"
| queue: "platform_step w (w\<lparr>w_queue := q\<rparr>)"
| decision: "platform_step w (snd (decide dec tid by_who reason w))"
| creation: "platform_step w (snd (in_transaction (create_task url path issue created_by key) w))"

text \<open>No step removes a task or an idempotency record.\<close>

definition retains :: "world \<Rightarrow> world \<Rightarrow> bool" where
  "retains w w' \<longleftrightarrow> set (map t_id (db_tasks (w_db w))) \<subseteq> set (map t_id (db_tasks (w_db w')))
     \<and> grows (\<lambda>_. True) (db_idempotency (w_db w)) (db_idempotency (w_db w'))"

interpretation keep: effect_order retains
  by unfold_locales (auto simp: retains_def intro: grows_trans)

lemma retains_evolves: "evolves x w w' \<Longrightarrow> retains w w'"
  by (simp add: retains_def evolves_def db_evolves_def)

lemma retains_stays: "stays (evolves x) m \<Longrightarrow> stays retains m"
  using retains_evolves by (auto elim: stays_mono)

lemma retains_decide: "stays retains (decide dec tid by_who reason)"
proof -
  note evo = retains_stays [OF evo_context(8)] retains_stays [OF evo_publish] retains_stays [OF evo_append_event]
  have "stays retains (on_db (approval_decide now i st by_who r))" for now i st by_who r
    by (simp add: stays_def on_db_def retains_def approval_decide_def)
  moreover have "stays retains utcnow" by (rule retains_stays [OF evo_ids(1)])
  ultimately have pending: "stays retains (decide_pending tid st by_who r)" for st r
    unfolding decide_pending_def by (auto intro!: keep.stays_rules split: option.split)
  have event: "stays retains (publish_task_event tid ty pl)" for ty pl
    unfolding publish_task_event_def by (intro keep.stays_rules evo)
  have get: "stays retains (service_get tid)"
    unfolding service_get_def by (auto intro!: keep.stays_rules split: option.split)
  show ?thesis
    by (cases dec) (auto simp: decide.simps approve_def reject_def cancel_def refuse_transition_def
        intro!: keep.stays_rules pending event get evo)
qed

lemma retains_insert: "stays retains (insert_task url path issue created_by key)"
proof -
  have ids: "stays retains new_task_id" "stays retains utcnow"
    using retains_stays [OF evo_ids(2)] retains_stays [OF evo_ids(1)] by (simp_all add: new_task_id_def)
  have "retains w (snd (insert_task url path issue created_by key w))" for w
  proof (cases "insert_task url path issue created_by key w")
    case (Pair r w')
    show ?thesis
    proof (cases r)
      case (Inr t)
      from insert_task_Inr [OF Pair [unfolded Inr]] obtain tid now now'
        where "task_create tid now now' url path issue created_by key (w_db w) = Inr (t, w_db w')" by blast
      then have "set (map t_id (db_tasks (w_db w))) \<subseteq> set (map t_id (db_tasks (w_db w')))"
        "grows (\<lambda>_. True) (db_idempotency (w_db w)) (db_idempotency (w_db w'))"
        by (auto simp: task_create_def Let_def split: if_splits dest!: sym [of _ "w_db w'"])
      with Pair show ?thesis by (simp add: retains_def)
    next
      case (Inl e)
      with Pair have "w_db w' = w_db w"
        by (auto simp: insert_task_def new_task_id_def new_id_def utcnow_def ask_def mbind_def on_db_def
            split: sum.splits prod.splits)
      with Pair show ?thesis by (simp add: retains_def)
    qed
  qed
  then show ?thesis by (simp add: stays_def)
qed

lemma retains_create: "stays retains (create_task url path issue created_by key)"
proof -
  have "stays retains (replay_key url issue key)"
    unfolding replay_key_def by (auto intro!: keep.stays_rules split: option.split)
  moreover have "stays retains (publish_task_event tid ty pl)" for tid ty pl
    unfolding publish_task_event_def
    by (intro keep.stays_rules retains_stays [OF evo_publish] retains_stays [OF evo_append_event])
  ultimately show ?thesis
    unfolding create_task_def by (auto intro!: keep.stays_rules retains_insert split: option.split)
qed

lemma retains_in_transaction:
  assumes "stays retains m"
  shows "retains w (snd (in_transaction m w))"
proof (cases "m w")
  case (Pair r w')
  with assms have "retains w w'" by (rule stays_D)
  with Pair show ?thesis by (cases r) (simp_all add: in_transaction_def retains_def)
qed

lemma retains_step: "platform_step w w' \<Longrightarrow> retains w w'"
proof (induction rule: platform_step.induct)
  case (work x w w')
  then show ?case by (rule retains_evolves)
next
  case (queue w q)
  show ?case by (simp add: retains_def)
next
  case (decision w dec tid by_who reason)
  show ?case using retains_decide by (simp only: stays_def)
next
  case (creation w url path issue created_by key)
  show ?case by (rule retains_in_transaction [OF retains_create])
qed

lemma retains_steps: "platform_step\<^sup>*\<^sup>* w w' \<Longrightarrow> retains w w'"
  by (induction rule: rtranclp_induct) (auto intro: keep.R_refl keep.R_trans retains_step)

lemma find_grows: "grows p xs ys \<Longrightarrow> find q xs = Some x \<Longrightarrow> find q ys = Some x"
proof -
  have "find q (xs @ zs) = (case find q xs of None \<Rightarrow> find q zs | Some z \<Rightarrow> Some z)" for zs
    by (induction xs) auto
  then show "grows p xs ys \<Longrightarrow> find q xs = Some x \<Longrightarrow> find q ys = Some x" by (auto simp: grows_def)
qed

text \<open>
  C7: creation is idempotent. A call that creates a task stores a new QUEUED row that no worker
  holds, one TASK_CREATED event, and nothing else; it does not enqueue. From then on, whatever
  workers do for any tasks, however messages move, whatever people decide and other requests create,
  the same repository URL and issue with the same key are answered with that task, in its current
  state, and change nothing. The rest of the request is not compared: a different repository path or
  creator is answered the same way. A URL or issue with another fingerprint is refused under that
  key and changes nothing.
\<close>

theorem creation_is_idempotent:
  assumes "create_task url path issue created_by key w = (Inr (t, True), w1)"
    and "truthy_str key" and "platform_step\<^sup>*\<^sup>* w1 w2"
  shows "t_status t = QUEUED \<and> t_locked_by t = None \<and> task_get (w_db w1) (t_id t) = Some t
    \<and> task_get (w_db w) (t_id t) = None \<and> (\<forall>y. y \<noteq> t_id t \<longrightarrow> task_get (w_db w1) y = task_get (w_db w) y)
    \<and> map e_type (events_of (t_id t) (w_db w1)) = map e_type (events_of (t_id t) (w_db w)) @ [Ev_TASK_CREATED]
    \<and> w_queue w1 = w_queue w
    \<and> (\<exists>t'. task_get (w_db w2) (t_id t) = Some t'
        \<and> create_task url path' issue created_by' key w2 = (Inr (t', False), w2)
        \<and> (fingerprint url' issue' \<noteq> fingerprint url issue \<longrightarrow>
            create_task url' path' issue' created_by' key w2 =
              (Inl (InvalidTaskTransitionError ''Idempotency-Key was already used for a different request''), w2)))"
proof -
  note made = create_task_created [OF assms(1)]
  have keep: "retains w1 w2" by (rule retains_steps [OF assms(3)])
  have "t_id t \<in> set (map t_id (db_tasks (w_db w1)))" using made by (auto dest: task_get_in)
  then have "t_id t \<in> t_id ` set (db_tasks (w_db w2))" using keep by (auto simp: retains_def)
  then obtain t' where t': "task_get (w_db w2) (t_id t) = Some t'"
    by (metis find_None_key not_None_eq task_get_def)
  have "find_by_idempotency_key (w_db w2) (get_default [] key) =
      Some \<lparr>ik_key = get_default [] key, ik_task_id = t_id t, ik_request_fingerprint = fingerprint url issue\<rparr>"
    using made assms(2) keep unfolding find_by_idempotency_key_def retains_def by (metis find_grows)
  from replay_apply [OF assms(2) this] t' made show ?thesis by auto
qed

theorem creation_is_idempotent_witness:
  "\<exists>t w1. create_task ''repo'' None ''fix the bug'' None (Some ''k'') (new_world quiet_answers []) = (Inr (t, True), w1)
     \<and> create_task ''repo'' None ''fix the bug'' None (Some ''k'') w1 = (Inr (t, False), w1)"
proof -
  let ?w = "new_world quiet_answers []"
  have key: "truthy_str (Some ''k'')" by simp
  have "\<exists>t w1. insert_task ''repo'' None ''fix the bug'' None (Some ''k'') ?w = (Inr t, w1)"
    by (simp add: insert_task_def new_task_id_def new_id_def utcnow_def ask_def mbind_def on_db_def task_create_def
        Let_def new_world_def task_get_def empty_db_def find_by_idempotency_key_def)
  then obtain t w1 where ins: "insert_task ''repo'' None ''fix the bug'' None (Some ''k'') ?w = (Inr t, w1)" by blast
  have "replay_key ''repo'' ''fix the bug'' (Some ''k'') ?w = (Inr None, ?w)"
    by (simp add: replay_key_def mbind_def find_by_idempotency_key_def new_world_def empty_db_def)
  with ins have "create_task ''repo'' None ''fix the bug'' None (Some ''k'') ?w =
      (Inr (t, True), snd (publish_task_event (t_id t) Ev_TASK_CREATED [(''repository'', JStr ''repo'')] w1))"
    by (simp add: create_task_def mbind_apply [of "replay_key _ _ _"] mbind_apply [of "insert_task _ _ _ _ _"]
        mbind_safe safe_intros)
  with creation_is_idempotent [OF this key rtranclp.rtrancl_refl] show ?thesis by fastforce
qed

section \<open>Cancelling a running task\<close>

text \<open>
  Cancelling is not final while a worker runs the task: the next checkpoint of the workflow sets the
  status of its node again, without looking at the one that is stored.
\<close>

lemma cancelled_task_is_reopened:
  assumes "cancel tid reason w = (Inr t, w1)" and "cx_task_id cx = tid" and "\<not> is_terminal st"
  shows "t_status t = CANCELLED
    \<and> map_option t_status (task_get (w_db (snd (save_checkpoint cx s node st w1))) tid) = Some st"
proof -
  obtain t0 where t0: "task_get (w_db w) tid = Some t0" "\<not> is_terminal (t_status t0)"
    using assms(1)
    by (auto simp: cancel_def refuse_transition_def mbind_def [of "service_get tid"] service_get_apply
        split: option.splits if_splits)
  then have "decision_target Cancel (t_status t0) = Some CANCELLED"
    by (cases "t_status t0") (simp_all add: is_terminal_def TERMINAL_STATUSES_def)
  from decide_accepted [OF t0(1) this, of None reason] assms(1)
  have t: "task_get (w_db w1) tid = Some t" "t_status t = CANCELLED"
    by (auto simp: decide.simps decided_def)
  moreover have "t_id t = tid" using task_get_in [OF t(1)] by simp
  ultimately show ?thesis
    using assms(2,3)
    by (simp add: save_checkpoint_def do_save_state_def do_set_status_def unless_def mbind_safe safe_intros
        on_db_def utcnow_def ask_def mbind_def save_state_values_def)
qed

end
