(* ===== verification/Code_Index.thy ===== *)
theory Code_Index
  imports Ingestion Search Task_Service
begin

text \<open>
  The stored code index: the repositories of \<open>persistence/repositories/code.py\<close> and the indexing
  pipeline (\<open>retrieval/ingestion/indexer.py\<close>), which scans, chunks, optionally embeds and stores. The
  main fact is a round trip: what is read back for a repository after indexing is what
  chunking its files gives, and no other repository is touched.
\<close>

section \<open>Repositories and chunks\<close>

definition repository_id_for :: "pystr \<Rightarrow> pystr" where
  "repository_id_for url = ''repo-'' @ take 16 (sha256_hex (str_encode url))"

definition repo_get :: "db \<Rightarrow> pystr \<Rightarrow> repository_row option" where
  "repo_get d identifier = find (\<lambda>r. rp_id r = identifier) (db_repositories d)"

definition repo_get_by_url :: "db \<Rightarrow> pystr \<Rightarrow> repository_row option" where
  "repo_get_by_url d url = repo_get d (repository_id_for url)"

definition repo_list :: "db \<Rightarrow> repository_row list" where
  "repo_list d = db_repositories d"

definition upsert_values :: "pystr \<Rightarrow> pystr \<Rightarrow> pystr list option \<Rightarrow> repository_row \<Rightarrow> repository_row" where
  "upsert_values p default_branch languages r =
     (let r1 = r\<lparr>rp_path := p, rp_default_branch := default_branch\<rparr> in
      case languages of None \<Rightarrow> r1 | Some ls \<Rightarrow> r1\<lparr>rp_languages := ls\<rparr>)"

definition new_repository :: "pystr \<Rightarrow> pystr \<Rightarrow> repository_row" where
  "new_repository url p = \<lparr>rp_id = repository_id_for url, rp_url = url, rp_path = p, rp_default_branch = ''main'',
     rp_languages = [], rp_indexed_at = None, rp_chunk_count = 0\<rparr>"

definition repo_upsert :: "pystr \<Rightarrow> pystr \<Rightarrow> pystr \<Rightarrow> pystr list option \<Rightarrow> db \<Rightarrow> db" where
  "repo_upsert url p default_branch languages d =
     (let identifier = repository_id_for url;
          d1 = (if repo_get d identifier = None
                then d\<lparr>db_repositories := db_repositories d @ [new_repository url p]\<rparr> else d)
      in d1\<lparr>db_repositories := update_where (\<lambda>r. rp_id r = identifier) (upsert_values p default_branch languages)
            (db_repositories d1)\<rparr>)"

definition mark_indexed :: "int \<Rightarrow> pystr \<Rightarrow> nat \<Rightarrow> db \<Rightarrow> db" where
  "mark_indexed now identifier chunk_count d =
     d\<lparr>db_repositories := update_where (\<lambda>r. rp_id r = identifier)
        (\<lambda>r. r\<lparr>rp_indexed_at := Some now, rp_chunk_count := int chunk_count\<rparr>) (db_repositories d)\<rparr>"

definition replace_all :: "pystr \<Rightarrow> code_chunk list \<Rightarrow> db \<Rightarrow> db" where
  "replace_all repository_id chunks d =
     d\<lparr>db_code_chunks := filter (\<lambda>c. cc_repository_id c \<noteq> repository_id) (db_code_chunks d) @ chunks\<rparr>"

text \<open>
  The queries for chunks have no \<open>ORDER BY\<close>: \<open>scan\<close> is the order in which the database returns the
  selected rows, a parameter that may do anything but add, drop or change rows.
\<close>

definition all_for :: "(code_chunk list \<Rightarrow> code_chunk list) \<Rightarrow> db \<Rightarrow> pystr \<Rightarrow> code_chunk list" where
  "all_for scan d repository_id = scan (filter (\<lambda>c. cc_repository_id c = repository_id) (db_code_chunks d))"

definition by_symbol :: "(code_chunk list \<Rightarrow> code_chunk list) \<Rightarrow> db \<Rightarrow> pystr \<Rightarrow> pystr \<Rightarrow> nat \<Rightarrow> code_chunk list" where
  "by_symbol scan d repository_id name limit =
     take limit (scan (filter (\<lambda>c. cc_repository_id c = repository_id \<and> cc_symbol_name c = Some name) (db_code_chunks d)))"

definition chunk_total :: "(code_chunk list \<Rightarrow> code_chunk list) \<Rightarrow> db \<Rightarrow> pystr \<Rightarrow> nat" where
  "chunk_total scan d repository_id = length (all_for scan d repository_id)"

section \<open>The pipeline\<close>

definition chunk_row :: "pystr \<Rightarrow> pystr \<Rightarrow> chunk \<Rightarrow> code_chunk" where
  "chunk_row repository_id cid c = \<lparr>cc_id = cid, cc_repository_id = repository_id, cc_file_path = ck_file_path c,
     cc_symbol_name = ck_symbol_name c, cc_symbol_kind = ck_symbol_kind c, cc_language = ck_language c,
     cc_start_line = ck_start_line c, cc_end_line = ck_end_line c, cc_content = ck_content c, cc_embedding = None,
     cc_meta = [(''lines'', JInt (int (ck_end_line c) - int (ck_start_line c) + 1))]\<rparr>"

fun chunk_rows :: "pystr \<Rightarrow> chunk list \<Rightarrow> code_chunk list io" where
  "chunk_rows repository_id [] = ret []"
| "chunk_rows repository_id (c # cs) =
     mbind (new_id ''chunk'') (\<lambda>cid. mbind (chunk_rows repository_id cs) (\<lambda>rows.
     ret (chunk_row repository_id cid c # rows)))"

definition embed_rows :: "embedder option \<Rightarrow> code_chunk list \<Rightarrow> code_chunk list result" where
  "embed_rows emb rows =
     (case emb of
        None \<Rightarrow> Inr rows
      | Some e \<Rightarrow>
          (case e (map cc_content rows) of
             Inl err \<Rightarrow> Inl err
           | Inr vectors \<Rightarrow>
               if length vectors \<noteq> length rows
               then Inl (OtherError ''ValueError'' ''zip() arguments differ in length'')
               else Inr (map2 (\<lambda>r v. r\<lparr>cc_embedding := Some v\<rparr>) rows vectors)))"

text \<open>The returned object is the row of the repository, as the last update left it.\<close>

definition index_repository :: "pystr \<Rightarrow> path \<Rightarrow> pystr \<Rightarrow> embedder option \<Rightarrow> repository_row io" where
  "index_repository url p default_branch emb =
     mbind (gets w_fs) (\<lambda>f.
     mbind (lift_result (scan_repository f p)) (\<lambda>files.
     mbind (lift_result (resolve_path f p)) (\<lambda>q.
     let identifier = repository_id_for url in
     mbind (on_db (repo_upsert url (path_str q) default_branch (Some (detect_languages files)))) (\<lambda>_.
     mbind (chunk_rows identifier (concat (map chunk_file files))) (\<lambda>rows.
     mbind (lift_result (embed_rows emb rows)) (\<lambda>chunks.
     mbind (on_db (replace_all identifier chunks)) (\<lambda>_.
     mbind utcnow (\<lambda>now. mbind (on_db (mark_indexed now identifier (length chunks))) (\<lambda>_.
     gets (\<lambda>w. get_default (new_repository url (path_str q)) (repo_get (w_db w) identifier)))))))))))"

section \<open>Reading back what was indexed\<close>

text \<open>The chunk a row stands for.\<close>

definition row_chunk :: "code_chunk \<Rightarrow> chunk" where
  "row_chunk r = \<lparr>ck_file_path = cc_file_path r, ck_language = cc_language r, ck_content = cc_content r,
     ck_start_line = cc_start_line r, ck_end_line = cc_end_line r, ck_symbol_name = cc_symbol_name r,
     ck_symbol_kind = cc_symbol_kind r\<rparr>"

lemma row_chunk_row [simp]: "row_chunk (chunk_row rid cid c) = c" "cc_repository_id (chunk_row rid cid c) = rid"
  by (simp_all add: row_chunk_def chunk_row_def)

lemma chunk_rows_result:
  "\<exists>rows w'. chunk_rows rid cs w = (Inr rows, w') \<and> w_db w' = w_db w \<and> map row_chunk rows = cs
     \<and> list_all (\<lambda>r. cc_repository_id r = rid) rows"
proof (induction cs arbitrary: w)
  case (Cons c cs)
  obtain cid w1 where id: "new_id ''chunk'' w = (Inr cid, w1)" "w_db w1 = w_db w"
    by (simp add: new_id_def ask_def mbind_def)
  from Cons.IH [of w1] obtain rows w2 where "chunk_rows rid cs w1 = (Inr rows, w2)" "w_db w2 = w_db w1"
    "map row_chunk rows = cs" "list_all (\<lambda>r. cc_repository_id r = rid) rows" by blast
  with id show ?case by (simp add: mbind_def)
qed simp

lemma embed_rows_result:
  assumes "embed_rows emb rows = Inr chunks"
  shows "map row_chunk chunks = map row_chunk rows \<and> map cc_repository_id chunks = map cc_repository_id rows"
proof (cases emb)
  case (Some e)
  then obtain vectors where "length vectors = length rows" "chunks = map2 (\<lambda>r v. r\<lparr>cc_embedding := Some v\<rparr>) rows vectors"
    using assms by (auto simp: embed_rows_def split: sum.splits if_splits)
  then show ?thesis
    by (auto intro!: nth_equalityI simp: row_chunk_def)
qed (use assms in \<open>simp add: embed_rows_def\<close>)

lemma repo_get_upsert:
  "repo_get (repo_upsert url p br ls d) (repository_id_for url) = Some (upsert_values p br ls
     (get_default (new_repository url p) (repo_get d (repository_id_for url))))"
proof -
  have id: "rp_id (upsert_values p br ls r) = rp_id r" for r
    by (simp add: upsert_values_def Let_def split: option.split)
  have app: "find P (xs @ [y]) = (case find P xs of None \<Rightarrow> if P y then Some y else None | Some z \<Rightarrow> Some z)"
    for P :: "repository_row \<Rightarrow> bool" and xs y by (induction xs) auto
  have "rp_id (new_repository url p) = repository_id_for url" by (simp add: new_repository_def)
  then show ?thesis
    using find_Some_key [of rp_id "repository_id_for url"]
    by (cases "repo_get d (repository_id_for url)")
       (auto simp: repo_upsert_def repo_get_def Let_def find_update_where [where k = rp_id] id app)
qed

lemma upsert_chunks [simp]: "db_code_chunks (repo_upsert url p br ls d) = db_code_chunks d"
  by (simp add: repo_upsert_def Let_def)

lemma repo_get_mark:
  "repo_get (mark_indexed now rid n d) x =
     map_option (\<lambda>r. if rp_id r = rid then r\<lparr>rp_indexed_at := Some now, rp_chunk_count := int n\<rparr> else r) (repo_get d x)"
  by (simp add: repo_get_def mark_indexed_def find_update_where)

lemma repo_get_replace [simp]: "repo_get (replace_all rid cs d) = repo_get d"
  by (simp add: repo_get_def replace_all_def fun_eq_iff)

text \<open>The rows of a repository, in the order of their insertion.\<close>

definition stored_for :: "db \<Rightarrow> pystr \<Rightarrow> code_chunk list" where
  "stored_for d rid = filter (\<lambda>c. cc_repository_id c = rid) (db_code_chunks d)"

lemma all_for_stored: "all_for scan d rid = scan (stored_for d rid)"
  by (simp add: all_for_def stored_for_def)

lemma stored_for_index:
  assumes "list_all (\<lambda>r. cc_repository_id r = rid) chunks"
  shows "stored_for (mark_indexed now rid n (replace_all rid chunks d)) x = (if x = rid then chunks else stored_for d x)"
proof (cases "x = rid")
  case True
  with assms show ?thesis
    by (auto simp: stored_for_def mark_indexed_def replace_all_def list_all_iff filter_empty_conv intro!: filter_True)
next
  case False
  have "filter (\<lambda>c. cc_repository_id c \<noteq> rid \<and> cc_repository_id c = x) xs = filter (\<lambda>c. cc_repository_id c = x) xs" for xs
    using False by (auto intro: filter_cong)
  with assms False show ?thesis
    by (auto simp: stored_for_def mark_indexed_def replace_all_def list_all_iff filter_empty_conv)
qed

text \<open>The store after a successful run of the pipeline.\<close>

lemma index_repository_Inr:
  assumes "index_repository url p br emb w = (Inr r, w')"
  obtains files q chunks now where "scan_repository (w_fs w) p = Inr files" "resolve_path (w_fs w) p = Inr q"
    "map row_chunk chunks = concat (map chunk_file files)" "list_all (\<lambda>c. cc_repository_id c = repository_id_for url) chunks"
    "w_db w' = mark_indexed now (repository_id_for url) (length chunks) (replace_all (repository_id_for url) chunks
       (repo_upsert url (path_str q) br (Some (detect_languages files)) (w_db w)))"
    "r = get_default (new_repository url (path_str q)) (repo_get (w_db w') (repository_id_for url))"
proof -
  let ?rid = "repository_id_for url"
  obtain files q where fs: "scan_repository (w_fs w) p = Inr files" "resolve_path (w_fs w) p = Inr q"
    using assms unfolding index_repository_def Let_def by (auto elim!: mbind_InrD)
  let ?w1 = "w\<lparr>w_db := repo_upsert url (path_str q) br (Some (detect_languages files)) (w_db w)\<rparr>"
  obtain rows w2 where rows: "chunk_rows ?rid (concat (map chunk_file files)) ?w1 = (Inr rows, w2)"
    "w_db w2 = w_db ?w1" "map row_chunk rows = concat (map chunk_file files)" "list_all (\<lambda>c. cc_repository_id c = ?rid) rows"
    using chunk_rows_result [of ?rid "concat (map chunk_file files)" ?w1] by blast
  obtain chunks where emb: "embed_rows emb rows = Inr chunks"
    using assms fs rows(1) unfolding index_repository_def Let_def
    by (cases "embed_rows emb rows") (auto simp: mbind_def on_db_def)
  have "w_db w' = mark_indexed (o_time (w_answers w2) (w_tick w2)) ?rid (length chunks) (replace_all ?rid chunks (w_db ?w1))
      \<and> r = get_default (new_repository url (path_str q)) (repo_get (w_db w') ?rid)"
    using assms fs rows(1,2) emb unfolding index_repository_def Let_def
    by (auto simp: mbind_def on_db_def utcnow_def ask_def)
  moreover have "map row_chunk chunks = concat (map chunk_file files)" using embed_rows_result [OF emb] rows(3) by simp
  moreover have "list_all (\<lambda>x. x = ?rid) (map cc_repository_id rows)" using rows(4) by (simp add: list.pred_map comp_def)
  then have "list_all (\<lambda>x. x = ?rid) (map cc_repository_id chunks)" using embed_rows_result [OF emb] by metis
  then have "list_all (\<lambda>c. cc_repository_id c = ?rid) chunks" by (simp add: list.pred_map comp_def)
  ultimately show ?thesis using that fs by simp
qed

lemma upsert_row:
  obtains r0 where "repo_get (repo_upsert url p br (Some ls) d) (repository_id_for url) = Some r0"
    "rp_languages r0 = ls" "rp_id r0 = repository_id_for url"
proof -
  let ?r = "get_default (new_repository url p) (repo_get d (repository_id_for url))"
  have "rp_id ?r = repository_id_for url"
    using find_Some_key [of rp_id "repository_id_for url" "db_repositories d"]
    by (cases "repo_get d (repository_id_for url)") (auto simp: new_repository_def repo_get_def)
  with that [OF repo_get_upsert] show ?thesis by (simp add: upsert_values_def)
qed

text \<open>A run that fails: where it failed, and that the chunks are untouched.\<close>

lemma index_repository_Inl:
  assumes "index_repository url p br emb w = (Inl e, w')"
  shows "db_code_chunks (w_db w') = db_code_chunks (w_db w)
    \<and> (scan_repository (w_fs w) p = Inl e \<or> resolve_path (w_fs w) p = Inl e
      \<or> (\<exists>files rows. scan_repository (w_fs w) p = Inr files \<and> map row_chunk rows = concat (map chunk_file files)
          \<and> embed_rows emb rows = Inl e))"
proof (cases "scan_repository (w_fs w) p")
  case (Inl e')
  with assms show ?thesis by (simp add: index_repository_def mbind_def)
next
  case scanned: (Inr files)
  show ?thesis
  proof (cases "resolve_path (w_fs w) p")
    case (Inl e')
    with assms scanned show ?thesis by (simp add: index_repository_def mbind_def)
  next
    case (Inr q)
    let ?rid = "repository_id_for url"
    let ?w1 = "w\<lparr>w_db := repo_upsert url (path_str q) br (Some (detect_languages files)) (w_db w)\<rparr>"
    obtain rows w2 where rows: "chunk_rows ?rid (concat (map chunk_file files)) ?w1 = (Inr rows, w2)"
      "w_db w2 = w_db ?w1" "map row_chunk rows = concat (map chunk_file files)"
      using chunk_rows_result [of ?rid "concat (map chunk_file files)" ?w1] by blast
    with assms scanned Inr have "embed_rows emb rows = Inl e \<and> w' = w2"
      unfolding index_repository_def Let_def
      by (cases "embed_rows emb rows") (auto simp: mbind_def on_db_def utcnow_def ask_def)
    with scanned rows(2,3) show ?thesis by auto
  qed
qed

text \<open>
  C36: the index is what chunking gives. Indexing a repository either fails, because its files
  cannot be scanned, its path cannot be resolved or the embedder fails on its chunks, and then no stored chunk is
  changed; or it returns the repository's row as stored, with the number of chunks and the languages
  of the scanned files. Reading the repository's chunks back then gives exactly the chunks of its
  files, each as often as chunking gives it, whatever was indexed before and in whatever order the
  database returns rows; and every other repository's chunks are untouched.
\<close>

theorem indexing_round_trip:
  assumes "\<And>rows. mset (scan rows) = mset rows"
  shows "case index_repository url p br emb w of
     (Inl e, w') \<Rightarrow> db_code_chunks (w_db w') = db_code_chunks (w_db w)
       \<and> (scan_repository (w_fs w) p = Inl e \<or> resolve_path (w_fs w) p = Inl e
         \<or> (\<exists>files rows. scan_repository (w_fs w) p = Inr files \<and> map row_chunk rows = concat (map chunk_file files)
             \<and> embed_rows emb rows = Inl e))
   | (Inr r, w') \<Rightarrow> (\<exists>files. scan_repository (w_fs w) p = Inr files
       \<and> mset (map row_chunk (all_for scan (w_db w') (repository_id_for url))) = mset (concat (map chunk_file files))
       \<and> repo_get_by_url (w_db w') url = Some r \<and> rp_languages r = detect_languages files
       \<and> rp_chunk_count r = int (chunk_total scan (w_db w') (repository_id_for url)))
       \<and> (\<forall>x. x = repository_id_for url \<or> all_for scan (w_db w') x = all_for scan (w_db w) x)"
proof (cases "index_repository url p br emb w")
  case (Pair res w')
  show ?thesis
  proof (cases res)
    case (Inl e)
    with Pair index_repository_Inl [of url p br emb w e w'] show ?thesis by simp
  next
    case (Inr r)
    let ?rid = "repository_id_for url"
    from Pair Inr obtain files q chunks now where fs: "scan_repository (w_fs w) p = Inr files"
      and ck: "map row_chunk chunks = concat (map chunk_file files)" "list_all (\<lambda>c. cc_repository_id c = ?rid) chunks"
      and db: "w_db w' = mark_indexed now ?rid (length chunks) (replace_all ?rid chunks
        (repo_upsert url (path_str q) br (Some (detect_languages files)) (w_db w)))"
      and r: "r = get_default (new_repository url (path_str q)) (repo_get (w_db w') ?rid)"
      by (auto elim: index_repository_Inr)
    obtain r0 where r0: "repo_get (repo_upsert url (path_str q) br (Some (detect_languages files)) (w_db w)) ?rid = Some r0"
      "rp_languages r0 = detect_languages files" "rp_id r0 = ?rid"
      by (rule upsert_row)
    have row: "repo_get (w_db w') ?rid = Some r" "rp_languages r = detect_languages files" "rp_chunk_count r = int (length chunks)"
      using r r0 by (simp_all add: db repo_get_mark)
    have all: "stored_for (w_db w') x = (if x = ?rid then chunks else stored_for (w_db w) x)" for x
      unfolding db stored_for_index [OF ck(2)] by (simp add: stored_for_def)
    have "mset (map row_chunk (scan chunks)) = mset (concat (map chunk_file files))"
      using assms [of chunks] by (simp only: mset_map ck(1) [symmetric])
    moreover have "length (scan chunks) = length chunks" using assms by (rule mset_eq_length)
    ultimately have "mset (map row_chunk (all_for scan (w_db w') ?rid)) = mset (concat (map chunk_file files))"
      "rp_chunk_count r = int (chunk_total scan (w_db w') ?rid)"
      "\<forall>x. x = ?rid \<or> all_for scan (w_db w') x = all_for scan (w_db w) x"
      using row(3) by (simp_all add: chunk_total_def all_for_stored all)
    with row(1,2) fs show ?thesis unfolding Pair Inr prod.case sum.case repo_get_by_url_def by auto
  qed
qed

text \<open>A database that returns the rows last inserted first, and a repository of one empty directory.\<close>

theorem indexing_round_trip_witness:
  "case index_repository ''u'' [''repo''] ''main'' None (new_world quiet_answers [([''repo''], Dir)]) of
     (Inl e, w') \<Rightarrow> db_code_chunks (w_db w') = []
   | (Inr r, w') \<Rightarrow> rp_chunk_count r = int (chunk_total rev (w_db w') (repository_id_for ''u''))"
  using indexing_round_trip [of rev, where url = "''u''" and p = "[''repo'']" and br = "''main''" and emb = None
      and w = "new_world quiet_answers [([''repo''], Dir)]"]
  by (auto simp: new_world_def empty_db_def split: prod.splits sum.splits)

end
