(* ===== verification/Api.thy ===== *)
theory Api
  imports Code_Index
begin

text \<open>
  The HTTP surface (\<open>apps/api/routes\<close>, \<open>apps/api/schemas.py\<close>): request handlers over the task service
  and the code index, their status codes, the response models, and the event stream. A handler gives
  a response or raises (an internal error). The transaction of a request is written before the
  background task of its response; which of the two runs first is up to the web framework, and no
  statement below depends on it. The frames of a stream are values here; \<open>Event_Text\<close> gives their text.
\<close>

section \<open>Response models\<close>

record task_out =
  to_task_id :: pystr
  to_status :: pystr
  to_issue :: pystr
  to_repository_url :: pystr
  to_risk_level :: "pystr option"
  to_current_node :: "pystr option"
  to_iteration :: int
  to_approval_required :: bool
  to_branch :: "pystr option"
  to_commit_sha :: "pystr option"
  to_pull_request_url :: "pystr option"
  to_summary :: "pystr option"
  to_error :: "pystr option"
  to_files_changed :: "pystr list"
  to_tests_passed :: int
  to_tests_failed :: int
  to_ci_status :: "pystr option"
  to_created_at :: int
  to_updated_at :: int

definition task_out_of :: "task_row \<Rightarrow> task_out" where
  "task_out_of t = (let s = t_state t in \<lparr>
     to_task_id = t_id t, to_status = status_value (t_status t), to_issue = t_issue t,
     to_repository_url = t_repository_url t, to_risk_level = t_risk_level t, to_current_node = t_current_node t,
     to_iteration = t_iteration t, to_approval_required = t_approval_required t, to_branch = t_branch t,
     to_commit_sha = t_commit_sha t, to_pull_request_url = t_pull_request_url t, to_summary = t_summary t,
     to_error = t_error t, to_files_changed = get_default [] (st_modified_files s),
     to_tests_passed = get_default 0 (st_tests_passed s), to_tests_failed = get_default 0 (st_tests_failed s),
     to_ci_status = str_or (st_ci_status s) None, to_created_at = t_created_at t, to_updated_at = t_updated_at t\<rparr>)"

record event_out =
  eo_id :: pystr
  eo_sequence :: nat
  eo_type :: event_type
  eo_payload :: dict
  eo_timestamp :: int

definition event_out_of :: "task_event \<Rightarrow> event_out" where
  "event_out_of e = \<lparr>eo_id = e_id e, eo_sequence = e_sequence e, eo_type = e_type e, eo_payload = e_payload e,
     eo_timestamp = e_created_at e\<rparr>"

record agent_run_out =
  ro_node :: pystr
  ro_agent :: pystr
  ro_status :: pystr
  ro_iteration :: int
  ro_duration_ms :: "int option"
  ro_input_tokens :: int
  ro_output_tokens :: int
  ro_cost_usd :: rat
  ro_error :: "pystr option"

definition agent_run_out_of :: "agent_run \<Rightarrow> agent_run_out" where
  "agent_run_out_of r = \<lparr>ro_node = ar_node r, ro_agent = ar_agent r, ro_status = ar_status r,
     ro_iteration = ar_iteration r, ro_duration_ms = ar_duration_ms r, ro_input_tokens = ar_input_tokens r,
     ro_output_tokens = ar_output_tokens r, ro_cost_usd = ar_cost_usd r, ro_error = ar_error r\<rparr>"

record tool_call_out =
  co_tool :: pystr
  co_ok :: bool
  co_arguments :: dict
  co_duration_ms :: "int option"
  co_error :: "pystr option"

definition tool_call_out_of :: "tool_call \<Rightarrow> tool_call_out" where
  "tool_call_out_of c = \<lparr>co_tool = tc_tool c, co_ok = tc_ok c, co_arguments = tc_arguments c,
     co_duration_ms = tc_duration_ms c, co_error = tc_error c\<rparr>"

record file_change_out =
  fo_path :: pystr
  fo_change_type :: pystr
  fo_iteration :: int
  fo_lines_added :: int
  fo_lines_removed :: int

definition file_change_out_of :: "file_change \<Rightarrow> file_change_out" where
  "file_change_out_of c = \<lparr>fo_path = fc_path c, fo_change_type = fc_change_type c, fo_iteration = fc_iteration c,
     fo_lines_added = fc_lines_added c, fo_lines_removed = fc_lines_removed c\<rparr>"

record ci_run_out =
  io_provider :: pystr
  io_status :: pystr
  io_url :: "pystr option"
  io_iteration :: int

definition ci_run_out_of :: "ci_run \<Rightarrow> ci_run_out" where
  "ci_run_out_of r = \<lparr>io_provider = cr_provider r, io_status = cr_status r, io_url = cr_url r,
     io_iteration = cr_iteration r\<rparr>"

record approval_out =
  po_id :: pystr
  po_status :: pystr
  po_requested_reason :: "pystr option"
  po_decided_by :: "pystr option"
  po_reason :: "pystr option"

definition approval_out_of :: "approval \<Rightarrow> approval_out" where
  "approval_out_of a = \<lparr>po_id = ap_id a, po_status = ap_status a, po_requested_reason = ap_requested_reason a,
     po_decided_by = ap_decided_by a, po_reason = ap_reason a\<rparr>"

record detail_out =
  do_task :: task_out
  do_events :: "event_out list"
  do_runs :: "agent_run_out list"
  do_tool_calls :: "tool_call_out list"
  do_file_changes :: "file_change_out list"
  do_ci_runs :: "ci_run_out list"
  do_approvals :: "approval_out list"

section \<open>Handlers\<close>

text \<open>A status code with a body, or with a detail; the detail of a refused input is left out.\<close>

datatype 'a http = Http_Ok nat 'a | Http_Error nat pystr

definition not_found :: "pystr \<Rightarrow> 'a http" where
  "not_found tid = Http_Error 404 (''task '' @ tid @ '' not found'')"

text \<open>\<open>except TaskNotFoundError\<close>, and both exceptions of a decision.\<close>

definition found_or_404 :: "pystr \<Rightarrow> 'a http io \<Rightarrow> 'a http io" where
  "found_or_404 tid m = catch m (\<lambda>e. case e of TaskNotFoundError _ \<Rightarrow> ret (not_found tid) | _ \<Rightarrow> raise e)"

definition decided_or_error :: "pystr \<Rightarrow> 'a http io \<Rightarrow> 'a http io" where
  "decided_or_error tid m = catch m (\<lambda>e. case e of
     TaskNotFoundError _ \<Rightarrow> ret (not_found tid)
   | InvalidTaskTransitionError msg \<Rightarrow> ret (Http_Error 409 msg)
   | _ \<Rightarrow> raise e)"

record create_request =
  cq_repository :: pystr
  cq_repository_path :: "pystr option"
  cq_issue :: pystr
  cq_created_by :: "pystr option"

definition MIN_ISSUE_LENGTH :: nat where
  "MIN_ISSUE_LENGTH = 8"

definition post_task :: "create_request \<Rightarrow> pystr option \<Rightarrow> (pystr \<times> task_status) http io" where
  "post_task rq key =
     (if length (cq_issue rq) < MIN_ISSUE_LENGTH then ret (Http_Error 422 [])
      else mbind (catch
          (mbind (in_transaction (create_task (cq_repository rq) (cq_repository_path rq) (cq_issue rq)
             (cq_created_by rq) key)) (\<lambda>r. ret (Inr r)))
          (\<lambda>e. case e of InvalidTaskTransitionError msg \<Rightarrow> ret (Inl msg) | _ \<Rightarrow> raise e)) (\<lambda>outcome.
        case outcome of
          Inl msg \<Rightarrow> ret (Http_Error 409 msg)
        | Inr (task, created) \<Rightarrow>
            mbind (unless (\<not> created) (enqueue (t_id task))) (\<lambda>_.
            ret (Http_Ok (if created then 202 else 200) (t_id task, t_status task)))))"

definition list_tasks :: "int \<Rightarrow> pystr option \<Rightarrow> task_out list http io" where
  "list_tasks limit status =
     (if limit < 1 \<or> 200 < limit then ret (Http_Error 422 [])
      else mbind (service_list (nat limit) status) (\<lambda>ts. ret (Http_Ok 200 (map task_out_of ts))))"

definition detail_out_of :: "task_detail \<Rightarrow> detail_out" where
  "detail_out_of d = \<lparr>do_task = task_out_of (td_task d), do_events = map event_out_of (td_events d),
     do_runs = map agent_run_out_of (td_runs d), do_tool_calls = map tool_call_out_of (td_tool_calls d),
     do_file_changes = map file_change_out_of (td_file_changes d), do_ci_runs = map ci_run_out_of (td_ci_runs d),
     do_approvals = map approval_out_of (td_approvals d)\<rparr>"

definition get_task :: "pystr \<Rightarrow> detail_out http io" where
  "get_task tid = found_or_404 tid (mbind (detail tid) (\<lambda>d. ret (Http_Ok 200 (detail_out_of d))))"

definition get_diff :: "pystr \<Rightarrow> pystr http io" where
  "get_diff tid = found_or_404 tid (mbind (task_diff tid) (\<lambda>d. ret (Http_Ok 200 d)))"

definition get_logs :: "pystr \<Rightarrow> tool_call_out list http io" where
  "get_logs tid = found_or_404 tid (mbind (detail tid) (\<lambda>d. ret (Http_Ok 200 (map tool_call_out_of (td_tool_calls d)))))"

definition post_approve :: "pystr \<Rightarrow> pystr option \<Rightarrow> pystr option \<Rightarrow> task_out http io" where
  "post_approve tid decided_by reason =
     decided_or_error tid (mbind (in_transaction (approve tid decided_by reason)) (\<lambda>t. ret (Http_Ok 200 (task_out_of t))))"

definition post_reject :: "pystr \<Rightarrow> pystr option \<Rightarrow> pystr option \<Rightarrow> task_out http io" where
  "post_reject tid decided_by reason =
     decided_or_error tid (mbind (in_transaction (reject tid decided_by reason)) (\<lambda>t. ret (Http_Ok 200 (task_out_of t))))"

definition post_cancel :: "pystr \<Rightarrow> pystr option \<Rightarrow> task_out http io" where
  "post_cancel tid reason =
     decided_or_error tid (mbind (in_transaction (cancel tid reason)) (\<lambda>t. ret (Http_Ok 200 (task_out_of t))))"

text \<open>The reviewer's inbox.\<close>

definition pending_approvals :: "task_out list io" where
  "pending_approvals =
     mbind (service_list 100 (Some (status_value READY_FOR_REVIEW))) (\<lambda>ready.
     mbind (service_list 100 (Some (status_value HUMAN_REVIEW_REQUIRED))) (\<lambda>halted.
     ret (sort_key (\<lambda>t. - to_updated_at t) (map task_out_of ready @ map task_out_of halted))))"

section \<open>Repositories and health\<close>

record repository_out =
  xo_id :: pystr
  xo_url :: pystr
  xo_path :: pystr
  xo_default_branch :: pystr
  xo_chunk_count :: int
  xo_indexed_at :: "int option"

definition repository_out_of :: "repository_row \<Rightarrow> repository_out" where
  "repository_out_of r = \<lparr>xo_id = rp_id r, xo_url = rp_url r, xo_path = rp_path r,
     xo_default_branch = rp_default_branch r, xo_chunk_count = rp_chunk_count r, xo_indexed_at = rp_indexed_at r\<rparr>"

definition post_index :: "(pystr \<Rightarrow> pystr) \<Rightarrow> pystr \<Rightarrow> pystr \<Rightarrow> pystr \<Rightarrow> repository_out http io" where
  "post_index expanduser url p default_branch =
     (let dir = path_parts (expanduser p) in
     mbind (gets w_fs) (\<lambda>f.
     if \<not> fs_is_dir f dir then ret (Http_Error 400 (''path does not exist: '' @ p))
     else mbind (in_transaction (index_repository url dir default_branch None)) (\<lambda>r.
       ret (Http_Ok 200 (repository_out_of r)))))"

definition list_repositories :: "repository_out list io" where
  "list_repositories = gets (\<lambda>w. map repository_out_of (repo_list (w_db w)))"

definition get_repository :: "pystr \<Rightarrow> repository_out http io" where
  "get_repository identifier =
     mbind (gets (\<lambda>w. repo_get (w_db w) identifier)) (\<lambda>r.
     case r of
       None \<Rightarrow> ret (Http_Error 404 ''repository not found'')
     | Some row \<Rightarrow> ret (Http_Ok 200 (repository_out_of row)))"

text \<open>
  Readiness: the class of the database's error, if any, and the depth of the queue or the class of
  the error of reading it, are given.
\<close>

definition ready :: "pystr option \<Rightarrow> pystr \<Rightarrow> pystr + nat \<Rightarrow> nat \<times> pystr \<times> (pystr \<times> pystr) list" where
  "ready database_error backend depth =
     (let checks =
        [(''database'', case database_error of None \<Rightarrow> ''ok'' | Some c \<Rightarrow> ''error: '' @ c),
         (''coordination'', backend),
         (''queue_depth'', case depth of Inl c \<Rightarrow> ''error: '' @ c | Inr n \<Rightarrow> show_nat n)];
          healthy = list_all (\<lambda>(k, v). \<not> starts_with ''error'' v) checks
      in (if healthy then 200 else 503, if healthy then ''ok'' else ''degraded'', checks))"

section \<open>The event stream\<close>

definition SETTLED_STATUSES :: "task_status list" where
  "SETTLED_STATUSES = TERMINAL_STATUSES @ WAITING_STATUSES"

definition ENDING_EVENTS :: "event_type list" where
  "ENDING_EVENTS = [Ev_TASK_COMPLETED, Ev_TASK_FAILED, Ev_TASK_CANCELLED, Ev_APPROVAL_REQUESTED, Ev_NO_PROGRESS_DETECTED]"

text \<open>A frame: an event with its identifier, task, type, number, payload and time, the end, or a heartbeat.\<close>

datatype sse =
    Sse_Event pystr pystr event_type int dict int
  | Sse_End pystr int
  | Sse_Heartbeat

text \<open>
  What the generator meets after the replay: an event from the subscription, fifteen seconds of
  silence, the end of the subscription, or a client that has gone. With each comes what a read of the
  task through the session of the request would return then (\<open>None\<close>: there is no such task). It is a
  free input: the session may hand out the row it loaded before, so it need not be the stored status.
\<close>

datatype stream_input = Live bus_event | Silence | Closed | Gone

fun follow :: "pystr \<Rightarrow> int \<Rightarrow> (stream_input \<times> task_status option) list \<Rightarrow> sse list \<times> py_error option" where
  "follow tid highest [] = ([], None)"
| "follow tid highest ((Gone, st) # ins) = ([], None)"
| "follow tid highest ((Closed, st) # ins) = ([], None)"
| "follow tid highest ((Silence, st) # ins) =
     (case follow tid highest ins of (frames, err) \<Rightarrow> (Sse_Heartbeat # frames, err))"
| "follow tid highest ((Live e, st) # ins) =
     (let sequence = int (be_sequence e) in
      if sequence \<noteq> 0 \<and> sequence \<le> highest then follow tid highest ins
      else let highest' = max highest sequence;
               frame = Sse_Event (be_id e) (be_task_id e) (be_type e) sequence (be_payload e) (be_timestamp e) in
        if be_type e \<in> set ENDING_EVENTS
        then (case st of
                None \<Rightarrow> ([frame], Some (TaskNotFoundError tid))
              | Some s \<Rightarrow>
                  if s \<in> set SETTLED_STATUSES then ([frame, Sse_End tid highest'], None)
                  else (case follow tid highest' ins of (frames, err) \<Rightarrow> (frame # frames, err)))
        else (case follow tid highest' ins of (frames, err) \<Rightarrow> (frame # frames, err)))"

definition replay_frame :: "pystr \<Rightarrow> task_event \<Rightarrow> sse" where
  "replay_frame tid e = Sse_Event (e_id e) tid (e_type e) (int (e_sequence e)) (e_payload e) (e_created_at e)"

definition stream_events ::
  "pystr \<Rightarrow> int \<Rightarrow> (stream_input \<times> task_status option) list \<Rightarrow> (sse list \<times> py_error option) http io" where
  "stream_events tid after_sequence ins =
     mbind (found_or_404 tid (mbind (events_since tid after_sequence) (\<lambda>es. ret (Http_Ok 200 es)))) (\<lambda>response.
     case response of
       Http_Error code msg \<Rightarrow> ret (Http_Error code msg)
     | Http_Ok _ replay \<Rightarrow>
         mbind (service_get tid) (\<lambda>task.
         let highest = fold max (map (int \<circ> e_sequence) replay) after_sequence;
             frames = map (replay_frame tid) replay in
         if t_status task \<in> set SETTLED_STATUSES then ret (Http_Ok 200 (frames @ [Sse_End tid highest], None))
         else case follow tid highest ins of (rest, err) \<Rightarrow> ret (Http_Ok 200 (frames @ rest, err))))"

section \<open>Submission\<close>

definition queue_kept :: "world \<Rightarrow> world \<Rightarrow> bool" where
  "queue_kept w w' \<longleftrightarrow> w_queue w' = w_queue w"

interpretation queue_order: effect_order queue_kept
  by unfold_locales (simp_all add: queue_kept_def)

lemma queue_kept_create: "stays queue_kept (create_task url path issue by_who key)"
proof -
  have leaves: "stays queue_kept (ask f)" "stays queue_kept (on_db g)"
    "stays queue_kept (publish_task_event tid ty pl)" for f g tid ty pl
    using publish_task_event_effect(4) by (simp_all add: stays_def queue_kept_def ask_def on_db_def)
  show ?thesis
    unfolding create_task_def replay_key_def insert_task_def new_task_id_def new_id_def utcnow_def
    by (auto intro!: queue_order.stays_rules leaves split: option.split prod.split)
qed

lemma task_get_self: "task_get d x = Some t \<Longrightarrow> task_get d (t_id t) = Some t"
  using task_get_in by fastforce

lemma create_task_cases:
  assumes "in_transaction (create_task url path issue by_who key) w = (res, w')"
  shows "case res of
     Inr (t, True) \<Rightarrow> task_get (w_db w') (t_id t) = Some t \<and> t_status t = QUEUED \<and> task_get (w_db w) (t_id t) = None
       \<and> w_queue w' = w_queue w
   | Inr (t, False) \<Rightarrow> w' = w \<and> task_get (w_db w) (t_id t) = Some t
   | Inl e \<Rightarrow> w_db w' = w_db w \<and> w_queue w' = w_queue w"
proof -
  obtain r v where run: "create_task url path issue by_who key w = (r, v)" by fastforce
  show ?thesis
  proof (cases r)
    case (Inr tc)
    then obtain t c where tc: "r = Inr (t, c)" by (cases tc) auto
    with assms run have w': "res = Inr (t, c)" "w' = v" by (simp_all add: in_transaction_def)
    show ?thesis
    proof (cases c)
      case True
      with create_task_created run tc w' show ?thesis by fastforce
    next
      case False
      then have "v = w \<and> task_get (w_db w) (t_id t) = Some t"
        using run tc unfolding create_task_def replay_key_def
        by (auto elim!: mbind_InrD split: option.splits if_splits dest: task_get_self)
      with False w' show ?thesis by simp
    qed
  next
    case (Inl e)
    have "w_queue v = w_queue w"
      using queue_kept_create run by (metis queue_kept_def snd_conv stays_def)
    with Inl assms run show ?thesis by (auto simp: in_transaction_def)
  qed
qed

text \<open>
  C8: what an answer to a submission means, comparing store and queue before the request with store
  and queue after its background task. With a 202 the named task was not there before, is stored
  QUEUED, and its id is the one new entry, at the end of the queue; a 200 names a stored task and
  nothing has changed; with 409 and 422, and when the handler raises, neither store nor queue has
  changed. There are no other answers.
\<close>

theorem submission_answers:
  "case post_task rq key w of
     (Inr (Http_Ok code (tid, st)), w') \<Rightarrow>
       code = 202 \<and> task_get (w_db w) tid = None \<and> map_option t_status (task_get (w_db w') tid) = Some QUEUED
         \<and> q_queue (w_queue w') = q_queue (w_queue w) @ [tid]
       \<or> code = 200 \<and> w' = w \<and> map_option t_status (task_get (w_db w) tid) = Some st
   | (Inr (Http_Error code msg), w') \<Rightarrow> code \<in> {409, 422} \<and> w_db w' = w_db w \<and> w_queue w' = w_queue w
   | (Inl e, w') \<Rightarrow> w_db w' = w_db w \<and> w_queue w' = w_queue w"
proof (cases "length (cq_issue rq) < MIN_ISSUE_LENGTH")
  case False
  let ?m = "in_transaction (create_task (cq_repository rq) (cq_repository_path rq) (cq_issue rq) (cq_created_by rq) key)"
  obtain res w' where run: "?m w = (res, w')" by fastforce
  note cases = create_task_cases [OF run]
  show ?thesis
  proof (cases res)
    case (Inl e)
    with cases run False show ?thesis
      by (cases e) (simp_all add: post_task_def mbind_def catch_def)
  next
    case (Inr tc)
    obtain t c where tc: "tc = (t, c)" by fastforce
    with Inr cases run False show ?thesis
      by (cases c) (simp_all add: post_task_def mbind_def catch_def unless_def enqueue_def queue_publish_def)
  qed
qed (simp add: post_task_def)

section \<open>The stream replays, then follows, and never repeats\<close>

fun event_sequences :: "sse list \<Rightarrow> int list" where
  "event_sequences [] = []"
| "event_sequences (Sse_Event i tid ty sequence pl moment # fs) = sequence # event_sequences fs"
| "event_sequences (Sse_End tid sequence # fs) = event_sequences fs"
| "event_sequences (Sse_Heartbeat # fs) = event_sequences fs"

lemma event_sequences_append [simp]: "event_sequences (xs @ ys) = event_sequences xs @ event_sequences ys"
  by (induction xs rule: event_sequences.induct) simp_all

lemma event_sequences_replay [simp]: "event_sequences (map (replay_frame tid) es) = map (int \<circ> e_sequence) es"
  by (induction es) (simp_all add: replay_frame_def)

text \<open>
  The numbers a stream sends, without the zeros: an event with the number zero has no place in the
  log, and the stream passes it on without comparing it.
\<close>

definition log_numbers :: "sse list \<Rightarrow> int list" where
  "log_numbers frames = filter (\<lambda>n. n \<noteq> 0) (event_sequences frames)"

lemma log_numbers_Cons:
  "log_numbers (Sse_Event i tid ty n pl moment # fs) = (if n = 0 then log_numbers fs else n # log_numbers fs)"
  "log_numbers (Sse_End tid n # fs) = log_numbers fs" "log_numbers (Sse_Heartbeat # fs) = log_numbers fs" "log_numbers [] = []"
  by (simp_all add: log_numbers_def)

definition climbs :: "int \<Rightarrow> int list \<Rightarrow> bool" where
  "climbs highest ns \<longleftrightarrow> sorted_wrt (<) ns \<and> list_all ((<) highest) ns"

lemma climbs_Cons: "climbs m ns \<Longrightarrow> m = max highest n \<Longrightarrow> n \<noteq> 0 \<Longrightarrow> highest < n \<Longrightarrow> climbs highest (n # ns)"
  by (auto simp: climbs_def list_all_iff max_def)

lemma climbs_mono: "climbs m ns \<Longrightarrow> highest \<le> m \<Longrightarrow> climbs highest ns"
  by (auto simp: climbs_def list_all_iff)

lemma climbs_Nil [simp]: "climbs highest []"
  by (simp add: climbs_def)

lemma climbs_follow: "climbs highest (log_numbers (fst (follow tid highest ins)))"
proof (induction ins arbitrary: highest)
  case (Cons a ins)
  obtain i st where a: "a = (i, st)" by fastforce
  show ?case
  proof (cases i)
    case (Live e)
    let ?n = "int (be_sequence e)" and ?h = "max highest (int (be_sequence e))"
    obtain frames err where rest: "follow tid ?h ins = (frames, err)" by fastforce
    have frames: "climbs ?h (log_numbers frames)" using Cons.IH [of ?h] rest by simp
    have sent: "climbs highest (if ?n = 0 then ns else ?n # ns)" if "climbs ?h ns" "\<not> (?n \<noteq> 0 \<and> ?n \<le> highest)" for ns
      using that by (cases "?n = 0") (auto intro: climbs_mono climbs_Cons)
    show ?thesis
    proof (cases "?n \<noteq> 0 \<and> ?n \<le> highest")
      case True
      with Cons.IH [of highest] a Live show ?thesis by simp
    next
      case False
      note new = sent [OF frames False] sent [OF climbs_Nil False]
      show ?thesis
        using False new rest
        by (cases "be_type e \<in> set ENDING_EVENTS"; cases st)
          (simp_all only: a Live follow.simps Let_def if_False if_True option.case prod.case fst_conv log_numbers_Cons split: if_splits, simp_all)
    qed
  next
    case Silence
    obtain frames err where "follow tid highest ins = (frames, err)" by fastforce
    with Silence Cons.IH [of highest] a show ?thesis by (simp add: log_numbers_Cons)
  qed (simp_all add: a log_numbers_Cons)
qed (simp add: log_numbers_Cons)

lemma fold_max_ge: "(a :: int) \<le> fold max xs a \<and> (\<forall>x \<in> set xs. x \<le> fold max xs a)"
proof (induction xs arbitrary: a)
  case (Cons x xs)
  from Cons.IH [of "max x a"] show ?case by auto
qed simp

text \<open>
  C9: a stream replays what the client has not seen and does not repeat the log. For a client that
  gives the number it has seen last, the stream begins with exactly the stored events of the task
  with higher numbers, in the order of their numbers, whatever the subscription delivers later. Of
  the events it then passes on, those with a number of the log come with strictly increasing numbers,
  each higher than the client's and than every replayed one, so none of them is sent twice; events
  with the number zero are passed on as they come. When the log is numbered without gaps the
  replayed numbers are strictly increasing as well, and a client that has seen \<open>k\<close> events gets all
  but the first \<open>k\<close>.
\<close>

theorem stream_replays_without_repeats:
  assumes "task_get (w_db w) tid = Some t"
  shows "\<exists>replay rest err.
      stream_events tid after_sequence ins w = (Inr (Http_Ok 200 (map (replay_frame tid) replay @ rest, err)), w)
    \<and> mset replay = mset (filter (\<lambda>e. after_sequence < int (e_sequence e)) (events_of tid (w_db w)))
    \<and> sorted_wrt (\<le>) (map e_sequence replay)
    \<and> sorted_wrt (<) (log_numbers rest)
    \<and> (\<forall>n \<in> set (log_numbers rest). after_sequence < n \<and> (\<forall>e \<in> set replay. int (e_sequence e) < n))
    \<and> (well_sequenced (w_db w) \<longrightarrow> sorted_wrt (<) (map e_sequence replay)
        \<and> (\<forall>k. after_sequence = int k \<longrightarrow> replay = drop k (events_of tid (w_db w))))"
proof -
  let ?es = "event_list (w_db w) tid after_sequence"
  let ?h = "fold max (map (int \<circ> e_sequence) ?es) after_sequence"
  obtain rest err where f: "follow tid ?h ins = (rest, err)" by fastforce
  let ?rest = "if t_status t \<in> set SETTLED_STATUSES then [Sse_End tid ?h] else rest"
  let ?err = "if t_status t \<in> set SETTLED_STATUSES then None else err"
  have run: "stream_events tid after_sequence ins w = (Inr (Http_Ok 200 (map (replay_frame tid) ?es @ ?rest, ?err)), w)"
    using f assms
    by (simp add: stream_events_def events_since_def found_or_404_def mbind_def catch_def service_get_apply Let_def)
  have sent: "mset ?es = mset (filter (\<lambda>e. after_sequence < int (e_sequence e)) (events_of tid (w_db w)))"
    "sorted_wrt (\<le>) (map e_sequence ?es)"
    by (simp_all add: event_list_def)
  have "sorted_wrt (<) (log_numbers ?rest) \<and> (\<forall>n \<in> set (log_numbers ?rest). ?h < n)"
    using climbs_follow [of ?h tid ins] f by (simp add: climbs_def list_all_iff log_numbers_Cons)
  then have live: "sorted_wrt (<) (log_numbers ?rest)"
    "\<forall>n \<in> set (log_numbers ?rest). after_sequence < n \<and> (\<forall>e \<in> set ?es. int (e_sequence e) < n)"
    using fold_max_ge [of after_sequence "map (int \<circ> e_sequence) ?es"] by fastforce+
  have "sorted_wrt (<) (map e_sequence ?es)" if "well_sequenced (w_db w)"
  proof -
    have "distinct (map e_sequence (events_of tid (w_db w)))" using that by (simp add: well_sequenced_def del: upt_Suc)
    then have "distinct (map e_sequence ?es)" by (auto simp: event_list_def distinct_map intro: inj_on_subset)
    with sent(2) show ?thesis by (simp add: strict_sorted_iff)
  qed
  then show ?thesis
    using run sent live event_list_drop [where d = "w_db w" and tid = tid]
    by (intro exI [of _ ?es] exI [of _ ?rest] exI [of _ ?err]) simp
qed

text \<open>
  A task with two stored events, read again by a client that has seen the first, with a repeated
  event, one without a number and a new one on the subscription.
\<close>

definition streamed_world :: world where
  "streamed_world = sample_world\<lparr>w_db := snd (event_append ''e2'' 8 ''TASK-1'' Ev_TASK_CLAIMED []
     (snd (event_append ''e1'' 7 ''TASK-1'' Ev_TASK_CREATED [] (w_db sample_world))))\<rparr>"

definition live_event :: "nat \<Rightarrow> stream_input \<times> task_status option" where
  "live_event n = (Live \<lparr>be_task_id = ''TASK-1'', be_type = Ev_TASK_CLAIMED, be_payload = [], be_sequence = n,
     be_id = ''e'', be_timestamp = 9\<rparr>, Some QUEUED)"

theorem stream_replays_without_repeats_witness:
  "\<exists>replay rest err. stream_events ''TASK-1'' 1 [live_event 2, live_event 0, live_event 3] streamed_world
       = (Inr (Http_Ok 200 (map (replay_frame ''TASK-1'') replay @ rest, err)), streamed_world)
    \<and> mset replay = mset (filter (\<lambda>e. 1 < int (e_sequence e)) (events_of ''TASK-1'' (w_db streamed_world)))
    \<and> sorted_wrt (<) (log_numbers rest)"
proof -
  have task: "task_get (w_db streamed_world) ''TASK-1'' = Some sample_task"
    by (simp add: task_get_def streamed_world_def event_append_def event_insert_def Let_def sample_world_def sample_task_def new_task_row_def)
  from stream_replays_without_repeats [OF task, of 1 "[live_event 2, live_event 0, live_event 3]"] show ?thesis by blast
qed

section \<open>What a stream can lose\<close>

text \<open>
  The stored events are read before the live channel is subscribed to, and pub/sub keeps nothing. An
  event that is stored and published between the two is in neither: if the first event the
  subscription delivers is a later one, it is sent, and the missing one never is.
\<close>

lemma missed_event_is_not_sent:
  assumes "0 \<le> highest" and "highest + 1 < int (be_sequence e)"
  shows "highest + 1 \<notin> set (event_sequences (fst (follow tid highest ((Live e, st) # ins))))"
proof -
  have "highest < int (be_sequence e)" using assms(2) by simp
  then have "\<exists>frames. log_numbers (fst (follow tid highest ((Live e, st) # ins))) = int (be_sequence e) # frames"
    using assms(1) by (cases "be_type e \<in> set ENDING_EVENTS"; cases st) (auto simp: log_numbers_def Let_def split: prod.split)
  then obtain frames where
    f: "log_numbers (fst (follow tid highest ((Live e, st) # ins))) = int (be_sequence e) # frames" by blast
  from climbs_follow [of highest tid "(Live e, st) # ins"] have "list_all ((<) (int (be_sequence e))) frames"
    unfolding f by (simp add: climbs_def list_all_iff)
  with f assms(2) have "highest + 1 \<notin> set (log_numbers (fst (follow tid highest ((Live e, st) # ins))))"
    by (auto simp: list_all_iff)
  with assms(1) show ?thesis by (auto simp: log_numbers_def)
qed

text \<open>
  A rejection settles the task, but its event is not one after which the stream looks at the stored
  status: a client that follows the task when it is rejected receives the event, and then heartbeats
  for as long as it stays connected.
\<close>

lemma rejected_stream_stays_open:
  assumes "be_type e = Ev_APPROVAL_REJECTED" and "highest < int (be_sequence e)"
  shows "follow tid highest ((Live e, Some REJECTED) # replicate n (Silence, Some REJECTED)) =
     (Sse_Event (be_id e) (be_task_id e) (be_type e) (int (be_sequence e)) (be_payload e) (be_timestamp e) # replicate n Sse_Heartbeat, None)
   \<and> REJECTED \<in> set SETTLED_STATUSES"
proof -
  have "follow tid h (replicate n (Silence, Some REJECTED)) = (replicate n Sse_Heartbeat, None)" for h
    by (induction n) simp_all
  with assms show ?thesis
    by (simp add: ENDING_EVENTS_def SETTLED_STATUSES_def TERMINAL_STATUSES_def Let_def)
qed

end
