(* ===== verification/Event_Text.thy ===== *)
theory Event_Text
  imports Api Json_Text Clock
begin

text \<open>
  The text of the event stream: \<open>_sse\<close> of \<open>apps/api/routes/events.py\<close>, and the reader of
  \<open>scripts/submit_task.py\<close>. The reference for reading is the event-stream format: lines \<open>event: \<close> and
  \<open>data: \<close> collect a message, an empty line ends it, other lines are comments.
\<close>

section \<open>Writing\<close>

fun event_name :: "event_type \<Rightarrow> pystr" where
  "event_name Ev_TASK_CREATED = ''TASK_CREATED''"
| "event_name Ev_TASK_CLAIMED = ''TASK_CLAIMED''"
| "event_name Ev_NODE_STARTED = ''NODE_STARTED''"
| "event_name Ev_NODE_COMPLETED = ''NODE_COMPLETED''"
| "event_name Ev_TOOL_CALLED = ''TOOL_CALLED''"
| "event_name Ev_TOOL_COMPLETED = ''TOOL_COMPLETED''"
| "event_name Ev_TOOL_FAILED = ''TOOL_FAILED''"
| "event_name Ev_PLAN_CREATED = ''PLAN_CREATED''"
| "event_name Ev_FILES_DISCOVERED = ''FILES_DISCOVERED''"
| "event_name Ev_RISK_ASSESSED = ''RISK_ASSESSED''"
| "event_name Ev_WORKSPACE_CREATED = ''WORKSPACE_CREATED''"
| "event_name Ev_FILE_CHANGED = ''FILE_CHANGED''"
| "event_name Ev_TESTS_STARTED = ''TESTS_STARTED''"
| "event_name Ev_TESTS_PASSED = ''TESTS_PASSED''"
| "event_name Ev_TEST_FAILED = ''TEST_FAILED''"
| "event_name Ev_DEBUG_ITERATION = ''DEBUG_ITERATION''"
| "event_name Ev_NO_PROGRESS_DETECTED = ''NO_PROGRESS_DETECTED''"
| "event_name Ev_POLICY_EVALUATED = ''POLICY_EVALUATED''"
| "event_name Ev_POLICY_BLOCKED = ''POLICY_BLOCKED''"
| "event_name Ev_COMMIT_CREATED = ''COMMIT_CREATED''"
| "event_name Ev_CI_STARTED = ''CI_STARTED''"
| "event_name Ev_CI_COMPLETED = ''CI_COMPLETED''"
| "event_name Ev_APPROVAL_REQUESTED = ''APPROVAL_REQUESTED''"
| "event_name Ev_APPROVAL_GRANTED = ''APPROVAL_GRANTED''"
| "event_name Ev_APPROVAL_REJECTED = ''APPROVAL_REJECTED''"
| "event_name Ev_PR_CREATED = ''PR_CREATED''"
| "event_name Ev_TASK_COMPLETED = ''TASK_COMPLETED''"
| "event_name Ev_TASK_FAILED = ''TASK_FAILED''"
| "event_name Ev_TASK_CANCELLED = ''TASK_CANCELLED''"

text \<open>The type and the dictionary of a frame; a heartbeat has none.\<close>

fun sse_payload :: "sse \<Rightarrow> (pystr \<times> dict) option" where
  "sse_payload (Sse_Event i tid ty sequence payload moment) =
     Some (event_name ty, [(''id'', JStr i), (''task_id'', JStr tid), (''type'', JStr (event_name ty)),
       (''sequence'', JInt sequence), (''payload'', JObj payload), (''timestamp'', JStr (isoformat moment))])"
| "sse_payload (Sse_End tid sequence) =
     Some (''STREAM_END'', [(''type'', JStr ''STREAM_END''), (''task_id'', JStr tid), (''sequence'', JInt sequence),
       (''payload'', JObj [])])"
| "sse_payload Sse_Heartbeat = None"

definition sse_block :: "pystr \<Rightarrow> dict \<Rightarrow> pystr" where
  "sse_block ty d = ''event: '' @ ty @ [CHR 0x0A] @ ''data: '' @ dumps (JObj d) @ [CHR 0x0A, CHR 0x0A]"

definition sse_text :: "sse \<Rightarrow> pystr" where
  "sse_text frame =
     (case sse_payload frame of
        None \<Rightarrow> '': heartbeat'' @ [CHR 0x0A, CHR 0x0A]
      | Some (ty, d) \<Rightarrow> sse_block ty d)"

section \<open>Reading\<close>

fun sse_lines :: "pystr \<Rightarrow> pystr list \<Rightarrow> pystr list \<Rightarrow> (pystr \<times> pystr) list" where
  "sse_lines ty data [] = []"
| "sse_lines ty data (l # ls) =
     (if l = [] then (if data = [] then [] else [(ty, str_join [CHR 0x0A] (rev data))]) @ sse_lines [] [] ls
      else if starts_with ''event: '' l then sse_lines (drop 7 l) data ls
      else if starts_with ''data: '' l then sse_lines ty (drop 6 l # data) ls
      else sse_lines ty data ls)"

definition sse_parse :: "pystr \<Rightarrow> (pystr \<times> pystr) list" where
  "sse_parse text = sse_lines [] [] (split_char (CHR 0x0A) text)"

text \<open>The loop of \<open>watch\<close>: what it prints of the lines it reads, until a line holds \<open>STREAM_END\<close>.\<close>

fun watch_lines :: "pystr list \<Rightarrow> pystr list" where
  "watch_lines [] = []"
| "watch_lines (line # ls) =
     (if starts_with ''event: '' line then [''  '' @ drop 7 line] else [])
     @ (if contains_sub ''STREAM_END'' line then [] else watch_lines ls)"

section \<open>One line per message\<close>

lemma event_name_line: "CHR 0x0A \<notin> set (event_name ty)"
  by (cases ty) simp_all

text \<open>No scanner of a number passes a line feed, so a number that is read to its end has none.\<close>

lemma digits_keep: "CHR 0x0A \<in> set s \<Longrightarrow> CHR 0x0A \<in> set (dropWhile is_digit s)"
  by (induction s) (auto simp: is_digit_def in_ranges_def)

lemma scan_nat_keeps: "scan_nat s = Some (i, t) \<Longrightarrow> CHR 0x0A \<in> set s \<Longrightarrow> CHR 0x0A \<in> set t"
  using digits_keep [of s]
  by (auto simp: scan_nat_def split: list.splits if_splits)

lemma scan_int_keeps: "scan_int s = Some (i, t) \<Longrightarrow> CHR 0x0A \<in> set s \<Longrightarrow> CHR 0x0A \<in> set t"
  using scan_nat_keeps by (cases s) (auto simp: scan_int_def split: if_splits)

lemma scan_frac_keeps: "scan_frac s = (f, t) \<Longrightarrow> CHR 0x0A \<in> set s \<Longrightarrow> CHR 0x0A \<in> set t"
  using digits_keep
  by (auto simp: scan_frac_def split: list.splits if_splits)

lemma exp_sign_keeps: "CHR 0x0A \<in> set s \<Longrightarrow> CHR 0x0A \<in> set (drop (length (exp_sign s)) s)"
  by (cases s) (auto simp: exp_sign_def)

lemma scan_exp_keeps: "scan_exp s = (e, t) \<Longrightarrow> CHR 0x0A \<in> set s \<Longrightarrow> CHR 0x0A \<in> set t"
  using digits_keep [OF exp_sign_keeps]
  by (auto simp: scan_exp_def Let_def split: list.splits if_splits)

lemma float_line: "float_ok fr f \<Longrightarrow> CHR 0x0A \<notin> set (json_float f)"
proof -
  assume "float_ok fr f"
  then consider "f \<in> set (map fst FLOAT_CONSTANTS)" | "scan_number fr f = Some (JFloat f, [])"
    by (auto simp: float_ok_def)
  then show ?thesis
  proof cases
    case 2
    then have "CHR 0x0A \<notin> set f"
      using scan_int_keeps scan_frac_keeps scan_exp_keeps
      by (fastforce simp: scan_number_def split: option.splits prod.splits)
    then show ?thesis by (simp add: json_float_def FLOAT_CONSTANTS_def)
  qed (auto simp: json_float_def FLOAT_CONSTANTS_def)
qed

lemma string_line: "CHR 0x0A \<notin> set (json_string s)"
  using json_string_printable by (fastforce simp: in_ranges_def)

lemma show_int_line: "CHR 0x0A \<notin> set (show_int i)"
proof -
  have "CHR 0x0A \<notin> set (show_nat n)" for n
    using show_nat_digits [of n] by (auto simp: list_all_iff is_digit_def in_ranges_def)
  then show ?thesis by (simp add: show_int_def)
qed

lemma enclosed_line:
  assumes "\<And>x. x \<in> set xs \<Longrightarrow> CHR 0x0A \<notin> set x" and "a \<noteq> CHR 0x0A" and "b \<noteq> CHR 0x0A"
  shows "CHR 0x0A \<notin> set (enclosed None l a xs b)"
  using assms set_str_join [of "'','' @ item_gap None (Suc l)" xs]
  by (auto simp: enclosed_def margin_def item_gap_def)

lemma dump_line: "storable fr j \<Longrightarrow> CHR 0x0A \<notin> set (dump None l j)"
proof (induction j arbitrary: l)
  case (JArr xs)
  then show ?case by (simp, intro enclosed_line) (auto simp: list_all_iff)
next
  case (JObj kvs)
  then show ?case
    by (simp, intro enclosed_line) (fastforce simp: list_all_iff string_line)+
qed (simp_all add: float_line string_line show_int_line)

section \<open>Reading what was written\<close>

lemma split_block:
  assumes "CHR 0x0A \<notin> set ty" and "CHR 0x0A \<notin> set text"
  shows "split_char (CHR 0x0A) (''event: '' @ ty @ [CHR 0x0A] @ ''data: '' @ text @ [CHR 0x0A, CHR 0x0A] @ rest)
    = (''event: '' @ ty) # (''data: '' @ text) # [] # split_char (CHR 0x0A) rest"
  using assms split_char_cons_sep [of "CHR 0x0A" "''event: '' @ ty"] split_char_cons_sep [of "CHR 0x0A" "''data: '' @ text"]
    split_char_cons_sep [of "CHR 0x0A" "[]"]
  by simp

lemma parse_block:
  assumes "CHR 0x0A \<notin> set ty" and "storable fr (JObj d)"
  shows "sse_parse (sse_block ty d @ rest) = (ty, dumps (JObj d)) # sse_parse rest"
proof -
  have "CHR 0x0A \<notin> set (dumps (JObj d))" unfolding dumps_def using assms(2) by (rule dump_line)
  then have "split_char (CHR 0x0A) (sse_block ty d @ rest)
      = (''event: '' @ ty) # (''data: '' @ dumps (JObj d)) # [] # split_char (CHR 0x0A) rest"
    unfolding sse_block_def append_assoc by (rule split_block [OF assms(1)])
  then show ?thesis by (simp add: sse_parse_def starts_with_def)
qed

lemma parse_heartbeat: "sse_parse (('': heartbeat'' @ [CHR 0x0A, CHR 0x0A]) @ rest) = sse_parse rest"
  using split_char_cons_sep [of "CHR 0x0A" "'': heartbeat''" "CHR 0x0A # rest"] split_char_cons_sep [of "CHR 0x0A" "[]"]
  by (simp add: sse_parse_def starts_with_def)

definition frame_ok :: "(pystr \<Rightarrow> pystr) \<Rightarrow> sse \<Rightarrow> bool" where
  "frame_ok fr frame = (case frame of Sse_Event _ _ _ _ payload _ \<Rightarrow> storable fr (JObj payload) | _ \<Rightarrow> True)"

lemma frame_payload:
  assumes "frame_ok fr frame" and "sse_payload frame = Some (ty, d)"
  shows "storable fr (JObj d)" and "CHR 0x0A \<notin> set ty"
  using assms by (cases frame; auto simp: frame_ok_def event_name_line)+

text \<open>
  C21: the event stream reads back. For every sequence of frames with storable payloads, reading the
  text of the stream by the event-stream format gives one message for each frame but the
  heartbeats, in order, with the type of the event as its name and, as its data, JSON that is read as
  the dictionary of the frame.
\<close>

theorem event_stream_reads_back:
  assumes "list_all (frame_ok fr) frames"
  shows "map (\<lambda>(ty, data). (ty, loads fr data)) (sse_parse (concat (map sse_text frames)))
    = map (\<lambda>(ty, d). (ty, Some (JObj d))) (List.map_filter sse_payload frames)"
  using assms
proof (induction frames)
  case (Cons frame frames)
  show ?case
  proof (cases "sse_payload frame")
    case None
    then have "sse_text frame = '': heartbeat'' @ [CHR 0x0A, CHR 0x0A]" by (simp add: sse_text_def)
    with None Cons show ?thesis by (simp only: list.map concat.simps parse_heartbeat map_filter_simps) simp
  next
    case (Some tyd)
    then obtain ty d where td: "sse_payload frame = Some (ty, d)" by (cases tyd) auto
    with Cons.prems have ok: "storable fr (JObj d)" "CHR 0x0A \<notin> set ty" using frame_payload by auto
    from td have "sse_text frame = sse_block ty d" by (simp add: sse_text_def)
    with td Cons ok show ?thesis
      by (simp only: list.map concat.simps parse_block [OF ok(2,1)] map_filter_simps) (simp add: loads_dumps)
  qed
qed (simp add: sse_parse_def map_filter_simps)

theorem event_stream_reads_back_witness:
  "list_all (frame_ok id) [Sse_Event ''e1'' ''TASK-1'' Ev_TASK_CREATED 1 [(''k'', JStr ''v'')] 0, Sse_Heartbeat, Sse_End ''TASK-1'' 1]
   \<and> map (\<lambda>(ty, data). (ty, loads id data)) (sse_parse (concat (map sse_text
       [Sse_Event ''e1'' ''TASK-1'' Ev_TASK_CREATED 1 [(''k'', JStr ''v'')] 0, Sse_Heartbeat, Sse_End ''TASK-1'' 1])))
     = map (\<lambda>(ty, d). (ty, Some (JObj d))) (List.map_filter sse_payload
       [Sse_Event ''e1'' ''TASK-1'' Ev_TASK_CREATED 1 [(''k'', JStr ''v'')] 0, Sse_Heartbeat, Sse_End ''TASK-1'' 1])"
proof -
  let ?fs = "[Sse_Event ''e1'' ''TASK-1'' Ev_TASK_CREATED 1 [(''k'', JStr ''v'')] 0, Sse_Heartbeat, Sse_End ''TASK-1'' 1]"
  have ok: "list_all (frame_ok id) ?fs" by (simp add: frame_ok_def)
  show ?thesis using ok event_stream_reads_back [OF ok] by (rule conjI)
qed

section \<open>The command-line reader\<close>

text \<open>A frame whose lines do not hold the word the reader stops at.\<close>

definition unremarkable :: "sse \<Rightarrow> bool" where
  "unremarkable frame =
     (case sse_payload frame of
        None \<Rightarrow> True
      | Some (ty, d) \<Rightarrow> \<not> contains_sub ''STREAM_END'' (''event: '' @ ty) \<and> \<not> contains_sub ''STREAM_END'' (''data: '' @ dumps (JObj d)))"

lemma watch_block:
  assumes "CHR 0x0A \<notin> set ty" and "storable fr (JObj d)"
  shows "watch_lines (split_char (CHR 0x0A) (sse_block ty d @ rest)) =
    (''  '' @ ty) # (if contains_sub ''STREAM_END'' (''event: '' @ ty) \<or> contains_sub ''STREAM_END'' (''data: '' @ dumps (JObj d))
      then [] else watch_lines (split_char (CHR 0x0A) rest))"
proof -
  have "CHR 0x0A \<notin> set (dumps (JObj d))" unfolding dumps_def using assms(2) by (rule dump_line)
  then have "split_char (CHR 0x0A) (sse_block ty d @ rest)
      = (''event: '' @ ty) # (''data: '' @ dumps (JObj d)) # [] # split_char (CHR 0x0A) rest"
    unfolding sse_block_def append_assoc by (rule split_block [OF assms(1)])
  moreover have "starts_with ''event: '' (''event: '' @ ty)" "\<not> starts_with ''event: '' (''data: '' @ t)" for t
    by (simp_all add: starts_with_def)
  moreover have "\<not> starts_with ''event: '' []" "\<not> contains_sub ''STREAM_END'' []"
    by (simp_all add: starts_with_def contains_sub_def)
  ultimately show ?thesis by (simp only: watch_lines.simps) auto
qed

text \<open>
  A finding: the reader looks for the word in every line, so that an event whose payload mentions it
  ends the watch although the stream goes on.
\<close>

lemma watch_stops_early:
  assumes "CHR 0x0A \<notin> set ty" and "storable fr (JObj d)" and "contains_sub ''STREAM_END'' (''data: '' @ dumps (JObj d))"
  shows "watch_lines (split_char (CHR 0x0A) (sse_block ty d @ rest)) = [''  '' @ ty]"
  using watch_block [OF assms(1,2)] assms(3) by simp

text \<open>The reader prints the types of the events in order and stops at the end of the stream.\<close>

lemma watch_prints_types:
  assumes "list_all (\<lambda>f. frame_ok fr f \<and> unremarkable f) frames"
  shows "watch_lines (split_char (CHR 0x0A) (concat (map sse_text (frames @ [Sse_End tid n])) @ rest))
    = map (\<lambda>(ty, d). ''  '' @ ty) (List.map_filter sse_payload frames) @ [''  STREAM_END'']"
  using assms
proof (induction frames)
  case Nil
  have "sse_text (Sse_End tid n) = sse_block ''STREAM_END'' (snd (the (sse_payload (Sse_End tid n))))"
    by (simp add: sse_text_def)
  moreover have "storable fr (JObj (snd (the (sse_payload (Sse_End tid n)))))" by simp
  moreover have "contains_sub ''STREAM_END'' (''event: '' @ ''STREAM_END'')" by (simp add: contains_sub_def starts_with_def)
  ultimately show ?case using watch_block [of "''STREAM_END''" fr] by (simp add: map_filter_simps)
next
  case (Cons frame frames)
  let ?tail = "concat (map sse_text (frames @ [Sse_End tid n])) @ rest"
  show ?case
  proof (cases "sse_payload frame")
    case None
    then have "sse_text frame @ ?tail = '': heartbeat'' @ CHR 0x0A # [] @ CHR 0x0A # ?tail" by (simp add: sse_text_def)
    moreover have "split_char (CHR 0x0A) ('': heartbeat'' @ CHR 0x0A # [] @ CHR 0x0A # ?tail)
        = '': heartbeat'' # [] # split_char (CHR 0x0A) ?tail"
      by (subst split_char_cons_sep, simp, subst split_char_cons_sep, simp_all)
    moreover have "watch_lines ('': heartbeat'' # [] # ls) = watch_lines ls" for ls
      by (simp add: starts_with_def contains_sub_def)
    ultimately show ?thesis using None Cons by (simp only: list.map append_Cons concat.simps append_assoc map_filter_simps) simp
  next
    case (Some tyd)
    then obtain ty d where td: "sse_payload frame = Some (ty, d)" by (cases tyd) auto
    with Cons.prems have ok: "storable fr (JObj d)" "CHR 0x0A \<notin> set ty" using frame_payload by auto
    from td have "sse_text frame = sse_block ty d" by (simp add: sse_text_def)
    with td Cons ok watch_block [OF ok(2,1), of ?tail] show ?thesis
      by (simp only: list.map append_Cons concat.simps append_assoc map_filter_simps)
         (simp add: unremarkable_def)
  qed
qed

end
