(* ===== verification/Column_Types.thy ===== *)
theory Column_Types
  imports Json_Text
begin

text \<open>
  The portable column types (\<open>persistence/models/types.py\<close>): timestamps that are always aware and in
  UTC, JSON columns with a default, and embeddings. What the database does with a timestamp between
  \<open>process_bind_param\<close> and \<open>process_result_value\<close> is the parameter \<open>column\<close>; text columns return what
  was written. Times are in microseconds; \<open>fr\<close> is \<open>repr(float(text))\<close> as in the theory of JSON text.
\<close>

section \<open>Timestamps\<close>

text \<open>A \<open>datetime\<close>: what the clock face shows, and the offset from UTC unless it is naive.\<close>

record datetime =
  dt_wall :: int
  dt_tzinfo :: "int option"

definition aware :: "datetime \<Rightarrow> bool" where
  "aware d \<longleftrightarrow> dt_tzinfo d \<noteq> None"

text \<open>The instant a datetime stands for; a naive one is taken as UTC.\<close>

definition instant :: "datetime \<Rightarrow> int" where
  "instant d = dt_wall d - get_default 0 (dt_tzinfo d)"

definition as_utc :: "datetime \<Rightarrow> datetime" where
  "as_utc d = (if aware d then d else d\<lparr>dt_tzinfo := Some 0\<rparr>)"

definition utc_bind :: "datetime option \<Rightarrow> datetime option" where
  "utc_bind v =
     (case v of None \<Rightarrow> None
      | Some d \<Rightarrow> Some \<lparr>dt_wall = instant (as_utc d), dt_tzinfo = Some 0\<rparr>)"

definition utc_result :: "datetime option \<Rightarrow> datetime option" where
  "utc_result v = (case v of None \<Rightarrow> None | Some d \<Rightarrow> Some (as_utc d))"

text \<open>\<open>a < b\<close> on datetimes: an aware and a naive one cannot be compared.\<close>

definition datetime_less :: "datetime \<Rightarrow> datetime \<Rightarrow> bool result" where
  "datetime_less a b =
     (if aware a \<noteq> aware b then Inl (OtherError ''TypeError'' ''can't compare offset-naive and offset-aware datetimes'')
      else Inr (instant a < instant b))"

text \<open>
  A timestamp column: PostgreSQL returns an aware datetime of the same instant, SQLite the same clock
  face without its offset.
\<close>

definition timestamp_column :: "(datetime \<Rightarrow> datetime) \<Rightarrow> bool" where
  "timestamp_column column \<longleftrightarrow>
     (\<forall>d. aware (column d) \<and> instant (column d) = instant d \<or> column d = d\<lparr>dt_tzinfo := None\<rparr>)"

definition sqlite_column :: "datetime \<Rightarrow> datetime" where
  "sqlite_column d = d\<lparr>dt_tzinfo := None\<rparr>"

text \<open>
  C27: timestamps survive the database. Whatever of the two the database does, a value that is written
  and read back is aware and stands for the instant that was written, an absent one stays absent, and
  comparing it with an aware time, as the lease queries do, never raises and compares the instants.
\<close>

theorem timestamp_round_trip:
  assumes "timestamp_column column" and "aware now"
  shows "case utc_result (map_option column (utc_bind v)) of
      None \<Rightarrow> v = None
    | Some d \<Rightarrow> aware d \<and> map_option instant v = Some (instant d)
        \<and> datetime_less d now = Inr (instant d < instant now)"
proof (cases v)
  case (Some d)
  let ?b = "\<lparr>dt_wall = instant (as_utc d), dt_tzinfo = Some 0\<rparr>"
  have "instant (as_utc d) = instant d" by (auto simp: as_utc_def instant_def aware_def)
  then have "aware (as_utc (column ?b)) \<and> instant (as_utc (column ?b)) = instant d"
    using assms(1) [unfolded timestamp_column_def, rule_format, of ?b]
    by (auto simp: as_utc_def aware_def instant_def)
  with Some assms(2) show ?thesis
    by (simp add: utc_bind_def utc_result_def datetime_less_def)
qed (simp add: utc_bind_def utc_result_def)

theorem timestamp_round_trip_witness:
  "utc_result (map_option sqlite_column (utc_bind (Some \<lparr>dt_wall = 10, dt_tzinfo = Some 4\<rparr>)))
     = Some \<lparr>dt_wall = 6, dt_tzinfo = Some 0\<rparr>
   \<and> datetime_less \<lparr>dt_wall = 6, dt_tzinfo = Some 0\<rparr> \<lparr>dt_wall = 7, dt_tzinfo = Some 0\<rparr> = Inr True"
proof -
  have "timestamp_column sqlite_column" by (simp add: timestamp_column_def sqlite_column_def)
  from timestamp_round_trip [OF this, of "\<lparr>dt_wall = 7, dt_tzinfo = Some 0\<rparr>" "Some \<lparr>dt_wall = 10, dt_tzinfo = Some 4\<rparr>"]
  show ?thesis by (simp add: utc_bind_def utc_result_def sqlite_column_def as_utc_def aware_def instant_def)
qed

section \<open>JSON columns\<close>

text \<open>Python's \<open>None\<close>, the JSON null, is stored as SQL's NULL and read as the column's default.\<close>

definition json_bind :: "json \<Rightarrow> pystr option" where
  "json_bind v = (if v = JNull then None else Some (dumps v))"

definition json_result :: "(pystr \<Rightarrow> pystr) \<Rightarrow> json \<Rightarrow> pystr option \<Rightarrow> json result" where
  "json_result fr d v =
     (case v of
        None \<Rightarrow> Inr d
      | Some text \<Rightarrow> (case loads fr text of
            None \<Rightarrow> Inl (OtherError ''JSONDecodeError'' text)
          | Some j \<Rightarrow> Inr j))"

definition JsonList_default :: json where
  "JsonList_default = JArr []"

definition JsonDict_default :: json where
  "JsonDict_default = JObj []"

section \<open>Embeddings\<close>

text \<open>A vector is a list of floats, each as its \<open>repr\<close>.\<close>

definition embedding_bind :: "pystr list option \<Rightarrow> pystr option" where
  "embedding_bind v = (case v of None \<Rightarrow> None | Some xs \<Rightarrow> Some (dumps (JArr (map JFloat xs))))"

definition embedding_result :: "(pystr \<Rightarrow> pystr) \<Rightarrow> pystr option \<Rightarrow> json option result" where
  "embedding_result fr v =
     (case v of
        None \<Rightarrow> Inr None
      | Some text \<Rightarrow> (case loads fr text of
            None \<Rightarrow> Inl (OtherError ''JSONDecodeError'' text)
          | Some j \<Rightarrow> Inr (Some j)))"

text \<open>
  JSON columns survive the database. A value of a JSON column is read back as it was written,
  whatever text it contains; \<open>None\<close> is read as the column's default. An embedding is read back as the
  same floats, and an absent one as absent.
\<close>

theorem json_columns_round_trip:
  assumes "storable fr v" and "list_all (float_ok fr) xs"
  shows "json_result fr d (json_bind v) = Inr (if v = JNull then d else v)
    \<and> embedding_result fr (embedding_bind (Some xs)) = Inr (Some (JArr (map JFloat xs)))
    \<and> embedding_result fr (embedding_bind None) = Inr None"
proof -
  have "storable fr (JArr (map JFloat xs))" using assms(2) by (simp add: list_all_iff)
  with assms(1) show ?thesis
    by (simp add: json_result_def json_bind_def embedding_result_def embedding_bind_def loads_dumps)
qed

theorem json_columns_round_trip_witness:
  "json_result (\<lambda>f. f) JsonDict_default (json_bind (JObj [(''a'', JArr [JInt (-12), JStr [CHR 0x22, CHR 0x0A]])]))
     = Inr (JObj [(''a'', JArr [JInt (-12), JStr [CHR 0x22, CHR 0x0A]])])
   \<and> embedding_result (\<lambda>f. f) (embedding_bind (Some [''0.5'', ''1e-07''])) = Inr (Some (JArr [JFloat ''0.5'', JFloat ''1e-07'']))"
proof -
  have "scan_number (\<lambda>f. f) ''0.5'' = Some (JFloat ''0.5'', [])" "scan_number (\<lambda>f. f) ''1e-07'' = Some (JFloat ''1e-07'', [])"
    by (simp_all add: scan_number_def scan_int_def scan_nat_def scan_frac_def scan_exp_def exp_sign_def starts_with_def
        is_digit_def in_ranges_def)
  then have "list_all (float_ok (\<lambda>f. f)) [''0.5'', ''1e-07'']" by (simp add: float_ok_def)
  from json_columns_round_trip [OF _ this, of "JObj [(''a'', JArr [JInt (-12), JStr [CHR 0x22, CHR 0x0A]])]" JsonDict_default]
  show ?thesis by simp
qed

end
