(* ===== verification/Live_Events.thy ===== *)
theory Live_Events
  imports World Json_Text
begin

text \<open>
  The live event bus (\<open>infrastructure/events\<close>): the event and its dictionary (\<open>base.py\<close>), the in-process
  fan-out (\<open>memory_events.py\<close>), and the coding of events on a Redis channel (\<open>redis_events.py\<close>). The
  stored form of an event is \<open>bus_event\<close>; on a channel its type and time are text, the latter by
  \<open>isoformat\<close> (Clock). Redis itself delivers messages, which are inputs here.
\<close>

section \<open>Events\<close>

record event =
  ev_task_id :: pystr
  ev_type :: pystr
  ev_payload :: dict
  ev_sequence :: int
  ev_id :: pystr
  ev_timestamp :: pystr

definition to_dict :: "event \<Rightarrow> dict" where
  "to_dict e = [(''task_id'', JStr (ev_task_id e)), (''type'', JStr (ev_type e)), (''payload'', JObj (ev_payload e)),
     (''sequence'', JInt (ev_sequence e)), (''id'', JStr (ev_id e)), (''timestamp'', JStr (ev_timestamp e))]"

text \<open>
  \<open>Event(**payload)\<close>: an unknown or missing argument is a \<open>TypeError\<close>; absent optional fields take
  their defaults, of which the identifier and the time are fresh. Nothing checks the types of the
  fields, so the object is kept as the dictionary of its fields.
\<close>

definition event_of_kwargs :: "pystr \<Rightarrow> pystr \<Rightarrow> json \<Rightarrow> dict result" where
  "event_of_kwargs fresh_id now payload =
     (case payload of
        JObj p \<Rightarrow>
          if \<not> list_all (\<lambda>(k, v). k \<in> {''task_id'', ''type'', ''payload'', ''sequence'', ''id'', ''timestamp''}) p
          then Inl (OtherError ''TypeError'' ''unexpected keyword argument'')
          else if dict_get p ''task_id'' = None \<or> dict_get p ''type'' = None
          then Inl (OtherError ''TypeError'' ''missing required argument'')
          else Inr (map (\<lambda>(k, d). (k, get_default d (dict_get p k)))
            [(''task_id'', JNull), (''type'', JNull), (''payload'', JObj []), (''sequence'', JInt 0),
             (''id'', JStr fresh_id), (''timestamp'', JStr now)])
      | _ \<Rightarrow> Inl (OtherError ''TypeError'' ''argument after ** must be a mapping''))"

section \<open>The in-process bus\<close>

text \<open>
  Each task with subscribers has a set of queues, here a list; a queue is named by a number. Receiving
  from an empty queue waits.
\<close>

type_synonym 'e memory_bus = "pystr \<rightharpoonup> (nat \<times> 'e list) list"

definition empty_bus :: "'e memory_bus" where
  "empty_bus = (\<lambda>_. None)"

definition bus_publish :: "pystr \<Rightarrow> 'e \<Rightarrow> 'e memory_bus \<Rightarrow> 'e memory_bus" where
  "bus_publish tid e b =
     (case b tid of None \<Rightarrow> b | Some qs \<Rightarrow> b(tid \<mapsto> map (\<lambda>(i, q). (i, q @ [e])) qs))"

definition bus_subscribe :: "pystr \<Rightarrow> nat \<Rightarrow> 'e memory_bus \<Rightarrow> 'e memory_bus" where
  "bus_subscribe tid i b = b(tid \<mapsto> get_default [] (b tid) @ [(i, [])])"

definition queue_at :: "pystr \<Rightarrow> nat \<Rightarrow> 'e memory_bus \<Rightarrow> 'e list option" where
  "queue_at tid i b = (case b tid of None \<Rightarrow> None | Some qs \<Rightarrow> map_of qs i)"

definition bus_next :: "pystr \<Rightarrow> nat \<Rightarrow> 'e memory_bus \<Rightarrow> 'e option \<times> 'e memory_bus" where
  "bus_next tid i b =
     (case get_default [] (queue_at tid i b) of
        [] \<Rightarrow> (None, b)
      | e # q \<Rightarrow> (Some e, b(tid \<mapsto> map (\<lambda>(j, p). if j = i then (j, q) else (j, p)) (get_default [] (b tid)))))"

definition bus_close :: "pystr \<Rightarrow> nat \<Rightarrow> 'e memory_bus \<Rightarrow> 'e memory_bus" where
  "bus_close tid i b =
     (case b tid of
        None \<Rightarrow> b
      | Some [] \<Rightarrow> b
      | Some qs \<Rightarrow> (let rest = filter (\<lambda>(j, q). j \<noteq> i) qs in if rest = [] then b(tid := None) else b(tid \<mapsto> rest)))"

section \<open>The Redis channel\<close>

definition channel :: "pystr \<Rightarrow> pystr \<Rightarrow> pystr" where
  "channel channel_prefix tid = channel_prefix @ '':'' @ tid"

definition redis_publish :: "pystr \<Rightarrow> event \<Rightarrow> pystr \<times> pystr" where
  "redis_publish channel_prefix e = (channel channel_prefix (ev_task_id e), dumps (JObj (to_dict e)))"

text \<open>
  The messages of a subscription, each with its type and data, and the defaults an event without them
  would get. The result is what is yielded, and the error that ended the iteration.
\<close>

fun redis_subscribe :: "(pystr \<Rightarrow> pystr) \<Rightarrow> pystr \<Rightarrow> pystr \<Rightarrow> (pystr \<times> pystr) list \<Rightarrow> dict list \<times> py_error option" where
  "redis_subscribe fr fresh_id now [] = ([], None)"
| "redis_subscribe fr fresh_id now ((ty, data) # ms) =
     (if ty \<noteq> ''message'' then redis_subscribe fr fresh_id now ms
      else case loads fr data of
        None \<Rightarrow> redis_subscribe fr fresh_id now ms
      | Some payload \<Rightarrow>
          (case event_of_kwargs fresh_id now payload of
             Inl err \<Rightarrow> ([], Some err)
           | Inr e \<Rightarrow> (case redis_subscribe fr fresh_id now ms of (es, err) \<Rightarrow> (e # es, err))))"

section \<open>Every subscriber gets the events of its task\<close>

text \<open>What happens on the bus, and what each queue has given to its reader.\<close>

datatype 'e bus_op =
    Publish pystr 'e
  | Subscribe pystr nat
  | Read pystr nat
  | Close pystr nat

fun bus_step :: "'e bus_op \<Rightarrow> 'e memory_bus \<times> (pystr \<times> nat \<Rightarrow> 'e list) \<Rightarrow> 'e memory_bus \<times> (pystr \<times> nat \<Rightarrow> 'e list)" where
  "bus_step (Publish tid e) (b, got) = (bus_publish tid e b, got)"
| "bus_step (Subscribe tid i) (b, got) = (bus_subscribe tid i b, got)"
| "bus_step (Read tid i) (b, got) =
     (case bus_next tid i b of
        (None, b') \<Rightarrow> (b', got)
      | (Some e, b') \<Rightarrow> (b', got((tid, i) := got (tid, i) @ [e])))"
| "bus_step (Close tid i) (b, got) = (bus_close tid i b, got)"

fun published :: "pystr \<Rightarrow> 'e bus_op list \<Rightarrow> 'e list" where
  "published tid [] = []"
| "published tid (Publish t e # ops) = (if t = tid then e # published tid ops else published tid ops)"
| "published tid (_ # ops) = published tid ops"

lemma map_of_update: "map_of (map (\<lambda>(j, p). if j = i then (j, q) else (j, p)) qs) k =
    (if k = i \<and> map_of qs i \<noteq> None then Some q else map_of qs k)"
  by (induction qs) auto

lemma map_of_all: "map_of (map (\<lambda>(j, q). (j, f q)) qs) k = map_option f (map_of qs k)"
  by (induction qs) auto

lemma map_of_remove: "k \<noteq> i \<Longrightarrow> map_of (filter (\<lambda>(j, q). j \<noteq> i) qs) k = map_of qs k"
  by (induction qs) auto

lemma queue_at_publish:
  "queue_at tid i (bus_publish t e b) = map_option (\<lambda>q. q @ (if t = tid then [e] else [])) (queue_at tid i b)"
proof (cases "b t")
  case None
  then show ?thesis by (auto simp: queue_at_def bus_publish_def option.map_ident split: option.split)
next
  case (Some qs)
  then show ?thesis
    by (cases "t = tid") (auto simp: queue_at_def bus_publish_def map_of_all option.map_ident split: option.split)
qed

lemma queue_at_subscribe:
  "queue_at tid i b = Some q \<Longrightarrow> queue_at tid i (bus_subscribe t j b) = Some q"
  by (auto simp: queue_at_def bus_subscribe_def map_add_def split: option.splits)

lemma queue_at_new: "queue_at tid i b = None \<Longrightarrow> queue_at tid i (bus_subscribe tid i b) = Some []"
  by (auto simp: queue_at_def bus_subscribe_def map_add_def split: option.splits)

lemma queue_at_close: "(t, j) \<noteq> (tid, i) \<Longrightarrow> queue_at tid i b = Some q \<Longrightarrow> queue_at tid i (bus_close t j b) = Some q"
proof -
  assume ne: "(t, j) \<noteq> (tid, i)" and q: "queue_at tid i b = Some q"
  show "queue_at tid i (bus_close t j b) = Some q"
  proof (cases "t = tid")
    case True
    obtain qs where qs: "b tid = Some qs" "map_of qs i = Some q" using q by (auto simp: queue_at_def split: option.splits)
    with True ne have "map_of (filter (\<lambda>(k, q). k \<noteq> j) qs) i = Some q" by (simp add: map_of_remove)
    then have "filter (\<lambda>(k, q). k \<noteq> j) qs \<noteq> []" by (metis map_of.simps(1) option.distinct(1))
    with True qs \<open>map_of (filter _ qs) i = Some q\<close> show ?thesis
      by (cases qs) (simp_all add: bus_close_def queue_at_def Let_def)
  next
    case False
    with q show ?thesis by (auto simp: bus_close_def queue_at_def Let_def split: option.splits list.splits)
  qed
qed

lemma queue_at_next:
  assumes "queue_at tid i b = Some q"
  shows "case bus_next t j b of
      (None, b') \<Rightarrow> queue_at tid i b' = Some q
    | (Some e, b') \<Rightarrow> if (t, j) = (tid, i) then \<exists>r. q = e # r \<and> queue_at tid i b' = Some r else queue_at tid i b' = Some q"
proof (cases "get_default [] (queue_at t j b)")
  case Nil
  with assms show ?thesis by (simp add: bus_next_def)
next
  case (Cons e r)
  then obtain qs where "b t = Some qs" "map_of qs j = Some (e # r)"
    by (cases "queue_at t j b") (auto simp: queue_at_def split: option.splits)
  with Cons assms show ?thesis
    by (auto simp: bus_next_def queue_at_def map_of_update split: option.splits)
qed

definition has_seen :: "pystr \<Rightarrow> nat \<Rightarrow> 'e list \<Rightarrow> 'e memory_bus \<times> (pystr \<times> nat \<Rightarrow> 'e list) \<Rightarrow> bool" where
  "has_seen tid i es s \<longleftrightarrow> map_option (\<lambda>q. snd s (tid, i) @ q) (queue_at tid i (fst s)) = Some es"

lemma published_append: "published tid (xs @ ys) = published tid xs @ published tid ys"
  by (induction tid xs rule: published.induct) simp_all

lemma bus_step_seen:
  assumes "has_seen tid i es (b, got)" and "op \<noteq> Close tid i"
  shows "has_seen tid i (es @ published tid [op]) (bus_step op (b, got))"
proof -
  obtain q where q: "queue_at tid i b = Some q" "got (tid, i) @ q = es" using assms(1) by (auto simp: has_seen_def)
  show ?thesis
  proof (cases op)
    case (Read t j)
    obtain x b' where n: "bus_next t j b = (x, b')" by fastforce
    with Read q queue_at_next [OF q(1), of t j] show ?thesis
      by (cases x; cases "(t, j) = (tid, i)") (auto simp: has_seen_def)
  qed (use assms(2) q in \<open>auto simp: has_seen_def queue_at_publish queue_at_subscribe intro: queue_at_close\<close>)
qed

lemma bus_run_seen:
  "has_seen tid i es s \<Longrightarrow> list_all (\<lambda>op. op \<noteq> Close tid i) ops
    \<Longrightarrow> has_seen tid i (es @ published tid ops) (fold bus_step ops s)"
proof (induction ops arbitrary: es s)
  case (Cons op ops)
  then have "has_seen tid i (es @ published tid [op]) (bus_step op s)"
    using bus_step_seen [of tid i es "fst s" "snd s" op] by simp
  from Cons.IH [OF this] Cons.prems(2) show ?case using published_append [of tid "[op]" ops] by simp
qed simp

text \<open>
  C24: a subscriber of the in-process bus gets every event of its task that is published while it is
  subscribed, once, in order, and no other. Whatever publications, subscriptions, reads and
  closings of other subscribers happen in between, what it has read followed by what waits in its
  queue are the events published for its task since it subscribed.
\<close>

theorem subscriber_gets_events_of_task:
  assumes "queue_at tid i b = None" and "list_all (\<lambda>op. op \<noteq> Close tid i) ops"
  shows "case fold bus_step ops (bus_subscribe tid i b, \<lambda>_. []) of
    (b', got) \<Rightarrow> map_option (\<lambda>q. got (tid, i) @ q) (queue_at tid i b') = Some (published tid ops)"
proof -
  have "has_seen tid i [] (bus_subscribe tid i b, \<lambda>_. [])"
    using queue_at_new [OF assms(1)] by (simp add: has_seen_def)
  from bus_run_seen [OF this assms(2)] show ?thesis by (simp add: has_seen_def case_prod_beta)
qed

theorem subscriber_gets_events_of_task_witness:
  "case fold bus_step [Publish ''t'' (1 :: nat), Subscribe ''t'' 8, Publish ''u'' 2, Read ''t'' 7, Publish ''t'' 3, Close ''t'' 8]
      (bus_subscribe ''t'' 7 empty_bus, \<lambda>_. []) of
    (b, got) \<Rightarrow> map_option (\<lambda>q. got (''t'', 7) @ q) (queue_at ''t'' 7 b) = Some [1, 3]"
  using subscriber_gets_events_of_task [of "''t''" 7 "empty_bus :: nat memory_bus"
      "[Publish ''t'' 1, Subscribe ''t'' 8, Publish ''u'' 2, Read ''t'' 7, Publish ''t'' 3, Close ''t'' 8]"]
  by (simp add: queue_at_def empty_bus_def)

section \<open>Events survive the channel\<close>

lemma storable_to_dict: "storable fr (JObj (ev_payload e)) \<Longrightarrow> storable fr (JObj (to_dict e))"
  by (simp add: to_dict_def)

lemma loads_published: "storable fr (JObj (ev_payload e)) \<Longrightarrow> loads fr (dumps (JObj (to_dict e))) = Some (JObj (to_dict e))"
  by (intro loads_dumps storable_to_dict)

lemma event_of_to_dict: "event_of_kwargs fid now (JObj (to_dict e)) = Inr (to_dict e)"
  by (simp add: event_of_kwargs_def to_dict_def dict_get_def)

lemma redis_subscribe_published:
  "list_all (\<lambda>e. storable fr (JObj (ev_payload e))) es
    \<Longrightarrow> redis_subscribe fr fid now (map (\<lambda>e. (''message'', snd (redis_publish pre e))) es) = (map to_dict es, None)"
  by (induction es) (simp_all add: redis_publish_def loads_published event_of_to_dict del: storable.simps)

lemma redis_subscribe_skips:
  "redis_subscribe fr fid now ms
     = redis_subscribe fr fid now (filter (\<lambda>(ty, data). ty = ''message'' \<and> loads fr data \<noteq> None) ms)"
proof (induction ms)
  case (Cons m ms)
  obtain ty data where "m = (ty, data)" by fastforce
  with Cons show ?case
    by (cases "ty = ''message''"; cases "loads fr data") (simp_all split: sum.split)
qed simp

text \<open>
  events survive the Redis channel. A subscriber yields exactly the events that were published,
  field by field and in order, whatever their payloads contain, and skips every message that is a
  confirmation or is not JSON; and tasks do not share channels.
\<close>

theorem redis_events_round_trip:
  assumes "list_all (\<lambda>e. storable fr (JObj (ev_payload e))) es"
    and "filter (\<lambda>(ty, data). ty = ''message'' \<and> loads fr data \<noteq> None) ms
      = map (\<lambda>e. (''message'', snd (redis_publish channel_prefix e))) es"
  shows "redis_subscribe fr fresh_id now ms = (map to_dict es, None)
    \<and> (channel channel_prefix t = channel channel_prefix u \<longleftrightarrow> t = u)"
  using redis_subscribe_published [OF assms(1)] redis_subscribe_skips [of fr fresh_id now ms] assms(2)
  by (simp add: channel_def)

theorem redis_events_round_trip_witness:
  "redis_subscribe (\<lambda>f. f) ''i'' ''now'' [(''subscribe'', ''1''), (''message'', snd (redis_publish ''p''
      \<lparr>ev_task_id = ''t'', ev_type = ''TASK_CREATED'', ev_payload = [(''k'', JStr [CHR 0x0A])], ev_sequence = 1,
       ev_id = ''e'', ev_timestamp = ''2026''\<rparr>))]
   = ([to_dict \<lparr>ev_task_id = ''t'', ev_type = ''TASK_CREATED'', ev_payload = [(''k'', JStr [CHR 0x0A])], ev_sequence = 1,
       ev_id = ''e'', ev_timestamp = ''2026''\<rparr>], None)"
proof -
  let ?e = "\<lparr>ev_task_id = ''t'', ev_type = ''TASK_CREATED'', ev_payload = [(''k'', JStr [CHR 0x0A])], ev_sequence = 1,
       ev_id = ''e'', ev_timestamp = ''2026''\<rparr>"
  have "loads (\<lambda>f. f) (dumps (JObj (to_dict ?e))) = Some (JObj (to_dict ?e))" by (rule loads_published) simp
  then have "loads (\<lambda>f. f) (snd (redis_publish ''p'' ?e)) \<noteq> None" by (simp add: redis_publish_def)
  then show ?thesis
    using redis_events_round_trip [of "\<lambda>f. f" "[?e]" "[(''subscribe'', ''1''), (''message'', snd (redis_publish ''p'' ?e))]"
        "''p''" "''i''" "''now''" "''t''" "''t''"] by simp
qed

end
