(* ===== verification/Redis_Lock.thy ===== *)
theory Redis_Lock
  imports Locks
begin

text \<open>
  The Redis lock (\<open>infrastructure/locks/redis_lock.py\<close>): \<open>SET NX PX\<close> to acquire, and the two scripts that
  renew and release only what the caller owns. The server is a parameter, the record \<open>redis_keys\<close> of
  the commands the adapter sends, each executed at one time of the server's clock; what the adapter
  relies on is the documented behaviour of these commands, \<open>keys_documented\<close>. A script runs atomically.
  Under this hypothesis the lock meets the contract \<open>lease_lock\<close>. Times are in microseconds.
\<close>

section \<open>The server\<close>

text \<open>\<open>GET\<close>, \<open>SET key value NX PX ms\<close>, \<open>PEXPIRE key ms\<close> and \<open>DEL key\<close> at a time, on a state.\<close>

record 's redis_keys =
  key_get :: "int \<Rightarrow> pystr \<Rightarrow> 's \<Rightarrow> pystr option"
  key_set_nx :: "int \<Rightarrow> pystr \<Rightarrow> pystr \<Rightarrow> int \<Rightarrow> 's \<Rightarrow> bool \<times> 's"
  key_pexpire :: "int \<Rightarrow> pystr \<Rightarrow> int \<Rightarrow> 's \<Rightarrow> nat \<times> 's"
  key_del :: "int \<Rightarrow> pystr \<Rightarrow> 's \<Rightarrow> nat \<times> 's"

text \<open>What \<open>GET\<close> sees from the time \<open>now\<close> on of a key that holds \<open>v\<close> until \<open>e\<close>, and of the other keys.\<close>

definition until :: "pystr \<Rightarrow> int \<Rightarrow> int \<Rightarrow> pystr option" where
  "until v e t = (if t < e then Some v else None)"

definition others_kept :: "'s redis_keys \<Rightarrow> int \<Rightarrow> pystr \<Rightarrow> 's \<Rightarrow> 's \<Rightarrow> bool" where
  "others_kept R now k s s' \<longleftrightarrow> (\<forall>t m. m \<noteq> k \<longrightarrow> now \<le> t \<longrightarrow> key_get R t m s' = key_get R t m s)"

text \<open>
  The documentation of the commands: a key disappears by expiry only and stays away; \<open>SET NX\<close> succeeds
  on an absent key and then sets value and expiry, \<open>PEXPIRE\<close> sets the expiry of a present key, \<open>DEL\<close>
  removes a key; no command touches other keys, and a command that fails changes nothing.
\<close>

definition expiry_documented :: "'s redis_keys \<Rightarrow> bool" where
  "expiry_documented R \<longleftrightarrow>
     (\<forall>now t k s v. now \<le> t \<longrightarrow> key_get R t k s = Some v \<longrightarrow> key_get R now k s = Some v)"

definition set_documented :: "'s redis_keys \<Rightarrow> bool" where
  "set_documented R \<longleftrightarrow> (\<forall>now k v ms s ok s'. key_set_nx R now k v ms s = (ok, s') \<longrightarrow>
     ok = (key_get R now k s = None) \<and> others_kept R now k s s'
     \<and> (\<forall>t. ok \<longrightarrow> key_get R t k s' = until v (now + ms * 1000) t)
     \<and> (\<forall>t. \<not> ok \<longrightarrow> now \<le> t \<longrightarrow> key_get R t k s' = key_get R t k s))"

definition pexpire_documented :: "'s redis_keys \<Rightarrow> bool" where
  "pexpire_documented R \<longleftrightarrow> (\<forall>now k ms s n s'. key_pexpire R now k ms s = (n, s') \<longrightarrow>
     n = (if key_get R now k s = None then 0 else 1) \<and> others_kept R now k s s'
     \<and> (\<forall>v t. key_get R now k s = Some v \<longrightarrow> key_get R t k s' = until v (now + ms * 1000) t)
     \<and> (\<forall>t. key_get R now k s = None \<longrightarrow> now \<le> t \<longrightarrow> key_get R t k s' = key_get R t k s))"

definition del_documented :: "'s redis_keys \<Rightarrow> bool" where
  "del_documented R \<longleftrightarrow> (\<forall>now k s n s'. key_del R now k s = (n, s') \<longrightarrow>
     (\<forall>t. key_get R t k s' = None) \<and> (\<forall>t m. m \<noteq> k \<longrightarrow> key_get R t m s' = key_get R t m s))"

definition keys_documented :: "'s redis_keys \<Rightarrow> bool" where
  "keys_documented R \<longleftrightarrow> expiry_documented R \<and> set_documented R \<and> pexpire_documented R \<and> del_documented R"

section \<open>The adapter\<close>

definition lock_key :: "pystr \<Rightarrow> pystr \<Rightarrow> pystr" where
  "lock_key key_prefix name = key_prefix @ '':'' @ name"

definition RENEW :: "'s redis_keys \<Rightarrow> int \<Rightarrow> pystr \<Rightarrow> pystr \<Rightarrow> int \<Rightarrow> 's \<Rightarrow> nat \<times> 's" where
  "RENEW R now key arg1 arg2 s = (if key_get R now key s = Some arg1 then key_pexpire R now key arg2 s else (0, s))"

definition RELEASE :: "'s redis_keys \<Rightarrow> int \<Rightarrow> pystr \<Rightarrow> pystr \<Rightarrow> 's \<Rightarrow> nat \<times> 's" where
  "RELEASE R now key arg1 s = (if key_get R now key s = Some arg1 then key_del R now key s else (0, s))"

definition redis_acquire :: "'s redis_keys \<Rightarrow> pystr \<Rightarrow> int \<Rightarrow> pystr \<Rightarrow> int \<Rightarrow> pystr \<Rightarrow> 's \<Rightarrow> bool \<times> 's" where
  "redis_acquire R key_prefix now name ttl_seconds owner s =
     key_set_nx R now (lock_key key_prefix name) owner (ttl_seconds * 1000) s"

definition redis_renew :: "'s redis_keys \<Rightarrow> pystr \<Rightarrow> int \<Rightarrow> pystr \<Rightarrow> int \<Rightarrow> pystr \<Rightarrow> 's \<Rightarrow> bool \<times> 's" where
  "redis_renew R key_prefix now name ttl_seconds owner s =
     (case RENEW R now (lock_key key_prefix name) owner (ttl_seconds * 1000) s of (n, s') \<Rightarrow> (n \<noteq> 0, s'))"

definition redis_release :: "'s redis_keys \<Rightarrow> pystr \<Rightarrow> int \<Rightarrow> pystr \<Rightarrow> pystr \<Rightarrow> 's \<Rightarrow> 's" where
  "redis_release R key_prefix now name owner s = snd (RELEASE R now (lock_key key_prefix name) owner s)"

section \<open>The lock meets the contract\<close>

lemma lock_key_inject [simp]: "lock_key p m = lock_key p n \<longleftrightarrow> m = n"
  by (simp add: lock_key_def)

lemma expiry: "keys_documented R \<Longrightarrow> now \<le> t \<Longrightarrow> key_get R t k s = Some v \<Longrightarrow> key_get R now k s = Some v"
  unfolding keys_documented_def expiry_documented_def by blast

lemma redis_acquire_cases:
  assumes "keys_documented R" and "redis_acquire R p now n ttl w s = (ok, s')"
  shows "ok \<longleftrightarrow> key_get R now (lock_key p n) s = None"
    "m \<noteq> n \<or> \<not> ok \<Longrightarrow> now \<le> t \<Longrightarrow> key_get R t (lock_key p m) s' = key_get R t (lock_key p m) s"
    "ok \<Longrightarrow> key_get R t (lock_key p n) s' = until w (now + ttl * 1000000) t"
proof -
  have "set_documented R" using assms(1) by (simp add: keys_documented_def)
  from this [unfolded set_documented_def, rule_format, OF assms(2) [unfolded redis_acquire_def]]
  show "ok \<longleftrightarrow> key_get R now (lock_key p n) s = None"
    "m \<noteq> n \<or> \<not> ok \<Longrightarrow> now \<le> t \<Longrightarrow> key_get R t (lock_key p m) s' = key_get R t (lock_key p m) s"
    "ok \<Longrightarrow> key_get R t (lock_key p n) s' = until w (now + ttl * 1000000) t"
    by (cases "m = n"; auto simp: others_kept_def mult.commute)+
qed

lemma redis_renew_cases:
  assumes "keys_documented R" and "redis_renew R p now n ttl w s = (ok, s')"
  shows "ok \<longleftrightarrow> key_get R now (lock_key p n) s = Some w"
    "m \<noteq> n \<or> \<not> ok \<Longrightarrow> now \<le> t \<Longrightarrow> key_get R t (lock_key p m) s' = key_get R t (lock_key p m) s"
    "ok \<Longrightarrow> key_get R t (lock_key p n) s' = until w (now + ttl * 1000000) t"
proof -
  obtain k x where x: "key_pexpire R now (lock_key p n) (ttl * 1000) s = (k, x)" by fastforce
  have "pexpire_documented R" using assms(1) by (simp add: keys_documented_def)
  from this [unfolded pexpire_documented_def, rule_format, OF x] assms(2) x
  show "ok \<longleftrightarrow> key_get R now (lock_key p n) s = Some w"
    "m \<noteq> n \<or> \<not> ok \<Longrightarrow> now \<le> t \<Longrightarrow> key_get R t (lock_key p m) s' = key_get R t (lock_key p m) s"
    "ok \<Longrightarrow> key_get R t (lock_key p n) s' = until w (now + ttl * 1000000) t"
    by (cases "m = n"; auto simp: redis_renew_def RENEW_def others_kept_def mult.commute split: if_splits)+
qed

lemma redis_release_keeps:
  assumes R: "keys_documented R" and "m \<noteq> n \<or> key_get R t (lock_key p m) s \<noteq> Some w"
  shows "key_get R t (lock_key p m) (redis_release R p now n w s) = key_get R t (lock_key p m) s"
proof -
  obtain k x where x: "key_del R now (lock_key p n) s = (k, x)" by fastforce
  have "del_documented R" using R by (simp add: keys_documented_def)
  note del = this [unfolded del_documented_def, rule_format, OF x]
  have "key_get R t (lock_key p n) s = None" if "key_get R now (lock_key p n) s = Some w" "m = n"
    using that assms(2) expiry [OF R, of now t "lock_key p n" s] expiry [OF R, of t now "lock_key p n" s]
    by (cases "now \<le> t"; cases "key_get R t (lock_key p n) s") auto
  with x del show ?thesis by (cases "m = n") (auto simp: redis_release_def RELEASE_def)
qed

lemma redis_lease_lock:
  assumes R: "keys_documented R"
  shows "lease_lock (\<lambda>now now'. redis_acquire R p now) (\<lambda>now now'. redis_renew R p now) (redis_release R p)
    (\<lambda>t s n. key_get R t (lock_key p n) s) (\<lambda>_. True)"
proof
  fix s now now' ttl t n m w v
  let ?a = "redis_acquire R p now n ttl w s" and ?r = "redis_renew R p now n ttl w s"
  note acquire = redis_acquire_cases [OF R surjective_pairing [of ?a]]
  note renew = redis_renew_cases [OF R surjective_pairing [of ?r]]
  show "now \<le> t \<Longrightarrow> key_get R t (lock_key p n) s = Some w \<Longrightarrow> key_get R now (lock_key p n) s = Some w"
    by (rule expiry [OF R])
  show "fst ?a \<Longrightarrow> key_get R now (lock_key p n) s = None" using acquire(1) by simp
  show "now \<le> now' \<Longrightarrow> fst ?a \<Longrightarrow> t < now + ttl * 1000000 \<Longrightarrow> key_get R t (lock_key p n) (snd ?a) = Some w"
    using acquire(3) by (simp add: until_def)
  show "m \<noteq> n \<or> \<not> fst ?a \<Longrightarrow> now \<le> t \<Longrightarrow> key_get R t (lock_key p m) (snd ?a) = key_get R t (lock_key p m) s"
    by (rule acquire(2))
  show "key_get R now (lock_key p n) s = Some v \<Longrightarrow> v \<noteq> w \<Longrightarrow> \<not> fst ?r" using renew(1) by simp
  show "now \<le> now' \<Longrightarrow> fst ?r \<Longrightarrow> t < now + ttl * 1000000 \<Longrightarrow> key_get R t (lock_key p n) (snd ?r) = Some w"
    using renew(3) by (simp add: until_def)
  show "m \<noteq> n \<or> \<not> fst ?r \<Longrightarrow> now \<le> t \<Longrightarrow> key_get R t (lock_key p m) (snd ?r) = key_get R t (lock_key p m) s"
    by (rule renew(2))
  show "m \<noteq> n \<or> key_get R t (lock_key p m) s \<noteq> Some w
      \<Longrightarrow> key_get R t (lock_key p m) (redis_release R p now n w s) = key_get R t (lock_key p m) s"
    by (rule redis_release_keeps [OF R])
qed simp_all

text \<open>
  C19: the Redis lock is exclusive. Under the documented behaviour of the commands, whatever sequence
  of acquisitions, renewals and releases clients send, with clocks that do not run backwards, two
  owners never hold live grants of the same lock at the same time, and the holder is the value of
  the key.
\<close>

theorem redis_lock_exclusive:
  fixes R :: "'s redis_keys" and key_prefix :: pystr
  defines "run \<equiv> fold (lock_step (\<lambda>now now'. redis_acquire R key_prefix now) (\<lambda>now now'. redis_renew R key_prefix now)
      (redis_release R key_prefix))"
  assumes "keys_documented R" and "ticks t0 ops" and "last_tick t0 ops \<le> t"
    and "live (snd (run ops (s, \<lambda>_. None))) t name v" and "live (snd (run ops (s, \<lambda>_. None))) t name w"
  shows "v = w \<and> key_get R t (lock_key key_prefix name) (fst (run ops (s, \<lambda>_. None))) = Some v"
  using lease_lock.mutual_exclusion [OF redis_lease_lock [OF assms(2)] _ assms(3,4) assms(5,6) [unfolded run_def]]
  by (simp add: run_def)

text \<open>A server that keeps values with their expiry meets the documentation.\<close>

definition table_server :: "(pystr \<rightharpoonup> pystr \<times> int) redis_keys" where
  "table_server = (let look = (\<lambda>t k s. case s k of None \<Rightarrow> None | Some (v, e) \<Rightarrow> until v e t) in \<lparr>
     key_get = look,
     key_set_nx = (\<lambda>now k v ms s. if look now k s = None then (True, s(k \<mapsto> (v, now + ms * 1000))) else (False, s)),
     key_pexpire = (\<lambda>now k ms s. case look now k s of None \<Rightarrow> (0, s) | Some v \<Rightarrow> (1, s(k \<mapsto> (v, now + ms * 1000)))),
     key_del = (\<lambda>now k s. (if look now k s = None then 0 else 1, s(k := None)))\<rparr>)"

lemma table_server_documented: "keys_documented table_server"
  unfolding keys_documented_def expiry_documented_def set_documented_def pexpire_documented_def del_documented_def
    others_kept_def table_server_def Let_def
  by (auto simp: until_def split: option.splits if_splits prod.splits)

theorem redis_lock_exclusive_witness:
  "key_get table_server 6 (lock_key ''agent:lock'' ''n'')
     (fst (fold (lock_step (\<lambda>now now'. redis_acquire table_server ''agent:lock'' now)
        (\<lambda>now now'. redis_renew table_server ''agent:lock'' now) (redis_release table_server ''agent:lock''))
      [(1, 2, Acquire ''n'' 3 ''w1''), (4, 5, Acquire ''n'' 3 ''w2'')] (\<lambda>_. None, \<lambda>_. None))) = Some ''w1''"
  using redis_lock_exclusive [OF table_server_documented, of 0
      "[(1, 2, Acquire ''n'' 3 ''w1''), (4, 5, Acquire ''n'' 3 ''w2'')]" 6 "''agent:lock''" "\<lambda>_. None" "''n''" "''w1''" "''w1''"]
  by (simp add: redis_acquire_def table_server_def until_def live_def Let_def)

end
