(* ===== verification/Redis_Queue.thy ===== *)
theory Redis_Queue
  imports Effects Queue
begin

text \<open>
  The Redis Streams queue (\<open>infrastructure/queue/redis_queue.py\<close>). The server is a parameter, the record
  \<open>redis_streams\<close> of the commands the adapter sends; responses are decoded to text by the client. What the
  adapter relies on is the documented behaviour of a stream with a consumer group, stated over a view
  of the server: the entries not yet delivered, and the pending list of entries that were delivered
  and not acknowledged, each with its consumer and the time of its last delivery. The main result is
  at-least-once delivery: no task is lost, whatever the workers do.
\<close>

section \<open>The server\<close>

type_synonym fields = "(pystr \<times> pystr) list"

text \<open>
  \<open>XGROUP CREATE stream group 0 MKSTREAM\<close>, \<open>XADD\<close>, \<open>XREADGROUP\<close> of one new entry (\<open>None\<close> after the block),
  \<open>XAUTOCLAIM\<close> from the start, \<open>XACK\<close>, and the groups with their lag of \<open>XINFO GROUPS\<close>. An error is the text
  of a \<open>ResponseError\<close>. Times and idle times are in milliseconds.
\<close>

record 's redis_streams =
  xgroup_create :: "pystr \<Rightarrow> pystr \<Rightarrow> 's \<Rightarrow> (pystr + unit) \<times> 's"
  xadd :: "pystr \<Rightarrow> fields \<Rightarrow> 's \<Rightarrow> 's"
  xreadgroup :: "int \<Rightarrow> pystr \<Rightarrow> pystr \<Rightarrow> pystr \<Rightarrow> 's \<Rightarrow> (pystr \<times> fields) option \<times> 's"
  xautoclaim :: "int \<Rightarrow> pystr \<Rightarrow> pystr \<Rightarrow> pystr \<Rightarrow> int \<Rightarrow> nat \<Rightarrow> 's \<Rightarrow> (pystr + (pystr \<times> fields) list) \<times> 's"
  xack :: "pystr \<Rightarrow> pystr \<Rightarrow> pystr \<Rightarrow> 's \<Rightarrow> 's"
  xinfo_groups :: "pystr \<Rightarrow> 's \<Rightarrow> pystr + (pystr \<times> int option) list"

section \<open>The adapter\<close>

definition CONSUMER_GROUP :: pystr where
  "CONSUMER_GROUP = ''agent-workers''"

record 's redis_queue =
  rq_server :: 's
  rq_group_ready :: bool

definition ensure_group :: "'s redis_streams \<Rightarrow> pystr \<Rightarrow> ('s redis_queue, unit) eff" where
  "ensure_group S stream q =
     (if rq_group_ready q then (Inr (), q)
      else case xgroup_create S stream CONSUMER_GROUP (rq_server q) of
        (Inl msg, s') \<Rightarrow>
          if \<not> contains_sub ''BUSYGROUP'' msg then (Inl (OtherError ''ResponseError'' msg), q\<lparr>rq_server := s'\<rparr>)
          else (Inr (), q\<lparr>rq_server := s', rq_group_ready := True\<rparr>)
      | (Inr _, s') \<Rightarrow> (Inr (), q\<lparr>rq_server := s', rq_group_ready := True\<rparr>))"

definition redis_queue_publish :: "'s redis_streams \<Rightarrow> pystr \<Rightarrow> pystr \<Rightarrow> ('s redis_queue, unit) eff" where
  "redis_queue_publish S stream tid =
     mbind (ensure_group S stream) (\<lambda>_.
     modify (\<lambda>q. q\<lparr>rq_server := xadd S stream [(''task_id'', tid)] (rq_server q)\<rparr>))"

text \<open>The task id of an entry; the platform writes no entry without one.\<close>

definition entry_task :: "fields \<Rightarrow> pystr" where
  "entry_task fs = get_default [] (map_of fs ''task_id'')"

definition redis_queue_receive :: "'s redis_streams \<Rightarrow> pystr \<Rightarrow> pystr \<Rightarrow> int \<Rightarrow> ('s redis_queue, queued_task option) eff" where
  "redis_queue_receive S stream consumer_name now =
     mbind (ensure_group S stream) (\<lambda>_ q.
     case xreadgroup S now CONSUMER_GROUP consumer_name stream (rq_server q) of (response, s') \<Rightarrow>
       (Inr (map_option (\<lambda>(message_id, fs). \<lparr>q_task_id = entry_task fs, q_receipt = Some message_id, q_attempt = 1\<rparr>) response),
        q\<lparr>rq_server := s'\<rparr>))"

definition reclaim_stale ::
  "'s redis_streams \<Rightarrow> pystr \<Rightarrow> pystr \<Rightarrow> int \<Rightarrow> int \<Rightarrow> nat \<Rightarrow> ('s redis_queue, queued_task list) eff" where
  "reclaim_stale S stream consumer_name now min_idle_ms limit =
     mbind (ensure_group S stream) (\<lambda>_ q.
     case xautoclaim S now stream CONSUMER_GROUP consumer_name min_idle_ms limit (rq_server q) of
       (Inl _, s') \<Rightarrow> (Inr [], q\<lparr>rq_server := s'\<rparr>)
     | (Inr entries, s') \<Rightarrow>
         (Inr (map (\<lambda>(message_id, fs). \<lparr>q_task_id = entry_task fs, q_receipt = Some message_id, q_attempt = 2\<rparr>)
            (filter (\<lambda>(message_id, fs). entry_task fs \<noteq> []) entries)), q\<lparr>rq_server := s'\<rparr>))"

definition redis_queue_ack :: "'s redis_streams \<Rightarrow> pystr \<Rightarrow> queued_task \<Rightarrow> ('s redis_queue, unit) eff" where
  "redis_queue_ack S stream item =
     (case q_receipt item of
        None \<Rightarrow> ret ()
      | Some receipt \<Rightarrow>
          if receipt = [] then ret ()
          else modify (\<lambda>q. q\<lparr>rq_server := xack S stream CONSUMER_GROUP receipt (rq_server q)\<rparr>))"

text \<open>The entry stays pending; \<open>reclaim_stale\<close> hands it to the next healthy worker.\<close>

definition redis_queue_nack :: "queued_task \<Rightarrow> ('s redis_queue, unit) eff" where
  "redis_queue_nack item = ret ()"

definition redis_queue_depth :: "'s redis_streams \<Rightarrow> pystr \<Rightarrow> ('s redis_queue, int) eff" where
  "redis_queue_depth S stream =
     mbind (ensure_group S stream) (\<lambda>_.
     gets (\<lambda>q. case xinfo_groups S stream (rq_server q) of
       Inl _ \<Rightarrow> 0
     | Inr groups \<Rightarrow> (case map_of groups CONSUMER_GROUP of Some (Some lag) \<Rightarrow> lag | _ \<Rightarrow> 0)))"

section \<open>The documented behaviour\<close>

record 's stream_view =
  sv_group :: "'s \<Rightarrow> bool"
  sv_new :: "'s \<Rightarrow> (pystr \<times> fields) list"
  sv_pending :: "'s \<Rightarrow> (pystr \<times> fields \<times> pystr \<times> int) list"

text \<open>The group is created once and starts before the first entry; a second creation is an error.\<close>

definition create_documented :: "'s redis_streams \<Rightarrow> 's stream_view \<Rightarrow> pystr \<Rightarrow> bool" where
  "create_documented S V stream \<longleftrightarrow> (\<forall>s r s'. xgroup_create S stream CONSUMER_GROUP s = (r, s') \<longrightarrow>
     sv_group V s' \<and> sv_new V s' = sv_new V s \<and> sv_pending V s' = sv_pending V s
     \<and> (case r of Inl msg \<Rightarrow> contains_sub ''BUSYGROUP'' msg | Inr _ \<Rightarrow> True))"

definition add_documented :: "'s redis_streams \<Rightarrow> 's stream_view \<Rightarrow> pystr \<Rightarrow> bool" where
  "add_documented S V stream \<longleftrightarrow> (\<forall>fs s. \<exists>i. i \<noteq> [] \<and> sv_new V (xadd S stream fs s) = sv_new V s @ [(i, fs)]
     \<and> sv_pending V (xadd S stream fs s) = sv_pending V s \<and> sv_group V (xadd S stream fs s) = sv_group V s)"

text \<open>Reading delivers the oldest new entry and makes it pending for the consumer.\<close>

definition read_documented :: "'s redis_streams \<Rightarrow> 's stream_view \<Rightarrow> pystr \<Rightarrow> bool" where
  "read_documented S V stream \<longleftrightarrow> (\<forall>now c s r s'. xreadgroup S now CONSUMER_GROUP c stream s = (r, s') \<longrightarrow> sv_group V s \<longrightarrow>
     sv_group V s' \<and> (case sv_new V s of
        [] \<Rightarrow> r = None \<and> sv_new V s' = [] \<and> sv_pending V s' = sv_pending V s
      | (i, fs) # rest \<Rightarrow> r = Some (i, fs) \<and> sv_new V s' = rest \<and> sv_pending V s' = sv_pending V s @ [(i, fs, c, now)]))"

text \<open>
  Claiming transfers pending entries that have been idle for long enough, at most as many as the
  limit. It scans a bounded part of the pending list, so it may leave entries that are idle.
\<close>

definition stale :: "int \<Rightarrow> int \<Rightarrow> (pystr \<times> fields \<times> pystr \<times> int) list \<Rightarrow> (pystr \<times> fields) set" where
  "stale now min_idle pending = {(i, fs) |i fs c at. (i, fs, c, at) \<in> set pending \<and> min_idle \<le> now - at}"

definition claim_documented :: "'s redis_streams \<Rightarrow> 's stream_view \<Rightarrow> pystr \<Rightarrow> bool" where
  "claim_documented S V stream \<longleftrightarrow> (\<forall>now c ms n s r s'. xautoclaim S now stream CONSUMER_GROUP c ms n s = (r, s') \<longrightarrow> sv_group V s \<longrightarrow>
     sv_group V s' \<and> sv_new V s' = sv_new V s \<and> (case r of
        Inl _ \<Rightarrow> sv_pending V s' = sv_pending V s
      | Inr entries \<Rightarrow> length entries \<le> n \<and> set entries \<subseteq> stale now ms (sv_pending V s)
          \<and> sv_pending V s' = map (\<lambda>(i, fs, c', at). if (i, fs) \<in> set entries then (i, fs, c, now) else (i, fs, c', at))
              (sv_pending V s)))"

definition ack_documented :: "'s redis_streams \<Rightarrow> 's stream_view \<Rightarrow> pystr \<Rightarrow> bool" where
  "ack_documented S V stream \<longleftrightarrow> (\<forall>i s. sv_group V (xack S stream CONSUMER_GROUP i s) = sv_group V s
     \<and> sv_new V (xack S stream CONSUMER_GROUP i s) = sv_new V s
     \<and> sv_pending V (xack S stream CONSUMER_GROUP i s) = filter (\<lambda>(j, _). j \<noteq> i) (sv_pending V s))"

definition streams_documented :: "'s redis_streams \<Rightarrow> 's stream_view \<Rightarrow> pystr \<Rightarrow> bool" where
  "streams_documented S V stream \<longleftrightarrow> create_documented S V stream \<and> add_documented S V stream
     \<and> read_documented S V stream \<and> claim_documented S V stream \<and> ack_documented S V stream"

section \<open>Workers on one stream\<close>

text \<open>
  Calls of consumers, each of which has its own adapter on the shared server. The run keeps what was
  delivered and what was acknowledged, as message id and task.
\<close>

datatype stream_call =
    Call_Publish pystr
  | Call_Receive int
  | Call_Reclaim int int nat
  | Call_Ack queued_task
  | Call_Nack queued_task

record 's stream_run =
  sr_server :: 's
  sr_ready :: "pystr set"
  sr_delivered :: "(pystr \<times> pystr) list"
  sr_acked :: "(pystr \<times> pystr) list"

definition adapter_of :: "pystr \<Rightarrow> 's stream_run \<Rightarrow> 's redis_queue" where
  "adapter_of c r = \<lparr>rq_server = sr_server r, rq_group_ready = (c \<in> sr_ready r)\<rparr>"

definition store_adapter :: "pystr \<Rightarrow> 's redis_queue \<Rightarrow> 's stream_run \<Rightarrow> 's stream_run" where
  "store_adapter c q r = r\<lparr>sr_server := rq_server q, sr_ready := (if rq_group_ready q then insert c (sr_ready r) else sr_ready r)\<rparr>"

definition delivered_item :: "queued_task \<Rightarrow> pystr \<times> pystr" where
  "delivered_item item = (get_default [] (q_receipt item), q_task_id item)"

definition in_hands :: "'s stream_view \<Rightarrow> 's \<Rightarrow> (pystr \<times> pystr) list" where
  "in_hands V s = map (\<lambda>(i, fs, _). (i, entry_task fs)) (sv_pending V s)"

fun queue_call :: "'s redis_streams \<Rightarrow> 's stream_view \<Rightarrow> pystr \<Rightarrow> pystr \<times> stream_call \<Rightarrow> 's stream_run \<Rightarrow> 's stream_run" where
  "queue_call S V stream (c, Call_Publish tid) r = store_adapter c (snd (redis_queue_publish S stream tid (adapter_of c r))) r"
| "queue_call S V stream (c, Call_Receive now) r =
     (case redis_queue_receive S stream c now (adapter_of c r) of (x, q) \<Rightarrow>
        (store_adapter c q r)\<lparr>sr_delivered := sr_delivered r @ (case x of Inr (Some item) \<Rightarrow> [delivered_item item] | _ \<Rightarrow> [])\<rparr>)"
| "queue_call S V stream (c, Call_Reclaim now ms n) r =
     (case reclaim_stale S stream c now ms n (adapter_of c r) of (x, q) \<Rightarrow>
        (store_adapter c q r)\<lparr>sr_delivered := sr_delivered r @ (case x of Inr items \<Rightarrow> map delivered_item items | _ \<Rightarrow> [])\<rparr>)"
| "queue_call S V stream (c, Call_Ack item) r =
     (store_adapter c (snd (redis_queue_ack S stream item (adapter_of c r))) r)\<lparr>sr_acked := sr_acked r @
        filter (\<lambda>(i, t). i = get_default [] (q_receipt item) \<and> i \<noteq> []) (in_hands V (sr_server r))\<rparr>"
| "queue_call S V stream (c, Call_Nack item) r = store_adapter c (snd (redis_queue_nack item (adapter_of c r))) r"

definition published_by :: "(pystr \<times> stream_call) list \<Rightarrow> pystr list" where
  "published_by calls = List.map_filter (\<lambda>(c, call). case call of Call_Publish tid \<Rightarrow> Some tid | _ \<Rightarrow> None) calls"

text \<open>Everything the server still holds: entries to deliver, and entries in hands.\<close>

definition outstanding :: "'s stream_view \<Rightarrow> 's \<Rightarrow> pystr list" where
  "outstanding V s = map (\<lambda>(i, fs). entry_task fs) (sv_new V s) @ map snd (in_hands V s)"

definition run_ok :: "'s stream_view \<Rightarrow> pystr multiset \<Rightarrow> 's stream_run \<Rightarrow> bool" where
  "run_ok V tasks r \<longleftrightarrow> (sr_ready r \<noteq> {} \<longrightarrow> sv_group V (sr_server r))
     \<and> mset (map snd (sr_acked r)) + mset (outstanding V (sr_server r)) = tasks
     \<and> set (sr_delivered r) \<subseteq> set (sr_acked r) \<union> set (in_hands V (sr_server r))"

lemma ensure_group_documented:
  assumes "create_documented S V stream" and "rq_group_ready q \<longrightarrow> sv_group V (rq_server q)"
  shows "\<exists>s'. ensure_group S stream q = (Inr (), \<lparr>rq_server = s', rq_group_ready = True\<rparr>)
    \<and> sv_group V s' \<and> sv_new V s' = sv_new V (rq_server q) \<and> sv_pending V s' = sv_pending V (rq_server q)"
proof (cases "rq_group_ready q")
  case True
  with assms(2) show ?thesis by (cases q) (simp add: ensure_group_def)
next
  case False
  obtain r s' where c: "xgroup_create S stream CONSUMER_GROUP (rq_server q) = (r, s')" by fastforce
  from assms(1) [unfolded create_documented_def, rule_format, OF c] False c show ?thesis
    by (cases r; cases q) (auto simp: ensure_group_def)
qed

lemma adapter_ready:
  assumes "streams_documented S V stream" and "run_ok V tasks r"
  obtains s1 where "ensure_group S stream (adapter_of c r) = (Inr (), \<lparr>rq_server = s1, rq_group_ready = True\<rparr>)"
    "sv_group V s1" "sv_new V s1 = sv_new V (sr_server r)" "sv_pending V s1 = sv_pending V (sr_server r)"
proof -
  have "create_documented S V stream" "rq_group_ready (adapter_of c r) \<longrightarrow> sv_group V (rq_server (adapter_of c r))"
    using assms by (auto simp: streams_documented_def run_ok_def adapter_of_def)
  from ensure_group_documented [OF this] that show thesis by (auto simp: adapter_of_def)
qed

lemma publish_ok:
  assumes D: "streams_documented S V stream" and ok: "run_ok V tasks r"
  shows "run_ok V (add_mset tid tasks) (queue_call S V stream (c, Call_Publish tid) r)"
proof -
  obtain s1 where e: "ensure_group S stream (adapter_of c r) = (Inr (), \<lparr>rq_server = s1, rq_group_ready = True\<rparr>)"
    and s1: "sv_group V s1" "sv_new V s1 = sv_new V (sr_server r)" "sv_pending V s1 = sv_pending V (sr_server r)"
    by (rule adapter_ready [OF D ok])
  obtain i where "sv_new V (xadd S stream [(''task_id'', tid)] s1) = sv_new V s1 @ [(i, [(''task_id'', tid)])]"
    "sv_pending V (xadd S stream [(''task_id'', tid)] s1) = sv_pending V s1"
    "sv_group V (xadd S stream [(''task_id'', tid)] s1) = sv_group V s1"
    using D unfolding streams_documented_def add_documented_def by blast
  with ok s1 e show ?thesis
    by (auto simp: run_ok_def redis_queue_publish_def mbind_def store_adapter_def outstanding_def in_hands_def entry_task_def)
qed

lemma receive_ok:
  assumes D: "streams_documented S V stream" and ok: "run_ok V tasks r"
  shows "run_ok V tasks (queue_call S V stream (c, Call_Receive now) r)"
proof -
  obtain s1 where e: "ensure_group S stream (adapter_of c r) = (Inr (), \<lparr>rq_server = s1, rq_group_ready = True\<rparr>)"
    and s1: "sv_group V s1" "sv_new V s1 = sv_new V (sr_server r)" "sv_pending V s1 = sv_pending V (sr_server r)"
    by (rule adapter_ready [OF D ok])
  obtain x s2 where x: "xreadgroup S now CONSUMER_GROUP c stream s1 = (x, s2)" by fastforce
  have "read_documented S V stream" using D by (simp add: streams_documented_def)
  note read = this [unfolded read_documented_def, rule_format, OF x s1(1), unfolded s1(2,3)]
  with ok s1(1) e x show ?thesis
    by (cases "sv_new V (sr_server r)")
      (auto simp: run_ok_def redis_queue_receive_def mbind_def store_adapter_def outstanding_def in_hands_def
        delivered_item_def)
qed

lemma run_ok_deliver:
  "run_ok V tasks r \<Longrightarrow> outstanding V t = outstanding V (sr_server r) \<Longrightarrow> in_hands V t = in_hands V (sr_server r)
    \<Longrightarrow> set ds \<subseteq> set (in_hands V (sr_server r)) \<Longrightarrow> sv_group V t
    \<Longrightarrow> run_ok V tasks (r\<lparr>sr_server := t, sr_ready := R, sr_delivered := sr_delivered r @ ds\<rparr>)"
  by (auto simp: run_ok_def)

lemma stale_subset: "stale now ms ps \<subseteq> (\<lambda>(i, fs, _). (i, fs)) ` set ps"
  by (force simp: stale_def)

lemma reclaim_ok:
  assumes D: "streams_documented S V stream" and ok: "run_ok V tasks r"
  shows "run_ok V tasks (queue_call S V stream (c, Call_Reclaim now ms n) r)"
proof -
  obtain s1 where e: "ensure_group S stream (adapter_of c r) = (Inr (), \<lparr>rq_server = s1, rq_group_ready = True\<rparr>)"
    and s1: "sv_group V s1" "sv_new V s1 = sv_new V (sr_server r)" "sv_pending V s1 = sv_pending V (sr_server r)"
    by (rule adapter_ready [OF D ok])
  obtain x s2 where x: "xautoclaim S now stream CONSUMER_GROUP c ms n s1 = (x, s2)" by fastforce
  have "claim_documented S V stream" using D by (simp add: streams_documented_def)
  note claim = this [unfolded claim_documented_def, rule_format, OF x s1(1)]
  have hands: "in_hands V s2 = in_hands V (sr_server r)"
    using claim s1(3) by (cases x) (auto simp: in_hands_def intro!: map_cong)
  then have out: "outstanding V s2 = outstanding V (sr_server r)" using claim s1 by (simp add: outstanding_def)
  define ds where "ds = (case x of Inl _ \<Rightarrow> [] | Inr es \<Rightarrow> map delivered_item
      (map (\<lambda>(i, fs). \<lparr>q_task_id = entry_task fs, q_receipt = Some i, q_attempt = 2\<rparr>)
        (filter (\<lambda>(i, fs). entry_task fs \<noteq> []) es)))"
  have ds: "set ds \<subseteq> set (in_hands V (sr_server r))"
  proof (cases x)
    case (Inr es)
    with claim s1(3) have "set es \<subseteq> (\<lambda>(i, fs, _). (i, fs)) ` set (sv_pending V (sr_server r))"
      using stale_subset by (metis (no_types, lifting) order_trans sum.case(2))
    then have "(\<lambda>(i, fs). (i, entry_task fs)) ` set es \<subseteq> set (in_hands V (sr_server r))"
      by (drule_tac image_mono [where f = "\<lambda>(i, fs). (i, entry_task fs)"]) (simp add: in_hands_def image_image case_prod_beta)
    moreover have "set ds \<subseteq> (\<lambda>(i, fs). (i, entry_task fs)) ` set es" using Inr by (auto simp: ds_def delivered_item_def)
    ultimately show ?thesis by simp
  qed (simp add: ds_def)
  have "queue_call S V stream (c, Call_Reclaim now ms n) r =
      r\<lparr>sr_server := s2, sr_ready := insert c (sr_ready r), sr_delivered := sr_delivered r @ ds\<rparr>"
    using e x by (cases x) (simp_all add: reclaim_stale_def mbind_def store_adapter_def ds_def)
  with run_ok_deliver [OF ok out hands ds] claim show ?thesis by simp
qed

lemma hands_filter:
  "map (\<lambda>(i, fs, _). (i, entry_task fs)) (filter (\<lambda>(j, _). j \<noteq> k) ps)
     = filter (\<lambda>(i, t). i \<noteq> k) (map (\<lambda>(i, fs, _). (i, entry_task fs)) ps)"
  by (induction ps) auto

lemma mset_split: "mset (map f (filter P xs)) + mset (map f (filter (\<lambda>x. \<not> P x) xs)) = mset (map f xs)"
  by (induction xs) auto

lemma run_ok_ack:
  "run_ok V tasks r \<Longrightarrow> in_hands V t = filter (\<lambda>x. \<not> P x) (in_hands V (sr_server r))
    \<Longrightarrow> sv_new V t = sv_new V (sr_server r) \<Longrightarrow> sv_group V t = sv_group V (sr_server r)
    \<Longrightarrow> run_ok V tasks (r\<lparr>sr_server := t, sr_acked := sr_acked r @ filter P (in_hands V (sr_server r))\<rparr>)"
  using mset_split [of snd P "in_hands V (sr_server r)"] by (auto simp: run_ok_def outstanding_def)

lemma ack_ok:
  assumes D: "streams_documented S V stream" and ok: "run_ok V tasks r"
  shows "run_ok V tasks (queue_call S V stream (c, Call_Ack item) r)"
proof -
  let ?i = "get_default [] (q_receipt item)" and ?s = "sr_server r"
  define P where "P = (\<lambda>(i :: pystr, t :: pystr). i = ?i \<and> i \<noteq> [])"
  define t where "t = (if ?i = [] then ?s else xack S stream CONSUMER_GROUP ?i ?s)"
  have "ack_documented S V stream" using D by (simp add: streams_documented_def)
  note ack = this [unfolded ack_documented_def, rule_format, of ?i ?s]
  have "in_hands V t = filter (\<lambda>x. \<not> P x) (in_hands V ?s)"
    using ack by (auto simp: t_def P_def in_hands_def hands_filter intro!: filter_cong)
  moreover have "sv_new V t = sv_new V ?s" "sv_group V t = sv_group V ?s" using ack by (simp_all add: t_def)
  moreover have "queue_call S V stream (c, Call_Ack item) r = r\<lparr>sr_server := t, sr_acked := sr_acked r @ filter P (in_hands V ?s)\<rparr>"
    by (cases "q_receipt item") (auto simp: redis_queue_ack_def store_adapter_def adapter_of_def insert_absorb t_def P_def)
  ultimately show ?thesis using run_ok_ack [OF ok] by simp
qed

fun tasks_after :: "pystr multiset \<Rightarrow> pystr \<times> stream_call \<Rightarrow> pystr multiset" where
  "tasks_after tasks (c, Call_Publish tid) = add_mset tid tasks"
| "tasks_after tasks (c, _) = tasks"

lemma queue_call_ok:
  assumes "streams_documented S V stream" and "run_ok V tasks r"
  shows "run_ok V (tasks_after tasks cc) (queue_call S V stream cc r)"
proof (cases cc)
  case (Pair c call)
  then show ?thesis
    using publish_ok [OF assms] receive_ok [OF assms] reclaim_ok [OF assms] ack_ok [OF assms] assms(2)
    by (cases call) (auto simp: redis_queue_nack_def store_adapter_def adapter_of_def run_ok_def simp del: queue_call.simps(1-4))
qed

lemma queue_calls_ok:
  "streams_documented S V stream \<Longrightarrow> run_ok V tasks r
    \<Longrightarrow> run_ok V (tasks + mset (published_by calls)) (fold (queue_call S V stream) calls r)"
proof (induction calls arbitrary: tasks r)
  case (Cons cc calls)
  obtain c call where cc: "cc = (c, call)" by fastforce
  from Cons.IH [OF Cons.prems(1) queue_call_ok [OF Cons.prems, of cc]] show ?case
    by (cases call) (simp_all add: cc published_by_def map_filter_simps)
qed (simp add: published_by_def map_filter_simps)

text \<open>
  C18: at-least-once delivery. Under the documented behaviour of the server, whatever calls any number
  of workers make in any order, every task that was on the stream or was published is acknowledged,
  still to be delivered, or in the hands of a worker that has not acknowledged it, each exactly as
  often as it was published; and everything that was delivered is acknowledged or still in the
  pending list, which is where reclaiming looks for the messages of a worker that died.
\<close>

theorem redis_queue_at_least_once:
  assumes "streams_documented S V stream"
  shows "case fold (queue_call S V stream) calls \<lparr>sr_server = s, sr_ready = {}, sr_delivered = [], sr_acked = []\<rparr> of r \<Rightarrow>
    mset (map snd (sr_acked r)) + mset (outstanding V (sr_server r)) = mset (outstanding V s) + mset (published_by calls)
    \<and> set (sr_delivered r) \<subseteq> set (sr_acked r) \<union> set (in_hands V (sr_server r))"
proof -
  have "run_ok V (mset (outstanding V s)) \<lparr>sr_server = s, sr_ready = {}, sr_delivered = [], sr_acked = []\<rparr>"
    by (simp add: run_ok_def)
  from queue_calls_ok [OF assms this, of calls] show ?thesis by (simp add: run_ok_def)
qed

text \<open>
  A server that keeps a stream with one group, and scans the first ten times as many pending
  entries as it may claim, meets the documentation.
\<close>

record table_stream =
  ts_group :: bool
  ts_new :: "(pystr \<times> fields) list"
  ts_pending :: "(pystr \<times> fields \<times> pystr \<times> int) list"

definition table_view :: "table_stream stream_view" where
  "table_view = \<lparr>sv_group = ts_group, sv_new = ts_new, sv_pending = ts_pending\<rparr>"

definition table_streams :: "table_stream redis_streams" where
  "table_streams = \<lparr>
     xgroup_create = (\<lambda>_ _ s. (if ts_group s then Inl ''BUSYGROUP'' else Inr (), s\<lparr>ts_group := True\<rparr>)),
     xadd = (\<lambda>_ fs s. s\<lparr>ts_new := ts_new s @ [(show_nat (length (ts_new s) + length (ts_pending s)), fs)]\<rparr>),
     xreadgroup = (\<lambda>now _ c _ s. case ts_new s of
        [] \<Rightarrow> (None, s)
      | (i, fs) # rest \<Rightarrow> (Some (i, fs), s\<lparr>ts_new := rest, ts_pending := ts_pending s @ [(i, fs, c, now)]\<rparr>)),
     xautoclaim = (\<lambda>now _ _ c ms n s. let es = map (\<lambda>(i, fs, _). (i, fs)) (take n (filter (\<lambda>(i, fs, c, at). ms \<le> now - at) (take (10 * n) (ts_pending s)))) in
        (Inr es, s\<lparr>ts_pending := map (\<lambda>(i, fs, c', at). if (i, fs) \<in> set es then (i, fs, c, now) else (i, fs, c', at)) (ts_pending s)\<rparr>)),
     xack = (\<lambda>_ _ i s. s\<lparr>ts_pending := filter (\<lambda>(j, _). j \<noteq> i) (ts_pending s)\<rparr>),
     xinfo_groups = (\<lambda>_ s. Inr [(CONSUMER_GROUP, Some (int (length (ts_new s))))])\<rparr>"

lemma show_nat_not_Nil: "show_nat n \<noteq> []"
  by (subst show_nat.simps) simp

lemma scan_stale:
  "set (map (\<lambda>(i, fs, _). (i, fs)) (take n (filter (\<lambda>(i, fs, c, at). ms \<le> now - at) (take k ps)))) \<subseteq> stale now ms ps"
  by (force simp: stale_def dest!: in_set_takeD)

lemma table_streams_documented: "streams_documented table_streams table_view stream"
  unfolding streams_documented_def create_documented_def add_documented_def read_documented_def claim_documented_def
    ack_documented_def table_streams_def table_view_def
  using scan_stale by (auto simp: Let_def show_nat_not_Nil contains_sub_iff split: list.splits)

theorem redis_queue_at_least_once_witness:
  "case fold (queue_call table_streams table_view ''q'')
      [(''w1'', Call_Publish ''t1''), (''w1'', Call_Receive 5), (''w2'', Call_Publish ''t2'')]
      \<lparr>sr_server = \<lparr>ts_group = False, ts_new = [], ts_pending = []\<rparr>, sr_ready = {}, sr_delivered = [], sr_acked = []\<rparr> of r \<Rightarrow>
    mset (map snd (sr_acked r)) + mset (outstanding table_view (sr_server r)) = {# ''t1'', ''t2'' #}"
  using redis_queue_at_least_once [OF table_streams_documented, where stream = "''q''"
      and calls = "[(''w1'', Call_Publish ''t1''), (''w1'', Call_Receive 5), (''w2'', Call_Publish ''t2'')]"
      and s = "\<lparr>ts_group = False, ts_new = [], ts_pending = []\<rparr>"]
  by (simp add: published_by_def map_filter_simps outstanding_def [of _ "\<lparr>ts_group = _, ts_new = _, ts_pending = _\<rparr>"]
      in_hands_def [of _ "\<lparr>ts_group = _, ts_new = _, ts_pending = _\<rparr>"] table_view_def [THEN arg_cong, of sv_new]
      table_view_def [THEN arg_cong, of sv_pending] del: queue_call.simps)

end
