(* ===== verification/Composition.thy ===== *)
theory Composition
  imports Redis_Queue Tools_Fs
begin

text \<open>
  How a process is put together: the choice and the sharing of the coordination adapters
  (\<open>infrastructure/__init__.py\<close>, \<open>apps/api/dependencies.py\<close>), the engine, the sessions and the schema
  (\<open>persistence/db.py\<close>), and what \<open>apps/worker/main.py\<close> and \<open>apps/api/main.py\<close> do when they start and stop.
  The module variables of the process are the record \<open>process\<close>. An adapter or a client is an object,
  known by a number that no other object has. The databases are those the URLs lead to; one
  without the tables is absent. What the libraries say to a URL, the random identifiers and
  \<open>expanduser\<close> are fields of the process that nothing changes.
\<close>

section \<open>Settings\<close>

record connections =
  database_url :: pystr
  redis_url :: pystr
  queue_name :: pystr
  event_channel_prefix :: pystr

definition default_connections :: connections where
  "default_connections = \<lparr>database_url = ''sqlite+aiosqlite:///./data/agent.db'', redis_url = ''memory://'',
     queue_name = ''agent:tasks'', event_channel_prefix = ''agent:events''\<rparr>"

definition uses_memory_backend :: "connections \<Rightarrow> bool" where
  "uses_memory_backend st = starts_with ''memory://'' (redis_url st)"

definition is_postgres :: "connections \<Rightarrow> bool" where
  "is_postgres st = starts_with ''postgresql'' (database_url st)"

section \<open>The process\<close>

datatype queue_adapter = Memory_Queue nat | Redis_Stream nat pystr pystr

datatype events_adapter = Memory_Events nat | Redis_Events nat pystr

datatype locks_adapter = Memory_Locks nat | Redis_Locks nat pystr

record coordination =
  co_queue :: queue_adapter
  co_events :: events_adapter
  co_locks :: locks_adapter
  co_backend :: pystr

record engine =
  en_id :: nat
  en_url :: pystr
  en_pool_pre_ping :: bool

record process =
  ps_next :: nat
  ps_host :: pystr
  ps_uuid :: "nat \<Rightarrow> pystr"
  ps_cwd :: path
  ps_expanduser :: "pystr \<Rightarrow> pystr"
  ps_from_url :: "pystr \<Rightarrow> unit result"
  ps_create_engine :: "pystr \<Rightarrow> unit result"
  ps_fs :: fs
  ps_databases :: "pystr \<rightharpoonup> db"
  ps_memory_queue :: "nat option"
  ps_memory_events :: "nat option"
  ps_memory_locks :: "nat option"
  ps_redis_client :: "nat option"
  ps_coordination :: "coordination option"
  ps_engine :: "engine option"
  ps_session_factory :: "engine option"

type_synonym 'a proc = "(process, 'a) eff"

definition allocate :: "nat proc" where
  "allocate p = (Inr (ps_next p), p\<lparr>ps_next := Suc (ps_next p)\<rparr>)"

text \<open>\<open>new_id('w').split('-')[1]\<close>.\<close>

definition worker_identity :: "pystr \<Rightarrow> pystr proc" where
  "worker_identity kind =
     mbind allocate (\<lambda>n. gets (\<lambda>p. kind @ ''-'' @ ps_host p @ ''-'' @
       split_char (CHR ''-'') (''w-'' @ take 12 (ps_uuid p n)) ! 1))"

definition get_redis :: "connections \<Rightarrow> nat proc" where
  "get_redis st =
     (if uses_memory_backend st
      then raise (OtherError ''RuntimeError'' ''REDIS_URL is memory:// - no Redis client available'')
      else mbind (gets ps_redis_client) (\<lambda>client.
        case client of
          Some c \<Rightarrow> ret c
        | None \<Rightarrow>
            mbind (gets (\<lambda>p. ps_from_url p (redis_url st))) (\<lambda>r. mbind (lift_result r) (\<lambda>_.
            mbind allocate (\<lambda>c. mbind (modify (\<lambda>p. p\<lparr>ps_redis_client := Some c\<rparr>)) (\<lambda>_. ret c))))))"

text \<open>\<open>if x is None: x = X()\<close> for the three in-process adapters.\<close>

definition shared_queue :: "nat proc" where
  "shared_queue = mbind (gets ps_memory_queue) (\<lambda>known.
     case known of
       Some n \<Rightarrow> ret n
     | None \<Rightarrow> mbind allocate (\<lambda>n. mbind (modify (\<lambda>p. p\<lparr>ps_memory_queue := Some n\<rparr>)) (\<lambda>_. ret n)))"

definition shared_events :: "nat proc" where
  "shared_events = mbind (gets ps_memory_events) (\<lambda>known.
     case known of
       Some n \<Rightarrow> ret n
     | None \<Rightarrow> mbind allocate (\<lambda>n. mbind (modify (\<lambda>p. p\<lparr>ps_memory_events := Some n\<rparr>)) (\<lambda>_. ret n)))"

definition shared_locks :: "nat proc" where
  "shared_locks = mbind (gets ps_memory_locks) (\<lambda>known.
     case known of
       Some n \<Rightarrow> ret n
     | None \<Rightarrow> mbind allocate (\<lambda>n. mbind (modify (\<lambda>p. p\<lparr>ps_memory_locks := Some n\<rparr>)) (\<lambda>_. ret n)))"

text \<open>\<open>consumer_name or worker_identity("api")\<close>.\<close>

definition consumer_or_identity :: "pystr option \<Rightarrow> pystr proc" where
  "consumer_or_identity consumer_name =
     (case consumer_name of
        Some n \<Rightarrow> if n \<noteq> [] then ret n else worker_identity ''api''
      | None \<Rightarrow> worker_identity ''api'')"

definition build_coordination :: "connections \<Rightarrow> pystr option \<Rightarrow> coordination proc" where
  "build_coordination st consumer_name =
     (if uses_memory_backend st
      then mbind shared_queue (\<lambda>q. mbind shared_events (\<lambda>e. mbind shared_locks (\<lambda>l.
        ret \<lparr>co_queue = Memory_Queue q, co_events = Memory_Events e, co_locks = Memory_Locks l, co_backend = ''memory''\<rparr>)))
      else mbind (get_redis st) (\<lambda>c.
        mbind (consumer_or_identity consumer_name) (\<lambda>consumer.
        ret \<lparr>co_queue = Redis_Stream c (queue_name st) consumer, co_events = Redis_Events c (event_channel_prefix st),
             co_locks = Redis_Locks c ''agent:lock'', co_backend = ''redis''\<rparr>)))"

text \<open>No adapter overrides the \<open>close\<close> of the base classes, which does nothing.\<close>

definition coordination_close :: "coordination \<Rightarrow> unit proc" where
  "coordination_close co = ret ()"

definition reset_coordination :: "unit proc" where
  "reset_coordination = modify (\<lambda>p. p\<lparr>ps_memory_queue := None, ps_memory_events := None, ps_memory_locks := None,
     ps_redis_client := None\<rparr>)"

definition get_coordination :: "connections \<Rightarrow> coordination proc" where
  "get_coordination st = mbind (gets ps_coordination) (\<lambda>known.
     case known of
       Some co \<Rightarrow> ret co
     | None \<Rightarrow>
         mbind (build_coordination st (Some ''api'')) (\<lambda>co.
         mbind (modify (\<lambda>p. p\<lparr>ps_coordination := Some co\<rparr>)) (\<lambda>_. ret co)))"

definition reset_coordination_cache :: "unit proc" where
  "reset_coordination_cache = modify (\<lambda>p. p\<lparr>ps_coordination := None\<rparr>)"

section \<open>Engine and sessions\<close>

definition prepare_sqlite_path :: "pystr \<Rightarrow> unit proc" where
  "prepare_sqlite_path url =
     (case str_partition '':///'' url of (_, found, raw) \<Rightarrow>
        if found = [] \<or> raw = [] \<or> raw = '':memory:'' then ret ()
        else mbind (gets (\<lambda>p. resolve_str (ps_fs p) (ps_cwd p) (ps_expanduser p raw))) (\<lambda>r.
          mbind (lift_result r) (\<lambda>target.
          mbind (gets (\<lambda>p. mkdir_from [] (butlast target) (ps_fs p))) (\<lambda>made.
          mbind (lift_result made) (\<lambda>f. modify (\<lambda>p. p\<lparr>ps_fs := f\<rparr>))))))"

definition get_engine :: "connections \<Rightarrow> engine proc" where
  "get_engine st = mbind (gets ps_engine) (\<lambda>known.
     case known of
       Some e \<Rightarrow> ret e
     | None \<Rightarrow>
         mbind (if starts_with ''sqlite'' (database_url st) then prepare_sqlite_path (database_url st) else ret ()) (\<lambda>_.
         mbind (gets (\<lambda>p. ps_create_engine p (database_url st))) (\<lambda>r. mbind (lift_result r) (\<lambda>_.
         mbind allocate (\<lambda>n.
         let e = \<lparr>en_id = n, en_url = database_url st, en_pool_pre_ping = \<not> starts_with ''sqlite'' (database_url st)\<rparr> in
         mbind (modify (\<lambda>p. p\<lparr>ps_engine := Some e\<rparr>)) (\<lambda>_. ret e))))))"

definition get_session_factory :: "connections \<Rightarrow> engine proc" where
  "get_session_factory st = mbind (gets ps_session_factory) (\<lambda>known.
     case known of
       Some e \<Rightarrow> ret e
     | None \<Rightarrow>
         mbind (get_engine st) (\<lambda>e.
         mbind (modify (\<lambda>p. p\<lparr>ps_session_factory := Some e\<rparr>)) (\<lambda>_. ret e)))"

text \<open>
  A session works on the tables; they are stored when the body returns, and left as they were when it
  raises. Without the tables the first statement of the body fails.
\<close>

definition run_session :: "pystr \<Rightarrow> (db, 'a) eff \<Rightarrow> 'a proc" where
  "run_session url body p =
     (case ps_databases p url of
        None \<Rightarrow> (Inl (OtherError ''OperationalError'' ''no such table''), p)
      | Some d \<Rightarrow>
          (case body d of
             (Inr v, d') \<Rightarrow> (Inr v, p\<lparr>ps_databases := (ps_databases p)(url \<mapsto> d')\<rparr>)
           | (Inl e, d') \<Rightarrow> (Inl e, p)))"

definition session_scope :: "connections \<Rightarrow> (db, 'a) eff \<Rightarrow> 'a proc" where
  "session_scope st body = mbind (get_session_factory st) (\<lambda>factory. run_session (en_url factory) body)"

text \<open>\<open>create_all\<close> makes the missing tables and leaves the others; \<open>drop_all\<close> removes them.\<close>

definition create_schema :: "connections \<Rightarrow> unit proc" where
  "create_schema st = mbind (get_engine st) (\<lambda>e.
     modify (\<lambda>p. p\<lparr>ps_databases := (ps_databases p)(en_url e \<mapsto> get_default empty_db (ps_databases p (en_url e)))\<rparr>))"

definition drop_schema :: "connections \<Rightarrow> unit proc" where
  "drop_schema st = mbind (get_engine st) (\<lambda>e.
     modify (\<lambda>p. p\<lparr>ps_databases := (ps_databases p)(en_url e := None)\<rparr>))"

definition dispose_engine :: "unit proc" where
  "dispose_engine = modify (\<lambda>p. p\<lparr>ps_engine := None, ps_session_factory := None\<rparr>)"

section \<open>Entry points\<close>

definition worker_start :: "connections \<Rightarrow> (pystr \<times> coordination) proc" where
  "worker_start st =
     mbind (create_schema st) (\<lambda>_. mbind (worker_identity ''worker'') (\<lambda>worker_id.
     mbind (build_coordination st (Some worker_id)) (\<lambda>co. ret (worker_id, co))))"

definition worker_stop :: "coordination \<Rightarrow> unit proc" where
  "worker_stop co = mbind (coordination_close co) (\<lambda>_. dispose_engine)"

definition lifespan_start :: "connections \<Rightarrow> coordination proc" where
  "lifespan_start st = mbind (create_schema st) (\<lambda>_. get_coordination st)"

definition lifespan_stop :: "coordination \<Rightarrow> unit proc" where
  "lifespan_stop co = mbind (coordination_close co) (\<lambda>_. dispose_engine)"

section \<open>One process, one set of adapters\<close>

text \<open>Whatever a process may do with its module variables; the body of a session is any change of the tables.\<close>

datatype process_op =
    Build connections "pystr option"
  | Redis_Client connections
  | Api_Coordination connections
  | Api_Cache_Reset
  | Session connections "db \<Rightarrow> unit result \<times> db"
  | Schema connections
  | Drop connections
  | Dispose
  | Worker_Start connections
  | Api_Start connections

fun run_op :: "process_op \<Rightarrow> process \<Rightarrow> process" where
  "run_op (Build st c) p = snd (build_coordination st c p)"
| "run_op (Redis_Client st) p = snd (get_redis st p)"
| "run_op (Api_Coordination st) p = snd (get_coordination st p)"
| "run_op Api_Cache_Reset p = snd (reset_coordination_cache p)"
| "run_op (Session st body) p = snd (session_scope st body p)"
| "run_op (Schema st) p = snd (create_schema st p)"
| "run_op (Drop st) p = snd (drop_schema st p)"
| "run_op Dispose p = snd (dispose_engine p)"
| "run_op (Worker_Start st) p = snd (worker_start st p)"
| "run_op (Api_Start st) p = snd (lifespan_start st p)"

definition extends :: "'a option \<Rightarrow> 'a option \<Rightarrow> bool" where
  "extends x y \<longleftrightarrow> x = None \<or> x = y"

definition keeps_adapters :: "process \<Rightarrow> process \<Rightarrow> bool" where
  "keeps_adapters p q \<longleftrightarrow> extends (ps_memory_queue p) (ps_memory_queue q)
     \<and> extends (ps_memory_events p) (ps_memory_events q) \<and> extends (ps_memory_locks p) (ps_memory_locks q)
     \<and> extends (ps_redis_client p) (ps_redis_client q)"

interpretation keep: effect_order keeps_adapters
  by unfold_locales (auto simp: keeps_adapters_def extends_def)

named_theorems keep_intros "computations that keep the adapters of the process"

lemmas [keep_intros] = keep.stays_rules

lemma keep_allocate [keep_intros]: "stays keeps_adapters allocate"
  by (simp add: stays_def allocate_def keeps_adapters_def extends_def)

lemma keep_others [keep_intros]:
  "stays keeps_adapters (modify (\<lambda>p. p\<lparr>ps_fs := f p\<rparr>))"
  "stays keeps_adapters (modify (\<lambda>p. p\<lparr>ps_databases := d p\<rparr>))"
  "stays keeps_adapters (modify (\<lambda>p. p\<lparr>ps_engine := e p\<rparr>))"
  "stays keeps_adapters (modify (\<lambda>p. p\<lparr>ps_session_factory := e p\<rparr>))"
  "stays keeps_adapters (modify (\<lambda>p. p\<lparr>ps_engine := e p, ps_session_factory := g p\<rparr>))"
  "stays keeps_adapters (modify (\<lambda>p. p\<lparr>ps_coordination := c p\<rparr>))"
  by (simp_all add: stays_def keeps_adapters_def extends_def)

text \<open>Remembering a new object keeps the adapters when nothing was remembered before.\<close>

lemma keep_remember [keep_intros]:
  "stays keeps_adapters shared_queue" "stays keeps_adapters shared_events" "stays keeps_adapters shared_locks"
  by (auto simp: stays_def shared_queue_def shared_events_def shared_locks_def mbind_def allocate_def
      keeps_adapters_def extends_def ret_def split: option.splits)

lemma keep_redis [keep_intros]: "stays keeps_adapters (get_redis st)"
  by (auto simp: stays_def get_redis_def mbind_def allocate_def keeps_adapters_def extends_def ret_def raise_def
      split: option.splits sum.splits)

lemma keep_identity [keep_intros]: "stays keeps_adapters (worker_identity k)"
  unfolding worker_identity_def by (intro keep_intros)

lemma keep_build [keep_intros]: "stays keeps_adapters (build_coordination st c)"
proof -
  have "stays keeps_adapters (consumer_or_identity c)"
    unfolding consumer_or_identity_def by (split option.split) (simp add: keep_intros)
  then show ?thesis unfolding build_coordination_def by (intro keep_intros)
qed

lemma keep_get_coordination [keep_intros]: "stays keeps_adapters (get_coordination st)"
  unfolding get_coordination_def by (auto intro!: keep_intros split: option.split)

lemma keep_engine [keep_intros]: "stays keeps_adapters (get_engine st)"
  unfolding get_engine_def prepare_sqlite_path_def Let_def
  by (auto intro!: keep_intros split: option.split prod.split)

lemma keep_session [keep_intros]: "stays keeps_adapters (session_scope st body)"
proof -
  have "stays keeps_adapters (run_session url body)" for url
    by (auto simp: stays_def run_session_def keeps_adapters_def extends_def split: option.split sum.split prod.split)
  then show ?thesis
    unfolding session_scope_def get_session_factory_def by (auto intro!: keep_intros split: option.split)
qed

lemma keep_start [keep_intros]:
  "stays keeps_adapters (create_schema st)" "stays keeps_adapters (drop_schema st)" "stays keeps_adapters dispose_engine"
  "stays keeps_adapters (worker_start st)" "stays keeps_adapters (lifespan_start st)"
  "stays keeps_adapters reset_coordination_cache"
  unfolding create_schema_def drop_schema_def dispose_engine_def worker_start_def lifespan_start_def
    reset_coordination_cache_def by (intro keep_intros)+

lemma stays_snd: "stays R m \<Longrightarrow> R p (snd (m p))"
  by (simp add: stays_def)

lemma keep_run_op: "keeps_adapters p (run_op op p)"
  by (cases op) (simp_all, (rule stays_snd, intro keep_intros)+)

lemma keep_run_ops: "keeps_adapters p (fold run_op ops p)"
proof (induction ops arbitrary: p)
  case (Cons op ops)
  show ?case using keep.R_trans [OF keep_run_op Cons.IH] by simp
qed (simp add: keep.R_refl)

text \<open>What a build gives in a process that has its adapters, and that it has them afterwards.\<close>

definition memory_coordination :: "nat \<Rightarrow> nat \<Rightarrow> nat \<Rightarrow> coordination" where
  "memory_coordination q e l = \<lparr>co_queue = Memory_Queue q, co_events = Memory_Events e, co_locks = Memory_Locks l,
     co_backend = ''memory''\<rparr>"

definition has_adapters :: "process \<Rightarrow> nat \<Rightarrow> nat \<Rightarrow> nat \<Rightarrow> bool" where
  "has_adapters p q e l \<longleftrightarrow> ps_memory_queue p = Some q \<and> ps_memory_events p = Some e \<and> ps_memory_locks p = Some l"

lemma build_known:
  "uses_memory_backend st \<Longrightarrow> has_adapters p q e l \<Longrightarrow>
     build_coordination st c p = (Inr (memory_coordination q e l), p)"
  by (simp add: build_coordination_def shared_queue_def shared_events_def shared_locks_def has_adapters_def
      memory_coordination_def mbind_def ret_def)

lemma build_memory:
  assumes "uses_memory_backend st"
  shows "\<exists>q e l. fst (build_coordination st c p) = Inr (memory_coordination q e l)
    \<and> has_adapters (snd (build_coordination st c p)) q e l"
  using assms
  by (cases "ps_memory_queue p"; cases "ps_memory_events p"; cases "ps_memory_locks p")
     (simp_all add: build_coordination_def shared_queue_def shared_events_def shared_locks_def has_adapters_def
        memory_coordination_def mbind_def ret_def allocate_def)

lemma has_adapters_kept: "has_adapters p q e l \<Longrightarrow> keeps_adapters p p' \<Longrightarrow> has_adapters p' q e l"
  by (auto simp: has_adapters_def keeps_adapters_def extends_def)

text \<open>
  C23: one process, one queue. With in-process coordination, whatever else the process does in between
  (starting the worker or the API, sessions, schema changes, disposing of the engine), and under
  whatever consumer names, every build gives the same queue, the same event bus and the same locks,
  so that a task the API publishes is received by the worker beside it; and asking for a Redis
  client fails.
\<close>

theorem process_shares_adapters:
  assumes "uses_memory_backend st" and "uses_memory_backend st'"
  shows "fst (build_coordination st' c' (fold run_op ops (snd (build_coordination st c p)))) = fst (build_coordination st c p)
    \<and> (\<exists>co. fst (build_coordination st c p) = Inr co \<and> co_backend co = ''memory'')
    \<and> (\<exists>m. fst (get_redis st p) = Inl (OtherError ''RuntimeError'' m))"
proof -
  obtain q e l where b: "fst (build_coordination st c p) = Inr (memory_coordination q e l)"
    "has_adapters (snd (build_coordination st c p)) q e l" using build_memory [OF assms(1)] by blast
  from has_adapters_kept [OF b(2) keep_run_ops]
  have "has_adapters (fold run_op ops (snd (build_coordination st c p))) q e l" .
  then show ?thesis
    using b(1) assms by (simp add: build_known memory_coordination_def get_redis_def raise_def)
qed

definition fresh_process :: process where
  "fresh_process = \<lparr>ps_next = 0, ps_host = ''host'', ps_uuid = show_nat, ps_cwd = [], ps_expanduser = id,
     ps_from_url = (\<lambda>_. Inr ()), ps_create_engine = (\<lambda>_. Inr ()), ps_fs = [], ps_databases = (\<lambda>_. None),
     ps_memory_queue = None, ps_memory_events = None, ps_memory_locks = None, ps_redis_client = None,
     ps_coordination = None, ps_engine = None, ps_session_factory = None\<rparr>"

theorem process_shares_adapters_witness:
  "uses_memory_backend default_connections
   \<and> fst (build_coordination default_connections (Some ''api'')
        (fold run_op [Worker_Start default_connections, Dispose, Api_Start default_connections]
          (snd (build_coordination default_connections None fresh_process))))
      = fst (build_coordination default_connections None fresh_process)"
proof -
  have m: "uses_memory_backend default_connections"
    by (simp add: uses_memory_backend_def default_connections_def starts_with_def)
  show ?thesis
    using m process_shares_adapters [OF m m, of "Some ''api''"
      "[Worker_Start default_connections, Dispose, Api_Start default_connections]" None fresh_process] by blast
qed

section \<open>Sessions and schema\<close>

definition same_databases :: "process \<Rightarrow> process \<Rightarrow> bool" where
  "same_databases p q \<longleftrightarrow> ps_databases q = ps_databases p"

interpretation tables: effect_order same_databases
  by unfold_locales (auto simp: same_databases_def)

lemma engine_tables:
  "stays same_databases (get_engine st)" "stays same_databases (get_session_factory st)"
proof -
  have leaves: "stays same_databases allocate" "stays same_databases (modify (\<lambda>p. p\<lparr>ps_fs := f p\<rparr>))"
    "stays same_databases (modify (\<lambda>p. p\<lparr>ps_engine := e p\<rparr>))"
    "stays same_databases (modify (\<lambda>p. p\<lparr>ps_session_factory := e p\<rparr>))" for f e
    by (simp_all add: stays_def allocate_def same_databases_def)
  show engine: "stays same_databases (get_engine st)"
    unfolding get_engine_def prepare_sqlite_path_def Let_def
    by (auto intro!: tables.stays_rules leaves split: option.split prod.split)
  show "stays same_databases (get_session_factory st)"
    unfolding get_session_factory_def
    by (auto intro!: tables.stays_rules leaves engine split: option.split)
qed

lemma engine_databases:
  "ps_databases (snd (get_engine st p)) = ps_databases p" "ps_databases (snd (get_session_factory st p)) = ps_databases p"
  using engine_tables [of st, THEN stays_snd, where p = p] by (simp_all add: same_databases_def)

text \<open>A session that raises changes no table of any database; one that returns stores its changes.\<close>

lemma session_atomic:
  assumes "session_scope st body p = (r, q)"
  shows "(case r of
      Inl e \<Rightarrow> ps_databases q = ps_databases p
    | Inr v \<Rightarrow> \<exists>url d d'. ps_databases p url = Some d \<and> body d = (Inr v, d')
        \<and> ps_databases q = (ps_databases p)(url \<mapsto> d'))"
  using assms engine_databases(2) [of st p]
  by (auto simp: session_scope_def run_session_def mbind_def split: sum.splits prod.splits option.splits) blast

text \<open>Starting a worker or the API on a database that has its tables leaves what is stored.\<close>

lemma create_schema_keeps:
  assumes "ps_databases p url = Some d"
  shows "ps_databases (snd (create_schema st p)) url = Some d"
  using assms engine_databases(1) [of st p]
  by (auto simp: create_schema_def mbind_def split: sum.splits prod.splits)

end
