(* ===== verification/Delivery.thy ===== *)
theory Delivery
  imports Workflow
begin

text \<open>
  What the last nodes hand over, through the adapters they call: the CI status the workflow records is
  one the pipeline reported for the commit of the task, and the local review record behind the recorded
  URL reads back with the branch and a bounded title.
\<close>

section \<open>The steps of a node\<close>

lemma ci_node_steps:
  assumes "node_ci_validation cx s w = (Inr r, w')"
  obtains ws :: workspace and u run0 v run where "trigger_run (cx_ci cx) (get_default (ws_branch ws) (st_git_branch s)) (st_commit_sha s) u = (Inr run0, v)"
    and "fst ((if \<not> ci_finished run0 \<and> ci_id run0 \<noteq> [] then wait_for_run (cx_ci cx) (ci_id run0) else ret run0) v) = Inr run"
    and "evolves (cx_task_id cx) w u" and "st_ci_status (nr_state r) = Some (ci_status_value (ci_state run))"
  using assms unfolding node_ci_validation_def Let_def
proof (elim mbind_InrD, goal_cases)
  case (1 ws w1 x w2 y u run0 v run z logs z1 c z2 d z3)
  have "stays (evolves (cx_task_id cx)) (unless b (mbind (push_branch (cx_scm cx) (ws_path ws) branch) (\<lambda>_. ret ())))" for b branch
    by (intro evo_intros)
  with 1(3) have "evolves (cx_task_id cx) w1 w2" by (metis stays_D)
  moreover have "evolves (cx_task_id cx) w w1" using 1(2) evo_helpers(3) by (metis stays_D)
  moreover have "evolves (cx_task_id cx) w2 u" using 1(4) evo_context(1) by (metis stays_D)
  ultimately have "evolves (cx_task_id cx) w u" using evolves_trans by blast
  moreover have "st_ci_status (nr_state r) = Some (ci_status_value (ci_state run))"
    using 1 by (auto simp: just_def)
  ultimately show ?case using 1(1) [OF 1(5)] 1(6) by (metis fst_conv)
qed

section \<open>CI\<close>

text \<open>An answer of the pipeline about a run: what the status call of its identifier received.\<close>

definition status_answered :: "pystr \<Rightarrow> json \<Rightarrow> world \<Rightarrow> json \<Rightarrow> bool" where
  "status_answered repository run u answer \<longleftrightarrow>
     (case py_item run ''id'' of
        Inr i \<Rightarrow> (case fst (send_http API_ROOT (http_get (runs_url repository @ ''/'' @ py_str i) []) u) of
            Inr response \<Rightarrow> hs_body response = Some answer
          | Inl e \<Rightarrow> False)
      | Inl e \<Rightarrow> False)"

text \<open>
  What the pipeline said of a commit at some moment between two states: the entry of a listed run of the
  commit, or an answer to a question about that run.
\<close>

definition said_of_commit :: "pystr \<Rightarrow> pystr \<Rightarrow> pystr \<Rightarrow> pystr \<Rightarrow> world \<Rightarrow> json \<Rightarrow> bool" where
  "said_of_commit tid repository branch sha w answer \<longleftrightarrow>
     (\<exists>u run. evolves tid w u \<and> run_listed (send_http API_ROOT) repository branch u run \<and> of_commit sha run
        \<and> (answer = run \<or> (\<exists>v. evolves tid u v \<and> status_answered repository run v answer)))"

lemma to_result_fields:
  assumes "to_result run = Inr r"
  shows "run_status run = Inr (ci_state r)" and "\<exists>i. py_item run ''id'' = Inr i \<and> ci_id r = py_str i"
  using assms by (auto simp: to_result_def split: sum.splits)

lemma evo_list_runs: "stays (evolves tid) (list_runs (send_http base) repository branch)"
  unfolding list_runs_def by (intro evo_intros)

lemma evolves_listed: "evolves tid s (listed (send_http base) repository branch k s)"
proof (induction k)
  case (Suc k)
  have "evolves tid (listed (send_http base) repository branch k s) (listed (send_http base) repository branch (Suc k) s)"
    using evo_list_runs by (simp add: stays_def listed_def)
  with Suc show ?case by (rule evolves_trans)
qed (simp add: listed_def)

lemma get_status_answer:
  assumes "get_run_status (GitHub_Actions repository) i u = (Inr r, v)" and "i \<noteq> []"
    and "py_item run ''id'' = Inr j" and "i = py_str j"
  shows "ci_state r = CI_SKIP \<or> (\<exists>answer. status_answered repository run u answer \<and> to_result answer = Inr r)"
  using assms
  by (auto simp: github_get_status_def mbind_def skipped_run_def status_answered_def raise_for_status_def response_json_def
      split: prod.splits sum.splits if_splits option.splits)

text \<open>The verdict the pipeline gives for a commit, with the answer it is read from.\<close>

lemma ci_verdict_source:
  assumes "github_trigger (send_http API_ROOT) repository branch (Some sha) u = (Inr run0, v)"
    and "fst ((if \<not> ci_finished run0 \<and> ci_id run0 \<noteq> [] then wait_for_run (GitHub_Actions repository) (ci_id run0) else ret run0) v) = Inr run"
  shows "ci_state run \<in> {CI_SKIP, CI_TIMEOUT}
    \<or> (\<exists>answer. said_of_commit tid repository branch sha u answer \<and> run_status answer = Inr (ci_state run)
         \<and> (ci_state run = CI_PASS \<longleftrightarrow> succeeded answer))"
proof -
  have cases: "(\<exists>k entry. v = listed (send_http API_ROOT) repository branch (Suc k) u
        \<and> run_listed (send_http API_ROOT) repository branch (listed (send_http API_ROOT) repository branch k u) entry
        \<and> of_commit sha entry \<and> to_result entry = Inr run0)
      \<or> run0 = no_run branch"
    using trigger_attempts_cases [where n = 6 and send = "send_http API_ROOT" and repo = repository and branch = branch
        and sha = sha and s = u] assms(1)
    unfolding github_trigger_def by (simp only: prod.case sum.case) blast
  then show ?thesis
  proof
    assume "run0 = no_run branch"
    with assms(2) show ?thesis by (auto simp: no_run_def ci_finished_def)
  next
    assume "\<exists>k entry. v = listed (send_http API_ROOT) repository branch (Suc k) u
        \<and> run_listed (send_http API_ROOT) repository branch (listed (send_http API_ROOT) repository branch k u) entry
        \<and> of_commit sha entry \<and> to_result entry = Inr run0"
    then obtain k entry where v: "v = listed (send_http API_ROOT) repository branch (Suc k) u"
      and l: "run_listed (send_http API_ROOT) repository branch (listed (send_http API_ROOT) repository branch k u) entry"
      and c: "of_commit sha entry" and r0: "to_result entry = Inr run0" by blast
    let ?u = "listed (send_http API_ROOT) repository branch k u"
    note f = to_result_fields [OF r0]
    have uv: "evolves tid ?u v" using evo_list_runs [of tid] unfolding v by (simp add: stays_def listed_def)
    show ?thesis
    proof (cases "\<not> ci_finished run0 \<and> ci_id run0 \<noteq> []")
      case False
      then have "run = run0" using assms(2) by auto
      with l c f(1) to_result_pass [OF r0] show ?thesis
        using evolves_listed unfolding said_of_commit_def by blast
    next
      case True
      then obtain z where "ci_poll (get_run_status (GitHub_Actions repository) (ci_id run0)) time_spent (ci_id run0) (900 * 1000000) v = (Inr run, z)"
        using assms(2) by (auto simp: wait_for_run_def ci_wait_def prod_eq_iff)
      from evo.ci_poll_answer [OF evo_providers(4) evo_ids(7) this]
      consider (answer) x y where "evolves tid v x" "get_run_status (GitHub_Actions repository) (ci_id run0) x = (Inr run, y)"
        | (late) url where "run = timed_out_run (ci_id run0) url" by blast
      then show ?thesis
      proof cases
        case answer
        from f(2) obtain j where "py_item entry ''id'' = Inr j" "ci_id run0 = py_str j" by blast
        from get_status_answer [OF answer(2) _ this] True consider (skip) "ci_state run = CI_SKIP"
          | (said) a where "status_answered repository entry x a" "to_result a = Inr run" by blast
        then show ?thesis
        proof cases
          case said
          have "evolves tid ?u x" using uv answer(1) by (rule evolves_trans)
          with said(1) l c have "said_of_commit tid repository branch sha u a"
            unfolding said_of_commit_def using evolves_listed by blast
          with to_result_fields(1) [OF said(2)] to_result_pass [OF said(2)] show ?thesis by blast
        qed simp
      qed (simp add: timed_out_run_def)
    qed
  qed
qed

text \<open>
  the CI status the CI node records is what the pipeline said of the commit. Whatever the services
  answer, when the CI node returns for a task with a commit, the recorded status is SKIPPED or TIMED_OUT,
  or it is read from the listed entry of a run whose head is that commit or from a later answer about
  that run, and it is PASSED exactly when that answer reports success. Without a pipeline the status is
  SKIPPED, never PASSED.
\<close>

theorem recorded_ci_status_is_of_commit:
  "case node_ci_validation cx s w of
     (Inr r, w') \<Rightarrow>
       (case (cx_ci cx, st_commit_sha s, st_git_branch s) of
          (Noop_CI, _, _) \<Rightarrow> st_ci_status (nr_state r) = Some ''SKIPPED''
        | (GitHub_Actions repository, Some sha, Some branch) \<Rightarrow>
            st_ci_status (nr_state r) \<in> {Some ''SKIPPED'', Some ''TIMED_OUT''}
            \<or> (\<exists>answer verdict. said_of_commit (cx_task_id cx) repository branch sha w answer
                 \<and> run_status answer = Inr verdict \<and> st_ci_status (nr_state r) = Some (ci_status_value verdict)
                 \<and> (verdict = CI_PASS \<longleftrightarrow> succeeded answer))
        | _ \<Rightarrow> True)
   | (Inl e, w') \<Rightarrow> True"
proof (cases "node_ci_validation cx s w")
  case (Pair res w')
  show ?thesis
  proof (cases res)
    case (Inr r)
    with Pair have "node_ci_validation cx s w = (Inr r, w')" by simp
    then obtain ws :: workspace and u run0 v run
      where t: "trigger_run (cx_ci cx) (get_default (ws_branch ws) (st_git_branch s)) (st_commit_sha s) u = (Inr run0, v)"
      and wt: "fst ((if \<not> ci_finished run0 \<and> ci_id run0 \<noteq> [] then wait_for_run (cx_ci cx) (ci_id run0) else ret run0) v) = Inr run"
      and e: "evolves (cx_task_id cx) w u" and st: "st_ci_status (nr_state r) = Some (ci_status_value (ci_state run))"
      by (rule ci_node_steps)
    show ?thesis
    proof (cases "cx_ci cx")
      case Noop_CI
      then have "ci_state run0 = CI_SKIP" using t by (auto simp: noop_trigger_def mbind_def new_id_def ask_def Let_def)
      then have "run = run0" using wt by (simp add: ci_finished_def)
      with \<open>ci_state run0 = CI_SKIP\<close> st Noop_CI Pair Inr show ?thesis by simp
    next
      case (GitHub_Actions repository)
      show ?thesis
      proof (cases "st_commit_sha s = None \<or> st_git_branch s = None")
        case False
        then obtain sha branch where sb: "st_commit_sha s = Some sha" "st_git_branch s = Some branch" by auto
        have "github_trigger (send_http API_ROOT) repository branch (Some sha) u = (Inr run0, v)"
          using t unfolding GitHub_Actions sb by simp
        from ci_verdict_source [OF this wt [unfolded GitHub_Actions], of "cx_task_id cx"]
        consider "ci_state run \<in> {CI_SKIP, CI_TIMEOUT}"
          | answer where "said_of_commit (cx_task_id cx) repository branch sha u answer"
              "run_status answer = Inr (ci_state run)" "ci_state run = CI_PASS \<longleftrightarrow> succeeded answer" by blast
        then show ?thesis
        proof cases
          case 1
          with st GitHub_Actions sb Pair Inr show ?thesis by auto
        next
          case 2
          from 2(1) e have "said_of_commit (cx_task_id cx) repository branch sha w answer"
            unfolding said_of_commit_def using evolves_trans by blast
          with 2(2,3) st GitHub_Actions sb Pair Inr show ?thesis by auto
        qed
      qed (use GitHub_Actions Pair Inr in \<open>auto split: option.split\<close>)
    qed
  qed (simp add: Pair)
qed

section \<open>The status a run ends with\<close>

lemma ci_node_passed:
  assumes "node_ci_validation cx s w = (Inr r, w')" and "st_ci_status (nr_state r) = Some ''PASSED''"
    and "st_commit_sha s = Some sha"
  shows "case cx_ci cx of
      Noop_CI \<Rightarrow> False
    | GitHub_Actions repository \<Rightarrow> \<exists>branch answer. said_of_commit (cx_task_id cx) repository branch sha w answer \<and> succeeded answer"
proof -
  obtain ws :: workspace and u run0 v run
    where t: "trigger_run (cx_ci cx) (get_default (ws_branch ws) (st_git_branch s)) (st_commit_sha s) u = (Inr run0, v)"
    and wt: "fst ((if \<not> ci_finished run0 \<and> ci_id run0 \<noteq> [] then wait_for_run (cx_ci cx) (ci_id run0) else ret run0) v) = Inr run"
    and e: "evolves (cx_task_id cx) w u" and st: "st_ci_status (nr_state r) = Some (ci_status_value (ci_state run))"
    by (rule ci_node_steps [OF assms(1)])
  have pass: "ci_state run = CI_PASS" using st assms(2) by (cases "ci_state run") simp_all
  show ?thesis
  proof (cases "cx_ci cx")
    case Noop_CI
    then have "ci_state run0 = CI_SKIP" using t by (auto simp: noop_trigger_def mbind_def new_id_def ask_def Let_def)
    then have "run = run0" using wt by (simp add: ci_finished_def)
    with \<open>ci_state run0 = CI_SKIP\<close> pass show ?thesis by simp
  next
    case (GitHub_Actions repository)
    let ?branch = "get_default (ws_branch ws) (st_git_branch s)"
    have "github_trigger (send_http API_ROOT) repository ?branch (Some sha) u = (Inr run0, v)"
      using t unfolding GitHub_Actions assms(3) by simp
    from ci_verdict_source [OF this wt [unfolded GitHub_Actions], of "cx_task_id cx"] pass
    obtain answer where "said_of_commit (cx_task_id cx) repository ?branch sha u answer" "succeeded answer" by auto
    moreover from this(1) e have "said_of_commit (cx_task_id cx) repository ?branch sha w answer"
      unfolding said_of_commit_def using evolves_trans by blast
    ultimately show ?thesis using GitHub_Actions by auto
  qed
qed

text \<open>A pipeline that passed the commit \<open>c1\<close>, and the status the CI node records with it.\<close>

definition passing_world :: world where
  "passing_world = (new_world (quiet_answers\<lparr>
       o_proc := (\<lambda>_. Exited (Some 0) [] [] False id),
       o_http := (\<lambda>_ _. Inr \<lparr>hs_status = 200, hs_body = Some (JObj [(''workflow_runs'', JArr [JObj [(''head_sha'', JStr ''c1''),
         (''status'', JStr ''completed''), (''conclusion'', JStr ''success''), (''id'', JInt 7)]])])\<rparr>)\<rparr>) [([''repo''], Dir)])
     \<lparr>w_workspaces := [''TASK-1'' \<mapsto> \<lparr>ws_task_id = ''TASK-1'', ws_path = [''repo''], ws_branch = ''b'', ws_repository_path = [''repo'']\<rparr>]\<rparr>"

lemma passing_trigger:
  assumes "w_answers v = w_answers passing_world"
  shows "trigger_run (GitHub_Actions ''o/r'') ''b'' (Some ''c1'') v =
      (Inr \<lparr>ci_id = ''7'', ci_state = CI_PASS, ci_url = [], ci_logs = []\<rparr>, v\<lparr>w_tick := Suc (w_tick v)\<rparr>)"
    and "fst (get_run_logs (GitHub_Actions ''o/r'') ''7'' v) = Inr []"
proof -
  have send: "send_http API_ROOT q v = (Inr \<lparr>hs_status = 200, hs_body = Some (JObj [(''workflow_runs'', JArr [JObj [(''head_sha'', JStr ''c1''),
      (''status'', JStr ''completed''), (''conclusion'', JStr ''success''), (''id'', JInt 7)]])])\<rparr>, v\<lparr>w_tick := Suc (w_tick v)\<rparr>)" for q
    using assms by (simp add: send_http_def ask_def mbind_def passing_world_def new_world_def)
  have seven: "show_int 7 = ''7''" by code_simp
  show "trigger_run (GitHub_Actions ''o/r'') ''b'' (Some ''c1'') v =
      (Inr \<lparr>ci_id = ''7'', ci_state = CI_PASS, ci_url = [], ci_logs = []\<rparr>, v\<lparr>w_tick := Suc (w_tick v)\<rparr>)"
    by (simp add: github_trigger_def eval_nat_numeral list_runs_def mbind_def send raise_for_status_def response_json_def
        py_get_def dict_get_def py_iter_def to_result_def run_status_def conclusion_status_def py_bool_def CONCLUSION_MAP_def
        py_item_def seven py_str_def)
  show "fst (get_run_logs (GitHub_Actions ''o/r'') ''7'' v) = Inr []"
    by (simp add: github_get_logs_def mbind_def send response_json_def py_get_def dict_get_def py_iter_def)
qed

lemma passing_push:
  "\<exists>x u. run_command [''git'', ''rev-parse'', ''--abbrev-ref'', ''HEAD''] [''repo''] passing_world = (Inr x, u)
     \<and> w_answers u = w_answers passing_world"
proof -
  have "str_lower (path_stem ''git'') \<in> set ALLOWED_EXECUTABLES" by code_simp
  then show ?thesis
    by (simp add: run_command_def passing_world_def new_world_def resolve_path_def fs_is_dir_def fs_lookup_def
        spawn_def ask_def mbind_def)
qed

lemma passing_pipeline_is_recorded:
  "map_sum id (\<lambda>r. st_ci_status (nr_state r)) (fst (node_ci_validation (sample_ctx\<lparr>cx_ci := GitHub_Actions ''o/r''\<rparr>)
     (empty_state\<lparr>st_task_id := Some ''TASK-1'', st_commit_sha := Some ''c1'', st_git_branch := Some ''b''\<rparr>) passing_world))
   = Inr (Some ''PASSED'')"
proof -
  let ?cx = "sample_ctx\<lparr>cx_ci := GitHub_Actions ''o/r''\<rparr>"
  let ?e = "emit ?cx Ev_CI_STARTED [(''branch'', JStr ''b''), (''provider'', JStr ''github_actions'')]"
  obtain x u where push: "run_command [''git'', ''rev-parse'', ''--abbrev-ref'', ''HEAD''] [''repo''] passing_world = (Inr x, u)"
    and u: "w_answers u = w_answers passing_world" using passing_push by blast
  have "w_answers (snd (?e u)) = w_answers u"
    using evo_context(1) [of ?cx] by (simp add: stays_def evolves_def)
  then have v: "w_answers (snd (?e u)) = w_answers passing_world" using u by simp
  have ws: "workspace_of (empty_state\<lparr>st_task_id := Some ''TASK-1'', st_commit_sha := Some ''c1'', st_git_branch := Some ''b''\<rparr>) passing_world
      = (Inr \<lparr>ws_task_id = ''TASK-1'', ws_path = [''repo''], ws_branch = ''b'', ws_repository_path = [''repo'']\<rparr>, passing_world)"
    by (simp add: workspace_of_def need_key_def ws_get_def mbind_def passing_world_def)
  have local: "cx_scm ?cx = Local_Git [''artifacts'']" by (simp add: sample_ctx_def)
  have logs: "fst (get_run_logs (GitHub_Actions ''o/r'') ''7'' ((snd (?e u))\<lparr>w_tick := Suc (w_tick (snd (?e u)))\<rparr>)) = Inr []"
    using v by (intro passing_trigger(2)) simp
  have logged: "fst (mbind (get_run_logs (GitHub_Actions ''o/r'') ''7'') f z) = fst (f logs (snd (get_run_logs (GitHub_Actions ''o/r'') ''7'' z)))"
    if "fst (get_run_logs (GitHub_Actions ''o/r'') ''7'' z) = Inr logs" for f logs z
    using that by (simp add: mbind_def split_beta)
  have rec: "safe (record_ci_run cx a b c d f g h i)" for cx a b c d f g h i
    unfolding record_ci_run_def by (intro safe_intros)
  have pure: "mbind (Pair (Inr y)) f = f y" for y and f :: "'a \<Rightarrow> 'b io" by (simp add: mbind_def fun_eq_iff)
  show ?thesis
    by (simp add: node_ci_validation_def Let_def mbind_def [of "workspace_of _"] ws local unless_def pure
        mbind_assoc mbind_def [of "local_push_branch _ _"] local_push_branch_def mbind_def [of "run_command _ _"] push
        mbind_safe safe_intros rec mbind_def [of "trigger_run _ _ _"] passing_trigger(1) [OF v] ci_finished_def logged [OF logs] just_def
        del: trigger_run.simps get_run_logs.simps)
qed

lemma evolves_opened: "evolves (cx_task_id cx) w (opened cx n s w)"
  using evo_open_node [of cx n s] unfolding opened_def by (simp add: stays_def)

lemma evolves_flow: "flow_steps cx k (m, s, w) (m', s', w') \<Longrightarrow> evolves (cx_task_id cx) w w'"
proof (induction k arbitrary: m' s' w')
  case (Suc k)
  then obtain n t u where d: "flow_steps cx k (m, s, w) (n, t, u)" "graph_step (supervised cx) (leaves cx) (n, t, u) (m', s', w')"
    by (auto elim: relpowp_Suc_E)
  from d(2) obtain n' where "w' = leaves cx n' t u" by (auto elim: graph_stepE)
  then have "evolves (cx_task_id cx) u w'" using evo_instrumented [of cx] by (simp add: leaves_def stays_def)
  with Suc.IH [OF d(1)] show ?case by (rule evolves_trans)
qed simp

text \<open>
  C20: a CI status of PASSED is what the pipeline said of the final commit. Whatever the model, the tools
  and the services do, when a run of the workflow that did not start with PASSED ends with it, then there
  is a pipeline, and during the run it reported success for a run whose head is the very commit the run
  ends with: in the entry of the listing or in a later answer about that run.
\<close>

theorem passed_ci_is_of_final_commit:
  "case run_graph cx msg limit N_plan s w of
     (Inr s', w') \<Rightarrow>
       (if st_ci_status s \<noteq> Some ''PASSED'' \<and> st_ci_status s' = Some ''PASSED''
        then (case (cx_ci cx, st_commit_sha s') of
                (GitHub_Actions repository, Some sha) \<Rightarrow>
                  \<exists>branch answer. said_of_commit (cx_task_id cx) repository branch sha w answer \<and> succeeded answer
              | _ \<Rightarrow> False)
        else True)
   | (Inl e, w') \<Rightarrow> e = OtherError ''GraphRecursionError'' msg"
  using run_graph_steps [of limit cx msg N_plan s w]
proof
  assume "\<exists>k s' w'. k < limit \<and> run_graph cx msg limit N_plan s w = (Inr s', w')
     \<and> flow_steps cx (Suc k) (Some N_plan, s, w) (None, s', w')"
  then obtain k s' w' where run: "run_graph cx msg limit N_plan s w = (Inr s', w')"
    and steps: "flow_steps cx (Suc k) (Some N_plan, s, w) (None, s', w')" by blast
  show ?thesis
  proof (cases "st_ci_status s \<noteq> Some ''PASSED'' \<and> st_ci_status s' = Some ''PASSED''")
    case True
    with platform.steps_passed [OF steps] obtain j t u
      where j: "flow_steps cx j (Some N_plan, s, w) (Some N_ci_validation, t, u)"
        and p: "st_ci_status (supervised cx N_ci_validation t u) = Some ''PASSED''"
        and c: "st_commit_sha s' = st_commit_sha t" by blast
    have "truthy_str (st_commit_sha t)" using platform.steps_sound [OF j] by simp
    then obtain sha where sha: "st_commit_sha t = Some sha" by (cases "st_commit_sha t") simp_all
    obtain res x where node: "node_ci_validation cx t (opened cx N_ci_validation t u) = (res, x)" by fastforce
    with p obtain r where r: "res = Inr r" "st_ci_status (nr_state r) = Some ''PASSED''"
      by (cases res) (simp_all add: supervised_def node_update_def)
    have "case cx_ci cx of Noop_CI \<Rightarrow> False | GitHub_Actions repository \<Rightarrow>
        \<exists>branch answer. said_of_commit (cx_task_id cx) repository branch sha (opened cx N_ci_validation t u) answer \<and> succeeded answer"
      by (rule ci_node_passed [OF node [unfolded r(1)] r(2) sha])
    moreover have "evolves (cx_task_id cx) w (opened cx N_ci_validation t u)"
      using evolves_flow [OF j] evolves_opened by (rule evolves_trans)
    then have "said_of_commit (cx_task_id cx) repository branch sha (opened cx N_ci_validation t u) answer
        \<Longrightarrow> said_of_commit (cx_task_id cx) repository branch sha w answer" for repository branch answer
      unfolding said_of_commit_def using evolves_trans by blast
    ultimately show ?thesis
      unfolding run prod.case sum.case if_P [OF True] c sha by (cases "cx_ci cx") (simp, force)
  next
    case False
    show ?thesis unfolding run prod.case sum.case if_not_P [OF False] by (rule TrueI)
  qed
qed auto

section \<open>The pull request\<close>

text \<open>Computations that leave the store alone.\<close>

definition db_kept :: "world \<Rightarrow> world \<Rightarrow> bool" where
  "db_kept w w' \<longleftrightarrow> w_db w' = w_db w"

interpretation dbk: effect_order db_kept
  by unfold_locales (simp_all add: db_kept_def)

lemma dbk_steps:
  "stays db_kept (ask f)" "stays db_kept (modify (\<lambda>w. w\<lparr>w_fs := g w\<rparr>))"
  "stays db_kept (spawn c p)" "stays db_kept (new_id k)" "stays db_kept utcnow" "stays db_kept (send_http b q)"
  by (auto simp: stays_def db_kept_def ask_def spawn_def new_id_def utcnow_def send_http_def mbind_def split: proc_outcome.split sum.split)

lemma dbk_run_command: "stays db_kept (run_command c p)"
  unfolding run_command_def
  by (auto intro!: dbk.stays_rules dbk_steps split: list.split proc_outcome.split)

lemma dbk_open_pull_request: "stays db_kept (open_pull_request scm s p)"
proof -
  have "stays db_kept (push_branch scm p b)" for b
    by (cases scm) (auto intro!: dbk.stays_rules dbk_run_command
        simp: local_push_branch_def github_push_branch_def azure_push_branch_def push_refspec_def)
  moreover have "stays db_kept (create_pull_request scm b t body)" for b t body
    by (cases scm) (auto intro!: dbk.stays_rules dbk_steps
        simp: local_create_pull_request_def github_create_pull_request_def azure_create_pull_request_def write_text_def
          raise_for_status_def response_json_def Let_def split: option.split)
  ultimately show ?thesis unfolding open_pull_request_def Let_def by (intro dbk.stays_rules)
qed

text \<open>Reading a review record depends on the file system only.\<close>

lemma local_get_pull_request_fs:
  assumes "w_fs u = w_fs v"
  shows "local_get_pull_request fr artifacts i u = (fst (local_get_pull_request fr artifacts i v), u)"
  using assms
  by (simp add: local_get_pull_request_def read_text_def mbind_def split: sum.split option.split)

lemma emit_effect:
  obtains e where "w_fs (snd (emit cx typ payload w)) = w_fs w"
    and "db_events (w_db (snd (emit cx typ payload w))) = db_events (w_db w) @ [e]"
    and "e_task_id e = cx_task_id cx" "e_type e = typ" "e_payload e = payload"
  by (simp add: emit_def append_event_def publish_event_def event_id_def new_id_def utcnow_def ask_def on_db_def
      event_append_def event_insert_def mbind_def Let_def)

text \<open>
  The host has answered a request with a success and this payload, in a world the run has come to.
\<close>

definition host_answered :: "pystr \<Rightarrow> world \<Rightarrow> pystr \<Rightarrow> http_request \<Rightarrow> json \<Rightarrow> bool" where
  "host_answered tid w base q payload \<longleftrightarrow>
     (\<exists>u response. evolves tid w u \<and> fst (send_http base q u) = Inr response
        \<and> 200 \<le> hs_status response \<and> hs_status response \<le> 299 \<and> hs_body response = Some payload)"

text \<open>The text under a key of an answer.\<close>

definition answer_text :: "json \<Rightarrow> pystr \<Rightarrow> pystr result" where
  "answer_text payload k = map_sum id py_str (py_item payload k)"

definition github_opened :: "pystr \<Rightarrow> world \<Rightarrow> pystr \<Rightarrow> pystr \<Rightarrow> pystr \<Rightarrow> pystr \<Rightarrow> pull_request \<Rightarrow> bool" where
  "github_opened tid w repository branch title body pr \<longleftrightarrow>
     (\<exists>payload. host_answered tid w API_ROOT (http_post (pulls_url repository) [] [(''title'', JStr title),
          (''body'', JStr body), (''head'', JStr branch), (''base'', JStr ''main'')]) payload
        \<and> answer_text payload ''number'' = Inr (pr_id pr) \<and> answer_text payload ''html_url'' = Inr (pr_url pr))"

definition azure_opened :: "pystr \<Rightarrow> world \<Rightarrow> azure \<Rightarrow> pystr \<Rightarrow> pystr \<Rightarrow> pystr \<Rightarrow> pull_request \<Rightarrow> bool" where
  "azure_opened tid w az branch title body pr \<longleftrightarrow>
     (\<exists>payload. host_answered tid w (azure_root az) (http_post (azure_pulls_url az) [(''api-version'', JStr API_VERSION)]
          [(''sourceRefName'', JStr (''refs/heads/'' @ branch)), (''targetRefName'', JStr ''refs/heads/main''),
           (''title'', JStr title), (''description'', JStr body)]) payload
        \<and> answer_text payload ''pullRequestId'' = Inr (pr_id pr)
        \<and> pr_url pr = ''https://dev.azure.com/'' @ az_organization az @ ''/'' @ az_project az @ ''/_git/''
            @ az_repository az @ ''/pullrequest/'' @ pr_id pr)"

lemma host_answeredI:
  assumes "evolves tid w u" and "send_http base q u = (Inr response, u')"
    and "raise_for_status response v = (Inr (), v')" and "response_json response x = (Inr payload, x')"
  shows "host_answered tid w base q payload"
  using assms unfolding host_answered_def
  by (intro exI [of _ u] exI [of _ response])
    (auto simp: raise_for_status_def response_json_def raise_def ret_def split: if_splits option.splits)

lemma github_create_opens:
  assumes "evolves tid w u" and "create_pull_request (GitHub_Scm token repository) branch title body u = (Inr pr, v)"
  shows "github_opened tid w repository branch title body pr"
proof -
  from assms(2) show ?thesis
    unfolding create_pull_request.simps github_create_pull_request_def github_opened_def
    by (elim mbind_InrD) (auto intro!: exI host_answeredI [OF assms(1)] elim!: mbind_InrD
        simp: github_pull_request_def answer_text_def raise_def split: if_splits sum.splits)
qed

lemma azure_create_opens:
  assumes "evolves tid w u"
    and "create_pull_request (Azure_DevOps organization project repository token) branch title body u = (Inr pr, v)"
  shows "azure_opened tid w (azure_of organization project repository token) branch title body pr"
proof -
  from assms(2) show ?thesis
    unfolding create_pull_request.simps azure_create_pull_request_def azure_opened_def Let_def
    by (elim mbind_InrD) (auto intro!: exI host_answeredI [OF assms(1)] elim!: mbind_InrD
        simp: azure_created_def answer_text_def raise_def split: if_splits sum.splits)
qed

text \<open>
  C26: the hand-over is what a reviewer finds. When the node that opens the pull request returns, the
  recorded URL is that of the pull request, and the event log of the task has exactly one more event,
  PR_CREATED with that URL and identifier. The title is built from the state and cut to 72 characters.
  With GitHub, the host has answered the request that names the task's branch, that title and the
  description built from the state with a success, and identifier and URL are the \<open>number\<close> and the
  \<open>html_url\<close> of its answer; with Azure DevOps the identifier is the \<open>pullRequestId\<close> of the answer and
  the URL the page of that number in the repository. With the local provider the review record reads
  back under the identifier, with the task's branch and the title.
\<close>

theorem pull_request_hand_over:
  "case node_create_pr cx s w of
     (Inr r, w') \<Rightarrow>
       \<exists>pr e title. st_pull_request_url (nr_state r) = Some (pr_url pr)
         \<and> db_events (w_db w') = db_events (w_db w) @ [e]
         \<and> e_task_id e = cx_task_id cx \<and> e_type e = Ev_PR_CREATED
         \<and> e_payload e = [(''url'', JStr (pr_url pr)), (''id'', JStr (pr_id pr))]
         \<and> pull_request_title s = Inr title \<and> length title \<le> MAX_SUBJECT
         \<and> (let branch = get_default [] (st_git_branch s); body = pull_request_body s in
            case cx_scm cx of
              Local_Git artifacts \<Rightarrow> get_pull_request fr (cx_scm cx) (pr_id pr) w' = (Inr (Some pr), w')
                \<and> pr_branch pr = branch \<and> pr_title pr = title
            | GitHub_Scm token repository \<Rightarrow> github_opened (cx_task_id cx) w repository branch title body pr
            | Azure_DevOps organization project repository token \<Rightarrow>
                azure_opened (cx_task_id cx) w (azure_of organization project repository token) branch title body pr)
   | (Inl e, w') \<Rightarrow> True"
proof (cases "node_create_pr cx s w")
  case (Pair res w')
  show ?thesis
  proof (cases res)
    case (Inr r)
    let ?branch = "get_default [] (st_git_branch s)"
    from Inr Pair have "node_create_pr cx s w = (Inr r, w')" by simp
    then obtain ws w1 pr w2 where ws: "workspace_of s w = (Inr ws, w1)"
      and pr: "open_pull_request (cx_scm cx) s (ws_path ws) w1 = (Inr pr, w2)"
      and em: "snd (emit cx Ev_PR_CREATED [(''url'', JStr (pr_url pr)), (''id'', JStr (pr_id pr))] w2) = w'"
      and r: "st_pull_request_url (nr_state r) = Some (pr_url pr)"
      unfolding node_create_pr_def by (elim mbind_InrD) (auto simp: just_def)
    from pr obtain title pushed w3 where push: "push_branch (cx_scm cx) (ws_path ws) ?branch w1 = (Inr pushed, w3)"
      and t: "pull_request_title s = Inr title"
      and c: "create_pull_request (cx_scm cx) ?branch title (pull_request_body s) w3 = (Inr pr, w2)"
      unfolding open_pull_request_def Let_def by (elim mbind_InrD) auto
    have len: "length title \<le> MAX_SUBJECT" using t by (auto simp: pull_request_title_def map_sum_Inr_iff)
    have "evolves (cx_task_id cx) w w3"
      using stays_D [OF evo_helpers(3) ws] stays_D [OF evo_providers(1) push] evolves_trans by blast
    note hosts = github_create_opens [OF this] azure_create_opens [OF this]
    have "w_db w1 = w_db w"
      using ws by (auto simp: workspace_of_def need_key_def ws_get_def mbind_def split: option.splits sum.splits)
    moreover have "w_db w2 = w_db w1" using stays_D [OF dbk_open_pull_request pr] by (simp add: db_kept_def)
    moreover obtain e where e: "w_fs w' = w_fs w2" "db_events (w_db w') = db_events (w_db w2) @ [e]"
      "e_task_id e = cx_task_id cx" "e_type e = Ev_PR_CREATED" "e_payload e = [(''url'', JStr (pr_url pr)), (''id'', JStr (pr_id pr))]"
      using em by (metis emit_effect)
    moreover have "get_pull_request fr (cx_scm cx) (pr_id pr) w' = (Inr (Some pr), w') \<and> pr_branch pr = ?branch
        \<and> pr_title pr = title" if scm: "cx_scm cx = Local_Git artifacts" for artifacts
      using local_pull_request_reads_back [where artifacts = artifacts and branch = ?branch
          and title = title and body = "pull_request_body s" and base = "''main''" and w = w3 and fr = fr]
        c scm local_get_pull_request_fs [OF e(1), of fr artifacts "pr_id pr"] by simp
    ultimately show ?thesis using r Pair Inr t len c hosts
      by (intro case_prodI2) (cases "cx_scm cx"; auto simp: Let_def intro!: exI [of _ pr] exI [of _ e])
  qed (simp add: Pair)
qed

end
