(* ===== verification/Spec2Isabelle.thy ===== *)
theory Spec2Isabelle
  imports Consumer Event_Text Column_Types Live_Events Redis_Lock Composition Delivery
begin

text \<open>
  \<^bold>\<open>The program.\<close> The platform takes engineering issues over HTTP, stores them as tasks, and has
  worker processes solve them: a workflow of agents explores the repository, plans, edits, builds and
  tests in an isolated git worktree, passes a policy gate, commits, waits for CI, opens a pull
  request, and hands the task to a human for approval. Python strings are lists of characters
  (\<open>pystr\<close>), errors are the datatype \<open>py_error\<close>, and effectful code is state passing with exceptions
  over the record \<open>world\<close> (theories Effects and World). A transaction of the store does not fail and is
  one step of the model; where two of them can meet inside their statements and it matters, the
  statements are modelled (appends to the event log, in Store).

  \<^bold>\<open>How the parts interact.\<close> \<open>apps/api\<close> stores a task and puts its id into the queue. \<open>apps/worker\<close>
  receives the id, takes the lock and the lease, builds the providers and runs the graph of \<open>graph/\<close>.
  Each node is wrapped by the supervisor of \<open>agents/supervisor.py\<close>, runs an agent of \<open>agents/\<close> or plain
  code of \<open>graph/nodes.py\<close>, and its update is merged into the state and checkpointed. Agents call the
  tools of \<open>tools/\<close> through the gates of \<open>agents/base.py\<close>. Everything is recorded in the store of
  \<open>persistence/\<close>, whose event log the API replays to its clients.

  \<^bold>\<open>Theories and what they model\<close>
  \<^item> Prelude, Domain: Python's string methods; \<open>core/domain.py\<close>, \<open>core/errors.py\<close>.
  \<^item> Regex, Sha256, Json, Difflib: the parts of \<open>re\<close>, \<open>hashlib\<close>, \<open>json\<close> and \<open>difflib\<close> that the sources
    use. Regex is a backtracking matcher whose repetitions take at most as many rounds as there are
    characters left, since a round that consumes nothing ends the repetition.
  \<^item> Policy: \<open>policies/evaluator.py\<close> with the shipped rules. Evaluation is the strongest of what fires;
    the write gate and the commit gate agree; more files never weaken a decision.
  \<^item> Fingerprint, Routing, Agent_State: \<open>graph/fingerprint.py\<close>, \<open>graph/routing.py\<close>, \<open>graph/state.py\<close>.
    The no-progress test compares multisets of failure signatures.
  \<^item> Store: \<open>persistence/models\<close> and \<open>persistence/repositories/tasks.py\<close>, \<open>audit.py\<close>; tables are lists
    of rows in insertion order, also where the code asks for no order (\<open>find_recoverable\<close>). The two
    statements of an append to the event log are separate steps of concurrent sessions: while no
    append is torn by another one to the same task, the log is numbered without gaps and replays;
    torn appends repeat a number.
  \<^item> Locks, Queue: the in-process lock and queue of \<open>infrastructure\<close>. The locale \<open>lease_lock\<close> is the
    contract of a lock with expiry, interpreted on the lock table and on the lease columns of the task
    rows: both are exclusive, the lease also among the other writes to the task table, of which those
    with a terminal status end it. The locale \<open>task_queue\<close> is the contract of a queue, interpreted on the
    in-process queue.
  \<^item> Redis_Lock, Redis_Queue, Live_Events: the Redis lock and queue and the two event buses of
    \<open>infrastructure\<close>. The Redis server is a parameter, a record of its commands, with the laws its
    documentation promises as hypotheses (a claim of idle entries may return fewer than there are): the
    lock then meets \<open>lease_lock\<close> and is exclusive, and every
    published task is acknowledged or can still be delivered. A subscription yields the events of its
    task in order.
  \<^item> Composition: \<open>infrastructure/__init__.py\<close>, \<open>persistence/db.py\<close>, \<open>apps/api/dependencies.py\<close>, and what the
    two entry points do when they start and stop, over the module variables of a process. A process
    with in-process coordination has one queue, one bus and one lock table.
  \<^item> Json_Text, Column_Types: the text that \<open>json\<close> writes and reads back, proved to round-trip; the
    column types of \<open>persistence/models/types.py\<close>.
  \<^item> Clock: the text of a time, with the calendar of \<open>datetime\<close>; a date determines its day.
  \<^item> Effects, World: computations, the state of a process, \<open>tools/runner.py\<close>, \<open>core/ids.py\<close>,
    \<open>core/time.py\<close>. The locale \<open>effect_order\<close> carries relations between states through every
    combinator; its interpretations give the frame properties of whole handlers.
  \<^item> Filesystem, Tools_Fs, Git_Tools, Testing: \<open>tools/workspace.py\<close>, \<open>tools/base.py\<close>,
    \<open>tools/filesystem\<close>, \<open>tools/git\<close>, \<open>tools/testing\<close> over a file system with symbolic links. Write tools
    are confined to the workspace; a patch changes its anchor and line endings only; a new file
    never overwrites.
  \<^item> Search_Tools: \<open>tools/repository\<close>. A search in Python gives exactly the first matching lines; a
    reference is a whole word; the search tools only read.
  \<^item> Providers, Factories: the interfaces of \<open>llm/base.py\<close>, \<open>providers/ci/base.py\<close>,
    \<open>providers/scm/base.py\<close>, and the selection of adapters with their configuration errors. Waiting
    for a run polls a bounded number of times.
  \<^item> Llm_Adapters, Service_Adapters: the scripted and the Claude adapter of \<open>llm\<close>; GitHub Actions and
    the adapter without CI; the local, GitHub and Azure DevOps adapters; the calls of the interfaces on
    the provider that was chosen, which the nodes make. A script is replayed per agent; the verdict of
    CI belongs to the commit; a local pull request reads back. The model itself is called through its
    interface, as a tape of answers, which covers both adapters.
  \<^item> Prompts: \<open>str.format\<close> without arguments, as the agents format their templates.
  \<^item> Registry, Agent_Base, Agents, Git_Agent: \<open>tools/registry.py\<close>, \<open>agents/base.py\<close> and the eight agents.
    Every tool call is audited; a refused call has no effect; a run is bounded by its turns; a JSON
    answer in the text of the model is read back.
  \<^item> Context, Nodes, Supervisor, Frames, Workflow: \<open>graph/context.py\<close>, \<open>graph/nodes.py\<close>,
    \<open>agents/supervisor.py\<close>, \<open>graph/workflow.py\<close>. The locale \<open>workflow_nodes\<close> states what the graph needs
    of its nodes (Frames proves it for the platform's nodes): commits follow the policy gate's verdict
    on the diff git reports, a finished run has earned its status, and runs end.
  \<^item> Delivery: what the last nodes hand over through the adapters. A run that ends with a passed CI has
    that verdict from the pipeline, for the commit it ends with; the recorded pull request is
    the one in the answer of GitHub or Azure DevOps, or reads back from the local provider.
  \<^item> Executor, Consumer: \<open>apps/worker/execution.py\<close>, \<open>apps/worker/consumer.py\<close>. Guards that
    were taken are released, an execution touches the rows of its task only, the reported status is
    the stored one, a free task is settled. The consumer's loop is a step relation in which the work of
    handlers interleaves in steps of any size, with sweeps, reclaimed Redis messages and the end of the
    loop; it conserves messages and permits, up to the permits that reclaimed messages add.
  \<^item> Task_Service, Api: \<open>apps/api/services.py\<close>, the routes and schemas of \<open>apps/api\<close>. Decisions refine
    a transition table; creation is idempotent; an answer to a submission means what its status code
    says; a stream replays without repeating itself.
  \<^item> Event_Text: the text of the stream and the reader of \<open>scripts/submit_task.py\<close>; what is written is
    read back.
  \<^item> Ingestion, Search, Code_Index: \<open>retrieval/ingestion\<close>, \<open>retrieval/search\<close>,
    \<open>persistence/repositories/code.py\<close>. Chunks are faithful to the files; lexical search finds exactly
    what shares a token; fusion is reciprocal rank fusion and every result names exactly the sources
    that found it. The order in which the database returns chunks is a parameter, as the queries
    have no ORDER BY, and indexing round-trips for every such order. \<open>repo_list\<close> keeps insertion order.

  \<^bold>\<open>Bounds and fuel.\<close> \<open>run_graph\<close> takes \<open>RECURSION_LIMIT\<close> (60) supersteps as the code configures the
  graph engine; a run whose repair nodes do not raise needs at most 11 + 2 per debugging round + 5 per
  CI round, 27 with the default settings, and otherwise the recursion error is a value of the model.
  Waiting for CI polls 91 times at most, for \<open>timeout / interval\<close> of the defaults plus one, as
  each round takes at least the interval off the time that is left. Path
  resolution follows at most \<open>MAX_LINKS\<close> links and then fails. This is the operating system's limit when
  the file is opened; Python's \<open>realpath\<close> has none and finds cycles by itself, so on a chain of more links
  than that the model fails one step earlier than the program. Every other
  loop of the model is a recursion with a proof of termination.

  \<^bold>\<open>The environment.\<close> The clock, random identifiers, spawned processes, the language model, the
  responses of HTTP services, \<open>rg\<close> and the compilation of a pattern the model writes are tapes
  of answers in \<open>world\<close>; theorems hold for every tape unless they say otherwise. The
  text of a float that JSON is read as and an embedder are parameters. Floating-point numbers are reals or rationals, and
  identifiers the code stores as text are compared as text. The graph engine is modelled by its
  documented behaviour: one node per superstep, updates merged key by key, an error when the limit of
  supersteps is reached; the statements about exact budgets rest on that count. Whether a request's
  transaction is committed before or after the background task of its response starts depends on the
  version of the web framework; \<open>post_task\<close> writes the former, and no property speaks of that order. In the
  event stream the status read for the task is a free input, since the session may return a row it
  loaded earlier.

  \<^bold>\<open>Not modelled.\<close> The Redis server, the database driver and the HTTP services, which are external;
  YAML parsing; logging; signal handling, the mounting of the routers and the middleware of the web
  application; \<open>expanduser\<close> of the configured roots of workspaces and artefacts (it is a parameter in the
  path of a repository and of a database); characters beyond one byte; the HTTP clients' headers; the
  scripts, except the reader of the event stream.
\<close>

end
